(* ===== verification/Prelude.thy ===== *)
theory Prelude
  imports Complex_Main
begin

text \<open>
  Shared vocabulary of the development.

  A Python call that may raise is a value of the sum type \<open>'e + 'a\<close>: \<open>Inl\<close> carries the
  exception, \<open>Inr\<close> the result. \<open>and_then\<close> is the sequencing of two statements (the second
  does not run when the first raises), \<open>ensure\<close> is a guard that raises, \<open>traverse\<close> is a loop
  over a list whose body may raise. \<open>row_of\<close> and \<open>select_one\<close> are the two ways the
  repositories look a row up.
\<close>

named_theorems row_simps \<open>equations that evaluate look-ups in a table\<close>
named_theorems outcome_simps \<open>equations that evaluate statements which may raise\<close>

section \<open>Statements that may raise\<close>

definition and_then :: "'e + 'a \<Rightarrow> ('a \<Rightarrow> 'e + 'b) \<Rightarrow> 'e + 'b" where
  "and_then r f = (case r of Inl e \<Rightarrow> Inl e | Inr x \<Rightarrow> f x)"

definition ensure :: "bool \<Rightarrow> 'e \<Rightarrow> 'e + unit" where
  "ensure b e = (if b then Inr () else Inl e)"

fun traverse :: "('a \<Rightarrow> 'e + 'b) \<Rightarrow> 'a list \<Rightarrow> 'e + 'b list" where
  "traverse f [] = Inr []"
| "traverse f (x # xs) = and_then (f x) (\<lambda>y. and_then (traverse f xs) (\<lambda>ys. Inr (y # ys)))"

lemma and_then_Inl [simp, outcome_simps]: "and_then (Inl e) f = Inl e"
  by (simp add: and_then_def)

lemma and_then_Inr [simp, outcome_simps]: "and_then (Inr x) f = f x"
  by (simp add: and_then_def)

lemma and_then_eq_Inr [simp]: "and_then r f = Inr y \<longleftrightarrow> (\<exists>x. r = Inr x \<and> f x = Inr y)"
  by (cases r) auto

lemma and_then_eq_Inl: "and_then r f = Inl e \<longleftrightarrow> r = Inl e \<or> (\<exists>x. r = Inr x \<and> f x = Inl e)"
  by (cases r) auto

lemma and_then_assoc: "and_then (and_then r f) g = and_then r (\<lambda>x. and_then (f x) g)"
  by (cases r) auto

lemma and_then_cong [fundef_cong]:
  "r = r' \<Longrightarrow> (\<And>x. r' = Inr x \<Longrightarrow> f x = f' x) \<Longrightarrow> and_then r f = and_then r' f'"
  by (cases r') auto

text \<open>For evaluation: the continuation is simplified only once its argument is known.\<close>

lemma and_then_weak_cong: "r = r' \<Longrightarrow> and_then r f = and_then r' f"
  by simp

lemma ensure_True [simp, outcome_simps]: "ensure True e = Inr ()"
  by (simp add: ensure_def)

lemma ensure_False [simp, outcome_simps]: "ensure False e = Inl e"
  by (simp add: ensure_def)

lemma ensure_eq_Inr [simp]: "ensure b e = Inr u \<longleftrightarrow> b"
  by (simp add: ensure_def)

lemma ensure_eq_Inl [simp]: "ensure b e = Inl e' \<longleftrightarrow> \<not> b \<and> e' = e"
  by (auto simp: ensure_def)

lemma traverse_eq_Inr: "traverse f xs = Inr ys \<longleftrightarrow> list_all2 (\<lambda>x y. f x = Inr y) xs ys"
proof (induction xs arbitrary: ys)
  case Nil
  then show ?case by auto
next
  case (Cons x xs)
  then show ?case by (cases ys) (auto simp: list_all2_Cons1)
qed

section \<open>Rows of a table\<close>

definition row_of :: "('r \<Rightarrow> 'k) \<Rightarrow> 'k \<Rightarrow> 'r list \<Rightarrow> 'r option" where
  "row_of key k rows = List.find (\<lambda>r. key r = k) rows"

text \<open>
  \<open>Result.scalar_one_or_none\<close> on the rows that satisfy a \<open>WHERE\<close> clause: no row, one row, or
  the exception \<open>many\<close> where two rows match.
\<close>

definition select_one :: "'e \<Rightarrow> ('r \<Rightarrow> bool) \<Rightarrow> 'r list \<Rightarrow> 'e + 'r option" where
  "select_one many P rows =
     (case filter P rows of [] \<Rightarrow> Inr None | [r] \<Rightarrow> Inr (Some r) | _ # _ # _ \<Rightarrow> Inl many)"

lemma row_of_Nil [simp, row_simps]: "row_of key k [] = None"
  by (simp add: row_of_def)

lemma row_of_Cons [row_simps]:
  "row_of key k (r # rows) = (if key r = k then Some r else row_of key k rows)"
  by (simp add: row_of_def)

lemma row_of_append [row_simps]:
  "row_of key k (rows @ rows') = (case row_of key k rows of None \<Rightarrow> row_of key k rows' | Some r \<Rightarrow> Some r)"
  by (induction rows) (auto simp: row_of_Cons)

lemma row_of_SomeD: "row_of key k rows = Some r \<Longrightarrow> r \<in> set rows \<and> key r = k"
  by (induction rows) (auto simp: row_of_Cons split: if_splits)

lemma row_of_None_iff: "row_of key k rows = None \<longleftrightarrow> k \<notin> key ` set rows"
  by (induction rows) (auto simp: row_of_Cons)

lemma row_of_self: "distinct (map key rows) \<Longrightarrow> r \<in> set rows \<Longrightarrow> row_of key (key r) rows = Some r"
  by (induction rows) (auto simp: row_of_Cons rev_image_eqI)

lemma select_one_SomeD: "select_one many P rows = Inr (Some r) \<Longrightarrow> r \<in> set rows \<and> P r"
proof -
  assume "select_one many P rows = Inr (Some r)"
  then have "filter P rows = [r]" by (auto simp: select_one_def split: list.splits)
  then have "r \<in> set (filter P rows)" by simp
  then show ?thesis by simp
qed

lemma select_one_NoneD: "select_one many P rows = Inr None \<Longrightarrow> r \<in> set rows \<Longrightarrow> \<not> P r"
  by (auto simp: select_one_def filter_empty_conv split: list.splits)

lemma select_one_None_iff: "select_one many P rows = Inr None \<longleftrightarrow> (\<forall>r\<in>set rows. \<not> P r)"
proof -
  have "select_one many P rows = Inr None \<longleftrightarrow> filter P rows = []"
    by (simp add: select_one_def split: list.splits)
  then show ?thesis by (simp add: filter_empty_conv)
qed

text \<open>Where the key is unique, the query by key is the look-up.\<close>

lemma select_one_key:
  "distinct (map key rows) \<Longrightarrow> select_one many (\<lambda>r. key r = k) rows = Inr (row_of key k rows)"
proof (induction rows)
  case Nil
  then show ?case by (simp add: select_one_def)
next
  case (Cons r rows)
  show ?case
  proof (cases "key r = k")
    case True
    with Cons.prems have "filter (\<lambda>r. key r = k) rows = []"
      by (auto simp: filter_empty_conv) (metis imageI)
    with True show ?thesis by (simp add: select_one_def row_of_Cons)
  next
    case False
    with Cons show ?thesis by (simp add: select_one_def row_of_Cons)
  qed
qed

lemma select_one_key_Some: "select_one many (\<lambda>r. key r = k) rows = Inr v \<Longrightarrow> v = row_of key k rows"
proof (induction rows)
  case Nil
  then show ?case by (simp add: select_one_def)
next
  case (Cons r rows)
  show ?case
  proof (cases "key r = k")
    case True
    with Cons.prems show ?thesis by (auto simp: select_one_def row_of_Cons split: list.splits)
  next
    case False
    with Cons show ?thesis by (simp add: select_one_def row_of_Cons)
  qed
qed

section \<open>Sums over the rows of a table\<close>

lemma sum_list_keys:
  assumes "distinct (map key rows)"
  shows "sum_list (map f rows) = (\<Sum>k\<in>key ` set rows. f (the (row_of key k rows)))"
proof -
  have "sum_list (map f rows) = (\<Sum>r\<in>set rows. f r)"
    using assms by (simp add: distinct_map sum_list_distinct_conv_sum_set)
  also have "\<dots> = (\<Sum>r\<in>set rows. f (the (row_of key (key r) rows)))"
    using assms by (intro sum.cong) (auto simp: row_of_self)
  also have "\<dots> = (\<Sum>k\<in>key ` set rows. f (the (row_of key k rows)))"
    using assms by (simp add: sum.reindex distinct_map)
  finally show ?thesis .
qed

end
