(* ===== verification/Enums.thy ===== *)
theory Enums
  imports Prelude
begin

text \<open>
  The enumerations of \<open>app/domain/enums.py\<close> and the exceptions of
  \<open>app/domain/exceptions.py\<close>.

  Identifiers (UUID) are represented by their canonical text, so \<open>str(uuid)\<close> is the value
  itself; points in time (timezone-aware \<open>datetime\<close>) by their distance to the epoch in microseconds, the
  resolution of \<open>datetime\<close> and of the \<open>TIMESTAMPTZ\<close> columns.
  \<open>REJECTED\<close> and \<open>CANCELLED\<close> alone are order statuses; the broker event types of the same
  name are written \<open>broker_event_type.REJECTED\<close> and \<open>broker_event_type.CANCELLED\<close>.
\<close>

type_synonym uuid = string
type_synonym timestamp = int

datatype order_side = BUY | SELL

datatype order_type = MARKET | LIMIT

datatype time_in_force = DAY | GTC | IOC

datatype broker_event_type = FULL_FILL | PARTIAL_FILL | REJECTED | CANCELLED

datatype order_status =
    NEW | VALIDATED | ROUTED | PARTIALLY_FILLED | FILLED | REJECTED | CANCEL_PENDING | CANCELLED

datatype order_event_type =
    ORDER_CREATED | ORDER_VALIDATED | VALIDATION_FAILED | ORDER_ROUTED | PARTIAL_FILL_RECEIVED
  | FULL_FILL_RECEIVED | CANCEL_REQUESTED | ORDER_CANCELLED | ORDER_REJECTED | BROKER_EVENT_IGNORED

text \<open>The string value of a member, which f-strings and \<open>.value\<close> render.\<close>

fun status_value :: "order_status \<Rightarrow> string" where
  "status_value NEW = ''NEW''"
| "status_value VALIDATED = ''VALIDATED''"
| "status_value ROUTED = ''ROUTED''"
| "status_value PARTIALLY_FILLED = ''PARTIALLY_FILLED''"
| "status_value FILLED = ''FILLED''"
| "status_value REJECTED = ''REJECTED''"
| "status_value CANCEL_PENDING = ''CANCEL_PENDING''"
| "status_value CANCELLED = ''CANCELLED''"

fun broker_event_type_value :: "broker_event_type \<Rightarrow> string" where
  "broker_event_type_value FULL_FILL = ''FULL_FILL''"
| "broker_event_type_value PARTIAL_FILL = ''PARTIAL_FILL''"
| "broker_event_type_value broker_event_type.REJECTED = ''REJECTED''"
| "broker_event_type_value broker_event_type.CANCELLED = ''CANCELLED''"

text \<open>The members of \<open>OrderStatus\<close> can be enumerated, so statements about all statuses compute.\<close>

instantiation order_status :: enum
begin

definition enum_order_status :: "order_status list" where
  "enum_order_status =
     [NEW, VALIDATED, ROUTED, PARTIALLY_FILLED, FILLED, REJECTED, CANCEL_PENDING, CANCELLED]"

definition enum_all_order_status :: "(order_status \<Rightarrow> bool) \<Rightarrow> bool" where
  "enum_all_order_status P \<longleftrightarrow> list_all P enum_class.enum"

definition enum_ex_order_status :: "(order_status \<Rightarrow> bool) \<Rightarrow> bool" where
  "enum_ex_order_status P \<longleftrightarrow> list_ex P enum_class.enum"

instance
proof
  show univ: "(UNIV :: order_status set) = set enum_class.enum"
  proof
    show "UNIV \<subseteq> set (enum_class.enum :: order_status list)"
    proof
      fix x :: order_status
      show "x \<in> set enum_class.enum" by (cases x) (simp_all add: enum_order_status_def)
    qed
  qed simp
  show "distinct (enum_class.enum :: order_status list)"
    by (simp add: enum_order_status_def)
  show "enum_class.enum_all P \<longleftrightarrow> Ball UNIV P" for P :: "order_status \<Rightarrow> bool"
    by (simp add: univ enum_all_order_status_def list_all_iff)
  show "enum_class.enum_ex P \<longleftrightarrow> Bex UNIV P" for P :: "order_status \<Rightarrow> bool"
    by (simp add: univ enum_ex_order_status_def list_ex_iff)
qed

end

section \<open>Exceptions\<close>

text \<open>
  The domain errors with the data their messages are built from, then the exceptions of the
  libraries that the services let pass: a decimal signal (division by zero), a violated
  database constraint with its name, a value the column type refuses, and a query for one row
  that finds several.
\<close>

datatype oms_error =
    OrderNotFound uuid
  | AccountNotFound uuid
  | InvalidStateTransition order_status order_status
  | InsufficientBuyingPower
  | DuplicateOrder string
  | DuplicateAccount string
  | InvalidCancellation string
  | InvalidFill string
  | BrokerUnavailable
  | DecimalSignal
  | IntegrityError string
  | DataError
  | MultipleResultsFound
  | BrokerFailure string

text \<open>\<open>str(exc)\<close> of the domain errors.\<close>

fun message :: "oms_error \<Rightarrow> string" where
  "message (OrderNotFound oid) = ''Order '' @ oid @ '' was not found''"
| "message (AccountNotFound aid) = ''Account '' @ aid @ '' was not found''"
| "message (InvalidStateTransition current target) =
     ''Order cannot transition from '' @ status_value current @ '' to '' @ status_value target"
| "message InsufficientBuyingPower = ''Insufficient buying power''"
| "message (DuplicateOrder cid) = ''Order '' @ cid @ '' already exists''"
| "message (DuplicateAccount uid) = ''Account for user '' @ uid @ '' already exists''"
| "message (InvalidCancellation reason) = reason"
| "message (InvalidFill reason) = reason"
| "message BrokerUnavailable = ''Broker is temporarily unavailable''"
| "message DecimalSignal = ''DivisionByZero''"
| "message (IntegrityError constraint) = constraint"
| "message DataError = ''DataError''"
| "message MultipleResultsFound = ''MultipleResultsFound''"
| "message (BrokerFailure text) = text"

text \<open>\<open>isinstance(exc, DomainError)\<close>.\<close>

fun is_domain_error :: "oms_error \<Rightarrow> bool" where
  "is_domain_error DecimalSignal = False"
| "is_domain_error (IntegrityError _) = False"
| "is_domain_error DataError = False"
| "is_domain_error MultipleResultsFound = False"
| "is_domain_error (BrokerFailure _) = False"
| "is_domain_error _ = True"

end
