(* ===== verification/Decimals.thy ===== *)
theory Decimals
  imports Prelude
begin

text \<open>
  Python's \<open>decimal\<close> arithmetic under the default context, by value.

  A \<open>Decimal\<close> is represented by the rational number it denotes. Every arithmetic operator
  computes the exact result and rounds it to 28 significant digits, half to even
  (\<open>prec28\<close>); comparisons, \<open>min\<close> and \<open>max\<close> are exact; division by zero raises. The
  exponent limits of the default context (999999) lie far outside the range of the columns
  the service stores its numbers in and are not modelled; NaN and infinities are refused by
  the request schemas and do not occur. Trailing zeros, which only affect how a Decimal is
  printed, are not represented.

  The lemmas: rounding is exact on every number with at most 28 significant digits, so on
  every multiple of \<open>10 ^ -8\<close> below \<open>10 ^ 20\<close> (\<open>prec28_on_grid\<close>), keeps signs, commutes
  with negation and has relative error at most \<open>5 * 10 ^ -28\<close>.
\<close>

section \<open>Rounding to the context precision\<close>

fun ndigits :: "nat \<Rightarrow> nat" where
  "ndigits n = (if n < 10 then 1 else Suc (ndigits (n div 10)))"
declare ndigits.simps [simp del]

definition adjusted :: "rat \<Rightarrow> int" where
  "adjusted x =
     (let (n, d) = quotient_of \<bar>x\<bar>;
          e = int (ndigits (nat n)) - int (ndigits (nat d))
      in if 10 powi e \<le> \<bar>x\<bar> then e else e - 1)"

definition round_half_even :: "rat \<Rightarrow> int" where
  "round_half_even x =
     (let f = \<lfloor>x\<rfloor>; r = x - of_int f
      in if r < 1 / 2 then f else if 1 / 2 < r then f + 1
         else if even f then f else f + 1)"

definition prec28 :: "rat \<Rightarrow> rat" where
  "prec28 x = (if x = 0 then 0
            else let q = 10 powi (adjusted x - 27) in of_int (round_half_even (x / q)) * q)"

text \<open>The operators.\<close>

definition dadd :: "rat \<Rightarrow> rat \<Rightarrow> rat" where
  "dadd x y = prec28 (x + y)"

definition dsub :: "rat \<Rightarrow> rat \<Rightarrow> rat" where
  "dsub x y = prec28 (x - y)"

definition dmul :: "rat \<Rightarrow> rat \<Rightarrow> rat" where
  "dmul x y = prec28 (x * y)"

definition dneg :: "rat \<Rightarrow> rat" where
  "dneg x = prec28 (- x)"

definition dabs :: "rat \<Rightarrow> rat" where
  "dabs x = prec28 \<bar>x\<bar>"

definition ddiv :: "'e \<Rightarrow> rat \<Rightarrow> rat \<Rightarrow> 'e + rat" where
  "ddiv division_by_zero x y = (if y = 0 then Inl division_by_zero else Inr (prec28 (x / y)))"

section \<open>The adjusted exponent\<close>

lemma ndigits_bounds: "0 < n \<Longrightarrow> 10 ^ (ndigits n - 1) \<le> n \<and> n < 10 ^ ndigits n"
proof (induction n rule: ndigits.induct)
  case (1 n)
  show ?case
  proof (cases "n < 10")
    case True
    with 1 show ?thesis by (simp add: ndigits.simps [of n])
  next
    case False
    with 1 have IH: "10 ^ (ndigits (n div 10) - 1) \<le> n div 10" "n div 10 < 10 ^ ndigits (n div 10)"
      by auto
    have pos: "0 < ndigits (n div 10)" by (subst ndigits.simps) simp
    from False have e: "ndigits n = Suc (ndigits (n div 10))" by (simp add: ndigits.simps [of n])
    obtain k where k: "ndigits (n div 10) = Suc k" using pos by (cases "ndigits (n div 10)") auto
    have "10 ^ k \<le> n div 10" "n div 10 < 10 * 10 ^ k" using IH by (simp_all add: k)
    then have "10 * 10 ^ k \<le> n" "n < 10 * (10 * 10 ^ k)" by linarith+
    then show ?thesis by (simp add: e k)
  qed
qed

lemma ndigits_pos [simp]: "0 < ndigits n"
  by (subst ndigits.simps) simp

lemma ndigits_rat_bounds:
  assumes "0 < n"
  shows "(10::rat) ^ (ndigits (nat n) - 1) \<le> of_int n \<and> of_int n < (10::rat) ^ ndigits (nat n)"
proof -
  from assms have "0 < nat n" by simp
  then have b: "10 ^ (ndigits (nat n) - 1) \<le> nat n" "nat n < 10 ^ ndigits (nat n)"
    using ndigits_bounds by blast+
  from b(1) have "of_nat (10 ^ (ndigits (nat n) - 1)) \<le> (of_nat (nat n) :: rat)"
    by (rule of_nat_mono)
  moreover from b(2) have "(of_nat (nat n) :: rat) < of_nat (10 ^ ndigits (nat n))"
    by (rule of_nat_less_iff [THEN iffD2])
  ultimately show ?thesis using assms by (simp add: of_nat_nat)
qed

lemma adjusted_bounds:
  assumes "x \<noteq> 0"
  shows "10 powi adjusted x \<le> \<bar>x\<bar>" and "\<bar>x\<bar> < 10 powi (adjusted x + 1)"
proof -
  obtain n d where q: "quotient_of \<bar>x\<bar> = (n, d)" by (cases "quotient_of \<bar>x\<bar>")
  from q have d: "0 < d" by (rule quotient_of_denom_pos)
  from q have x: "\<bar>x\<bar> = of_int n / of_int d" by (rule quotient_of_div)
  from assms have "0 < \<bar>x\<bar>" by simp
  with x d have n: "0 < n" by (simp add: zero_less_divide_iff)
  define a where "a = ndigits (nat n)"
  define b where "b = ndigits (nat d)"
  have nb: "(10::rat) ^ (a - 1) \<le> of_int n" "of_int n < (10::rat) ^ a"
    using ndigits_rat_bounds [OF n] by (simp_all add: a_def)
  have db: "(10::rat) ^ (b - 1) \<le> of_int d" "of_int d < (10::rat) ^ b"
    using ndigits_rat_bounds [OF d] by (simp_all add: b_def)
  define e where "e = int a - int b"
  have ap: "(10::rat) ^ a = 10 * 10 ^ (a - 1)" and bp: "(10::rat) ^ b = 10 * 10 ^ (b - 1)"
    by (simp_all add: a_def b_def flip: power_Suc)
  have pe: "(10::rat) powi e = 10 ^ a / 10 ^ b"
    by (simp add: e_def power_int_diff)
  have lo: "10 powi (e - 1) \<le> \<bar>x\<bar>"
  proof -
    have "10 powi (e - 1) = (10::rat) ^ (a - 1) / 10 ^ b"
      by (simp add: power_int_diff pe ap)
    also have "\<dots> \<le> of_int n / of_int d"
      using nb db n d by (intro frac_le) auto
    finally show ?thesis by (simp add: x)
  qed
  have hi: "\<bar>x\<bar> < 10 powi (e + 1)"
  proof -
    have "of_int n / of_int d < (10::rat) ^ a / 10 ^ (b - 1)"
      using nb db n d by (intro frac_less) auto
    also have "\<dots> = 10 powi (e + 1)"
      by (simp add: power_int_add pe bp)
    finally show ?thesis by (simp add: x)
  qed
  have adj: "adjusted x = (if 10 powi e \<le> \<bar>x\<bar> then e else e - 1)"
    by (simp add: adjusted_def q Let_def e_def a_def b_def)
  show "10 powi adjusted x \<le> \<bar>x\<bar>" "\<bar>x\<bar> < 10 powi (adjusted x + 1)"
    using lo hi by (auto simp: adj)
qed

lemma adjusted_less: "x \<noteq> 0 \<Longrightarrow> \<bar>x\<bar> < 10 powi k \<Longrightarrow> adjusted x < k"
  using adjusted_bounds(1) [of x] power_int_increasing [of k "adjusted x" "10::rat"]
  by (cases "adjusted x < k") auto

lemma adjusted_ge: "x \<noteq> 0 \<Longrightarrow> 10 powi k \<le> \<bar>x\<bar> \<Longrightarrow> k \<le> adjusted x"
  using adjusted_bounds(2) [of x] power_int_increasing [of "adjusted x + 1" k "10::rat"]
  by (cases "k \<le> adjusted x") auto

lemma round_half_even_of_int [simp]: "round_half_even (of_int n) = n"
  by (simp add: round_half_even_def)

lemma round_half_even_error: "\<bar>of_int (round_half_even x) - x\<bar> \<le> 1 / 2"
  unfolding round_half_even_def Let_def
  using of_int_floor_le [of x] by (auto simp: abs_if; linarith)

lemma round_half_even_minus: "round_half_even (- x) = - round_half_even x"
proof (cases "of_int \<lfloor>x\<rfloor> = x")
  case True
  then show ?thesis by (metis of_int_minus round_half_even_of_int)
next
  case False
  have f: "\<lfloor>- x\<rfloor> = - \<lfloor>x\<rfloor> - 1"
  proof (rule floor_unique)
    show "of_int (- \<lfloor>x\<rfloor> - 1) \<le> - x"
      using floor_correct [of x] by simp
    show "- x < of_int (- \<lfloor>x\<rfloor> - 1) + 1"
      using of_int_floor_le [of x] False by linarith
  qed
  show ?thesis unfolding round_half_even_def Let_def f by (auto; linarith)
qed

lemma round_half_even_mono: "x \<le> y \<Longrightarrow> round_half_even x \<le> round_half_even y"
proof (cases "\<lfloor>x\<rfloor> = \<lfloor>y\<rfloor>")
  case True
  then show "x \<le> y \<Longrightarrow> ?thesis" unfolding round_half_even_def Let_def by auto
next
  case False
  assume "x \<le> y"
  with False have "\<lfloor>x\<rfloor> + 1 \<le> \<lfloor>y\<rfloor>" using floor_mono [of x y] by linarith
  moreover have "round_half_even x \<le> \<lfloor>x\<rfloor> + 1" "\<lfloor>y\<rfloor> \<le> round_half_even y"
    unfolding round_half_even_def Let_def by auto
  ultimately show ?thesis by linarith
qed

section \<open>Properties of the rounding\<close>

lemma prec28_0 [simp]: "prec28 0 = 0"
  by (simp add: prec28_def)

lemma prec28_exact:
  assumes "\<bar>m\<bar> < 10 ^ 28"
  shows "prec28 (of_int m * 10 powi e) = of_int m * 10 powi e"
proof (cases "m = 0")
  case True
  then show ?thesis by simp
next
  case False
  let ?x = "of_int m * 10 powi e :: rat"
  from False have x: "?x \<noteq> 0" by simp
  have "(of_int \<bar>m\<bar> :: rat) < of_int (10 ^ 28)"
    using assms by (rule of_int_less_iff [THEN iffD2])
  then have m: "\<bar>of_int m :: rat\<bar> < 10 powi 28"
    by simp
  have "\<bar>?x\<bar> < 10 powi 28 * 10 powi e"
    using m by (simp add: abs_mult)
  also have "\<dots> = 10 powi (28 + e)"
    by (simp add: power_int_add)
  finally have "adjusted ?x < 28 + e"
    by (rule adjusted_less [OF x])
  then have k: "0 \<le> e - (adjusted ?x - 27)" by simp
  define j where "j = nat (e - (adjusted ?x - 27))"
  have "?x / 10 powi (adjusted ?x - 27) = of_int m * 10 powi (e - (adjusted ?x - 27))"
    by (simp add: power_int_diff)
  also have "\<dots> = of_int (m * 10 ^ j)"
    using k by (simp add: j_def power_int_def)
  finally have "?x / 10 powi (adjusted ?x - 27) = of_int (m * 10 ^ j)" .
  then show ?thesis
    using x by (simp only: prec28_def Let_def round_half_even_of_int if_False)
      (metis nonzero_eq_divide_eq power_int_eq_0_iff zero_neq_numeral)
qed

lemma prec28_minus: "prec28 (- x) = - prec28 x"
  by (simp add: prec28_def adjusted_def Let_def round_half_even_minus)

lemma prec28_error: "\<bar>prec28 x - x\<bar> \<le> 10 powi (adjusted x - 27) / 2"
proof (cases "x = 0")
  case False
  let ?q = "10 powi (adjusted x - 27) :: rat"
  have q: "0 < ?q" by simp
  have "prec28 x - x = (of_int (round_half_even (x / ?q)) - x / ?q) * ?q"
    using False by (simp add: prec28_def Let_def left_diff_distrib)
  then have "\<bar>prec28 x - x\<bar> = \<bar>of_int (round_half_even (x / ?q)) - x / ?q\<bar> * ?q"
    using q by (simp add: abs_mult)
  also have "\<dots> \<le> 1 / 2 * ?q"
    using round_half_even_error q by (intro mult_right_mono) auto
  finally show ?thesis by simp
qed simp

lemma prec28_rel_error: "\<bar>prec28 x - x\<bar> \<le> \<bar>x\<bar> * (5 / 10 ^ 28)"
proof (cases "x = 0")
  case False
  have "10 powi (adjusted x - 27) / 2 = 10 powi adjusted x * (5 / 10 ^ 28 :: rat)"
    by (simp add: power_int_diff)
  also have "\<dots> \<le> \<bar>x\<bar> * (5 / 10 ^ 28)"
    using adjusted_bounds(1) [OF False] by (intro mult_right_mono) auto
  finally show ?thesis using prec28_error [of x] by linarith
qed simp

lemma prec28_pos: "0 < x \<Longrightarrow> 0 < prec28 x"
proof -
  assume x: "0 < x"
  have "\<bar>prec28 x - x\<bar> \<le> x * (5 / 10 ^ 28)"
    using prec28_rel_error [of x] x by simp
  also have "\<dots> < x" using x by simp
  finally show ?thesis by linarith
qed

lemma prec28_neg: "x < 0 \<Longrightarrow> prec28 x < 0"
  using prec28_pos [of "- x"] by (simp add: prec28_minus)

lemma prec28_sign [simp]:
  "0 < prec28 x \<longleftrightarrow> 0 < x" "prec28 x < 0 \<longleftrightarrow> x < 0" "prec28 x = 0 \<longleftrightarrow> x = 0"
  "0 \<le> prec28 x \<longleftrightarrow> 0 \<le> x" "prec28 x \<le> 0 \<longleftrightarrow> x \<le> 0"
  by (cases "x = 0"; cases "0 < x"; use prec28_pos [of x] prec28_neg [of x] in \<open>auto simp: not_less le_less\<close>)+

section \<open>Multiples of a power of ten\<close>

text \<open>\<open>on_grid k x\<close>: at most \<open>k\<close> digits after the decimal point.\<close>

definition on_grid :: "nat \<Rightarrow> rat \<Rightarrow> bool" where
  "on_grid k x \<longleftrightarrow> of_int \<lfloor>x * 10 ^ k\<rfloor> = x * 10 ^ k"

lemma on_gridI: "x = of_int n / 10 ^ k \<Longrightarrow> on_grid k x"
  by (simp add: on_grid_def)

lemma on_gridE:
  assumes "on_grid k x"
  obtains n where "x = of_int n / 10 ^ k"
  using assms by (auto simp: on_grid_def field_simps intro: that)

lemma on_grid_0 [simp]: "on_grid k 0"
  by (simp add: on_grid_def)

lemma on_grid_add: "on_grid k x \<Longrightarrow> on_grid k y \<Longrightarrow> on_grid k (x + y)"
  by (elim on_gridE) (auto intro!: on_gridI [of _ "_ + _"] simp: add_divide_distrib)

lemma on_grid_minus: "on_grid k x \<Longrightarrow> on_grid k (- x)"
  by (elim on_gridE) (auto intro!: on_gridI [of _ "- _"])

lemma on_grid_diff: "on_grid k x \<Longrightarrow> on_grid k y \<Longrightarrow> on_grid k (x - y)"
  using on_grid_add [of k x "- y"] on_grid_minus [of k y] by simp

lemma on_grid_mult: "on_grid k x \<Longrightarrow> on_grid l y \<Longrightarrow> on_grid (k + l) (x * y)"
  by (elim on_gridE) (auto intro!: on_gridI [of _ "_ * _"] simp: power_add)

lemma on_grid_mono: "on_grid k x \<Longrightarrow> k \<le> l \<Longrightarrow> on_grid l x"
proof (elim on_gridE)
  fix n assume "k \<le> l" and x: "x = of_int n / 10 ^ k"
  then have "(10::rat) ^ l = 10 ^ k * 10 ^ (l - k)" by (simp flip: power_add)
  with x have "x = of_int (n * 10 ^ (l - k)) / 10 ^ l" by simp
  then show ?thesis by (rule on_gridI)
qed

lemma prec28_on_grid:
  assumes "on_grid k x" and "\<bar>x\<bar> * 10 ^ k < 10 ^ 28"
  shows "prec28 x = x"
proof -
  from assms(1) obtain n where x: "x = of_int n / 10 ^ k" by (rule on_gridE)
  have "\<bar>of_int n :: rat\<bar> < 10 ^ 28" using assms(2) by (simp add: x)
  then have "of_int \<bar>n\<bar> < (of_int (10 ^ 28) :: rat)" by simp
  then have "\<bar>n\<bar> < 10 ^ 28" by (rule of_int_less_iff [THEN iffD1])
  then have "prec28 (of_int n * 10 powi (- int k)) = of_int n * 10 powi (- int k)"
    by (rule prec28_exact)
  moreover have "x = of_int n * 10 powi (- int k)"
    by (simp add: x power_int_minus divide_inverse)
  ultimately show ?thesis by simp
qed

lemma on_grid_of_int [simp]: "on_grid k (of_int n)"
  by (rule on_gridI [of _ "n * 10 ^ k"]) simp

lemma on_grid_numeral [simp]: "on_grid k (numeral n)"
  using on_grid_of_int [of k "numeral n"] by simp

lemma on_grid_1 [simp]: "on_grid k 1"
  using on_grid_of_int [of k 1] by simp

text \<open>Numbers with 8 decimals below \<open>10 ^ 20\<close>: all sums the service computes.\<close>

lemma prec28_cents: "on_grid 8 x \<Longrightarrow> \<bar>x\<bar> < 10 ^ 20 \<Longrightarrow> prec28 x = x"
  by (rule prec28_on_grid) auto

lemma dadd_cents: "on_grid 8 x \<Longrightarrow> on_grid 8 y \<Longrightarrow> \<bar>x + y\<bar> < 10 ^ 20 \<Longrightarrow> dadd x y = x + y"
  by (simp add: dadd_def prec28_cents on_grid_add)

lemma dsub_cents: "on_grid 8 x \<Longrightarrow> on_grid 8 y \<Longrightarrow> \<bar>x - y\<bar> < 10 ^ 20 \<Longrightarrow> dsub x y = x - y"
  by (simp add: dsub_def prec28_cents on_grid_diff)

lemma dmul_cents: "on_grid 8 (x * y) \<Longrightarrow> \<bar>x * y\<bar> < 10 ^ 20 \<Longrightarrow> dmul x y = x * y"
  by (simp add: dmul_def prec28_cents)

lemma dabs_cents: "on_grid 8 x \<Longrightarrow> \<bar>x\<bar> < 10 ^ 20 \<Longrightarrow> dabs x = \<bar>x\<bar>"
  using on_grid_minus [of 8 x] by (auto simp: dabs_def abs_if intro!: prec28_cents)

lemma dneg_cents: "on_grid 8 x \<Longrightarrow> \<bar>x\<bar> < 10 ^ 20 \<Longrightarrow> dneg x = - x"
  by (simp add: dneg_def prec28_cents on_grid_minus)

text \<open>Evaluation of concrete numbers.\<close>

lemma prec28_numeral [simp]: "(numeral n :: rat) < 10 ^ 20 \<Longrightarrow> prec28 (numeral n) = numeral n"
  by (rule prec28_cents) auto

lemma prec28_1 [simp]: "prec28 1 = 1"
  by (rule prec28_cents) auto

lemma prec28_neg_numeral [simp]: "(numeral n :: rat) < 10 ^ 20 \<Longrightarrow> prec28 (- numeral n) = - numeral n"
  by (simp add: prec28_minus)

lemma on_grid_fraction:
  assumes "(numeral b :: int) dvd numeral a * 10 ^ k"
  shows "on_grid k (numeral a / numeral b)"
proof -
  from assms obtain n where "numeral a * 10 ^ k = (numeral b :: int) * n" ..
  then have "of_int (numeral a * 10 ^ k) = (of_int (numeral b * n) :: rat)" by simp
  then show ?thesis by (intro on_gridI [of _ n]) (simp add: field_simps)
qed

lemma prec28_fraction [simp]:
  assumes "(numeral b :: int) dvd numeral a * 10 ^ 8" and "(numeral a :: rat) < 10 ^ 20"
  shows "prec28 (numeral a / numeral b) = numeral a / numeral b"
proof (rule prec28_cents)
  show "on_grid 8 (numeral a / numeral b)" using assms(1) by (rule on_grid_fraction)
  have "(numeral a / numeral b :: rat) \<le> numeral a / 1"
    by (rule divide_left_mono) auto
  then have "(numeral a / numeral b :: rat) < 10 ^ 20" using assms(2) by linarith
  then show "\<bar>numeral a / numeral b :: rat\<bar> < 10 ^ 20" by (simp only: abs_numeral abs_divide)
qed

end
