(* ===== verification/Columns.thy ===== *)
theory Columns
  imports Enums Decimals
begin

text \<open>
  What the code relies on from outside the repository, as one record of parameters.

  The database decides how a value is fitted into a column: \<open>NUMERIC(24, 8)\<close> rounds to 8
  decimals and refuses numbers from \<open>10 ^ 16\<close> on, \<open>VARCHAR(n)\<close> refuses longer strings. Both are
  parameters of the model (\<open>numeric\<close>, \<open>varchar\<close>; \<open>None\<close> is the error the driver raises); the
  locale \<open>column_types\<close> states what their documentation promises and \<open>pg_numeric\<close>,
  \<open>pg_varchar\<close> are the concrete functions witnesses use. The clock, the identifiers drawn
  by \<open>uuid4\<close> and the configured lifetime of DAY orders (\<open>app/config.py\<close>) are parameters too.
\<close>

record env =
  numeric :: "rat \<Rightarrow> rat option"
  varchar :: "nat \<Rightarrow> string \<Rightarrow> string option"
  now :: timestamp
  new_uuid :: uuid
  day_order_expiry_seconds :: int

locale column_types =
  fixes num :: "rat \<Rightarrow> rat option"
    and fit :: "nat \<Rightarrow> string \<Rightarrow> string option"
  assumes num_exact: "on_grid 8 x \<Longrightarrow> \<bar>x\<bar> < 10 ^ 16 \<Longrightarrow> num x = Some x"
    and num_grid: "num x = Some y \<Longrightarrow> on_grid 8 y \<and> \<bar>y\<bar> < 10 ^ 16"
    and num_near: "num x = Some y \<Longrightarrow> \<bar>y - x\<bar> \<le> 1 / (2 * 10 ^ 8)"
    and num_mono: "num x = Some y \<Longrightarrow> num x' = Some y' \<Longrightarrow> x \<le> x' \<Longrightarrow> y \<le> y'"
    and txt_fits: "length s \<le> n \<Longrightarrow> fit n s = Some s"
    and txt_length: "fit n s = Some t \<Longrightarrow> length t \<le> n"
begin

lemma num_idem: "num x = Some y \<Longrightarrow> num y = Some y"
  using num_grid num_exact by blast

lemma txt_idem: "fit n s = Some t \<Longrightarrow> fit n t = Some t"
  using txt_length txt_fits by blast

lemma num_0 [simp]: "num 0 = Some 0"
  by (rule num_exact) auto

lemma num_nonneg: "num x = Some y \<Longrightarrow> 0 \<le> x \<Longrightarrow> 0 \<le> y"
  using num_mono [of 0 0 x y] by simp

lemma num_on_grid: "num x = Some y \<Longrightarrow> on_grid 8 x \<Longrightarrow> \<bar>x\<bar> < 10 ^ 16 \<Longrightarrow> y = x"
  using num_exact by simp

end

text \<open>The documented behaviour of PostgreSQL, as concrete functions.\<close>

definition round_half_away :: "rat \<Rightarrow> int" where
  "round_half_away x = (if 0 \<le> x then \<lfloor>x + 1 / 2\<rfloor> else - \<lfloor>1 / 2 - x\<rfloor>)"

definition pg_numeric :: "rat \<Rightarrow> rat option" where
  "pg_numeric x =
     (let n = round_half_away (x * 10 ^ 8)
      in if \<bar>n\<bar> < 10 ^ 24 then Some (of_int n / 10 ^ 8) else None)"

definition pg_varchar :: "nat \<Rightarrow> string \<Rightarrow> string option" where
  "pg_varchar n s = (if length s \<le> n then Some s else None)"

lemma round_half_away_of_int [simp]: "round_half_away (of_int n) = n"
proof (cases "0 \<le> n")
  case True
  have "\<lfloor>of_int n + 1 / 2 :: rat\<rfloor> = n" by (rule floor_unique) auto
  with True show ?thesis by (simp add: round_half_away_def)
next
  case False
  have "\<lfloor>1 / 2 - of_int n :: rat\<rfloor> = - n" by (rule floor_unique) auto
  with False show ?thesis by (simp add: round_half_away_def)
qed

lemma round_half_away_near: "\<bar>of_int (round_half_away x) - x\<bar> \<le> 1 / 2"
proof (cases "0 \<le> x")
  case True
  from floor_correct [of "x + 1 / 2"] show ?thesis
    unfolding abs_le_iff by (simp add: round_half_away_def True) linarith
next
  case False
  from floor_correct [of "1 / 2 - x"] show ?thesis
    unfolding abs_le_iff by (simp add: round_half_away_def False) linarith
qed

lemma round_half_away_mono: "x \<le> y \<Longrightarrow> round_half_away x \<le> round_half_away y"
proof (cases "0 \<le> x \<or> y < 0")
  case True
  assume "x \<le> y"
  with True show ?thesis by (auto simp: round_half_away_def intro: floor_mono)
next
  case False
  then have "0 \<le> \<lfloor>1 / 2 - x\<rfloor>" "0 \<le> \<lfloor>y + 1 / 2\<rfloor>" by (simp_all add: le_floor_iff)
  moreover have "round_half_away x = - \<lfloor>1 / 2 - x\<rfloor>" "round_half_away y = \<lfloor>y + 1 / 2\<rfloor>"
    using False by (auto simp: round_half_away_def)
  ultimately show ?thesis by linarith
qed

interpretation pg: column_types pg_numeric pg_varchar
proof
  fix x y x' y' :: rat
  show "pg_numeric x = Some x" if g: "on_grid 8 x" and b: "\<bar>x\<bar> < 10 ^ 16"
  proof -
    from g obtain n where x: "x = of_int n / 10 ^ 8" by (rule on_gridE)
    then have "x * 10 ^ 8 = of_int n" by simp
    then have r: "round_half_away (x * 10 ^ 8) = n" by (simp only: round_half_away_of_int)
    have "\<bar>of_int n :: rat\<bar> < 10 ^ 24" using b by (simp add: x)
    then have "of_int \<bar>n\<bar> < (of_int (10 ^ 24) :: rat)" by simp
    then have "\<bar>n\<bar> < 10 ^ 24" by (rule of_int_less_iff [THEN iffD1])
    then show ?thesis unfolding pg_numeric_def r Let_def by (simp add: x)
  qed
  show "on_grid 8 y \<and> \<bar>y\<bar> < 10 ^ 16" if "pg_numeric x = Some y"
  proof -
    from that obtain n where n: "\<bar>n\<bar> < 10 ^ 24" "y = of_int n / 10 ^ 8"
      by (auto simp: pg_numeric_def Let_def split: if_splits)
    have "of_int \<bar>n\<bar> < (of_int (10 ^ 24) :: rat)" using n(1) by (rule of_int_less_iff [THEN iffD2])
    then have "\<bar>y\<bar> < 10 ^ 16" by (simp add: n(2))
    with n(2) show ?thesis by (auto intro: on_gridI)
  qed
  show "\<bar>y - x\<bar> \<le> 1 / (2 * 10 ^ 8)" if "pg_numeric x = Some y"
  proof -
    from that have y: "y * 10 ^ 8 = of_int (round_half_away (x * 10 ^ 8))"
      by (auto simp: pg_numeric_def Let_def split: if_splits)
    have "\<bar>y - x\<bar> * 10 ^ 8 = \<bar>y * 10 ^ 8 - x * 10 ^ 8\<bar>"
      by (simp only: left_diff_distrib [symmetric] abs_mult) simp
    also have "\<dots> \<le> 1 / 2" unfolding y by (rule round_half_away_near)
    finally show ?thesis by simp
  qed
  show "y \<le> y'" if "pg_numeric x = Some y" "pg_numeric x' = Some y'" "x \<le> x'"
    using that round_half_away_mono [of "x * 10 ^ 8" "x' * 10 ^ 8"]
    by (auto simp: pg_numeric_def Let_def divide_right_mono split: if_splits)
next
  fix n :: nat and s t :: string
  show "pg_varchar n s = Some s" if "length s \<le> n" using that by (simp add: pg_varchar_def)
  show "length t \<le> n" if "pg_varchar n s = Some t"
    using that by (auto simp: pg_varchar_def split: if_splits)
qed

section \<open>Assigning to a column\<close>

definition store_numeric :: "env \<Rightarrow> rat \<Rightarrow> oms_error + rat" where
  "store_numeric e x = (case numeric e x of None \<Rightarrow> Inl DataError | Some y \<Rightarrow> Inr y)"

definition store_varchar :: "env \<Rightarrow> nat \<Rightarrow> string \<Rightarrow> oms_error + string" where
  "store_varchar e n s = (case varchar e n s of None \<Rightarrow> Inl DataError | Some t \<Rightarrow> Inr t)"

text \<open>A nullable column.\<close>

definition nullable :: "('a \<Rightarrow> oms_error + 'a) \<Rightarrow> 'a option \<Rightarrow> oms_error + 'a option" where
  "nullable store v =
     (case v of None \<Rightarrow> Inr None | Some x \<Rightarrow> and_then (store x) (\<lambda>y. Inr (Some y)))"

definition check_constraint :: "string \<Rightarrow> bool \<Rightarrow> oms_error + unit" where
  "check_constraint name b = ensure b (IntegrityError name)"

lemma store_numeric_eq_Inr [simp]: "store_numeric e x = Inr y \<longleftrightarrow> numeric e x = Some y"
  by (simp add: store_numeric_def split: option.splits)

lemma store_varchar_eq_Inr [simp]: "store_varchar e n s = Inr t \<longleftrightarrow> varchar e n s = Some t"
  by (simp add: store_varchar_def split: option.splits)

lemma check_constraint_eq_Inr [simp]: "check_constraint name b = Inr u \<longleftrightarrow> b"
  by (simp add: check_constraint_def)

lemma nullable_None [simp]: "nullable store None = Inr None"
  by (simp add: nullable_def)

lemma nullable_Some [simp]: "nullable store (Some x) = and_then (store x) (\<lambda>y. Inr (Some y))"
  by (simp add: nullable_def)

lemma nullable_eq_Inr:
  "nullable store v = Inr w \<longleftrightarrow>
     (v = None \<and> w = None) \<or> (\<exists>x y. v = Some x \<and> w = Some y \<and> store x = Inr y)"
  by (cases v) auto

text \<open>The environment's columns behave as documented.\<close>

definition documented :: "env \<Rightarrow> bool" where
  "documented e \<longleftrightarrow> column_types (numeric e) (varchar e)"

definition pg_env :: "timestamp \<Rightarrow> uuid \<Rightarrow> env" where
  "pg_env t u =
     \<lparr>numeric = pg_numeric, varchar = pg_varchar, now = t, new_uuid = u,
      day_order_expiry_seconds = 300\<rparr>"

lemma documented_pg [simp]: "documented (pg_env t u)"
  by (simp add: documented_def pg_env_def pg.column_types_axioms)

lemma documented_idem:
  assumes "documented e"
  shows "numeric e x = Some y \<Longrightarrow> numeric e y = Some y" "varchar e n s = Some t \<Longrightarrow> varchar e n t = Some t"
  using assms column_types.num_idem column_types.txt_idem unfolding documented_def by blast+

end
