(* ===== verification/State_Machine.thy ===== *)
theory State_Machine
  imports Enums
begin

text \<open>
  The order state machine of \<open>app/domain/order_state_machine.py\<close>: the transition table, the
  three status sets and the guard every status change goes through. The lemmas: terminal
  statuses are exactly those without successor, the machine has no cycle (\<open>stage\<close> grows with
  every transition, so an order changes its status at most five times), and the table agrees
  with the status sets.
\<close>

fun ALLOWED_TRANSITIONS :: "order_status \<Rightarrow> order_status set" where
  "ALLOWED_TRANSITIONS NEW = {VALIDATED, REJECTED}"
| "ALLOWED_TRANSITIONS VALIDATED = {ROUTED, REJECTED, CANCEL_PENDING}"
| "ALLOWED_TRANSITIONS ROUTED = {PARTIALLY_FILLED, FILLED, REJECTED, CANCEL_PENDING, CANCELLED}"
| "ALLOWED_TRANSITIONS PARTIALLY_FILLED = {FILLED, CANCEL_PENDING, CANCELLED}"
| "ALLOWED_TRANSITIONS CANCEL_PENDING = {FILLED, CANCELLED}"
| "ALLOWED_TRANSITIONS FILLED = {}"
| "ALLOWED_TRANSITIONS REJECTED = {}"
| "ALLOWED_TRANSITIONS CANCELLED = {}"

definition OPEN_ORDER_STATUSES :: "order_status set" where
  "OPEN_ORDER_STATUSES = {VALIDATED, ROUTED, PARTIALLY_FILLED, CANCEL_PENDING}"

definition CANCELLABLE_ORDER_STATUSES :: "order_status set" where
  "CANCELLABLE_ORDER_STATUSES = {VALIDATED, ROUTED, PARTIALLY_FILLED}"

definition TERMINAL_ORDER_STATUSES :: "order_status set" where
  "TERMINAL_ORDER_STATUSES = {FILLED, REJECTED, CANCELLED}"

definition ensure_transition_allowed :: "order_status \<Rightarrow> order_status \<Rightarrow> oms_error + unit" where
  "ensure_transition_allowed current target =
     ensure (target \<in> ALLOWED_TRANSITIONS current) (InvalidStateTransition current target)"

lemmas status_sets = OPEN_ORDER_STATUSES_def CANCELLABLE_ORDER_STATUSES_def TERMINAL_ORDER_STATUSES_def

lemma ensure_transition_eq_Inr [simp]:
  "ensure_transition_allowed cur tgt = Inr u \<longleftrightarrow> tgt \<in> ALLOWED_TRANSITIONS cur"
  by (simp add: ensure_transition_allowed_def)

lemma ensure_transition_eq_Inl:
  "ensure_transition_allowed cur tgt = Inl e \<longleftrightarrow>
     tgt \<notin> ALLOWED_TRANSITIONS cur \<and> e = InvalidStateTransition cur tgt"
  by (auto simp: ensure_transition_allowed_def)

section \<open>One status change as a step relation\<close>

inductive status_step :: "order_status \<Rightarrow> order_status \<Rightarrow> bool" where
  allowed: "ensure_transition_allowed s t = Inr () \<Longrightarrow> status_step s t"

inductive_simps status_step_iff: "status_step s t"
inductive_cases status_stepE: "status_step s t"

text \<open>How far along its life an order is; grows with every transition.\<close>

fun stage :: "order_status \<Rightarrow> nat" where
  "stage NEW = 0"
| "stage VALIDATED = 1"
| "stage ROUTED = 2"
| "stage PARTIALLY_FILLED = 3"
| "stage CANCEL_PENDING = 4"
| "stage FILLED = 5"
| "stage REJECTED = 5"
| "stage CANCELLED = 5"

lemma status_step_stage: "status_step s t \<Longrightarrow> stage s < stage t"
  by (cases s; cases t) (auto simp: status_step_iff)

lemma stage_le: "stage s \<le> 5"
  by (cases s) auto

text \<open>A life of an order: a path of status changes, with its length.\<close>

inductive status_path :: "order_status \<Rightarrow> order_status list \<Rightarrow> order_status \<Rightarrow> bool" where
  here: "status_path s [] s"
| later: "status_step s t \<Longrightarrow> status_path t ts u \<Longrightarrow> status_path s (t # ts) u"

inductive_simps status_path_Nil [simp]: "status_path s [] u"
inductive_simps status_path_Cons [simp]: "status_path s (t # ts) u"

lemma status_path_stage: "status_path s ts u \<Longrightarrow> stage s + length ts \<le> stage u"
  by (induction rule: status_path.induct) (auto dest: status_step_stage)

lemma status_path_append: "status_path s ts t \<Longrightarrow> status_path t us u \<Longrightarrow> status_path s (ts @ us) u"
  by (induction rule: status_path.induct) auto

lemma terminal_no_step: "s \<in> TERMINAL_ORDER_STATUSES \<longleftrightarrow> ALLOWED_TRANSITIONS s = {}"
  by (cases s) (auto simp: status_sets)

lemma cancellable_iff: "s \<in> CANCELLABLE_ORDER_STATUSES \<longleftrightarrow> CANCEL_PENDING \<in> ALLOWED_TRANSITIONS s"
  by (cases s) (auto simp: status_sets)

lemma status_path_stage_le:
  assumes "status_path s ts u" and "t \<in> set ts"
  shows "stage s < stage t"
  using assms
proof (induction rule: status_path.induct)
  case (later s t' ts u)
  then show ?case by (auto dest: status_step_stage)
qed simp

lemma status_path_distinct: "status_path s ts u \<Longrightarrow> distinct (s # ts)"
proof (induction rule: status_path.induct)
  case (later s t ts u)
  then have "status_path s (t # ts) u" by simp
  from status_path_stage_le [OF this] have "s \<notin> set (t # ts)" by blast
  with later.IH show ?case by simp
qed simp

section \<open>Properties\<close>

text \<open>
  C16. The life of an order is finite: along any sequence of accepted status changes no status
  occurs twice, there are at most five changes, none at all from a terminal status, and a life that
  cannot be continued, because every further change is refused, has ended in a terminal status.
\<close>

theorem lifecycle_is_finite:
  assumes "status_path s ts u"
  shows "length ts \<le> 5 \<and> distinct (s # ts) \<and> (s \<in> TERMINAL_ORDER_STATUSES \<longrightarrow> ts = []) \<and>
    ((\<forall>t. \<not> status_step u t) \<longleftrightarrow> u \<in> TERMINAL_ORDER_STATUSES)"
proof (intro conjI impI)
  show "length ts \<le> 5"
    using status_path_stage [OF assms] stage_le [of u] by linarith
  show "distinct (s # ts)" using assms by (rule status_path_distinct)
  show "ts = []" if "s \<in> TERMINAL_ORDER_STATUSES"
    using that assms by (cases ts) (auto simp: status_step_iff terminal_no_step)
  show "(\<forall>t. \<not> status_step u t) \<longleftrightarrow> u \<in> TERMINAL_ORDER_STATUSES"
    by (auto simp: status_step_iff terminal_no_step)
qed

theorem lifecycle_is_finite_witness:
  "status_path NEW [VALIDATED, ROUTED, PARTIALLY_FILLED, CANCEL_PENDING, FILLED] FILLED \<and>
   length [VALIDATED, ROUTED, PARTIALLY_FILLED, CANCEL_PENDING, FILLED] \<le> 5"
proof -
  have path: "status_path NEW [VALIDATED, ROUTED, PARTIALLY_FILLED, CANCEL_PENDING, FILLED] FILLED"
    by (simp add: status_step_iff)
  from lifecycle_is_finite [OF path] path show ?thesis by blast
qed

end
