(* ===== verification/Models.thy ===== *)
theory Models
  imports Columns State_Machine
begin

text \<open>
  The tables of \<open>app/models/\<close> (and of the Alembic migration that creates them).

  A row is a record with the columns of its model class; a table is the list of its rows in
  insertion order, a database the record of the seven tables. Field names carry the initial of
  their table (\<open>a_\<close> accounts, \<open>o_\<close> orders, \<open>p_\<close> positions, \<open>f_\<close> fills, \<open>e_\<close> order events,
  \<open>b_\<close> processed broker events, \<open>m_\<close> market prices). Left out are \<open>updated_at\<close> everywhere,
  \<open>created_at\<close> where no query orders by it, the surrogate keys of the tables that are never
  looked up by them (positions, fills, order events, broker events), and the relationship
  attributes, which no operation uses.

  \<open>store_*\<close> is what an \<open>INSERT\<close> or \<open>UPDATE\<close> makes of an object: every column is fitted to
  its type, then the \<open>CHECK\<close> constraints of the table are evaluated on the fitted row. The
  symbol of a position is copied from an order row, where it has already been fitted to the
  same column type.
\<close>

section \<open>Rows\<close>

record account =
  a_id :: uuid
  a_user_id :: string
  a_currency :: string
  a_cash_balance :: rat
  a_reserved_cash :: rat
  a_version :: int

definition available_cash :: "account \<Rightarrow> rat" where
  "available_cash a = dsub (a_cash_balance a) (a_reserved_cash a)"

record order =
  o_id :: uuid
  o_client_order_id :: string
  o_idempotency_key :: string
  o_account_id :: uuid
  o_symbol :: string
  o_side :: order_side
  o_order_type :: order_type
  o_time_in_force :: time_in_force
  o_quantity :: rat
  o_price :: rat
  o_filled_quantity :: rat
  o_cancelled_quantity :: rat
  o_remaining_quantity :: rat
  o_average_fill_price :: "rat option"
  o_status :: order_status
  o_rejection_reason :: "string option"
  o_broker_order_id :: "string option"
  o_expires_at :: "timestamp option"
  o_version :: int
  o_created_at :: timestamp

record position =
  p_account_id :: uuid
  p_symbol :: string
  p_net_quantity :: rat
  p_average_entry_price :: rat
  p_realized_pnl :: rat
  p_unrealized_pnl :: rat
  p_last_mark_price :: "rat option"

definition p_key :: "position \<Rightarrow> uuid \<times> string" where
  "p_key p = (p_account_id p, p_symbol p)"

record fill =
  f_order_id :: uuid
  f_broker_event_id :: uuid
  f_execution_id :: string
  f_quantity :: rat
  f_price :: rat
  f_executed_at :: timestamp

text \<open>
  The values of a JSON column: a text, a Decimal (stored as the text \<open>str\<close> renders), or null.
\<close>

datatype json = JText string | JDecimal rat | JNull

type_synonym json_object = "(string \<times> json) list"

record order_event =
  e_order_id :: uuid
  e_event_type :: order_event_type
  e_previous_status :: "order_status option"
  e_new_status :: "order_status option"
  e_event_data :: json_object
  e_created_at :: timestamp

record processed_broker_event =
  b_broker_event_id :: uuid
  b_order_id :: uuid
  b_event_type :: broker_event_type
  b_broker_timestamp :: timestamp
  b_outcome :: string
  b_details :: json_object

record market_price =
  m_symbol :: string
  m_price :: rat
  m_observed_at :: timestamp

record database =
  accounts :: "account list"
  orders :: "order list"
  positions :: "position list"
  fills :: "fill list"
  order_events :: "order_event list"
  processed_broker_events :: "processed_broker_event list"
  market_prices :: "market_price list"

definition empty_db :: database where
  "empty_db =
     \<lparr>accounts = [], orders = [], positions = [], fills = [], order_events = [],
      processed_broker_events = [], market_prices = []\<rparr>"

abbreviation account_row :: "database \<Rightarrow> uuid \<Rightarrow> account option" where
  "account_row db aid \<equiv> row_of a_id aid (accounts db)"

abbreviation order_row :: "database \<Rightarrow> uuid \<Rightarrow> order option" where
  "order_row db oid \<equiv> row_of o_id oid (orders db)"

abbreviation position_row :: "database \<Rightarrow> uuid \<Rightarrow> string \<Rightarrow> position option" where
  "position_row db aid symb \<equiv> row_of p_key (aid, symb) (positions db)"

abbreviation price_row :: "database \<Rightarrow> string \<Rightarrow> market_price option" where
  "price_row db symb \<equiv> row_of m_symbol symb (market_prices db)"

abbreviation processed_row :: "database \<Rightarrow> uuid \<Rightarrow> processed_broker_event option" where
  "processed_row db eid \<equiv> row_of b_broker_event_id eid (processed_broker_events db)"

section \<open>Check constraints\<close>

definition account_checks :: "account \<Rightarrow> bool" where
  "account_checks a \<longleftrightarrow>
     0 \<le> a_cash_balance a \<and> 0 \<le> a_reserved_cash a \<and> a_reserved_cash a \<le> a_cash_balance a"

definition order_checks :: "order \<Rightarrow> bool" where
  "order_checks ord \<longleftrightarrow>
     0 < o_quantity ord \<and> 0 < o_price ord \<and> 0 \<le> o_filled_quantity ord \<and>
     0 \<le> o_cancelled_quantity ord \<and> 0 \<le> o_remaining_quantity ord \<and>
     o_filled_quantity ord + o_cancelled_quantity ord + o_remaining_quantity ord = o_quantity ord"

definition position_checks :: "position \<Rightarrow> bool" where
  "position_checks p \<longleftrightarrow>
     0 \<le> p_average_entry_price p \<and>
     (case p_last_mark_price p of None \<Rightarrow> True | Some m \<Rightarrow> 0 < m)"

definition fill_checks :: "fill \<Rightarrow> bool" where
  "fill_checks f \<longleftrightarrow> 0 < f_quantity f \<and> 0 < f_price f"

definition processed_checks :: "processed_broker_event \<Rightarrow> bool" where
  "processed_checks b \<longleftrightarrow> b_outcome b = ''APPLIED'' \<or> b_outcome b = ''IGNORED''"

definition price_checks :: "market_price \<Rightarrow> bool" where
  "price_checks m \<longleftrightarrow> 0 < m_price m"

section \<open>What a statement stores\<close>

definition store_account :: "env \<Rightarrow> account \<Rightarrow> oms_error + account" where
  "store_account e a =
     and_then (store_varchar e 100 (a_user_id a)) (\<lambda>user.
     and_then (store_varchar e 3 (a_currency a)) (\<lambda>currency.
     and_then (store_numeric e (a_cash_balance a)) (\<lambda>cash.
     and_then (store_numeric e (a_reserved_cash a)) (\<lambda>reserved.
     let row = a\<lparr>a_user_id := user, a_currency := currency,
                 a_cash_balance := cash, a_reserved_cash := reserved\<rparr>
     in and_then (check_constraint ''accounts'' (account_checks row)) (\<lambda>_. Inr row)))))"

definition store_order :: "env \<Rightarrow> order \<Rightarrow> oms_error + order" where
  "store_order e ord =
     and_then (store_varchar e 100 (o_client_order_id ord)) (\<lambda>client.
     and_then (store_varchar e 100 (o_idempotency_key ord)) (\<lambda>key.
     and_then (store_varchar e 32 (o_symbol ord)) (\<lambda>symbol.
     and_then (store_numeric e (o_quantity ord)) (\<lambda>quantity.
     and_then (store_numeric e (o_price ord)) (\<lambda>price.
     and_then (store_numeric e (o_filled_quantity ord)) (\<lambda>filled.
     and_then (store_numeric e (o_cancelled_quantity ord)) (\<lambda>cancelled.
     and_then (store_numeric e (o_remaining_quantity ord)) (\<lambda>remaining.
     and_then (nullable (store_numeric e) (o_average_fill_price ord)) (\<lambda>average.
     and_then (nullable (store_varchar e 500) (o_rejection_reason ord)) (\<lambda>reason.
     and_then (nullable (store_varchar e 100) (o_broker_order_id ord)) (\<lambda>broker_id.
     let row = ord\<lparr>o_client_order_id := client, o_idempotency_key := key, o_symbol := symbol,
                   o_quantity := quantity, o_price := price, o_filled_quantity := filled,
                   o_cancelled_quantity := cancelled, o_remaining_quantity := remaining,
                   o_average_fill_price := average, o_rejection_reason := reason,
                   o_broker_order_id := broker_id\<rparr>
     in and_then (check_constraint ''orders'' (order_checks row)) (\<lambda>_. Inr row))))))))))))"

definition store_position :: "env \<Rightarrow> position \<Rightarrow> oms_error + position" where
  "store_position e p =
     and_then (store_numeric e (p_net_quantity p)) (\<lambda>net.
     and_then (store_numeric e (p_average_entry_price p)) (\<lambda>average.
     and_then (store_numeric e (p_realized_pnl p)) (\<lambda>realized.
     and_then (store_numeric e (p_unrealized_pnl p)) (\<lambda>unrealized.
     and_then (nullable (store_numeric e) (p_last_mark_price p)) (\<lambda>mark.
     let row = p\<lparr>p_net_quantity := net, p_average_entry_price := average,
                 p_realized_pnl := realized, p_unrealized_pnl := unrealized,
                 p_last_mark_price := mark\<rparr>
     in and_then (check_constraint ''positions'' (position_checks row)) (\<lambda>_. Inr row))))))"

definition store_fill :: "env \<Rightarrow> fill \<Rightarrow> oms_error + fill" where
  "store_fill e f =
     and_then (store_varchar e 100 (f_execution_id f)) (\<lambda>execution.
     and_then (store_numeric e (f_quantity f)) (\<lambda>quantity.
     and_then (store_numeric e (f_price f)) (\<lambda>price.
     let row = f\<lparr>f_execution_id := execution, f_quantity := quantity, f_price := price\<rparr>
     in and_then (check_constraint ''fills'' (fill_checks row)) (\<lambda>_. Inr row))))"

definition store_processed :: "env \<Rightarrow> processed_broker_event \<Rightarrow> oms_error + processed_broker_event" where
  "store_processed e b =
     and_then (store_varchar e 20 (b_outcome b)) (\<lambda>outcome.
     let row = b\<lparr>b_outcome := outcome\<rparr>
     in and_then (check_constraint ''processed_broker_events'' (processed_checks row)) (\<lambda>_. Inr row))"

definition store_price :: "env \<Rightarrow> market_price \<Rightarrow> oms_error + market_price" where
  "store_price e m =
     and_then (store_numeric e (m_price m)) (\<lambda>price.
     let row = m\<lparr>m_price := price\<rparr>
     in and_then (check_constraint ''market_prices'' (price_checks row)) (\<lambda>_. Inr row))"

section \<open>Inserting a row\<close>

text \<open>
  An \<open>INSERT\<close> stores the object, then the primary key and the \<open>UNIQUE\<close> constraints are
  compared with the rows of the table and the foreign keys looked up.
\<close>

definition unique_constraint :: "string \<Rightarrow> ('r \<Rightarrow> 'k) \<Rightarrow> 'r \<Rightarrow> 'r list \<Rightarrow> oms_error + unit" where
  "unique_constraint name key row rows = check_constraint name (key row \<notin> key ` set rows)"

definition foreign_key :: "string \<Rightarrow> ('r \<Rightarrow> 'k) \<Rightarrow> 'k \<Rightarrow> 'r list \<Rightarrow> oms_error + unit" where
  "foreign_key name key k rows = check_constraint name (k \<in> key ` set rows)"

definition insert_account :: "env \<Rightarrow> account \<Rightarrow> database \<Rightarrow> oms_error + database" where
  "insert_account e a db =
     and_then (store_account e a) (\<lambda>row.
     and_then (unique_constraint ''accounts_pkey'' a_id row (accounts db)) (\<lambda>_.
     and_then (unique_constraint ''accounts_user_id_key'' a_user_id row (accounts db)) (\<lambda>_.
     Inr (db\<lparr>accounts := accounts db @ [row]\<rparr>))))"

definition insert_order :: "env \<Rightarrow> order \<Rightarrow> database \<Rightarrow> oms_error + database" where
  "insert_order e ord db =
     and_then (store_order e ord) (\<lambda>row.
     and_then (unique_constraint ''orders_pkey'' o_id row (orders db)) (\<lambda>_.
     and_then (unique_constraint ''uq_orders_account_client_order''
                 (\<lambda>r. (o_account_id r, o_client_order_id r)) row (orders db)) (\<lambda>_.
     and_then (unique_constraint ''uq_orders_account_idempotency_key''
                 (\<lambda>r. (o_account_id r, o_idempotency_key r)) row (orders db)) (\<lambda>_.
     and_then (foreign_key ''orders_account_id_fkey'' a_id (o_account_id row) (accounts db)) (\<lambda>_.
     Inr (db\<lparr>orders := orders db @ [row]\<rparr>))))))"

definition insert_position :: "env \<Rightarrow> position \<Rightarrow> database \<Rightarrow> oms_error + database" where
  "insert_position e p db =
     and_then (store_position e p) (\<lambda>row.
     and_then (unique_constraint ''uq_positions_account_symbol'' p_key row (positions db)) (\<lambda>_.
     and_then (foreign_key ''positions_account_id_fkey'' a_id (p_account_id row) (accounts db)) (\<lambda>_.
     Inr (db\<lparr>positions := positions db @ [row]\<rparr>))))"

definition insert_fill :: "env \<Rightarrow> fill \<Rightarrow> database \<Rightarrow> oms_error + database" where
  "insert_fill e f db =
     and_then (store_fill e f) (\<lambda>row.
     and_then (unique_constraint ''fills_broker_event_id_key'' f_broker_event_id row (fills db)) (\<lambda>_.
     and_then (unique_constraint ''fills_execution_id_key'' f_execution_id row (fills db)) (\<lambda>_.
     and_then (foreign_key ''fills_order_id_fkey'' o_id (f_order_id row) (orders db)) (\<lambda>_.
     Inr (db\<lparr>fills := fills db @ [row]\<rparr>)))))"

definition insert_event :: "order_event \<Rightarrow> database \<Rightarrow> oms_error + database" where
  "insert_event ev db =
     and_then (foreign_key ''order_events_order_id_fkey'' o_id (e_order_id ev) (orders db)) (\<lambda>_.
     Inr (db\<lparr>order_events := order_events db @ [ev]\<rparr>))"

definition insert_processed :: "env \<Rightarrow> processed_broker_event \<Rightarrow> database \<Rightarrow> oms_error + database" where
  "insert_processed e b db =
     and_then (store_processed e b) (\<lambda>row.
     and_then (unique_constraint ''processed_broker_events_broker_event_id_key''
                 b_broker_event_id row (processed_broker_events db)) (\<lambda>_.
     and_then (foreign_key ''processed_broker_events_order_id_fkey''
                 o_id (b_order_id row) (orders db)) (\<lambda>_.
     Inr (db\<lparr>processed_broker_events := processed_broker_events db @ [row]\<rparr>))))"

definition insert_price :: "env \<Rightarrow> market_price \<Rightarrow> database \<Rightarrow> oms_error + database" where
  "insert_price e m db =
     and_then (store_varchar e 32 (m_symbol m)) (\<lambda>symbol.
     and_then (store_price e (m\<lparr>m_symbol := symbol\<rparr>)) (\<lambda>row.
     and_then (unique_constraint ''market_prices_pkey'' m_symbol row (market_prices db)) (\<lambda>_.
     Inr (db\<lparr>market_prices := market_prices db @ [row]\<rparr>))))"

lemmas insert_defs =
  insert_account_def insert_order_def insert_position_def insert_fill_def insert_event_def
  insert_processed_def insert_price_def unique_constraint_def foreign_key_def

lemmas store_defs =
  store_account_def store_order_def store_position_def store_fill_def store_processed_def
  store_price_def

section \<open>What is known of a stored row\<close>

lemma store_account_eq_Inr:
  "store_account e a = Inr r \<longleftrightarrow>
     (\<exists>user currency cash reserved.
        varchar e 100 (a_user_id a) = Some user \<and> varchar e 3 (a_currency a) = Some currency \<and>
        numeric e (a_cash_balance a) = Some cash \<and> numeric e (a_reserved_cash a) = Some reserved \<and>
        r = a\<lparr>a_user_id := user, a_currency := currency,
              a_cash_balance := cash, a_reserved_cash := reserved\<rparr> \<and> account_checks r)"
  by (auto simp: store_account_def Let_def)

lemma store_accountD:
  assumes "store_account e a = Inr r"
  shows "a_id r = a_id a" "a_version r = a_version a"
    "numeric e (a_cash_balance a) = Some (a_cash_balance r)"
    "numeric e (a_reserved_cash a) = Some (a_reserved_cash r)"
    "varchar e 100 (a_user_id a) = Some (a_user_id r)"
    "varchar e 3 (a_currency a) = Some (a_currency r)"
    "account_checks r"
  using assms by (auto simp: store_account_eq_Inr)

lemma store_orderD:
  assumes "store_order e ord = Inr r"
  shows "o_id r = o_id ord" "o_account_id r = o_account_id ord" "o_side r = o_side ord"
    "o_order_type r = o_order_type ord" "o_time_in_force r = o_time_in_force ord"
    "o_status r = o_status ord" "o_expires_at r = o_expires_at ord" "o_version r = o_version ord"
    "o_created_at r = o_created_at ord"
    "varchar e 100 (o_client_order_id ord) = Some (o_client_order_id r)"
    "varchar e 100 (o_idempotency_key ord) = Some (o_idempotency_key r)"
    "varchar e 32 (o_symbol ord) = Some (o_symbol r)"
    "numeric e (o_quantity ord) = Some (o_quantity r)"
    "numeric e (o_price ord) = Some (o_price r)"
    "numeric e (o_filled_quantity ord) = Some (o_filled_quantity r)"
    "numeric e (o_cancelled_quantity ord) = Some (o_cancelled_quantity r)"
    "numeric e (o_remaining_quantity ord) = Some (o_remaining_quantity r)"
    "nullable (store_numeric e) (o_average_fill_price ord) = Inr (o_average_fill_price r)"
    "nullable (store_varchar e 500) (o_rejection_reason ord) = Inr (o_rejection_reason r)"
    "nullable (store_varchar e 100) (o_broker_order_id ord) = Inr (o_broker_order_id r)"
    "order_checks r"
  using assms by (auto simp: store_order_def Let_def)

lemma store_orderI:
  assumes "o_id r = o_id ord" "o_account_id r = o_account_id ord" "o_side r = o_side ord"
    "o_order_type r = o_order_type ord" "o_time_in_force r = o_time_in_force ord"
    "o_status r = o_status ord" "o_expires_at r = o_expires_at ord" "o_version r = o_version ord"
    "o_created_at r = o_created_at ord"
    "varchar e 100 (o_client_order_id ord) = Some (o_client_order_id r)"
    "varchar e 100 (o_idempotency_key ord) = Some (o_idempotency_key r)"
    "varchar e 32 (o_symbol ord) = Some (o_symbol r)"
    "numeric e (o_quantity ord) = Some (o_quantity r)"
    "numeric e (o_price ord) = Some (o_price r)"
    "numeric e (o_filled_quantity ord) = Some (o_filled_quantity r)"
    "numeric e (o_cancelled_quantity ord) = Some (o_cancelled_quantity r)"
    "numeric e (o_remaining_quantity ord) = Some (o_remaining_quantity r)"
    "nullable (store_numeric e) (o_average_fill_price ord) = Inr (o_average_fill_price r)"
    "nullable (store_varchar e 500) (o_rejection_reason ord) = Inr (o_rejection_reason r)"
    "nullable (store_varchar e 100) (o_broker_order_id ord) = Inr (o_broker_order_id r)"
    "order_checks r"
  shows "store_order e ord = Inr r"
proof -
  have "ord\<lparr>o_client_order_id := o_client_order_id r, o_idempotency_key := o_idempotency_key r,
      o_symbol := o_symbol r, o_quantity := o_quantity r, o_price := o_price r,
      o_filled_quantity := o_filled_quantity r, o_cancelled_quantity := o_cancelled_quantity r,
      o_remaining_quantity := o_remaining_quantity r, o_average_fill_price := o_average_fill_price r,
      o_rejection_reason := o_rejection_reason r, o_broker_order_id := o_broker_order_id r\<rparr> = r"
    using assms by (intro order.equality) auto
  with assms show ?thesis
    by (simp add: store_order_def Let_def store_numeric_def store_varchar_def order_checks_def)
qed

lemma store_position_eq_Inr:
  "store_position e p = Inr r \<longleftrightarrow>
     (\<exists>net average realized unrealized mark.
        numeric e (p_net_quantity p) = Some net \<and> numeric e (p_average_entry_price p) = Some average \<and>
        numeric e (p_realized_pnl p) = Some realized \<and> numeric e (p_unrealized_pnl p) = Some unrealized \<and>
        nullable (store_numeric e) (p_last_mark_price p) = Inr mark \<and>
        r = p\<lparr>p_net_quantity := net, p_average_entry_price := average, p_realized_pnl := realized,
              p_unrealized_pnl := unrealized, p_last_mark_price := mark\<rparr> \<and> position_checks r)"
  by (auto simp: store_position_def Let_def)

lemma store_positionD:
  assumes "store_position e p = Inr r"
  shows "p_account_id r = p_account_id p" "p_symbol r = p_symbol p" "p_key r = p_key p"
    "numeric e (p_net_quantity p) = Some (p_net_quantity r)"
    "numeric e (p_average_entry_price p) = Some (p_average_entry_price r)"
    "numeric e (p_realized_pnl p) = Some (p_realized_pnl r)"
    "numeric e (p_unrealized_pnl p) = Some (p_unrealized_pnl r)"
    "nullable (store_numeric e) (p_last_mark_price p) = Inr (p_last_mark_price r)"
    "position_checks r"
  using assms by (auto simp: store_position_eq_Inr p_key_def)

lemma store_price_eq_Inr:
  "store_price e m = Inr r \<longleftrightarrow>
     (\<exists>price. numeric e (m_price m) = Some price \<and> r = m\<lparr>m_price := price\<rparr> \<and> price_checks r)"
  by (auto simp: store_price_def Let_def)

lemma store_account_idem:
  assumes "documented e" and "store_account e a = Inr r"
  shows "store_account e r = Inr r"
  using assms(2) documented_idem [OF assms(1)] by (auto simp: store_account_eq_Inr)

lemma nullable_numeric_idem:
  "documented e \<Longrightarrow> nullable (store_numeric e) v = Inr w \<Longrightarrow> nullable (store_numeric e) w = Inr w"
  using documented_idem(1) [of e] by (auto simp: nullable_eq_Inr)

lemma nullable_varchar_idem:
  "documented e \<Longrightarrow> nullable (store_varchar e n) v = Inr w \<Longrightarrow> nullable (store_varchar e n) w = Inr w"
  using documented_idem(2) [of e] by (auto simp: nullable_eq_Inr)

lemma store_order_idem:
  assumes "documented e" and "store_order e ord = Inr r"
  shows "store_order e r = Inr r"
  using store_orderD [OF assms(2)] documented_idem [OF assms(1)]
    nullable_numeric_idem [OF assms(1)] nullable_varchar_idem [OF assms(1)]
  by (intro store_orderI) blast+

lemma store_position_idem:
  assumes "documented e" and "store_position e p = Inr r"
  shows "store_position e r = Inr r"
  using store_positionD [OF assms(2)] documented_idem [OF assms(1)] nullable_numeric_idem [OF assms(1)]
  by (simp add: store_position_eq_Inr)

lemma store_price_idem:
  assumes "documented e" and "store_price e m = Inr r"
  shows "store_price e r = Inr r"
  using assms(2) documented_idem [OF assms(1)] by (auto simp: store_price_eq_Inr)

end
