(* ===== verification/Orm_Session.thy ===== *)
theory Orm_Session
  imports Models
begin

text \<open>
  The database session, as \<open>app/database.py\<close> configures it (\<open>expire_on_commit=False\<close>,
  \<open>autoflush=False\<close>).

  A session holds the rows its open transaction sees (\<open>tx\<close>: committed rows with the statements
  the session has flushed) and its identity map: the objects it has loaded, one per primary key,
  with the attribute values the code has assigned and not yet flushed. Reading a row whose
  object is already loaded gives that object, not the row. A flush writes every loaded object
  back; leaving \<open>async with session.begin()\<close> flushes and commits, an exception rolls back and
  expires every object. Commit does not expire them.

  The locale \<open>stored_rows\<close> is the contract between what a table's rows are written with and the
  session: the key of a row survives. Its extension \<open>stable_rows\<close> adds that storing a written row
  again changes nothing. From it follow the look-ups after a flush; both are interpreted for the
  four tables whose rows are updated.
\<close>

section \<open>Writing loaded objects back\<close>

text \<open>\<open>writes r x\<close> is what flushing the object \<open>x\<close> makes of its row \<open>r\<close>.\<close>

definition write_back ::
  "('r \<Rightarrow> 'k) \<Rightarrow> ('r \<Rightarrow> 'r \<Rightarrow> 'e + 'r) \<Rightarrow> ('k \<rightharpoonup> 'r) \<Rightarrow> 'r list \<Rightarrow> 'e + 'r list" where
  "write_back key writes loaded rows =
     traverse (\<lambda>r. case loaded (key r) of None \<Rightarrow> Inr r | Some x \<Rightarrow> writes r x) rows"

text \<open>
  An \<open>UPDATE\<close> names the columns whose value differs from the one the session knows as stored. In
  the transaction that loaded the object that value is the row's, so the object replaces the
  row. In a later transaction of the same session it is the value the object had when that
  transaction began, which a concurrent commit may have made stale: columns the code does not
  assign keep what the row has, columns it assigns get the object's value.
\<close>

definition changed :: "'c \<Rightarrow> 'c \<Rightarrow> 'c \<Rightarrow> 'c" where
  "changed old new col = (if new = old then col else new)"

definition merge_account :: "account \<Rightarrow> account \<Rightarrow> account \<Rightarrow> account" where
  "merge_account old new r =
     r\<lparr>a_cash_balance := changed (a_cash_balance old) (a_cash_balance new) (a_cash_balance r),
       a_reserved_cash := changed (a_reserved_cash old) (a_reserved_cash new) (a_reserved_cash r),
       a_version := changed (a_version old) (a_version new) (a_version r)\<rparr>"

definition merge_order :: "order \<Rightarrow> order \<Rightarrow> order \<Rightarrow> order" where
  "merge_order old new r =
     r\<lparr>o_filled_quantity := changed (o_filled_quantity old) (o_filled_quantity new) (o_filled_quantity r),
       o_cancelled_quantity := changed (o_cancelled_quantity old) (o_cancelled_quantity new) (o_cancelled_quantity r),
       o_remaining_quantity := changed (o_remaining_quantity old) (o_remaining_quantity new) (o_remaining_quantity r),
       o_average_fill_price := changed (o_average_fill_price old) (o_average_fill_price new) (o_average_fill_price r),
       o_status := changed (o_status old) (o_status new) (o_status r),
       o_rejection_reason := changed (o_rejection_reason old) (o_rejection_reason new) (o_rejection_reason r),
       o_version := changed (o_version old) (o_version new) (o_version r)\<rparr>"

definition write_account :: "env \<Rightarrow> (uuid \<rightharpoonup> account) \<Rightarrow> account \<Rightarrow> account \<Rightarrow> oms_error + account" where
  "write_account e known r x =
     store_account e (case known (a_id r) of None \<Rightarrow> x | Some old \<Rightarrow> merge_account old x r)"

definition write_order :: "env \<Rightarrow> (uuid \<rightharpoonup> order) \<Rightarrow> order \<Rightarrow> order \<Rightarrow> oms_error + order" where
  "write_order e known r x =
     store_order e (case known (o_id r) of None \<Rightarrow> x | Some old \<Rightarrow> merge_order old x r)"

lemma merge_key [simp]:
  "a_id (merge_account old new r) = a_id r" "o_id (merge_order old' new' r') = o_id r'"
  by (simp_all add: merge_account_def merge_order_def)

lemma write_empty [simp]:
  "write_account e Map.empty r x = store_account e x" "write_order e Map.empty r' x' = store_order e x'"
  by (simp_all add: write_account_def write_order_def)

lemma traverse_same: "\<forall>x\<in>set xs. f x = Inr x \<Longrightarrow> traverse f xs = Inr xs"
  by (induction xs) auto

lemma write_back_unchanged:
  "\<forall>r\<in>set rows. \<forall>x. loaded (key r) = Some x \<longrightarrow> writes r x = Inr r \<Longrightarrow>
     write_back key writes loaded rows = Inr rows"
  unfolding write_back_def by (rule traverse_same) (auto split: option.splits)

lemma write_back_empty [simp]: "write_back key writes Map.empty rows = Inr rows"
  by (rule write_back_unchanged) simp

text \<open>Every loaded object sits under its own key and has a row.\<close>

definition loaded_ok :: "('r \<Rightarrow> 'k) \<Rightarrow> ('k \<rightharpoonup> 'r) \<Rightarrow> 'r list \<Rightarrow> bool" where
  "loaded_ok key loaded rows \<longleftrightarrow>
     (\<forall>k x. loaded k = Some x \<longrightarrow> key x = k \<and> k \<in> key ` set rows)"

text \<open>
  How a session's view of a table may develop: objects stay loaded, rows of objects that are not
  loaded keep their values, rows are only added at the end.
\<close>

definition table_evolves ::
  "('r \<Rightarrow> 'k) \<Rightarrow> ('k \<rightharpoonup> 'r) \<Rightarrow> 'r list \<Rightarrow> ('k \<rightharpoonup> 'r) \<Rightarrow> 'r list \<Rightarrow> bool" where
  "table_evolves key loaded rows loaded' rows' \<longleftrightarrow>
     loaded_ok key loaded rows \<longrightarrow>
       loaded_ok key loaded' rows' \<and> dom loaded \<subseteq> dom loaded' \<and>
       (\<forall>k. loaded' k = None \<longrightarrow> row_of key k rows' = row_of key k rows) \<and>
       (\<exists>new. map key rows' = map key rows @ new)"

lemma table_evolves_refl [simp]: "table_evolves key loaded rows loaded rows"
  by (simp add: table_evolves_def)

lemma table_evolves_trans:
  assumes "table_evolves key l1 r1 l2 r2" and "table_evolves key l2 r2 l3 r3"
  shows "table_evolves key l1 r1 l3 r3"
  unfolding table_evolves_def
proof (intro impI)
  assume "loaded_ok key l1 r1"
  with assms(1) have a: "loaded_ok key l2 r2" "dom l1 \<subseteq> dom l2"
      "\<And>k. l2 k = None \<Longrightarrow> row_of key k r2 = row_of key k r1" "\<exists>new. map key r2 = map key r1 @ new"
    by (auto simp: table_evolves_def)
  with assms(2) have b: "loaded_ok key l3 r3" "dom l2 \<subseteq> dom l3"
      "\<And>k. l3 k = None \<Longrightarrow> row_of key k r3 = row_of key k r2" "\<exists>new. map key r3 = map key r2 @ new"
    by (auto simp: table_evolves_def)
  from a(4) b(4) obtain n n' where "map key r2 = map key r1 @ n" "map key r3 = map key r2 @ n'"
    by auto
  then have "map key r3 = map key r1 @ (n @ n')" by simp
  moreover have "row_of key k r3 = row_of key k r1" if "l3 k = None" for k
  proof -
    have "l2 k = None" using that b(2) by (auto simp: dom_def)
    then show ?thesis using a(3) b(3) that by simp
  qed
  ultimately show "loaded_ok key l3 r3 \<and> dom l1 \<subseteq> dom l3 \<and>
      (\<forall>k. l3 k = None \<longrightarrow> row_of key k r3 = row_of key k r1) \<and>
      (\<exists>new. map key r3 = map key r1 @ new)"
    using a(2) b(1,2) by blast
qed

text \<open>Loading or assigning an object that has a row.\<close>

lemma table_evolves_load:
  "key x = k \<Longrightarrow> k \<in> key ` set rows \<Longrightarrow> table_evolves key loaded rows (loaded(k \<mapsto> x)) rows"
  by (auto simp: table_evolves_def loaded_ok_def)

text \<open>Inserting a row and keeping its object.\<close>

lemma table_evolves_insert:
  assumes "key row = k" and "key x = k"
  shows "table_evolves key loaded rows (loaded(k \<mapsto> x)) (rows @ [row])"
proof -
  have "row_of key k' (rows @ [row]) = row_of key k' rows" if "k' \<noteq> k" for k'
    using that assms by (cases "row_of key k' rows") (auto simp: row_of_append row_of_Cons)
  then show ?thesis
    using assms by (auto simp: table_evolves_def loaded_ok_def)
qed

locale stored_rows =
  fixes key :: "'r \<Rightarrow> 'k" and writes :: "'r \<Rightarrow> 'r \<Rightarrow> 'e + 'r"
  assumes write_key: "key x = key r \<Longrightarrow> writes r x = Inr r' \<Longrightarrow> key r' = key r"
begin

lemma write_back_all2:
  "write_back key writes loaded rows = Inr rows' \<longleftrightarrow>
     list_all2 (\<lambda>r r'. (case loaded (key r) of None \<Rightarrow> r' = r | Some x \<Rightarrow> writes r x = Inr r')) rows rows'"
proof -
  have "(\<lambda>r r'. (case loaded (key r) of None \<Rightarrow> Inr r | Some x \<Rightarrow> writes r x) = Inr r') =
      (\<lambda>r r'. case loaded (key r) of None \<Rightarrow> r' = r | Some x \<Rightarrow> writes r x = Inr r')"
    by (intro ext) (auto split: option.splits)
  then show ?thesis unfolding write_back_def traverse_eq_Inr by simp
qed

lemma written_key:
  assumes "loaded_ok key loaded rows0"
    and "case loaded (key r) of None \<Rightarrow> r' = r | Some x \<Rightarrow> writes r x = Inr r'"
  shows "key r' = key r"
proof (cases "loaded (key r)")
  case None
  with assms(2) show ?thesis by simp
next
  case (Some x)
  with assms have "key x = key r" "writes r x = Inr r'" by (auto simp: loaded_ok_def)
  then show ?thesis by (rule write_key)
qed

lemma write_back_keys:
  assumes "loaded_ok key loaded rows0" and "write_back key writes loaded rows = Inr rows'"
  shows "map key rows' = map key rows"
proof -
  have "list_all2 (\<lambda>r r'. key r = key r') rows rows'"
    using assms(2) unfolding write_back_all2
    by (rule list_all2_mono) (simp add: written_key [OF assms(1)])
  then show ?thesis
    by (induction rule: list_all2_induct) auto
qed

lemma write_back_row:
  assumes "loaded_ok key loaded rows0" and "write_back key writes loaded rows = Inr rows'"
  shows "row_of key k rows' =
    (case row_of key k rows of
       None \<Rightarrow> None
     | Some r \<Rightarrow> (case loaded k of None \<Rightarrow> Some r | Some x \<Rightarrow> (case writes r x of Inl _ \<Rightarrow> None | Inr y \<Rightarrow> Some y)))"
  using assms(2) unfolding write_back_all2
proof (induction rule: list_all2_induct)
  case Nil
  then show ?case by simp
next
  case (Cons r rows r' rows')
  have "key r' = key r"
    using assms(1) Cons.hyps(1) by (rule written_key)
  with Cons show ?case
    by (auto simp: row_of_Cons split: option.splits)
qed

lemma write_back_written:
  assumes "loaded_ok key loaded rows" and "write_back key writes loaded rows = Inr rows'"
    and "loaded k = Some x"
  shows "\<exists>r y. row_of key k rows = Some r \<and> writes r x = Inr y \<and> row_of key k rows' = Some y"
proof -
  from assms have "k \<in> key ` set rows" by (auto simp: loaded_ok_def)
  then have "k \<in> set (map key rows)" by simp
  also have "\<dots> = set (map key rows')" using write_back_keys [OF assms(1,2)] by simp
  finally have "row_of key k rows' \<noteq> None" by (simp add: row_of_None_iff)
  with write_back_row [OF assms(1,2), of k] assms(3) show ?thesis
    by (auto split: option.splits sum.splits)
qed

lemma write_back_evolves:
  assumes "write_back key writes loaded rows = Inr rows'"
  shows "table_evolves key loaded rows loaded rows'"
  unfolding table_evolves_def
proof (intro impI conjI allI)
  assume ok: "loaded_ok key loaded rows"
  note keys = write_back_keys [OF ok assms]
  have "key ` set rows' = key ` set rows" using keys by (metis list.set_map)
  with ok show "loaded_ok key loaded rows'" by (simp add: loaded_ok_def)
  show "dom loaded \<subseteq> dom loaded" by simp
  show "\<exists>new. map key rows' = map key rows @ new" using keys by simp
  show "row_of key k rows' = row_of key k rows" if "loaded k = None" for k
    using write_back_row [OF ok assms, of k] that by (auto split: option.splits)
qed

end

text \<open>What has been written fits its columns: storing it again changes nothing.\<close>

locale stable_rows = stored_rows +
  fixes store :: "'a \<Rightarrow> 'c + 'a"
  assumes write_settles: "writes r x = Inr r' \<Longrightarrow> store r' = Inr r'"
begin

lemma write_back_settles:
  assumes "write_back key writes loaded rows = Inr rows'" and "\<forall>r\<in>set rows. store r = Inr r"
  shows "\<forall>r\<in>set rows'. store r = Inr r"
  using assms unfolding write_back_all2
  by (induction rule: list_all2_induct) (auto intro: write_settles split: option.splits)

end

interpretation account_rows: stored_rows a_id "write_account e known" for e known
  by unfold_locales (auto simp: write_account_def dest: store_accountD split: option.splits)

interpretation order_rows: stored_rows o_id "write_order e known" for e known
  by unfold_locales (auto simp: write_order_def dest: store_orderD split: option.splits)

interpretation position_rows: stored_rows p_key "\<lambda>_. store_position e" for e
  by unfold_locales (auto dest: store_positionD)

interpretation price_rows: stored_rows m_symbol "\<lambda>_. store_price e" for e
  by unfold_locales (auto simp: store_price_eq_Inr)

text \<open>With documented columns the tables are stable as well.\<close>

locale documented_env =
  fixes e :: env
  assumes doc: "documented e"
begin

sublocale columns: column_types "numeric e" "varchar e"
  using doc by (simp add: documented_def)

sublocale account_table: stable_rows a_id "write_account e known" "store_account e" for known
  by unfold_locales (auto simp: write_account_def intro: store_account_idem [OF doc])

sublocale order_table: stable_rows o_id "write_order e known" "store_order e" for known
  by unfold_locales (auto simp: write_order_def intro: store_order_idem [OF doc])

sublocale position_table: stable_rows p_key "\<lambda>_. store_position e" "store_position e"
  by unfold_locales (rule store_position_idem [OF doc])

sublocale price_table: stable_rows m_symbol "\<lambda>_. store_price e" "store_price e"
  by unfold_locales (rule store_price_idem [OF doc])

end

interpretation pg_tables: documented_env "pg_env t u" for t u
  by unfold_locales simp

section \<open>The session\<close>

record session =
  tx :: database
  loaded_accounts :: "uuid \<rightharpoonup> account"
  loaded_orders :: "uuid \<rightharpoonup> order"
  loaded_positions :: "(uuid \<times> string) \<rightharpoonup> position"
  loaded_prices :: "string \<rightharpoonup> market_price"
  known_accounts :: "uuid \<rightharpoonup> account"
  known_orders :: "uuid \<rightharpoonup> order"

definition open_session :: "database \<Rightarrow> session" where
  "open_session db =
     \<lparr>tx = db, loaded_accounts = Map.empty, loaded_orders = Map.empty,
      loaded_positions = Map.empty, loaded_prices = Map.empty,
      known_accounts = Map.empty, known_orders = Map.empty\<rparr>"

text \<open>
  A later transaction of the same session sees what is committed then, and keeps its objects. The
  one session of the program with a second transaction (a failed routing) has loaded accounts
  and orders only.
\<close>

definition begin_on :: "database \<Rightarrow> session \<Rightarrow> session" where
  "begin_on db s =
     s\<lparr>tx := db, known_accounts := loaded_accounts s, known_orders := loaded_orders s\<rparr>"

definition flush :: "env \<Rightarrow> session \<Rightarrow> oms_error + session" where
  "flush e s =
     and_then (write_back a_id (write_account e (known_accounts s)) (loaded_accounts s) (accounts (tx s))) (\<lambda>as.
     and_then (write_back m_symbol (\<lambda>_. store_price e) (loaded_prices s) (market_prices (tx s))) (\<lambda>ms.
     and_then (write_back o_id (write_order e (known_orders s)) (loaded_orders s) (orders (tx s))) (\<lambda>os.
     and_then (write_back p_key (\<lambda>_. store_position e) (loaded_positions s) (positions (tx s))) (\<lambda>ps.
     Inr (s\<lparr>tx := (tx s)\<lparr>accounts := as, market_prices := ms, orders := os, positions := ps\<rparr>\<rparr>)))))"

text \<open>\<open>async with session.begin()\<close> around a body: commit, or roll back and re-raise.\<close>

definition transaction ::
  "env \<Rightarrow> (session \<Rightarrow> oms_error + 'a \<times> session) \<Rightarrow> session \<Rightarrow> (oms_error + 'a) \<times> session" where
  "transaction e body s =
     (case and_then (body s) (\<lambda>(x, s'). and_then (flush e s') (\<lambda>s''. Inr (x, s''))) of
        Inl err \<Rightarrow> (Inl err, open_session (tx s))
      | Inr (x, s'') \<Rightarrow> (Inr x, s''))"

definition set_account :: "account \<Rightarrow> session \<Rightarrow> session" where
  "set_account a s = s\<lparr>loaded_accounts := (loaded_accounts s)(a_id a \<mapsto> a)\<rparr>"

definition set_order :: "order \<Rightarrow> session \<Rightarrow> session" where
  "set_order ord s = s\<lparr>loaded_orders := (loaded_orders s)(o_id ord \<mapsto> ord)\<rparr>"

definition set_position :: "position \<Rightarrow> session \<Rightarrow> session" where
  "set_position p s = s\<lparr>loaded_positions := (loaded_positions s)(p_key p \<mapsto> p)\<rparr>"

definition set_price :: "market_price \<Rightarrow> session \<Rightarrow> session" where
  "set_price m s = s\<lparr>loaded_prices := (loaded_prices s)(m_symbol m \<mapsto> m)\<rparr>"

text \<open>The object a fetched row stands for: the loaded one, or a new one with the row's values.\<close>

definition resolve_account :: "account \<Rightarrow> session \<Rightarrow> account \<times> session" where
  "resolve_account r s =
     (case loaded_accounts s (a_id r) of Some a \<Rightarrow> (a, s) | None \<Rightarrow> (r, set_account r s))"

definition resolve_order :: "order \<Rightarrow> session \<Rightarrow> order \<times> session" where
  "resolve_order r s =
     (case loaded_orders s (o_id r) of Some ord \<Rightarrow> (ord, s) | None \<Rightarrow> (r, set_order r s))"

definition resolve_position :: "position \<Rightarrow> session \<Rightarrow> position \<times> session" where
  "resolve_position r s =
     (case loaded_positions s (p_key r) of Some p \<Rightarrow> (p, s) | None \<Rightarrow> (r, set_position r s))"

definition resolve_price :: "market_price \<Rightarrow> session \<Rightarrow> market_price \<times> session" where
  "resolve_price r s =
     (case loaded_prices s (m_symbol r) of Some m \<Rightarrow> (m, s) | None \<Rightarrow> (r, set_price r s))"

lemmas session_sets = set_account_def set_order_def set_position_def set_price_def
lemmas resolves = resolve_account_def resolve_order_def resolve_position_def resolve_price_def

section \<open>How a session develops\<close>

definition session_ok :: "session \<Rightarrow> bool" where
  "session_ok s \<longleftrightarrow>
     loaded_ok a_id (loaded_accounts s) (accounts (tx s)) \<and>
     loaded_ok o_id (loaded_orders s) (orders (tx s)) \<and>
     loaded_ok p_key (loaded_positions s) (positions (tx s)) \<and>
     loaded_ok m_symbol (loaded_prices s) (market_prices (tx s)) \<and>
     known_accounts s = Map.empty \<and> known_orders s = Map.empty"

definition evolves :: "session \<Rightarrow> session \<Rightarrow> bool" where
  "evolves s s' \<longleftrightarrow>
     table_evolves a_id (loaded_accounts s) (accounts (tx s)) (loaded_accounts s') (accounts (tx s')) \<and>
     table_evolves o_id (loaded_orders s) (orders (tx s)) (loaded_orders s') (orders (tx s')) \<and>
     table_evolves p_key (loaded_positions s) (positions (tx s)) (loaded_positions s') (positions (tx s')) \<and>
     table_evolves m_symbol (loaded_prices s) (market_prices (tx s)) (loaded_prices s') (market_prices (tx s')) \<and>
     known_accounts s' = known_accounts s \<and> known_orders s' = known_orders s"

lemma session_ok_open [simp]: "session_ok (open_session db)"
  by (simp add: session_ok_def open_session_def loaded_ok_def)

lemma evolves_refl [simp]: "evolves s s"
  by (simp add: evolves_def)

lemma evolves_trans [trans]: "evolves s s' \<Longrightarrow> evolves s' s'' \<Longrightarrow> evolves s s''"
  unfolding evolves_def by (auto intro: table_evolves_trans)

lemma evolves_ok: "evolves s s' \<Longrightarrow> session_ok s \<Longrightarrow> session_ok s'"
  by (simp add: evolves_def session_ok_def table_evolves_def)

lemma evolves_unloaded:
  assumes "evolves s s'" and "session_ok s"
  shows "loaded_accounts s' aid = None \<Longrightarrow> account_row (tx s') aid = account_row (tx s) aid"
    and "loaded_orders s' oid = None \<Longrightarrow> order_row (tx s') oid = order_row (tx s) oid"
    and "loaded_positions s' (aid, symb) = None \<Longrightarrow> position_row (tx s') aid symb = position_row (tx s) aid symb"
    and "loaded_prices s' symb = None \<Longrightarrow> price_row (tx s') symb = price_row (tx s) symb"
  using assms by (auto simp: evolves_def session_ok_def table_evolves_def)

lemma flush_eq_Inr:
  "flush e s = Inr s' \<longleftrightarrow>
     (\<exists>as ms os ps.
        write_back a_id (write_account e (known_accounts s)) (loaded_accounts s) (accounts (tx s)) = Inr as \<and>
        write_back m_symbol (\<lambda>_. store_price e) (loaded_prices s) (market_prices (tx s)) = Inr ms \<and>
        write_back o_id (write_order e (known_orders s)) (loaded_orders s) (orders (tx s)) = Inr os \<and>
        write_back p_key (\<lambda>_. store_position e) (loaded_positions s) (positions (tx s)) = Inr ps \<and>
        s' = s\<lparr>tx := (tx s)\<lparr>accounts := as, market_prices := ms, orders := os, positions := ps\<rparr>\<rparr>)"
  by (auto simp: flush_def)

lemma flush_frame:
  assumes "flush e s = Inr s'"
  shows "loaded_accounts s' = loaded_accounts s" "loaded_orders s' = loaded_orders s"
    "loaded_positions s' = loaded_positions s" "loaded_prices s' = loaded_prices s"
    "known_accounts s' = known_accounts s" "known_orders s' = known_orders s"
    "fills (tx s') = fills (tx s)" "order_events (tx s') = order_events (tx s)"
    "processed_broker_events (tx s') = processed_broker_events (tx s)"
  using assms by (auto simp: flush_eq_Inr)

lemma flush_evolves: "flush e s = Inr s' \<Longrightarrow> evolves s s'"
  by (auto simp: flush_eq_Inr evolves_def intro: account_rows.write_back_evolves
      order_rows.write_back_evolves position_rows.write_back_evolves price_rows.write_back_evolves)

lemma flush_keys:
  assumes "flush e s = Inr s'" and "session_ok s"
  shows "map a_id (accounts (tx s')) = map a_id (accounts (tx s))"
    and "map o_id (orders (tx s')) = map o_id (orders (tx s))"
    and "map p_key (positions (tx s')) = map p_key (positions (tx s))"
    and "map m_symbol (market_prices (tx s')) = map m_symbol (market_prices (tx s))"
  using assms
  by (auto simp: flush_eq_Inr session_ok_def account_rows.write_back_keys order_rows.write_back_keys
      position_rows.write_back_keys price_rows.write_back_keys)

text \<open>After a flush the row of a loaded object is what storing the object gives.\<close>

lemma flush_stored:
  assumes "flush e s = Inr s'" and "session_ok s"
  shows "loaded_accounts s aid = Some a \<Longrightarrow> \<exists>r. store_account e a = Inr r \<and> account_row (tx s') aid = Some r"
    and "loaded_orders s oid = Some ord \<Longrightarrow> \<exists>r. store_order e ord = Inr r \<and> order_row (tx s') oid = Some r"
    and "loaded_positions s (aid, symb) = Some p \<Longrightarrow>
           \<exists>r. store_position e p = Inr r \<and> position_row (tx s') aid symb = Some r"
    and "loaded_prices s symb = Some m \<Longrightarrow> \<exists>r. store_price e m = Inr r \<and> price_row (tx s') symb = Some r"
proof -
  obtain as ms os ps where w:
      "write_back a_id (write_account e Map.empty) (loaded_accounts s) (accounts (tx s)) = Inr as"
      "write_back m_symbol (\<lambda>_. store_price e) (loaded_prices s) (market_prices (tx s)) = Inr ms"
      "write_back o_id (write_order e Map.empty) (loaded_orders s) (orders (tx s)) = Inr os"
      "write_back p_key (\<lambda>_. store_position e) (loaded_positions s) (positions (tx s)) = Inr ps"
      "s' = s\<lparr>tx := (tx s)\<lparr>accounts := as, market_prices := ms, orders := os, positions := ps\<rparr>\<rparr>"
    using assms by (auto simp: flush_eq_Inr session_ok_def)
  show "\<exists>r. store_account e a = Inr r \<and> account_row (tx s') aid = Some r" if "loaded_accounts s aid = Some a"
    using account_rows.write_back_written [OF _ w(1) that] assms(2) by (auto simp: session_ok_def w(5))
  show "\<exists>r. store_order e ord = Inr r \<and> order_row (tx s') oid = Some r" if "loaded_orders s oid = Some ord"
    using order_rows.write_back_written [OF _ w(3) that] assms(2) by (auto simp: session_ok_def w(5))
  show "\<exists>r. store_position e p = Inr r \<and> position_row (tx s') aid symb = Some r"
    if "loaded_positions s (aid, symb) = Some p"
    using position_rows.write_back_written [OF _ w(4) that] assms(2) by (auto simp: session_ok_def w(5))
  show "\<exists>r. store_price e m = Inr r \<and> price_row (tx s') symb = Some r" if "loaded_prices s symb = Some m"
    using price_rows.write_back_written [OF _ w(2) that] assms(2) by (auto simp: session_ok_def w(5))
qed

lemma set_account_evolves:
  "account_row (tx s) (a_id a) \<noteq> None \<Longrightarrow> evolves s (set_account a s)"
  by (simp add: evolves_def set_account_def table_evolves_load row_of_None_iff)

lemma set_order_evolves:
  "order_row (tx s) (o_id ord) \<noteq> None \<Longrightarrow> evolves s (set_order ord s)"
  by (simp add: evolves_def set_order_def table_evolves_load row_of_None_iff)

lemma set_position_evolves:
  "row_of p_key (p_key p) (positions (tx s)) \<noteq> None \<Longrightarrow> evolves s (set_position p s)"
  by (simp add: evolves_def set_position_def table_evolves_load row_of_None_iff)

lemma set_price_evolves:
  "price_row (tx s) (m_symbol m) \<noteq> None \<Longrightarrow> evolves s (set_price m s)"
  by (simp add: evolves_def set_price_def table_evolves_load row_of_None_iff)

section \<open>Transactions\<close>

lemma transaction_Inr:
  "transaction e body s = (Inr x, s'') \<longleftrightarrow> (\<exists>s'. body s = Inr (x, s') \<and> flush e s' = Inr s'')"
  by (auto simp: transaction_def split: sum.splits)

text \<open>An exception leaves the database as the transaction found it.\<close>

lemma transaction_Inl:
  "transaction e body s = (Inl err, s'') \<Longrightarrow> s'' = open_session (tx s)"
  by (auto simp: transaction_def split: sum.splits)

lemma transaction_rollback:
  "transaction e body s = (Inl err, s'') \<Longrightarrow> tx s'' = tx s"
  by (auto dest!: transaction_Inl simp: open_session_def)

text \<open>
  What a committed transaction did to a table: the rows of the objects it loaded are the stored
  objects, all other rows are as before.
\<close>

lemma committed_order:
  assumes "evolves s s1" and "session_ok s" and "flush e s1 = Inr s2"
  shows "case loaded_orders s1 oid of
      None \<Rightarrow> order_row (tx s2) oid = order_row (tx s) oid
    | Some ord \<Rightarrow> (\<exists>r. store_order e ord = Inr r \<and> order_row (tx s2) oid = Some r)"
proof (cases "loaded_orders s1 oid")
  case None
  have "loaded_orders s2 oid = None" using None flush_frame [OF assms(3)] by simp
  moreover have "evolves s s2" using assms(1) flush_evolves [OF assms(3)] by (rule evolves_trans)
  ultimately show ?thesis using None evolves_unloaded(2) assms(2) by auto
next
  case (Some ord)
  have "session_ok s1" using assms(1,2) by (rule evolves_ok)
  from flush_stored(2) [OF assms(3) this Some] Some show ?thesis by simp
qed

lemma committed_account:
  assumes "evolves s s1" and "session_ok s" and "flush e s1 = Inr s2"
  shows "case loaded_accounts s1 aid of
      None \<Rightarrow> account_row (tx s2) aid = account_row (tx s) aid
    | Some a \<Rightarrow> (\<exists>r. store_account e a = Inr r \<and> account_row (tx s2) aid = Some r)"
proof (cases "loaded_accounts s1 aid")
  case None
  have "loaded_accounts s2 aid = None" using None flush_frame [OF assms(3)] by simp
  moreover have "evolves s s2" using assms(1) flush_evolves [OF assms(3)] by (rule evolves_trans)
  ultimately show ?thesis using None evolves_unloaded(1) assms(2) by auto
next
  case (Some a)
  have "session_ok s1" using assms(1,2) by (rule evolves_ok)
  from flush_stored(1) [OF assms(3) this Some] Some show ?thesis by simp
qed

lemma committed_position:
  assumes "evolves s s1" and "session_ok s" and "flush e s1 = Inr s2"
  shows "case loaded_positions s1 (aid, symb) of
      None \<Rightarrow> position_row (tx s2) aid symb = position_row (tx s) aid symb
    | Some p \<Rightarrow> (\<exists>r. store_position e p = Inr r \<and> position_row (tx s2) aid symb = Some r)"
proof (cases "loaded_positions s1 (aid, symb)")
  case None
  have "loaded_positions s2 (aid, symb) = None" using None flush_frame [OF assms(3)] by simp
  moreover have "evolves s s2" using assms(1) flush_evolves [OF assms(3)] by (rule evolves_trans)
  ultimately show ?thesis using None evolves_unloaded(3) assms(2) by auto
next
  case (Some p)
  have "session_ok s1" using assms(1,2) by (rule evolves_ok)
  from flush_stored(3) [OF assms(3) this Some] Some show ?thesis by simp
qed

lemma committed_price:
  assumes "evolves s s1" and "session_ok s" and "flush e s1 = Inr s2"
  shows "case loaded_prices s1 symb of
      None \<Rightarrow> price_row (tx s2) symb = price_row (tx s) symb
    | Some p \<Rightarrow> (\<exists>r. store_price e p = Inr r \<and> price_row (tx s2) symb = Some r)"
proof (cases "loaded_prices s1 symb")
  case None
  have "loaded_prices s2 symb = None" using None flush_frame [OF assms(3)] by simp
  moreover have "evolves s s2" using assms(1) flush_evolves [OF assms(3)] by (rule evolves_trans)
  ultimately show ?thesis using None evolves_unloaded(4) assms(2) by auto
next
  case (Some p)
  have "session_ok s1" using assms(1,2) by (rule evolves_ok)
  from flush_stored(4) [OF assms(3) this Some] Some show ?thesis by simp
qed

end
