(* ===== verification/Session_View.thy ===== *)
theory Session_View
  imports Orm_Session
begin

text \<open>
  The abstraction of a session: what its code sees.

  The view of a session overlays the rows of its transaction with its loaded objects. It forgets
  which objects are loaded, what has been flushed and what a flush makes of the values; every
  operation of a repository then is an update of the view (\<open>view_flush\<close>, \<open>view_set_*\<close> and the
  lemmas of the repositories), and what a commit leaves in the tables is the view, fitted to the
  columns (\<open>commit_leaves\<close>). The proofs about the services are done on views.
\<close>

section \<open>The view of a session\<close>

record view =
  v_accounts :: "uuid \<rightharpoonup> account"
  v_orders :: "uuid \<rightharpoonup> order"
  v_positions :: "(uuid \<times> string) \<rightharpoonup> position"
  v_prices :: "string \<rightharpoonup> market_price"
  v_fills :: "fill list"
  v_events :: "order_event list"
  v_processed :: "processed_broker_event list"

definition overlay :: "('r \<Rightarrow> 'k) \<Rightarrow> 'r list \<Rightarrow> ('k \<rightharpoonup> 'r) \<Rightarrow> 'k \<rightharpoonup> 'r" where
  "overlay key rows loaded = (\<lambda>k. row_of key k rows) ++ loaded"

definition view :: "session \<Rightarrow> view" where
  "view s =
     \<lparr>v_accounts = overlay a_id (accounts (tx s)) (loaded_accounts s),
      v_orders = overlay o_id (orders (tx s)) (loaded_orders s),
      v_positions = overlay p_key (positions (tx s)) (loaded_positions s),
      v_prices = overlay m_symbol (market_prices (tx s)) (loaded_prices s),
      v_fills = fills (tx s), v_events = order_events (tx s),
      v_processed = processed_broker_events (tx s)\<rparr>"

lemma overlay_apply:
  "overlay key rows loaded k = (case loaded k of None \<Rightarrow> row_of key k rows | Some x \<Rightarrow> Some x)"
  by (simp add: overlay_def map_add_def)

lemma overlay_empty [simp]: "overlay key rows Map.empty = (\<lambda>k. row_of key k rows)"
  by (simp add: overlay_def)

lemma overlay_upd [simp]: "overlay key rows (loaded(k \<mapsto> x)) = (overlay key rows loaded)(k \<mapsto> x)"
  by (simp add: overlay_def)

lemma overlay_insert:
  assumes "key row = k"
  shows "(overlay key (rows @ [row]) loaded)(k \<mapsto> x) = (overlay key rows loaded)(k \<mapsto> x)"
proof
  fix k'
  show "((overlay key (rows @ [row]) loaded)(k \<mapsto> x)) k' = ((overlay key rows loaded)(k \<mapsto> x)) k'"
  proof (cases "k' = k")
    case True
    then show ?thesis by (simp add: overlay_apply)
  next
    case False
    then show ?thesis using assms
      by (cases "row_of key k' rows") (auto simp: overlay_apply row_of_append row_of_Cons split: option.splits)
  qed
qed

lemma overlay_key:
  "loaded_ok key loaded rows \<Longrightarrow> overlay key rows loaded k = Some x \<Longrightarrow> key x = k"
  by (auto simp: overlay_apply loaded_ok_def split: option.splits dest: row_of_SomeD)

lemma overlay_None:
  "loaded_ok key loaded rows \<Longrightarrow> overlay key rows loaded k = None \<longleftrightarrow> row_of key k rows = None"
  by (auto simp: overlay_apply loaded_ok_def row_of_None_iff split: option.splits)

context stored_rows
begin

lemma overlay_write_back:
  assumes "loaded_ok key loaded rows" and "write_back key writes loaded rows = Inr rows'"
  shows "overlay key rows' loaded = overlay key rows loaded"
proof
  fix k
  show "overlay key rows' loaded k = overlay key rows loaded k"
    using write_back_row [OF assms, of k]
    by (auto simp: overlay_apply split: option.splits)
qed

end

lemma view_open:
  "view (open_session db) =
     \<lparr>v_accounts = account_row db, v_orders = order_row db, v_positions = (\<lambda>k. row_of p_key k (positions db)),
      v_prices = price_row db, v_fills = fills db, v_events = order_events db,
      v_processed = processed_broker_events db\<rparr>"
  by (simp add: view_def open_session_def)

lemma view_flush:
  assumes "flush e s = Inr s'" and "session_ok s"
  shows "view s' = view s"
  using assms
  by (auto simp: view_def flush_eq_Inr session_ok_def account_rows.overlay_write_back
      order_rows.overlay_write_back position_rows.overlay_write_back price_rows.overlay_write_back)

lemma view_set_account:
  "view (set_account a s) = (view s)\<lparr>v_accounts := (v_accounts (view s))(a_id a \<mapsto> a)\<rparr>"
  by (simp add: view_def set_account_def)

lemma view_set_order:
  "view (set_order ord s) = (view s)\<lparr>v_orders := (v_orders (view s))(o_id ord \<mapsto> ord)\<rparr>"
  by (simp add: view_def set_order_def)

lemma view_set_position:
  "view (set_position p s) = (view s)\<lparr>v_positions := (v_positions (view s))(p_key p \<mapsto> p)\<rparr>"
  by (simp add: view_def set_position_def)

lemma view_set_price:
  "view (set_price m s) = (view s)\<lparr>v_prices := (v_prices (view s))(m_symbol m \<mapsto> m)\<rparr>"
  by (simp add: view_def set_price_def)

lemmas view_sets = view_set_account view_set_order view_set_position view_set_price

lemma view_keys:
  assumes "session_ok s"
  shows "v_accounts (view s) aid = Some a \<Longrightarrow> a_id a = aid"
    and "v_orders (view s) oid = Some ord \<Longrightarrow> o_id ord = oid"
    and "v_positions (view s) pk = Some p \<Longrightarrow> p_key p = pk"
    and "v_prices (view s) symb = Some m \<Longrightarrow> m_symbol m = symb"
  using assms by (auto simp: view_def session_ok_def dest: overlay_key)

lemma view_has_row:
  assumes "session_ok s"
  shows "account_row (tx s) aid = None \<longleftrightarrow> v_accounts (view s) aid = None"
    and "order_row (tx s) oid = None \<longleftrightarrow> v_orders (view s) oid = None"
    and "row_of p_key pk (positions (tx s)) = None \<longleftrightarrow> v_positions (view s) pk = None"
    and "price_row (tx s) symb = None \<longleftrightarrow> v_prices (view s) symb = None"
  using assms by (simp_all add: view_def session_ok_def overlay_None)

section \<open>Well-formed databases\<close>

text \<open>The rows of a database fit their columns: storing them again changes nothing.\<close>

definition settled :: "env \<Rightarrow> database \<Rightarrow> bool" where
  "settled e db \<longleftrightarrow>
     (\<forall>r\<in>set (accounts db). store_account e r = Inr r) \<and>
     (\<forall>r\<in>set (orders db). store_order e r = Inr r) \<and>
     (\<forall>r\<in>set (positions db). store_position e r = Inr r) \<and>
     (\<forall>r\<in>set (market_prices db). store_price e r = Inr r)"

lemma settled_empty [simp]: "settled e empty_db"
  by (simp add: settled_def empty_db_def)

lemma settledD:
  assumes "settled e db"
  shows "account_row db aid = Some a \<Longrightarrow> store_account e a = Inr a"
    and "order_row db oid = Some ord \<Longrightarrow> store_order e ord = Inr ord"
    and "row_of p_key pk (positions db) = Some p \<Longrightarrow> store_position e p = Inr p"
    and "price_row db symb = Some m \<Longrightarrow> store_price e m = Inr m"
  using assms by (auto simp: settled_def dest: row_of_SomeD)

text \<open>The primary and unique keys that the look-ups use are unique.\<close>

definition keys_distinct :: "database \<Rightarrow> bool" where
  "keys_distinct db \<longleftrightarrow>
     distinct (map a_id (accounts db)) \<and> distinct (map o_id (orders db)) \<and>
     distinct (map p_key (positions db)) \<and> distinct (map m_symbol (market_prices db)) \<and>
     distinct (map b_broker_event_id (processed_broker_events db)) \<and>
     distinct (map f_broker_event_id (fills db)) \<and> distinct (map f_execution_id (fills db))"

definition well_formed :: "env \<Rightarrow> database \<Rightarrow> bool" where
  "well_formed e db \<longleftrightarrow> settled e db \<and> keys_distinct db"

lemmas well_formed_defs = well_formed_def keys_distinct_def settled_def

lemma well_formed_empty [simp]: "well_formed e empty_db"
  by (simp add: well_formed_def keys_distinct_def empty_db_def settled_def)

lemma well_formed_settled: "well_formed e db \<Longrightarrow> settled e db"
  by (simp add: well_formed_def)

section \<open>Steps of a session\<close>

text \<open>
  A step of a session turns its view by a function; the session develops as \<open>evolves\<close> says, and
  its tables stay well-formed.
\<close>

definition steps_to :: "env \<Rightarrow> session \<Rightarrow> (view \<Rightarrow> view) \<Rightarrow> session \<Rightarrow> bool" where
  "steps_to e s f s' \<longleftrightarrow>
     (session_ok s \<longrightarrow> evolves s s' \<and> session_ok s' \<and> view s' = f (view s) \<and>
        (documented e \<and> well_formed e (tx s) \<longrightarrow> well_formed e (tx s')))"

lemma steps_toI:
  "(session_ok s \<Longrightarrow> evolves s s' \<and> view s' = f (view s) \<and>
      (documented e \<and> well_formed e (tx s) \<longrightarrow> well_formed e (tx s'))) \<Longrightarrow> steps_to e s f s'"
  by (auto simp: steps_to_def intro: evolves_ok)

lemma steps_to_trans:
  "steps_to e s f s' \<Longrightarrow> steps_to e s' g s'' \<Longrightarrow> steps_to e s (\<lambda>v. g (f v)) s''"
  by (auto simp: steps_to_def intro: evolves_trans)

lemma steps_toD:
  "steps_to e s f s' \<Longrightarrow> session_ok s \<Longrightarrow> evolves s s' \<and> session_ok s' \<and> view s' = f (view s)"
  by (simp add: steps_to_def)

lemma steps_to_well_formed:
  "steps_to e s f s' \<Longrightarrow> session_ok s \<Longrightarrow> documented e \<Longrightarrow> well_formed e (tx s) \<Longrightarrow> well_formed e (tx s')"
  by (simp add: steps_to_def)

lemma tx_set [simp]:
  "tx (set_account a s) = tx s" "tx (set_order ord s) = tx s" "tx (set_position p s) = tx s" "tx (set_price m s) = tx s"
  by (simp_all add: session_sets)

context documented_env
begin

lemma flush_settles:
  assumes "flush e s = Inr s'" and "settled e (tx s)"
  shows "settled e (tx s')"
proof -
  obtain as ms os ps where w:
      "write_back a_id (write_account e (known_accounts s)) (loaded_accounts s) (accounts (tx s)) = Inr as"
      "write_back m_symbol (\<lambda>_. store_price e) (loaded_prices s) (market_prices (tx s)) = Inr ms"
      "write_back o_id (write_order e (known_orders s)) (loaded_orders s) (orders (tx s)) = Inr os"
      "write_back p_key (\<lambda>_. store_position e) (loaded_positions s) (positions (tx s)) = Inr ps"
      "s' = s\<lparr>tx := (tx s)\<lparr>accounts := as, market_prices := ms, orders := os, positions := ps\<rparr>\<rparr>"
    using assms(1) by (auto simp: flush_eq_Inr)
  show ?thesis
    using account_table.write_back_settles [OF w(1)] price_table.write_back_settles [OF w(2)]
      order_table.write_back_settles [OF w(3)] position_table.write_back_settles [OF w(4)] assms(2)
    by (simp add: settled_def w(5))
qed

end

lemma flush_well_formed:
  assumes "flush e s = Inr s'" and "session_ok s" and "documented e" and "well_formed e (tx s)"
  shows "well_formed e (tx s')"
  using documented_env.flush_settles [OF documented_env.intro [OF assms(3)] assms(1)]
    flush_keys [OF assms(1,2)] flush_frame [OF assms(1)] assms(4)
  by (simp add: well_formed_def keys_distinct_def)

lemma flush_steps: "flush e s = Inr s' \<Longrightarrow> steps_to e s (\<lambda>v. v) s'"
  by (rule steps_toI) (simp add: flush_evolves view_flush flush_well_formed)

lemma set_account_steps:
  "v_accounts (view s) (a_id a) \<noteq> None \<Longrightarrow>
     steps_to e s (\<lambda>v. v\<lparr>v_accounts := (v_accounts v)(a_id a \<mapsto> a)\<rparr>) (set_account a s)"
  by (rule steps_toI) (simp add: set_account_evolves view_set_account view_has_row)

lemma set_order_steps:
  "v_orders (view s) (o_id ord) \<noteq> None \<Longrightarrow>
     steps_to e s (\<lambda>v. v\<lparr>v_orders := (v_orders v)(o_id ord \<mapsto> ord)\<rparr>) (set_order ord s)"
  by (rule steps_toI) (simp add: set_order_evolves view_set_order view_has_row)

lemma set_position_steps:
  "v_positions (view s) (p_key p) \<noteq> None \<Longrightarrow>
     steps_to e s (\<lambda>v. v\<lparr>v_positions := (v_positions v)(p_key p \<mapsto> p)\<rparr>) (set_position p s)"
  by (rule steps_toI) (simp add: set_position_evolves view_set_position view_has_row)

text \<open>Loading the object of a row the session has not loaded yet.\<close>

lemma view_reload:
  "v_accounts (view s) (a_id a) = Some a \<Longrightarrow> view (set_account a s) = view s"
  "v_orders (view s) (o_id ord) = Some ord \<Longrightarrow> view (set_order ord s) = view s"
  "v_positions (view s) (p_key p) = Some p \<Longrightarrow> view (set_position p s) = view s"
  "v_prices (view s) (m_symbol m) = Some m \<Longrightarrow> view (set_price m s) = view s"
  by (simp_all add: view_sets fun_upd_idem)

lemma resolve_account_steps:
  assumes "resolve_account r s = (a, s')" and "account_row (tx s) (a_id r) = Some r"
  shows "steps_to e s (\<lambda>v. v) s' \<and> v_accounts (view s) (a_id r) = Some a"
proof (cases "loaded_accounts s (a_id r)")
  case None
  with assms(2) have v: "v_accounts (view s) (a_id r) = Some r" by (simp add: view_def overlay_apply)
  with None assms show ?thesis
    by (auto simp: resolve_account_def view_reload set_account_evolves intro!: steps_toI)
next
  case (Some x)
  with assms show ?thesis
    by (auto simp: resolve_account_def view_def overlay_apply intro: steps_toI)
qed

lemma resolve_order_steps:
  assumes "resolve_order r s = (ord, s')" and "order_row (tx s) (o_id r) = Some r"
  shows "steps_to e s (\<lambda>v. v) s' \<and> v_orders (view s) (o_id r) = Some ord"
proof (cases "loaded_orders s (o_id r)")
  case None
  with assms(2) have v: "v_orders (view s) (o_id r) = Some r" by (simp add: view_def overlay_apply)
  with None assms show ?thesis
    by (auto simp: resolve_order_def view_reload set_order_evolves intro!: steps_toI)
next
  case (Some x)
  with assms show ?thesis
    by (auto simp: resolve_order_def view_def overlay_apply intro: steps_toI)
qed

lemma resolve_position_steps:
  assumes "resolve_position r s = (p, s')" and "row_of p_key (p_key r) (positions (tx s)) = Some r"
  shows "steps_to e s (\<lambda>v. v) s' \<and> v_positions (view s) (p_key r) = Some p"
proof (cases "loaded_positions s (p_key r)")
  case None
  with assms(2) have v: "v_positions (view s) (p_key r) = Some r" by (simp add: view_def overlay_apply)
  with None assms show ?thesis
    by (auto simp: resolve_position_def view_reload set_position_evolves intro!: steps_toI)
next
  case (Some x)
  with assms show ?thesis
    by (auto simp: resolve_position_def view_def overlay_apply intro: steps_toI)
qed

lemma resolve_price_steps:
  assumes "resolve_price r s = (m, s')" and "price_row (tx s) (m_symbol r) = Some r"
  shows "steps_to e s (\<lambda>v. v) s' \<and> v_prices (view s) (m_symbol r) = Some m"
proof (cases "loaded_prices s (m_symbol r)")
  case None
  with assms(2) have v: "v_prices (view s) (m_symbol r) = Some r" by (simp add: view_def overlay_apply)
  with None assms show ?thesis
    by (auto simp: resolve_price_def view_reload set_price_evolves intro!: steps_toI)
next
  case (Some x)
  with assms show ?thesis
    by (auto simp: resolve_price_def view_def overlay_apply intro: steps_toI)
qed

section \<open>What a commit leaves in the tables\<close>

definition stored_as :: "('r \<Rightarrow> 'e + 'r) \<Rightarrow> 'r option \<Rightarrow> 'r option \<Rightarrow> bool" where
  "stored_as store v row \<longleftrightarrow>
     (case v of None \<Rightarrow> row = None | Some x \<Rightarrow> (\<exists>r. store x = Inr r \<and> row = Some r))"

lemma stored_as_Some [simp]: "stored_as store (Some x) row \<longleftrightarrow> (\<exists>r. store x = Inr r \<and> row = Some r)"
  by (simp add: stored_as_def)

lemma stored_as_None [simp]: "stored_as store None row \<longleftrightarrow> row = None"
  by (simp add: stored_as_def)

text \<open>The tables of \<open>db\<close> are the view \<open>v\<close>, fitted to the columns.\<close>

definition leaves :: "env \<Rightarrow> view \<Rightarrow> database \<Rightarrow> bool" where
  "leaves e v db \<longleftrightarrow>
     (\<forall>aid. stored_as (store_account e) (v_accounts v aid) (account_row db aid)) \<and>
     (\<forall>oid. stored_as (store_order e) (v_orders v oid) (order_row db oid)) \<and>
     (\<forall>aid symb. stored_as (store_position e) (v_positions v (aid, symb)) (position_row db aid symb)) \<and>
     (\<forall>symb. stored_as (store_price e) (v_prices v symb) (price_row db symb)) \<and>
     fills db = v_fills v \<and> order_events db = v_events v \<and> processed_broker_events db = v_processed v"

lemma leavesD:
  assumes "leaves e v db"
  shows "stored_as (store_account e) (v_accounts v aid) (account_row db aid)"
    and "stored_as (store_order e) (v_orders v oid) (order_row db oid)"
    and "stored_as (store_position e) (v_positions v (aid, symb)) (position_row db aid symb)"
    and "stored_as (store_price e) (v_prices v symb) (price_row db symb)"
    and "fills db = v_fills v" "order_events db = v_events v" "processed_broker_events db = v_processed v"
  using assms by (simp_all add: leaves_def)

lemma commit_leaves:
  assumes "evolves s s1" and "session_ok s" and "settled e (tx s)" and "flush e s1 = Inr s2"
  shows "leaves e (view s1) (tx s2)"
  unfolding leaves_def
proof (intro conjI allI)
  fix aid oid symb
  show "stored_as (store_account e) (v_accounts (view s1) aid) (account_row (tx s2) aid)"
    using committed_account [OF assms(1,2,4), of aid] settledD(1) [OF assms(3), of aid]
      evolves_unloaded(1) [OF assms(1,2), of aid]
    by (cases "loaded_accounts s1 aid"; cases "account_row (tx s) aid") (auto simp: view_def overlay_apply)
  show "stored_as (store_order e) (v_orders (view s1) oid) (order_row (tx s2) oid)"
    using committed_order [OF assms(1,2,4), of oid] settledD(2) [OF assms(3), of oid]
      evolves_unloaded(2) [OF assms(1,2), of oid]
    by (cases "loaded_orders s1 oid"; cases "order_row (tx s) oid") (auto simp: view_def overlay_apply)
  show "stored_as (store_position e) (v_positions (view s1) (aid, symb)) (position_row (tx s2) aid symb)"
    using committed_position [OF assms(1,2,4), of aid symb] settledD(3) [OF assms(3), of "(aid, symb)"]
      evolves_unloaded(3) [OF assms(1,2), of aid symb]
    by (cases "loaded_positions s1 (aid, symb)"; cases "position_row (tx s) aid symb")
      (auto simp: view_def overlay_apply)
  show "stored_as (store_price e) (v_prices (view s1) symb) (price_row (tx s2) symb)"
    using committed_price [OF assms(1,2,4), of symb] settledD(4) [OF assms(3), of symb]
      evolves_unloaded(4) [OF assms(1,2), of symb]
    by (cases "loaded_prices s1 symb"; cases "price_row (tx s) symb") (auto simp: view_def overlay_apply)
  show "fills (tx s2) = v_fills (view s1)" "order_events (tx s2) = v_events (view s1)"
    "processed_broker_events (tx s2) = v_processed (view s1)"
    using flush_frame [OF assms(4)] by (simp_all add: view_def)
qed

text \<open>A transaction on a fresh session: its committed database is the view its body reached.\<close>

definition db_view :: "database \<Rightarrow> view" where
  "db_view db = view (open_session db)"

lemma db_view_simps [simp]:
  "v_accounts (db_view db) = account_row db" "v_orders (db_view db) = order_row db"
  "v_positions (db_view db) (aid, symb) = position_row db aid symb" "v_prices (db_view db) = price_row db"
  "v_fills (db_view db) = fills db" "v_events (db_view db) = order_events db"
  "v_processed (db_view db) = processed_broker_events db"
  by (simp_all add: db_view_def view_open)

lemma tx_open [simp]: "tx (open_session db) = db"
  by (simp add: open_session_def)

lemma transaction_leaves:
  assumes "transaction e body (open_session db) = (Inr x, s2)" and "settled e db"
    and "\<And>s1. body (open_session db) = Inr (x, s1) \<Longrightarrow> steps_to e (open_session db) f s1"
  shows "leaves e (f (db_view db)) (tx s2)"
proof -
  from assms(1) obtain s1 where s1: "body (open_session db) = Inr (x, s1)" "flush e s1 = Inr s2"
    by (auto simp: transaction_Inr)
  from steps_toD [OF assms(3) [OF s1(1)]] have "evolves (open_session db) s1" "view s1 = f (db_view db)"
    by (simp_all add: db_view_def)
  with commit_leaves [OF _ _ _ s1(2)] assms(2) show ?thesis by (metis session_ok_open tx_open)
qed

text \<open>The unchanged entries of a settled database stay as they are.\<close>

lemma leaves_unchanged:
  assumes "leaves e v db'" and "settled e db"
  shows "v_accounts v aid = account_row db aid \<Longrightarrow> account_row db' aid = account_row db aid"
    and "v_orders v oid = order_row db oid \<Longrightarrow> order_row db' oid = order_row db oid"
    and "v_positions v (aid, symb) = position_row db aid symb \<Longrightarrow>
           position_row db' aid symb = position_row db aid symb"
    and "v_prices v symb = price_row db symb \<Longrightarrow> price_row db' symb = price_row db symb"
proof -
  note l = leavesD [OF assms(1)] and d = settledD [OF assms(2)]
  show "account_row db' aid = account_row db aid" if "v_accounts v aid = account_row db aid"
    using l(1) [of aid] d(1) [of aid] that by (cases "account_row db aid") auto
  show "order_row db' oid = order_row db oid" if "v_orders v oid = order_row db oid"
    using l(2) [of oid] d(2) [of oid] that by (cases "order_row db oid") auto
  show "position_row db' aid symb = position_row db aid symb"
    if "v_positions v (aid, symb) = position_row db aid symb"
    using l(3) [of aid symb] d(3) [of "(aid, symb)"] that by (cases "position_row db aid symb") auto
  show "price_row db' symb = price_row db symb" if "v_prices v symb = price_row db symb"
    using l(4) [of symb] d(4) [of symb] that by (cases "price_row db symb") auto
qed

text \<open>A transaction that only looked an order up commits nothing.\<close>

lemma order_row_distinct:
  "keys_distinct db \<Longrightarrow> r \<in> set (orders db) \<Longrightarrow> order_row db (o_id r) = Some r"
  by (simp add: keys_distinct_def row_of_self)

lemma account_row_distinct:
  "keys_distinct db \<Longrightarrow> r \<in> set (accounts db) \<Longrightarrow> account_row db (a_id r) = Some r"
  by (simp add: keys_distinct_def row_of_self)

lemma flush_read_only:
  assumes "well_formed e db"
    and "\<forall>aid a. loaded_accounts s aid = Some a \<longrightarrow> account_row db aid = Some a"
    and "\<forall>oid ord. loaded_orders s oid = Some ord \<longrightarrow> order_row db oid = Some ord"
    and "loaded_positions s = Map.empty" "loaded_prices s = Map.empty"
    and "known_accounts s = Map.empty" "known_orders s = Map.empty" "tx s = db"
  shows "flush e s = Inr s"
proof -
  have w: "settled e db" "keys_distinct db" using assms(1) by (simp_all add: well_formed_def)
  have "write_back a_id (write_account e Map.empty) (loaded_accounts s) (accounts db) = Inr (accounts db)"
    using assms(2) settledD(1) [OF w(1)] account_row_distinct [OF w(2)]
    by (intro write_back_unchanged) force
  moreover have "write_back o_id (write_order e Map.empty) (loaded_orders s) (orders db) = Inr (orders db)"
    using assms(3) settledD(2) [OF w(1)] order_row_distinct [OF w(2)]
    by (intro write_back_unchanged) force
  ultimately show ?thesis by (simp add: flush_def assms(4-8))
qed

lemma transaction_well_formed:
  assumes "transaction e body s = (r, s')" and "session_ok s" and "documented e" and "well_formed e (tx s)"
    and "\<And>x s1. body s = Inr (x, s1) \<Longrightarrow> \<exists>f. steps_to e s f s1"
  shows "well_formed e (tx s')"
proof (cases r)
  case (Inl err)
  with assms(1,4) show ?thesis by (auto dest: transaction_rollback)
next
  case (Inr x)
  with assms(1) obtain s1 where s1: "body s = Inr (x, s1)" "flush e s1 = Inr s'"
    by (auto simp: transaction_Inr)
  from assms(5) [OF s1(1)] obtain f where "steps_to e s f s1" ..
  from steps_to_trans [OF this flush_steps [OF s1(2)]] assms(2-4) show ?thesis
    by (auto intro: steps_to_well_formed)
qed

end
