(* ===== verification/Repositories.thy ===== *)
theory Repositories
  imports Session_View "HOL-Library.Multiset"
begin

text \<open>
  The repositories of \<open>app/repositories/\<close>: the queries and inserts of the services.

  A query selects rows of the transaction's tables by its \<open>WHERE\<close> clause and yields the session's
  objects for them; \<open>WITH FOR UPDATE\<close> adds row locks, which is why a transaction may be treated
  as one step on the rows it touches. \<open>add\<close> is \<open>session.add\<close> with the \<open>flush\<close> that follows it in
  every repository: pending changes of loaded objects are written, then the new row is inserted.
\<close>

section \<open>Accounts\<close>

definition account_add :: "env \<Rightarrow> account \<Rightarrow> session \<Rightarrow> oms_error + session" where
  "account_add e a s =
     and_then (flush e s) (\<lambda>s.
     and_then (insert_account e a (tx s)) (\<lambda>db.
     Inr (set_account a (s\<lparr>tx := db\<rparr>))))"

definition select_account ::
  "(account \<Rightarrow> bool) \<Rightarrow> session \<Rightarrow> oms_error + account option \<times> session" where
  "select_account P s =
     and_then (select_one MultipleResultsFound P (accounts (tx s))) (\<lambda>found.
     case found of
       None \<Rightarrow> Inr (None, s)
     | Some r \<Rightarrow> (case resolve_account r s of (a, s') \<Rightarrow> Inr (Some a, s')))"

definition account_get_by_id :: "uuid \<Rightarrow> session \<Rightarrow> oms_error + account option \<times> session" where
  "account_get_by_id aid s =
     (case loaded_accounts s aid of
        Some a \<Rightarrow> Inr (Some a, s)
      | None \<Rightarrow> select_account (\<lambda>r. a_id r = aid) s)"

definition account_get_for_update :: "uuid \<Rightarrow> session \<Rightarrow> oms_error + account option \<times> session" where
  "account_get_for_update aid s = select_account (\<lambda>r. a_id r = aid) s"

definition account_get_by_user_id :: "string \<Rightarrow> session \<Rightarrow> oms_error + account option \<times> session" where
  "account_get_by_user_id user s = select_account (\<lambda>r. a_user_id r = user) s"

section \<open>Orders, their events and fills\<close>

definition order_add :: "env \<Rightarrow> order \<Rightarrow> session \<Rightarrow> oms_error + session" where
  "order_add e ord s =
     and_then (flush e s) (\<lambda>s.
     and_then (insert_order e ord (tx s)) (\<lambda>db.
     Inr (set_order ord (s\<lparr>tx := db\<rparr>))))"

definition select_order ::
  "(order \<Rightarrow> bool) \<Rightarrow> session \<Rightarrow> oms_error + order option \<times> session" where
  "select_order P s =
     and_then (select_one MultipleResultsFound P (orders (tx s))) (\<lambda>found.
     case found of
       None \<Rightarrow> Inr (None, s)
     | Some r \<Rightarrow> (case resolve_order r s of (ord, s') \<Rightarrow> Inr (Some ord, s')))"

definition order_get_by_id :: "uuid \<Rightarrow> session \<Rightarrow> oms_error + order option \<times> session" where
  "order_get_by_id oid s =
     (case loaded_orders s oid of
        Some ord \<Rightarrow> Inr (Some ord, s)
      | None \<Rightarrow> select_order (\<lambda>r. o_id r = oid) s)"

definition order_get_for_update :: "uuid \<Rightarrow> session \<Rightarrow> oms_error + order option \<times> session" where
  "order_get_for_update oid s = select_order (\<lambda>r. o_id r = oid) s"

definition order_get_by_idempotency_key ::
  "uuid \<Rightarrow> string \<Rightarrow> session \<Rightarrow> oms_error + order option \<times> session" where
  "order_get_by_idempotency_key aid key s =
     select_order (\<lambda>r. o_account_id r = aid \<and> o_idempotency_key r = key) s"

definition order_get_by_client_order_id ::
  "uuid \<Rightarrow> string \<Rightarrow> session \<Rightarrow> oms_error + order option \<times> session" where
  "order_get_by_client_order_id aid client s =
     select_order (\<lambda>r. o_account_id r = aid \<and> o_client_order_id r = client) s"

text \<open>
  \<open>ORDER BY\<close> leaves open in which order rows of the same key come, and that may differ from one query
  to the next: a query sorts what its scan of the table gives, some permutation of the rows.
\<close>

type_synonym 'r scan = "'r list \<Rightarrow> 'r list"

definition documented_scan :: "'r scan \<Rightarrow> bool" where
  "documented_scan scan \<longleftrightarrow> (\<forall>rows. mset (scan rows) = mset rows)"

text \<open>\<open>created_at DESC\<close>, then \<open>LIMIT\<close> and \<open>OFFSET\<close>.\<close>

definition order_list_orders ::
  "order scan \<Rightarrow> uuid option \<Rightarrow> order_status option \<Rightarrow> bool \<Rightarrow> nat \<Rightarrow> nat \<Rightarrow> database \<Rightarrow> order list" where
  "order_list_orders scan account status open_only limit offset db =
     take limit (drop offset (sort_key (\<lambda>r. - o_created_at r)
       (scan (filter (\<lambda>r. (case account of None \<Rightarrow> True | Some aid \<Rightarrow> o_account_id r = aid) \<and>
                    (case status of None \<Rightarrow> True | Some st \<Rightarrow> o_status r = st) \<and>
                    (open_only \<longrightarrow> o_status r \<in> OPEN_ORDER_STATUSES)) (orders db)))))"

definition order_list_expired_day_order_ids :: "order scan \<Rightarrow> timestamp \<Rightarrow> nat \<Rightarrow> database \<Rightarrow> uuid list" where
  "order_list_expired_day_order_ids scan t limit db =
     take limit (map o_id (sort_key (\<lambda>r. case o_expires_at r of None \<Rightarrow> 0 | Some x \<Rightarrow> x)
       (scan (filter (\<lambda>r. o_time_in_force r = DAY \<and> o_status r \<in> OPEN_ORDER_STATUSES \<and>
                    (case o_expires_at r of None \<Rightarrow> False | Some x \<Rightarrow> x \<le> t)) (orders db)))))"

definition order_add_event :: "env \<Rightarrow> order_event \<Rightarrow> session \<Rightarrow> oms_error + session" where
  "order_add_event e ev s =
     and_then (flush e s) (\<lambda>s.
     and_then (insert_event ev (tx s)) (\<lambda>db. Inr (s\<lparr>tx := db\<rparr>)))"

definition order_add_fill :: "env \<Rightarrow> fill \<Rightarrow> session \<Rightarrow> oms_error + session" where
  "order_add_fill e f s =
     and_then (flush e s) (\<lambda>s.
     and_then (insert_fill e f (tx s)) (\<lambda>db. Inr (s\<lparr>tx := db\<rparr>)))"

definition order_list_fills :: "fill scan \<Rightarrow> uuid \<Rightarrow> database \<Rightarrow> fill list" where
  "order_list_fills scan oid db =
     sort_key f_executed_at (scan (filter (\<lambda>f. f_order_id f = oid) (fills db)))"

definition order_list_events :: "order_event scan \<Rightarrow> uuid \<Rightarrow> database \<Rightarrow> order_event list" where
  "order_list_events scan oid db =
     sort_key e_created_at (scan (filter (\<lambda>ev. e_order_id ev = oid) (order_events db)))"

section \<open>Positions\<close>

definition position_add :: "env \<Rightarrow> position \<Rightarrow> session \<Rightarrow> oms_error + session" where
  "position_add e p s =
     and_then (flush e s) (\<lambda>s.
     and_then (insert_position e p (tx s)) (\<lambda>db.
     Inr (set_position p (s\<lparr>tx := db\<rparr>))))"

definition position_get_for_update ::
  "uuid \<Rightarrow> string \<Rightarrow> session \<Rightarrow> oms_error + position option \<times> session" where
  "position_get_for_update aid symb s =
     and_then (select_one MultipleResultsFound (\<lambda>r. p_key r = (aid, symb)) (positions (tx s))) (\<lambda>found.
     case found of
       None \<Rightarrow> Inr (None, s)
     | Some r \<Rightarrow> (case resolve_position r s of (p, s') \<Rightarrow> Inr (Some p, s')))"

text \<open>\<open>ORDER BY symbol\<close> is a stable insertion by text order.\<close>

fun text_less_eq :: "string \<Rightarrow> string \<Rightarrow> bool" where
  "text_less_eq [] t = True"
| "text_less_eq (c # s) [] = False"
| "text_less_eq (c # s) (d # t) =
     (if (of_char c :: nat) < of_char d then True
      else if (of_char d :: nat) < of_char c then False else text_less_eq s t)"

fun insert_by_symbol :: "position \<Rightarrow> position list \<Rightarrow> position list" where
  "insert_by_symbol p [] = [p]"
| "insert_by_symbol p (q # qs) =
     (if text_less_eq (p_symbol p) (p_symbol q) then p # q # qs else q # insert_by_symbol p qs)"

definition position_list_by_account :: "uuid \<Rightarrow> database \<Rightarrow> position list" where
  "position_list_by_account aid db =
     foldr insert_by_symbol (filter (\<lambda>p. p_account_id p = aid) (positions db)) []"

fun resolve_positions :: "position list \<Rightarrow> session \<Rightarrow> position list \<times> session" where
  "resolve_positions [] s = ([], s)"
| "resolve_positions (r # rs) s =
     (case resolve_position r s of (p, s') \<Rightarrow>
      case resolve_positions rs s' of (ps, s'') \<Rightarrow> (p # ps, s''))"

definition position_list_by_symbol_for_update ::
  "string \<Rightarrow> session \<Rightarrow> position list \<times> session" where
  "position_list_by_symbol_for_update symb s =
     resolve_positions (filter (\<lambda>p. p_symbol p = symb) (positions (tx s))) s"

section \<open>Broker events\<close>

definition processed_get_by_event_id ::
  "uuid \<Rightarrow> session \<Rightarrow> oms_error + processed_broker_event option" where
  "processed_get_by_event_id eid s =
     select_one MultipleResultsFound (\<lambda>b. b_broker_event_id b = eid) (processed_broker_events (tx s))"

definition processed_add :: "env \<Rightarrow> processed_broker_event \<Rightarrow> session \<Rightarrow> oms_error + session" where
  "processed_add e b s =
     and_then (flush e s) (\<lambda>s.
     and_then (insert_processed e b (tx s)) (\<lambda>db. Inr (s\<lparr>tx := db\<rparr>)))"

section \<open>Market prices\<close>

definition price_get :: "string \<Rightarrow> session \<Rightarrow> oms_error + market_price option \<times> session" where
  "price_get symb s =
     (case loaded_prices s symb of
        Some m \<Rightarrow> Inr (Some m, s)
      | None \<Rightarrow>
          and_then (select_one MultipleResultsFound (\<lambda>r. m_symbol r = symb) (market_prices (tx s))) (\<lambda>found.
          case found of
            None \<Rightarrow> Inr (None, s)
          | Some r \<Rightarrow> (case resolve_price r s of (m, s') \<Rightarrow> Inr (Some m, s'))))"

definition price_upsert ::
  "env \<Rightarrow> string \<Rightarrow> rat \<Rightarrow> timestamp \<Rightarrow> session \<Rightarrow> oms_error + (market_price \<times> bool) \<times> session" where
  "price_upsert e symb price observed_at s =
     and_then (price_get symb s) (\<lambda>(found, s).
     case found of
       None \<Rightarrow>
         (let m = \<lparr>m_symbol = symb, m_price = price, m_observed_at = observed_at\<rparr>
          in and_then (flush e s) (\<lambda>s.
             and_then (insert_price e m (tx s)) (\<lambda>db.
             Inr ((m, True), set_price m (s\<lparr>tx := db\<rparr>)))))
     | Some m \<Rightarrow>
         if m_observed_at m \<le> observed_at then
           (let m' = m\<lparr>m_price := price, m_observed_at := observed_at\<rparr>
            in and_then (flush e (set_price m' s)) (\<lambda>s. Inr ((m', True), s)))
         else and_then (flush e s) (\<lambda>s. Inr ((m, False), s)))"

section \<open>What the repository operations do to a session\<close>

text \<open>A look-up by key finds what the view shows, and changes nothing of it.\<close>

lemma account_get_for_update_steps:
  assumes "account_get_for_update aid s = Inr (found, s')" and "session_ok s"
  shows "steps_to e s (\<lambda>v. v) s' \<and> found = v_accounts (view s) aid"
proof -
  obtain row where f: "select_one MultipleResultsFound (\<lambda>r. a_id r = aid) (accounts (tx s)) = Inr row"
    using assms by (auto simp: account_get_for_update_def select_account_def)
  from select_one_key_Some [OF f] have row: "account_row (tx s) aid = row" ..
  show ?thesis
  proof (cases row)
    case None
    with f row assms show ?thesis
      by (simp add: account_get_for_update_def select_account_def view_has_row(1) steps_toI)
  next
    case (Some r)
    with row have "account_row (tx s) aid = Some r" "a_id r = aid" by (auto dest: row_of_SomeD)
    with f Some assms show ?thesis
      by (auto simp: account_get_for_update_def select_account_def dest: resolve_account_steps split: prod.splits)
  qed
qed

lemma order_get_for_update_steps:
  assumes "order_get_for_update oid s = Inr (found, s')" and "session_ok s"
  shows "steps_to e s (\<lambda>v. v) s' \<and> found = v_orders (view s) oid"
proof -
  obtain row where f: "select_one MultipleResultsFound (\<lambda>r. o_id r = oid) (orders (tx s)) = Inr row"
    using assms by (auto simp: order_get_for_update_def select_order_def)
  from select_one_key_Some [OF f] have row: "order_row (tx s) oid = row" ..
  show ?thesis
  proof (cases row)
    case None
    with f row assms show ?thesis
      by (simp add: order_get_for_update_def select_order_def view_has_row(2) steps_toI)
  next
    case (Some r)
    with row have "order_row (tx s) oid = Some r" "o_id r = oid" by (auto dest: row_of_SomeD)
    with f Some assms show ?thesis
      by (auto simp: order_get_for_update_def select_order_def dest: resolve_order_steps split: prod.splits)
  qed
qed

lemma position_get_for_update_steps:
  assumes "position_get_for_update aid symb s = Inr (found, s')" and "session_ok s"
  shows "steps_to e s (\<lambda>v. v) s' \<and> found = v_positions (view s) (aid, symb)"
proof -
  obtain row where f: "select_one MultipleResultsFound (\<lambda>r. p_key r = (aid, symb)) (positions (tx s)) = Inr row"
    using assms by (auto simp: position_get_for_update_def)
  from select_one_key_Some [OF f] have row: "position_row (tx s) aid symb = row" ..
  show ?thesis
  proof (cases row)
    case None
    with f row assms show ?thesis
      by (simp add: position_get_for_update_def view_has_row(3) steps_toI)
  next
    case (Some r)
    with row have "position_row (tx s) aid symb = Some r" "p_key r = (aid, symb)" by (auto dest: row_of_SomeD)
    with f Some assms show ?thesis
      by (auto simp: position_get_for_update_def dest: resolve_position_steps split: prod.splits)
  qed
qed

lemma price_get_steps:
  assumes "price_get symb s = Inr (found, s')" and "session_ok s"
  shows "steps_to e s (\<lambda>v. v) s' \<and> found = v_prices (view s) symb"
proof (cases "loaded_prices s symb")
  case None
  obtain row where f: "select_one MultipleResultsFound (\<lambda>r. m_symbol r = symb) (market_prices (tx s)) = Inr row"
    using assms None by (auto simp: price_get_def)
  from select_one_key_Some [OF f] have row: "price_row (tx s) symb = row" ..
  show ?thesis
  proof (cases row)
    case row_None: None
    with f row assms None show ?thesis
      by (simp add: price_get_def view_has_row(4) steps_toI)
  next
    case (Some r)
    with row have "price_row (tx s) symb = Some r" "m_symbol r = symb" by (auto dest: row_of_SomeD)
    with f Some assms None show ?thesis
      by (auto simp: price_get_def dest: resolve_price_steps split: prod.splits)
  qed
next
  case (Some m)
  then have "v_prices (view s) symb = Some m" by (simp add: view_def overlay_apply)
  with Some assms show ?thesis by (auto simp: price_get_def intro: steps_toI)
qed

lemma processed_get_by_event_id_view:
  "processed_get_by_event_id eid s = Inr found \<Longrightarrow> found = row_of b_broker_event_id eid (v_processed (view s))"
  unfolding processed_get_by_event_id_def by (drule select_one_key_Some) (simp add: view_def)

text \<open>An insert appends the row, as it is stored, to the view.\<close>

lemma order_add_event_steps:
  assumes "order_add_event e ev s = Inr s'"
  shows "steps_to e s (\<lambda>v. v\<lparr>v_events := v_events v @ [ev]\<rparr>) s'"
proof -
  obtain t where t: "flush e s = Inr t" "s' = t\<lparr>tx := (tx t)\<lparr>order_events := order_events (tx t) @ [ev]\<rparr>\<rparr>"
    using assms by (auto simp: order_add_event_def insert_event_def)
  have "steps_to e t (\<lambda>v. v\<lparr>v_events := v_events v @ [ev]\<rparr>) s'"
    by (rule steps_toI) (simp add: t(2) evolves_def view_def well_formed_defs)
  from steps_to_trans [OF flush_steps [OF t(1)] this] show ?thesis .
qed

lemma order_add_fill_steps:
  assumes "order_add_fill e f s = Inr s'"
  shows "\<exists>row. store_fill e f = Inr row \<and> f_broker_event_id row \<notin> f_broker_event_id ` set (v_fills (view s)) \<and>
      f_execution_id row \<notin> f_execution_id ` set (v_fills (view s)) \<and>
      steps_to e s (\<lambda>v. v\<lparr>v_fills := v_fills v @ [row]\<rparr>) s'"
proof -
  obtain t row where t: "flush e s = Inr t" "store_fill e f = Inr row"
      "s' = t\<lparr>tx := (tx t)\<lparr>fills := fills (tx t) @ [row]\<rparr>\<rparr>"
      "f_broker_event_id row \<notin> f_broker_event_id ` set (fills (tx t))"
      "f_execution_id row \<notin> f_execution_id ` set (fills (tx t))"
    using assms by (auto simp: order_add_fill_def insert_defs)
  have "steps_to e t (\<lambda>v. v\<lparr>v_fills := v_fills v @ [row]\<rparr>) s'"
    using t(4,5) by (intro steps_toI) (simp add: t(3) evolves_def view_def well_formed_defs)
  from steps_to_trans [OF flush_steps [OF t(1)] this] t(2,4,5) flush_frame(7) [OF t(1)]
  show ?thesis by (auto simp: view_def)
qed

lemma processed_add_steps:
  assumes "processed_add e b s = Inr s'"
  shows "\<exists>row. store_processed e b = Inr row \<and>
      b_broker_event_id row \<notin> b_broker_event_id ` set (v_processed (view s)) \<and>
      steps_to e s (\<lambda>v. v\<lparr>v_processed := v_processed v @ [row]\<rparr>) s'"
proof -
  obtain t row where t: "flush e s = Inr t" "store_processed e b = Inr row"
      "s' = t\<lparr>tx := (tx t)\<lparr>processed_broker_events := processed_broker_events (tx t) @ [row]\<rparr>\<rparr>"
      "b_broker_event_id row \<notin> b_broker_event_id ` set (processed_broker_events (tx t))"
    using assms by (auto simp: processed_add_def insert_defs)
  have "steps_to e t (\<lambda>v. v\<lparr>v_processed := v_processed v @ [row]\<rparr>) s'"
    using t(4) by (intro steps_toI) (simp add: t(3) evolves_def view_def well_formed_defs)
  from steps_to_trans [OF flush_steps [OF t(1)] this] t(2,4) flush_frame(9) [OF t(1)]
  show ?thesis by (auto simp: view_def)
qed

lemma position_add_steps:
  assumes "position_add e p s = Inr s'"
  shows "steps_to e s (\<lambda>v. v\<lparr>v_positions := (v_positions v)(p_key p \<mapsto> p)\<rparr>) s'"
proof -
  obtain t row where t: "flush e s = Inr t" "store_position e p = Inr row"
      "s' = set_position p (t\<lparr>tx := (tx t)\<lparr>positions := positions (tx t) @ [row]\<rparr>\<rparr>)"
      "p_key row \<notin> p_key ` set (positions (tx t))"
    using assms by (auto simp: position_add_def insert_defs)
  from store_positionD [OF t(2)] have k: "p_key row = p_key p" by simp
  have "steps_to e t (\<lambda>v. v\<lparr>v_positions := (v_positions v)(p_key p \<mapsto> p)\<rparr>) s'"
    using t(4) store_position_idem [OF _ t(2)]
    by (intro steps_toI)
      (simp add: t(3) set_position_def evolves_def view_def k table_evolves_insert overlay_insert well_formed_defs)
  from steps_to_trans [OF flush_steps [OF t(1)] this] show ?thesis .
qed

lemma order_add_steps:
  assumes "order_add e ord s = Inr s'" and "session_ok s"
  shows "v_orders (view s) (o_id ord) = None \<and>
      steps_to e s (\<lambda>v. v\<lparr>v_orders := (v_orders v)(o_id ord \<mapsto> ord)\<rparr>) s'"
proof -
  obtain t row where t: "flush e s = Inr t" "store_order e ord = Inr row"
      "s' = set_order ord (t\<lparr>tx := (tx t)\<lparr>orders := orders (tx t) @ [row]\<rparr>\<rparr>)"
      "o_id row \<notin> o_id ` set (orders (tx t))"
    using assms by (auto simp: order_add_def insert_defs)
  from store_orderD [OF t(2)] have k: "o_id row = o_id ord" by simp
  have "steps_to e t (\<lambda>v. v\<lparr>v_orders := (v_orders v)(o_id ord \<mapsto> ord)\<rparr>) s'"
    using t(4) store_order_idem [OF _ t(2)]
    by (intro steps_toI)
      (simp add: t(3) set_order_def evolves_def view_def k table_evolves_insert overlay_insert well_formed_defs)
  from steps_to_trans [OF flush_steps [OF t(1)] this]
  have "steps_to e s (\<lambda>v. v\<lparr>v_orders := (v_orders v)(o_id ord \<mapsto> ord)\<rparr>) s'" .
  moreover have "v_orders (view s) (o_id ord) = None"
    using steps_toD [OF flush_steps [OF t(1)] assms(2)] t(4) k
    by (metis row_of_None_iff view_has_row(2))
  ultimately show ?thesis by simp
qed

lemma account_add_steps:
  assumes "account_add e a s = Inr s'" and "session_ok s"
  shows "v_accounts (view s) (a_id a) = None \<and>
      steps_to e s (\<lambda>v. v\<lparr>v_accounts := (v_accounts v)(a_id a \<mapsto> a)\<rparr>) s'"
proof -
  obtain t row where t: "flush e s = Inr t" "store_account e a = Inr row"
      "s' = set_account a (t\<lparr>tx := (tx t)\<lparr>accounts := accounts (tx t) @ [row]\<rparr>\<rparr>)"
      "a_id row \<notin> a_id ` set (accounts (tx t))"
    using assms by (auto simp: account_add_def insert_defs)
  from store_accountD [OF t(2)] have k: "a_id row = a_id a" by simp
  have "steps_to e t (\<lambda>v. v\<lparr>v_accounts := (v_accounts v)(a_id a \<mapsto> a)\<rparr>) s'"
    using t(4) store_account_idem [OF _ t(2)]
    by (intro steps_toI)
      (simp add: t(3) set_account_def evolves_def view_def k table_evolves_insert overlay_insert well_formed_defs)
  from steps_to_trans [OF flush_steps [OF t(1)] this]
  have "steps_to e s (\<lambda>v. v\<lparr>v_accounts := (v_accounts v)(a_id a \<mapsto> a)\<rparr>) s'" .
  moreover have "v_accounts (view s) (a_id a) = None"
    using steps_toD [OF flush_steps [OF t(1)] assms(2)] t(4) k
    by (metis row_of_None_iff view_has_row(1))
  ultimately show ?thesis by simp
qed

end
