(* ===== verification/Order_Lifecycle.thy ===== *)
theory Order_Lifecycle
  imports Repositories
begin

text \<open>
  \<open>app/services/order_lifecycle.py\<close>: every change of an order's status goes through \<open>transition\<close>,
  which asks the state machine and writes an audit event. An order object is passed by value;
  \<open>set_order\<close> is the assignment to its attributes in the session.
\<close>

definition append_event ::
  "env \<Rightarrow> order \<Rightarrow> order_event_type \<Rightarrow> order_status option \<Rightarrow> order_status option \<Rightarrow>
     json_object \<Rightarrow> session \<Rightarrow> oms_error + session" where
  "append_event e ord event_type previous_status new_status event_data s =
     order_add_event e
       \<lparr>e_order_id = o_id ord, e_event_type = event_type, e_previous_status = previous_status,
        e_new_status = new_status, e_event_data = event_data, e_created_at = now e\<rparr> s"

definition transition ::
  "env \<Rightarrow> order \<Rightarrow> order_status \<Rightarrow> order_event_type \<Rightarrow> json_object \<Rightarrow> session \<Rightarrow>
     oms_error + order \<times> session" where
  "transition e ord target_status event_type event_data s =
     (let previous_status = o_status ord in
      and_then (ensure_transition_allowed previous_status target_status) (\<lambda>_.
      let ord = ord\<lparr>o_status := target_status, o_version := o_version ord + 1\<rparr> in
      and_then (append_event e ord event_type (Some previous_status) (Some target_status) event_data
                  (set_order ord s)) (\<lambda>s.
      Inr (ord, s))))"

section \<open>Effects\<close>

text \<open>The order after an accepted transition, and the audit event written for it.\<close>

definition moved :: "order \<Rightarrow> order_status \<Rightarrow> order" where
  "moved ord target = ord\<lparr>o_status := target, o_version := o_version ord + 1\<rparr>"

definition audit ::
  "env \<Rightarrow> order \<Rightarrow> order_event_type \<Rightarrow> order_status option \<Rightarrow> order_status option \<Rightarrow> json_object \<Rightarrow> order_event" where
  "audit e ord event_type previous new event_data =
     \<lparr>e_order_id = o_id ord, e_event_type = event_type, e_previous_status = previous,
      e_new_status = new, e_event_data = event_data, e_created_at = now e\<rparr>"

lemma moved_simps [simp]:
  "o_id (moved ord t) = o_id ord" "o_status (moved ord t) = t" "o_side (moved ord t) = o_side ord"
  "o_account_id (moved ord t) = o_account_id ord" "o_price (moved ord t) = o_price ord"
  "o_quantity (moved ord t) = o_quantity ord" "o_filled_quantity (moved ord t) = o_filled_quantity ord"
  "o_cancelled_quantity (moved ord t) = o_cancelled_quantity ord"
  "o_remaining_quantity (moved ord t) = o_remaining_quantity ord"
  "o_symbol (moved ord t) = o_symbol ord" "o_time_in_force (moved ord t) = o_time_in_force ord"
  "o_version (moved ord t) = o_version ord + 1" "o_average_fill_price (moved ord t) = o_average_fill_price ord"
  by (simp_all add: moved_def)

lemma audit_simps [simp]:
  "e_order_id (audit e ord t p n d) = o_id ord" "e_event_type (audit e ord t p n d) = t"
  "e_previous_status (audit e ord t p n d) = p" "e_new_status (audit e ord t p n d) = n"
  "e_event_data (audit e ord t p n d) = d"
  by (simp_all add: audit_def)

lemma audit_moved [simp]: "audit e (moved ord t) ty p n d = audit e ord ty p n d"
  by (simp add: audit_def)

lemma append_event_steps:
  "append_event e ord ty p n d s = Inr s' \<Longrightarrow>
     steps_to e s (\<lambda>v. v\<lparr>v_events := v_events v @ [audit e ord ty p n d]\<rparr>) s'"
  unfolding append_event_def audit_def by (rule order_add_event_steps)

lemma transition_steps:
  assumes "transition e ord target ty d s = Inr (ord', s')" and "v_orders (view s) (o_id ord) \<noteq> None"
  shows "target \<in> ALLOWED_TRANSITIONS (o_status ord) \<and> ord' = moved ord target \<and>
    steps_to e s (\<lambda>v. v\<lparr>v_orders := (v_orders v)(o_id ord \<mapsto> moved ord target),
                     v_events := v_events v @ [audit e ord ty (Some (o_status ord)) (Some target) d]\<rparr>) s'"
proof -
  have a: "target \<in> ALLOWED_TRANSITIONS (o_status ord)" "ord' = moved ord target"
      "append_event e (moved ord target) ty (Some (o_status ord)) (Some target) d (set_order (moved ord target) s) = Inr s'"
    using assms(1) by (auto simp: transition_def Let_def moved_def)
  have "steps_to e s (\<lambda>v. v\<lparr>v_orders := (v_orders v)(o_id ord \<mapsto> moved ord target)\<rparr>) (set_order (moved ord target) s)"
    using set_order_steps [of s "moved ord target"] assms(2) by simp
  from steps_to_trans [OF this append_event_steps [OF a(3)]] a(1,2) show ?thesis by simp
qed

lemma transition_refused:
  "target \<notin> ALLOWED_TRANSITIONS (o_status ord) \<Longrightarrow>
     transition e ord target ty d s = Inl (InvalidStateTransition (o_status ord) target)"
  by (simp add: transition_def ensure_transition_allowed_def)

end
