(* ===== verification/Order_Rules.thy ===== *)
theory Order_Rules
  imports Enums Decimals
begin

text \<open>
  The buying-power rules of \<open>app/domain/order_rules.py\<close>.
\<close>

definition required_buying_power :: "order_side \<Rightarrow> rat \<Rightarrow> rat \<Rightarrow> rat" where
  "required_buying_power side quantity price =
     (if side \<noteq> BUY then 0 else dmul quantity price)"

definition ensure_sufficient_buying_power :: "rat \<Rightarrow> rat \<Rightarrow> oms_error + unit" where
  "ensure_sufficient_buying_power available_cash required_cash =
     (if available_cash < required_cash then Inl InsufficientBuyingPower else Inr ())"

lemma ensure_sufficient_eq_Inr [simp]:
  "ensure_sufficient_buying_power a r = Inr u \<longleftrightarrow> r \<le> a"
  by (auto simp: ensure_sufficient_buying_power_def)

lemma ensure_sufficient_eq_Inl [simp]:
  "ensure_sufficient_buying_power a r = Inl e \<longleftrightarrow> a < r \<and> e = InsufficientBuyingPower"
  by (auto simp: ensure_sufficient_buying_power_def)

lemma required_buying_power_nonneg: "0 \<le> q \<Longrightarrow> 0 \<le> p \<Longrightarrow> 0 \<le> required_buying_power side q p"
  by (simp add: required_buying_power_def dmul_def)

end
