(* ===== verification/Schemas.thy ===== *)
theory Schemas
  imports Models
begin

text \<open>
  The request and message types of \<open>app/schemas/\<close> with the validation pydantic runs on them.

  Strings are ASCII: \<open>upper\<close> and \<open>strip\<close> are the methods of \<open>str\<close> on those characters. A field
  of type \<open>Decimal\<close> is a rational number; \<open>decimal_places=8\<close> accepts the multiples of \<open>10 ^ -8\<close>.
  Validation is a function to \<open>option\<close>: \<open>None\<close> where pydantic raises (which FastAPI answers with
  422), otherwise the instance with its normalised fields.
\<close>

section \<open>Text\<close>

text \<open>
  Texts are in ASCII, where \<open>upper\<close> keeps the length and \<open>strip\<close> removes the blanks below; symbols,
  currencies and keys outside of it (whose upper case may be longer) are not modelled.
\<close>

definition upper_char :: "char \<Rightarrow> char" where
  "upper_char c =
     (let n = of_char c :: nat in if 97 \<le> n \<and> n \<le> 122 then char_of (n - 32) else c)"

definition upper :: "string \<Rightarrow> string" where
  "upper s = map upper_char s"

definition is_space :: "char \<Rightarrow> bool" where
  "is_space c = (let n = of_char c :: nat in (9 \<le> n \<and> n \<le> 13) \<or> (28 \<le> n \<and> n \<le> 32))"

definition strip :: "string \<Rightarrow> string" where
  "strip s = rev (dropWhile is_space (rev (dropWhile is_space s)))"

lemma length_upper [simp]: "length (upper s) = length s"
  by (simp add: upper_def)

lemma length_strip: "length (strip s) \<le> length s"
  unfolding strip_def by (metis length_dropWhile_le length_rev order_trans)

lemma upper_char_idem [simp]: "upper_char (upper_char c) = upper_char c"
proof (cases "97 \<le> (of_char c :: nat) \<and> (of_char c :: nat) \<le> 122")
  case True
  define n where "n = (of_char c :: nat) - 32"
  have n: "65 \<le> n" "n \<le> 90" using True by (auto simp: n_def)
  have "upper_char c = char_of n" using True by (simp add: upper_char_def Let_def n_def)
  moreover have "of_char (char_of n :: char) = n" using n by simp
  ultimately show ?thesis using n by (simp add: upper_char_def Let_def)
qed (auto simp: upper_char_def)

lemma upper_idem [simp]: "upper (upper s) = upper s"
  by (simp add: upper_def comp_def)

lemma upper_char_space [simp]: "is_space (upper_char c) = is_space c"
proof (cases "97 \<le> (of_char c :: nat) \<and> (of_char c :: nat) \<le> 122")
  case True
  define n where "n = (of_char c :: nat) - 32"
  have n: "65 \<le> n" "n \<le> 90" using True by (auto simp: n_def)
  have "upper_char c = char_of n" using True by (simp add: upper_char_def Let_def n_def)
  moreover have "of_char (char_of n :: char) = n" using n by simp
  ultimately show ?thesis using n True by (simp add: is_space_def Let_def)
qed (auto simp: upper_char_def)

lemma dropWhile_idem_space: "dropWhile P (dropWhile P xs) = dropWhile P xs"
  by (induction xs) auto

lemma strip_ends:
  "strip s \<noteq> [] \<Longrightarrow> \<not> is_space (hd (strip s)) \<and> \<not> is_space (last (strip s))"
proof -
  assume ne: "strip s \<noteq> []"
  define t where "t = dropWhile is_space s"
  define u where "u = dropWhile is_space (rev t)"
  have s: "strip s = rev u" by (simp add: strip_def t_def u_def)
  with ne have u: "u \<noteq> []" by simp
  then have "\<not> is_space (hd u)" unfolding u_def by (rule hd_dropWhile)
  moreover have "last (strip s) = hd u" using u by (simp add: s last_rev)
  moreover have "\<not> is_space (hd (strip s))"
  proof -
    from u have t: "t \<noteq> []" by (auto simp: u_def)
    then have "\<not> is_space (hd t)" unfolding t_def by (rule hd_dropWhile)
    moreover have "hd (strip s) = hd t"
    proof -
      have "last u = last (rev t)" using u unfolding u_def by (metis append_Nil2 dropWhile_eq_Nil_conv last_appendR takeWhile_dropWhile_id)
      then show ?thesis using u t by (simp add: s hd_rev last_rev)
    qed
    ultimately show ?thesis by simp
  qed
  ultimately show ?thesis by simp
qed

section \<open>Requests\<close>

record account_create =
  ac_user_id :: string
  ac_initial_cash_balance :: rat
  ac_currency :: string

record order_create =
  oc_client_order_id :: string
  oc_idempotency_key :: string
  oc_account_id :: uuid
  oc_symbol :: string
  oc_side :: order_side
  oc_order_type :: order_type
  oc_time_in_force :: time_in_force
  oc_quantity :: rat
  oc_price :: rat

definition validate_account_create :: "account_create \<Rightarrow> account_create option" where
  "validate_account_create p =
     (if 1 \<le> length (ac_user_id p) \<and> length (ac_user_id p) \<le> 100 \<and>
         0 < ac_initial_cash_balance p \<and> on_grid 8 (ac_initial_cash_balance p) \<and>
         3 \<le> length (ac_currency p) \<and> length (ac_currency p) \<le> 3
      then Some (p\<lparr>ac_currency := upper (ac_currency p)\<rparr>) else None)"

definition normalize_symbol :: "string \<Rightarrow> string" where
  "normalize_symbol value = upper (strip value)"

definition validate_order_create :: "order_create \<Rightarrow> order_create option" where
  "validate_order_create p =
     (if 1 \<le> length (oc_client_order_id p) \<and> length (oc_client_order_id p) \<le> 100 \<and>
         8 \<le> length (oc_idempotency_key p) \<and> length (oc_idempotency_key p) \<le> 100 \<and>
         1 \<le> length (oc_symbol p) \<and> length (oc_symbol p) \<le> 32 \<and>
         0 < oc_quantity p \<and> on_grid 8 (oc_quantity p) \<and>
         0 < oc_price p \<and> on_grid 8 (oc_price p)
      then Some (p\<lparr>oc_symbol := normalize_symbol (oc_symbol p)\<rparr>) else None)"

section \<open>Messages to and from the broker\<close>

record broker_order =
  bo_order_id :: uuid
  bo_symbol :: string
  bo_side :: order_side
  bo_time_in_force :: time_in_force
  bo_quantity :: rat
  bo_remaining_quantity :: rat
  bo_price :: rat

record broker_execution_event =
  ev_event_id :: uuid
  ev_event_type :: broker_event_type
  ev_order_id :: uuid
  ev_timestamp :: timestamp
  ev_filled_quantity :: rat
  ev_fill_price :: "rat option"
  ev_execution_id :: "string option"
  ev_reason :: "string option"

text \<open>\<open>value or default\<close> on an optional string: \<open>None\<close> and the empty string are falsy.\<close>

definition or_else :: "string option \<Rightarrow> string \<Rightarrow> string" where
  "or_else v fallback = (case v of None \<Rightarrow> fallback | Some t \<Rightarrow> if t = [] then fallback else t)"

definition is_fill_type :: "broker_event_type \<Rightarrow> bool" where
  "is_fill_type t \<longleftrightarrow> t \<in> {FULL_FILL, PARTIAL_FILL}"

text \<open>Timestamps are timezone-aware by their type, so \<open>require_timezone\<close> accepts all of them.\<close>

definition validate_fill_payload :: "broker_execution_event \<Rightarrow> broker_execution_event option" where
  "validate_fill_payload ev =
     (if is_fill_type (ev_event_type ev) then
        if ev_filled_quantity ev \<le> 0 then None
        else if (case ev_fill_price ev of None \<Rightarrow> True | Some p \<Rightarrow> p \<le> 0) then None
        else if (case ev_execution_id ev of None \<Rightarrow> True | Some t \<Rightarrow> t = []) then None
        else Some ev
      else Some ev)"

text \<open>An event the schema let through.\<close>

definition valid_event :: "broker_execution_event \<Rightarrow> bool" where
  "valid_event ev \<longleftrightarrow> validate_fill_payload ev = Some ev"

lemma valid_event_fill:
  "valid_event ev \<Longrightarrow> is_fill_type (ev_event_type ev) \<Longrightarrow>
     \<exists>p t. 0 < ev_filled_quantity ev \<and> ev_fill_price ev = Some p \<and> 0 < p \<and>
           ev_execution_id ev = Some t \<and> t \<noteq> []"
  by (auto simp: valid_event_def validate_fill_payload_def split: if_splits option.splits)

end
