(* ===== verification/Order_Service.thy ===== *)
theory Order_Service
  imports Order_Lifecycle Order_Rules Schemas
begin

text \<open>
  \<open>app/services/order_service.py\<close>: accepting an order.

  \<open>create_order\<close> runs one transaction (\<open>create_order_body\<close>) that answers a repeated request with
  the order it made before, or records a new order, checks the buying power, reserves the cash
  and moves the order to \<open>ROUTED\<close>; it then submits the order to the broker, outside the
  transaction. When the broker raises, a second transaction on the same session
  (\<open>mark_routing_failure\<close>) takes the order and the reservation back. The broker is the parameter
  \<open>submit\<close>: \<open>None\<close> when it accepts, \<open>Some\<close> of the text of the exception when it raises. What other
  transactions commit between the two is the parameter \<open>meanwhile\<close>.
\<close>

definition order_matches_request :: "order \<Rightarrow> order_create \<Rightarrow> bool" where
  "order_matches_request ord payload \<longleftrightarrow>
     o_account_id ord = oc_account_id payload \<and>
     o_client_order_id ord = oc_client_order_id payload \<and>
     o_symbol ord = oc_symbol payload \<and>
     o_side ord = oc_side payload \<and>
     o_order_type ord = oc_order_type payload \<and>
     o_time_in_force ord = oc_time_in_force payload \<and>
     o_quantity ord = oc_quantity payload \<and>
     o_price ord = oc_price payload"

definition new_order :: "env \<Rightarrow> order_create \<Rightarrow> order" where
  "new_order e payload =
     \<lparr>o_id = new_uuid e, o_client_order_id = oc_client_order_id payload,
      o_idempotency_key = oc_idempotency_key payload, o_account_id = oc_account_id payload,
      o_symbol = oc_symbol payload, o_side = oc_side payload, o_order_type = oc_order_type payload,
      o_time_in_force = oc_time_in_force payload, o_quantity = oc_quantity payload,
      o_price = oc_price payload, o_filled_quantity = 0, o_cancelled_quantity = 0,
      o_remaining_quantity = oc_quantity payload, o_average_fill_price = None, o_status = NEW,
      o_rejection_reason = None, o_broker_order_id = None,
      o_expires_at = (if oc_time_in_force payload = DAY
                      then Some (now e + 1000000 * day_order_expiry_seconds e) else None),
      o_version = 1, o_created_at = now e\<rparr>"

definition created_event_data :: "order \<Rightarrow> json_object" where
  "created_event_data ord =
     [(''client_order_id'', JText (o_client_order_id ord)), (''symbol'', JText (o_symbol ord)),
      (''quantity'', JDecimal (o_quantity ord))]"

definition create_order_body ::
  "env \<Rightarrow> order_create \<Rightarrow> session \<Rightarrow> oms_error + (order \<times> bool) \<times> session" where
  "create_order_body e payload s =
     and_then (account_get_for_update (oc_account_id payload) s) (\<lambda>(found, s).
     case found of
       None \<Rightarrow> Inl (AccountNotFound (oc_account_id payload))
     | Some a \<Rightarrow>
         and_then (order_get_by_idempotency_key (oc_account_id payload) (oc_idempotency_key payload) s)
           (\<lambda>(existing_by_key, s).
         case existing_by_key of
           Some existing \<Rightarrow>
             if \<not> order_matches_request existing payload
             then Inl (DuplicateOrder (oc_client_order_id payload))
             else Inr ((existing, False), s)
         | None \<Rightarrow>
             and_then (order_get_by_client_order_id (oc_account_id payload) (oc_client_order_id payload) s)
               (\<lambda>(existing_client_order, s).
             if existing_client_order \<noteq> None then Inl (DuplicateOrder (oc_client_order_id payload))
             else
               (let ord = new_order e payload in
                and_then (order_add e ord s) (\<lambda>s.
                and_then (append_event e ord ORDER_CREATED None (Some NEW) (created_event_data ord) s) (\<lambda>s.
                let required_cash = required_buying_power (oc_side payload) (oc_quantity payload) (oc_price payload) in
                case ensure_sufficient_buying_power (available_cash a) required_cash of
                  Inl exc \<Rightarrow>
                    (let ord = ord\<lparr>o_rejection_reason := Some (message exc)\<rparr> in
                     and_then (transition e ord REJECTED VALIDATION_FAILED
                                 [(''reason'', JText (message exc))] (set_order ord s)) (\<lambda>(ord, s).
                     Inr ((ord, False), s)))
                | Inr _ \<Rightarrow>
                    and_then (transition e ord VALIDATED ORDER_VALIDATED [] s) (\<lambda>(ord, s).
                    let s = (if o_side ord = BUY
                             then set_account (a\<lparr>a_reserved_cash := dadd (a_reserved_cash a) required_cash,
                                                 a_version := a_version a + 1\<rparr>) s
                             else s) in
                    and_then (transition e ord ROUTED ORDER_ROUTED [] s) (\<lambda>(ord, s).
                    Inr ((ord, True), s)))))))))"

definition broker_order_of :: "order \<Rightarrow> broker_order" where
  "broker_order_of ord =
     \<lparr>bo_order_id = o_id ord, bo_symbol = o_symbol ord, bo_side = o_side ord,
      bo_time_in_force = o_time_in_force ord, bo_quantity = o_quantity ord,
      bo_remaining_quantity = o_remaining_quantity ord, bo_price = o_price ord\<rparr>"

definition mark_routing_failure_body ::
  "env \<Rightarrow> uuid \<Rightarrow> string \<Rightarrow> session \<Rightarrow> oms_error + unit \<times> session" where
  "mark_routing_failure_body e order_id reason s =
     and_then (order_get_for_update order_id s) (\<lambda>(found, s).
     case found of
       None \<Rightarrow> Inr ((), s)
     | Some ord \<Rightarrow>
         if o_status ord \<noteq> ROUTED then Inr ((), s)
         else
           and_then (account_get_for_update (o_account_id ord) s) (\<lambda>(found, s).
           case found of
             None \<Rightarrow> Inl (AccountNotFound (o_account_id ord))
           | Some a \<Rightarrow>
               (let s = (if o_side ord = BUY
                         then set_account (a\<lparr>a_reserved_cash := dsub (a_reserved_cash a)
                                               (dmul (o_remaining_quantity ord) (o_price ord)),
                                             a_version := a_version a + 1\<rparr>) s
                         else s);
                    rejection = ''Broker routing failed: '' @ reason;
                    ord = ord\<lparr>o_rejection_reason := Some rejection\<rparr>
                in and_then (transition e ord REJECTED ORDER_REJECTED [(''reason'', JText rejection)]
                               (set_order ord s)) (\<lambda>(_, s).
                   Inr ((), s)))))"

definition mark_routing_failure ::
  "env \<Rightarrow> uuid \<Rightarrow> string \<Rightarrow> session \<Rightarrow> (oms_error + unit) \<times> session" where
  "mark_routing_failure e order_id reason = transaction e (mark_routing_failure_body e order_id reason)"

definition create_order ::
  "env \<Rightarrow> (broker_order \<Rightarrow> string option) \<Rightarrow> (database \<Rightarrow> database) \<Rightarrow> order_create \<Rightarrow> session \<Rightarrow>
     (oms_error + order) \<times> session" where
  "create_order e submit meanwhile payload s =
     (case transaction e (create_order_body e payload) s of
        (Inl err, s) \<Rightarrow> (Inl err, s)
      | (Inr (ord, should_route), s) \<Rightarrow>
          if should_route then
            (case submit (broker_order_of ord) of
               None \<Rightarrow> (Inr ord, s)
             | Some text \<Rightarrow>
                 (case mark_routing_failure e (o_id ord) text (begin_on (meanwhile (tx s)) s) of
                    (Inl err, s) \<Rightarrow> (Inl err, s)
                  | (Inr _, s) \<Rightarrow> (Inl BrokerUnavailable, s)))
          else (Inr ord, s))"

definition get_order :: "uuid \<Rightarrow> session \<Rightarrow> oms_error + order \<times> session" where
  "get_order order_id s =
     and_then (order_get_by_id order_id s) (\<lambda>(found, s).
     case found of None \<Rightarrow> Inl (OrderNotFound order_id) | Some ord \<Rightarrow> Inr (ord, s))"

definition list_orders ::
  "order scan \<Rightarrow> uuid option \<Rightarrow> order_status option \<Rightarrow> bool \<Rightarrow> nat \<Rightarrow> nat \<Rightarrow> database \<Rightarrow> order list" where
  "list_orders scan account_id status open_only limit offset db =
     order_list_orders scan account_id status open_only limit offset db"

end
