(* ===== verification/Cancellation_Service.thy ===== *)
theory Cancellation_Service
  imports Order_Lifecycle
begin

text \<open>
  \<open>app/services/cancellation_service.py\<close>: a cancellation request moves the order to
  \<open>CANCEL_PENDING\<close> in one transaction, then tells the broker. A request for an order that is
  \<open>CANCEL_PENDING\<close> already is answered without telling the broker again. The broker is the
  parameter \<open>cancel\<close>: \<open>None\<close> when it accepts, \<open>Some\<close> of the text of the exception when it raises.

  The service passes the exception on as it is. \<open>BrokerFailure\<close> stands for any exception of the
  adapter that is not a \<open>DomainError\<close>: the \<open>DomainError\<close>s are raised by the domain and the services,
  and no adapter under \<open>broker/\<close> raises one.
\<close>

definition request_cancellation_body ::
  "env \<Rightarrow> uuid \<Rightarrow> string \<Rightarrow> session \<Rightarrow> oms_error + (order \<times> bool) \<times> session" where
  "request_cancellation_body e order_id reason s =
     and_then (order_get_for_update order_id s) (\<lambda>(found, s).
     case found of
       None \<Rightarrow> Inl (OrderNotFound order_id)
     | Some ord \<Rightarrow>
         if o_status ord = CANCEL_PENDING then Inr ((ord, False), s)
         else if o_status ord \<notin> CANCELLABLE_ORDER_STATUSES then
           Inl (InvalidCancellation (''Order cannot be cancelled from '' @ status_value (o_status ord)))
         else
           and_then (transition e ord CANCEL_PENDING CANCEL_REQUESTED [(''reason'', JText reason)] s)
             (\<lambda>(ord, s).
           Inr ((ord, True), s)))"

definition request_cancellation ::
  "env \<Rightarrow> (uuid \<Rightarrow> string \<Rightarrow> string option) \<Rightarrow> uuid \<Rightarrow> string \<Rightarrow> session \<Rightarrow> (oms_error + order) \<times> session" where
  "request_cancellation e cancel order_id reason s =
     (case transaction e (request_cancellation_body e order_id reason) s of
        (Inl err, s) \<Rightarrow> (Inl err, s)
      | (Inr (ord, should_notify_broker), s) \<Rightarrow>
          if should_notify_broker then
            (case cancel (o_id ord) reason of
               None \<Rightarrow> (Inr ord, s)
             | Some text \<Rightarrow> (Inl (BrokerFailure text), s))
          else (Inr ord, s))"

end
