(* ===== verification/Position_Rules.thy ===== *)
theory Position_Rules
  imports Enums Decimals
begin

text \<open>
  The position arithmetic of \<open>app/domain/position_rules.py\<close>, an abstract specification of it
  over exact rationals, and the refinement between the two.

  \<open>exact_position\<close> is the textbook rule: signed net quantity, weighted average entry price,
  profit realized on the closed quantity. It satisfies the mark-to-market identity: at any
  mark price a fill changes realized plus unrealized profit by exactly what the fill itself
  earns at that mark. The code computes the same quantity and realized profit, and the average
  price rounded once, as long as the amounts involved have few enough digits.
\<close>

record position_calculation =
  calc_net_quantity :: rat
  calc_average_entry_price :: rat
  calc_realized_pnl :: rat

definition signed_fill :: "order_side \<Rightarrow> rat \<Rightarrow> rat" where
  "signed_fill side fill_quantity = (if side = BUY then fill_quantity else dneg fill_quantity)"

definition calculate_position_after_fill ::
  "rat \<Rightarrow> rat \<Rightarrow> rat \<Rightarrow> order_side \<Rightarrow> rat \<Rightarrow> rat \<Rightarrow> oms_error + position_calculation" where
  "calculate_position_after_fill current_quantity current_average_price current_realized_pnl
     side fill_quantity fill_price =
   (let signed_fill = signed_fill side fill_quantity in
    if current_quantity = 0 \<or> 0 < dmul current_quantity signed_fill then
      (let new_quantity = dadd current_quantity signed_fill;
           total_cost = dadd (dmul (dabs current_quantity) current_average_price)
                             (dmul (dabs signed_fill) fill_price)
       in and_then (ddiv DecimalSignal total_cost (dabs new_quantity)) (\<lambda>average_price.
          Inr \<lparr>calc_net_quantity = new_quantity,
               calc_average_entry_price = average_price,
               calc_realized_pnl = current_realized_pnl\<rparr>))
    else
      (let closing_quantity = min (dabs current_quantity) (dabs signed_fill);
           pnl_delta = (if 0 < current_quantity
                        then dmul (dsub fill_price current_average_price) closing_quantity
                        else dmul (dsub current_average_price fill_price) closing_quantity);
           new_quantity = dadd current_quantity signed_fill;
           average_price = (if new_quantity = 0 then 0
                            else if 0 < dmul current_quantity new_quantity
                                 then current_average_price
                            else fill_price)
       in Inr \<lparr>calc_net_quantity = new_quantity,
               calc_average_entry_price = average_price,
               calc_realized_pnl = dadd current_realized_pnl pnl_delta\<rparr>))"

definition calculate_unrealized_pnl :: "rat \<Rightarrow> rat \<Rightarrow> rat option \<Rightarrow> rat" where
  "calculate_unrealized_pnl net_quantity average_entry_price mark_price =
     (case mark_price of
        None \<Rightarrow> 0
      | Some mark \<Rightarrow>
          if net_quantity = 0 then 0 else dmul (dsub mark average_entry_price) net_quantity)"

section \<open>Abstract specification\<close>

definition exact_position :: "rat \<Rightarrow> rat \<Rightarrow> rat \<Rightarrow> rat \<Rightarrow> rat \<Rightarrow> position_calculation" where
  "exact_position q avg pnl d p =
     (if q = 0 \<or> 0 < q * d then
        \<lparr>calc_net_quantity = q + d,
         calc_average_entry_price = (\<bar>q\<bar> * avg + \<bar>d\<bar> * p) / \<bar>q + d\<bar>,
         calc_realized_pnl = pnl\<rparr>
      else
        \<lparr>calc_net_quantity = q + d,
         calc_average_entry_price = (if q + d = 0 then 0 else if 0 < q * (q + d) then avg else p),
         calc_realized_pnl = pnl + sgn q * (p - avg) * min \<bar>q\<bar> \<bar>d\<bar>\<rparr>)"

text \<open>Realized plus unrealized profit at the mark price \<open>m\<close>.\<close>

definition total_pnl_at :: "rat \<Rightarrow> position_calculation \<Rightarrow> rat" where
  "total_pnl_at m c =
     calc_realized_pnl c + (m - calc_average_entry_price c) * calc_net_quantity c"

lemma exact_position_mark_to_market:
  assumes "d \<noteq> 0"
  shows "total_pnl_at m (exact_position q avg pnl d p) = pnl + (m - avg) * q + (m - p) * d"
proof (cases "q = 0 \<or> 0 < q * d")
  case True
  have ne: "q + d \<noteq> 0" using True assms by (auto simp: zero_less_mult_iff)
  have "(\<bar>q\<bar> * avg + \<bar>d\<bar> * p) / \<bar>q + d\<bar> * (q + d) = q * avg + d * p"
  proof (cases "0 < q + d")
    case True
    with \<open>q = 0 \<or> 0 < q * d\<close> have "0 \<le> q" "0 \<le> d" by (auto simp: zero_less_mult_iff)
    with True show ?thesis by simp
  next
    case False
    with ne \<open>q = 0 \<or> 0 < q * d\<close> have "q \<le> 0" "d \<le> 0" "q + d < 0"
      by (auto simp: zero_less_mult_iff)
    then show ?thesis by (simp add: field_simps)
  qed
  with True show ?thesis
    by (simp add: exact_position_def total_pnl_at_def algebra_simps)
next
  case False
  then have q: "q \<noteq> 0" and qd: "q * d \<le> 0" by auto
  have closed: "exact_position q avg pnl d p =
      \<lparr>calc_net_quantity = q + d,
       calc_average_entry_price = (if q + d = 0 then 0 else if 0 < q * (q + d) then avg else p),
       calc_realized_pnl = pnl + sgn q * (p - avg) * min \<bar>q\<bar> \<bar>d\<bar>\<rparr>"
    using False by (simp add: exact_position_def)
  consider (flat) "d = - q" | (long) "0 < q" "0 < q + d" "d \<le> 0" | (short) "q < 0" "q + d < 0" "0 \<le> d"
    | (to_short) "0 < q" "q + d < 0" | (to_long) "q < 0" "0 < q + d"
    using q qd by (auto simp: mult_le_0_iff) linarith+
  then show ?thesis
  proof cases
    case flat
    show ?thesis
      unfolding closed using flat q
      by (simp add: total_pnl_at_def sgn_if abs_if algebra_simps)
  next
    case long
    then have "0 < q * (q + d)" by simp
    with long show ?thesis
      by (simp add: closed total_pnl_at_def min_def abs_if) (simp add: algebra_simps)
  next
    case short
    then have "0 < q * (q + d)" by (simp add: mult_neg_neg)
    with short show ?thesis
      by (simp add: closed total_pnl_at_def min_def abs_if) (simp add: algebra_simps)
  next
    case to_short
    then have "\<not> 0 < q * (q + d)" by (simp add: zero_less_mult_iff)
    with to_short show ?thesis
      by (simp add: closed total_pnl_at_def min_def abs_if) (simp add: algebra_simps)
  next
    case to_long
    then have "\<not> 0 < q * (q + d)" by (simp add: zero_less_mult_iff)
    with to_long show ?thesis
      by (simp add: closed total_pnl_at_def min_def abs_if) (simp add: algebra_simps)
  qed
qed

section \<open>The code refines the specification\<close>

text \<open>
  The amounts have few enough digits: quantities and prices have at most 8 decimals, and every
  intermediate amount is below \<open>10 ^ 12\<close>, so that products (16 decimals) keep within 28 digits.
\<close>

definition small_position :: "rat \<Rightarrow> rat \<Rightarrow> rat \<Rightarrow> rat \<Rightarrow> rat \<Rightarrow> bool" where
  "small_position q avg pnl f p \<longleftrightarrow>
     on_grid 8 q \<and> on_grid 8 avg \<and> on_grid 8 pnl \<and> on_grid 8 f \<and> on_grid 8 p \<and>
     0 \<le> avg \<and> 0 < p \<and> 0 < f \<and>
     (\<bar>q\<bar> + f + 1) * (avg + p + 1) + \<bar>pnl\<bar> < 10 ^ 12"

lemma prec28_amount: "on_grid 16 x \<Longrightarrow> \<bar>x\<bar> < 10 ^ 12 \<Longrightarrow> prec28 x = x"
  by (rule prec28_on_grid) auto

lemma small_position_bounds:
  assumes "small_position q avg pnl f p"
  shows "\<bar>q\<bar> * avg + f * p < 10 ^ 12" and "\<bar>q\<bar> + f < 10 ^ 12" and "avg + p < 10 ^ 12"
    and "\<bar>pnl\<bar> + f * (avg + p) < 10 ^ 12"
    and "\<bar>pnl\<bar> + \<bar>q\<bar> * (avg + p) < 10 ^ 12"
proof -
  let ?Q = "\<bar>q\<bar> + f" and ?P = "avg + p"
  from assms have nn: "0 \<le> avg" "0 < p" "0 < f" and b: "(?Q + 1) * (?P + 1) + \<bar>pnl\<bar> < 10 ^ 12"
    by (simp_all add: small_position_def add.assoc)
  have e: "(?Q + 1) * (?P + 1) =
      \<bar>q\<bar> * avg + \<bar>q\<bar> * p + f * avg + f * p + \<bar>q\<bar> + f + avg + p + 1"
    by (simp add: algebra_simps)
  define A B C D where "A = \<bar>q\<bar> * avg" and "B = \<bar>q\<bar> * p" and "C = f * avg" and "D = f * p"
  have n: "0 \<le> A" "0 \<le> B" "0 \<le> C" "0 \<le> D"
    using nn by (simp_all add: A_def B_def C_def D_def)
  have b': "A + B + C + D + \<bar>q\<bar> + f + avg + p + 1 + \<bar>pnl\<bar> < 10 ^ 12"
    using b unfolding e A_def B_def C_def D_def .
  have d: "f * (avg + p) = C + D" "\<bar>q\<bar> * (avg + p) = A + B"
    by (simp_all add: distrib_left A_def B_def C_def D_def)
  show "\<bar>q\<bar> * avg + f * p < 10 ^ 12"
    unfolding A_def [symmetric] D_def [symmetric] using b' n nn by linarith
  show "\<bar>q\<bar> + f < 10 ^ 12" "avg + p < 10 ^ 12"
    using b' n nn by linarith+
  show "\<bar>pnl\<bar> + f * (avg + p) < 10 ^ 12" "\<bar>pnl\<bar> + \<bar>q\<bar> * (avg + p) < 10 ^ 12"
    unfolding d using b' n nn by linarith+
qed

lemma signed_fill_exact:
  "on_grid 8 f \<Longrightarrow> \<bar>f\<bar> < 10 ^ 20 \<Longrightarrow> signed_fill side f = (if side = BUY then f else - f)"
  by (simp add: signed_fill_def dneg_cents)

lemma dmul_sign [simp]: "0 < dmul x y \<longleftrightarrow> 0 < x * y"
  by (simp add: dmul_def)

lemma dadd_eq_0 [simp]: "dadd x y = 0 \<longleftrightarrow> x + y = 0"
  by (simp add: dadd_def)

lemma dabs_eq_0 [simp]: "dabs x = 0 \<longleftrightarrow> x = 0"
  by (simp add: dabs_def)

lemma calculate_position_refines:
  assumes "small_position q avg pnl f p"
  shows "calculate_position_after_fill q avg pnl side f p =
     Inr ((exact_position q avg pnl (if side = BUY then f else - f) p)
       \<lparr>calc_average_entry_price :=
          prec28 (calc_average_entry_price (exact_position q avg pnl (if side = BUY then f else - f) p))\<rparr>)"
proof -
  define d where "d = (if side = BUY then f else - f)"
  note b = small_position_bounds [OF assms]
  from assms have g: "on_grid 8 q" "on_grid 8 avg" "on_grid 8 pnl" "on_grid 8 f" "on_grid 8 p"
    and nn: "0 \<le> avg" "0 < p" "0 < f" by (simp_all add: small_position_def)
  have "(10::rat) ^ 12 < 10 ^ 20" by simp
  then have fb: "\<bar>f\<bar> < 10 ^ 20" "\<bar>q\<bar> < 10 ^ 20" "avg < 10 ^ 20" "p < 10 ^ 20"
    using b(2,3) nn by linarith+
  have sf: "signed_fill side f = d" using g fb by (simp add: signed_fill_exact d_def)
  have ad: "\<bar>d\<bar> = f" and d0: "d \<noteq> 0" and gd: "on_grid 8 d"
    using nn g on_grid_minus [of 8 f] by (auto simp: d_def)
  have qd: "dadd q d = q + d" by (rule dadd_cents) (use g gd ad b(2) in \<open>auto\<close>)
  have abs: "dabs q = \<bar>q\<bar>" "dabs d = f" using g gd fb ad by (simp_all add: dabs_cents)
  have aqd: "dabs (q + d) = \<bar>q + d\<bar>"
    by (rule dabs_cents) (use g gd ad b(2) in \<open>auto intro: on_grid_add\<close>)
  show ?thesis
  proof (cases "q = 0 \<or> 0 < q * d")
    case True
    then have ne: "q + d \<noteq> 0" using d0 by (auto simp: zero_less_mult_iff)
    have g16: "on_grid 16 (\<bar>q\<bar> * avg)" "on_grid 16 (f * p)"
      using on_grid_mult [of 8 "\<bar>q\<bar>" 8 avg] on_grid_mult [of 8 f 8 p] g on_grid_minus [of 8 q]
      by (auto simp: abs_if)
    have nn2: "0 \<le> \<bar>q\<bar> * avg" "0 \<le> f * p" using nn by simp_all
    have m: "dmul \<bar>q\<bar> avg = \<bar>q\<bar> * avg" "dmul f p = f * p"
      unfolding dmul_def using g16 nn2 b(1) by (auto intro!: prec28_amount)
    have c: "dadd (\<bar>q\<bar> * avg) (f * p) = \<bar>q\<bar> * avg + f * p"
      unfolding dadd_def using g16 nn2 b(1) by (auto intro!: prec28_amount on_grid_add)
    show ?thesis
      using True ne
      by (simp add: calculate_position_after_fill_def sf qd abs aqd m c Let_def ddiv_def
          exact_position_def ad flip: d_def)
  next
    case False
    then have q0: "q \<noteq> 0" by simp
    let ?c = "min \<bar>q\<bar> f"
    have gc: "on_grid 8 ?c" using g on_grid_minus [of 8 q] by (auto simp: min_def abs_if)
    have g8: "on_grid 8 (p - avg)" "on_grid 8 (avg - p)" using g by (simp_all add: on_grid_diff)
    have s: "dsub p avg = p - avg" "dsub avg p = avg - p"
      using g nn fb by (auto intro!: dsub_cents)
    have pc: "\<bar>(p - avg) * ?c\<bar> \<le> f * (avg + p)"
    proof -
      have "\<bar>(p - avg) * ?c\<bar> = \<bar>p - avg\<bar> * ?c" using nn by (simp add: abs_mult)
      also have "\<dots> \<le> (avg + p) * f" using nn by (intro mult_mono) auto
      finally show ?thesis by (simp add: mult.commute)
    qed
    have small: "\<bar>pnl\<bar> + \<bar>(p - avg) * ?c\<bar> < 10 ^ 12"
      using pc b(4) by linarith
    then have pnl: "\<bar>(p - avg) * ?c\<bar> < 10 ^ 12" by linarith
    have g16: "on_grid 16 ((p - avg) * ?c)" "on_grid 16 ((avg - p) * ?c)"
      using on_grid_mult [OF g8(1) gc] on_grid_mult [OF g8(2) gc] by simp_all
    have neg: "(avg - p) * ?c = - ((p - avg) * ?c)" by (simp add: algebra_simps)
    have m: "dmul (p - avg) ?c = (p - avg) * ?c" "dmul (avg - p) ?c = (avg - p) * ?c"
      unfolding dmul_def using g16 pnl neg by (auto intro!: prec28_amount)
    have gp: "on_grid 16 pnl" using g(3) by (rule on_grid_mono) simp
    have b2: "\<bar>pnl + (p - avg) * ?c\<bar> < 10 ^ 12" "\<bar>pnl + (avg - p) * ?c\<bar> < 10 ^ 12"
      using small unfolding neg by linarith+
    have t: "dadd pnl ((p - avg) * ?c) = pnl + (p - avg) * ?c"
        "dadd pnl ((avg - p) * ?c) = pnl + (avg - p) * ?c"
      unfolding dadd_def using g16 gp b2 by (simp_all only: prec28_amount on_grid_add)
    have r: "prec28 avg = avg" "prec28 p = p"
      using g nn fb by (auto intro!: prec28_cents)
    show ?thesis
      using False q0 m t
      by (cases "0 < q")
         (simp_all add: calculate_position_after_fill_def sf qd abs s r Let_def
            exact_position_def ad sgn_if flip: d_def)
  qed
qed

section \<open>Properties\<close>

text \<open>
  C14. Position arithmetic, against the specification: for quantities and prices with 8 decimals
  whose amounts stay below 10 ^ 12, a fill never raises; the net quantity and the realized
  profit are exact, and the average entry price is the exact one rounded once to 28 digits.
\<close>

theorem position_after_fill_refines:
  assumes "small_position q avg pnl f p"
  shows "\<exists>r. calculate_position_after_fill q avg pnl side f p = Inr r \<and>
     (let x = exact_position q avg pnl (if side = BUY then f else - f) p in
        calc_net_quantity r = calc_net_quantity x \<and> calc_realized_pnl r = calc_realized_pnl x \<and>
        calc_average_entry_price r = prec28 (calc_average_entry_price x))"
  using calculate_position_refines [OF assms, of side] by (simp add: Let_def)

theorem position_after_fill_refines_witness:
  "small_position 5 100 0 8 90 \<and>
   (\<exists>r. calculate_position_after_fill 5 100 0 SELL 8 90 = Inr r \<and>
      calc_net_quantity r = -3 \<and> calc_realized_pnl r = -50 \<and> calc_average_entry_price r = 90)"
proof -
  have small: "small_position 5 100 0 8 90" by (simp add: small_position_def)
  show ?thesis
    using small position_after_fill_refines [OF small, of SELL]
    by (auto simp: exact_position_def Let_def)
qed

text \<open>
  C15. Mark to market: at any mark price, a fill changes realized plus unrealized profit by what
  the filled quantity itself earns between fill price and mark, up to the one rounding of the
  average price, whose effect is at most 5 * 10 ^ -28 of the position's cost.
\<close>

theorem fill_mark_to_market:
  assumes "small_position q avg pnl f p"
    and "calculate_position_after_fill q avg pnl side f p = Inr r"
  shows "\<bar>total_pnl_at m r - (pnl + (m - avg) * q + (m - p) * (if side = BUY then f else - f))\<bar>
     \<le> calc_average_entry_price (exact_position q avg pnl (if side = BUY then f else - f) p)
         * \<bar>calc_net_quantity r\<bar> * (5 / 10 ^ 28)"
proof -
  define d where "d = (if side = BUY then f else - f)"
  define x where "x = exact_position q avg pnl d p"
  from assms(1) have nn: "0 \<le> avg" "0 < p" "0 < f" by (simp_all add: small_position_def)
  then have d0: "d \<noteq> 0" by (auto simp: d_def)
  have r: "r = x\<lparr>calc_average_entry_price := prec28 (calc_average_entry_price x)\<rparr>"
    using assms(2) calculate_position_refines [OF assms(1), of side] by (simp add: x_def d_def)
  let ?a = "calc_average_entry_price x"
  have a: "0 \<le> ?a" using nn by (auto simp: x_def exact_position_def)
  have "total_pnl_at m r - total_pnl_at m x = (?a - prec28 ?a) * calc_net_quantity x"
    by (simp add: r total_pnl_at_def algebra_simps)
  then have "\<bar>total_pnl_at m r - total_pnl_at m x\<bar> = \<bar>prec28 ?a - ?a\<bar> * \<bar>calc_net_quantity x\<bar>"
    by (simp add: abs_mult abs_minus_commute)
  also have "\<dots> \<le> ?a * (5 / 10 ^ 28) * \<bar>calc_net_quantity x\<bar>"
    using prec28_rel_error [of ?a] a by (intro mult_right_mono) auto
  finally have "\<bar>total_pnl_at m r - total_pnl_at m x\<bar> \<le> ?a * \<bar>calc_net_quantity r\<bar> * (5 / 10 ^ 28)"
    by (simp add: r mult_ac)
  moreover have "total_pnl_at m x = pnl + (m - avg) * q + (m - p) * d"
    unfolding x_def by (rule exact_position_mark_to_market [OF d0])
  ultimately show ?thesis by (simp add: x_def d_def)
qed

theorem fill_mark_to_market_witness:
  "\<bar>total_pnl_at 95 \<lparr>calc_net_quantity = -3, calc_average_entry_price = 90, calc_realized_pnl = -50\<rparr>
      - (0 + (95 - 100) * 5 + (95 - 90) * (- 8))\<bar> \<le> 90 * 3 * (5 / 10 ^ 28 :: rat)"
proof -
  have small: "small_position 5 100 0 8 90" by (simp add: small_position_def)
  have run: "calculate_position_after_fill 5 100 0 SELL 8 90 =
      Inr \<lparr>calc_net_quantity = -3, calc_average_entry_price = 90, calc_realized_pnl = -50\<rparr>"
    unfolding calculate_position_refines [OF small] by (simp add: exact_position_def)
  show ?thesis
    using fill_mark_to_market [OF small run, of 95] by (simp add: exact_position_def)
qed

end
