(* ===== verification/Position_Service.thy ===== *)
theory Position_Service
  imports Repositories Position_Rules
begin

text \<open>
  \<open>app/services/position_service.py\<close>: a fill is applied to the position of its account and
  symbol, which is created flat when there is none, and marked at the last market price of the
  symbol, or at the fill price when there is no market price.
\<close>

definition new_position :: "uuid \<Rightarrow> string \<Rightarrow> rat \<Rightarrow> position" where
  "new_position account_id symb mark_price =
     \<lparr>p_account_id = account_id, p_symbol = symb, p_net_quantity = 0, p_average_entry_price = 0,
      p_realized_pnl = 0, p_unrealized_pnl = 0, p_last_mark_price = Some mark_price\<rparr>"

text \<open>The assignments to the attributes of the position, once its new numbers are computed.\<close>

definition book_execution :: "position \<Rightarrow> order_side \<Rightarrow> rat \<Rightarrow> rat \<Rightarrow> rat \<Rightarrow> oms_error + position" where
  "book_execution p side fill_quantity fill_price mark_price =
     and_then (calculate_position_after_fill (p_net_quantity p) (p_average_entry_price p)
                 (p_realized_pnl p) side fill_quantity fill_price) (\<lambda>result.
     Inr (p\<lparr>p_net_quantity := calc_net_quantity result,
            p_average_entry_price := calc_average_entry_price result,
            p_realized_pnl := calc_realized_pnl result,
            p_last_mark_price := Some mark_price,
            p_unrealized_pnl := calculate_unrealized_pnl (calc_net_quantity result)
              (calc_average_entry_price result) (Some mark_price)\<rparr>))"

definition apply_execution ::
  "env \<Rightarrow> uuid \<Rightarrow> string \<Rightarrow> order_side \<Rightarrow> rat \<Rightarrow> rat \<Rightarrow> session \<Rightarrow> oms_error + position \<times> session" where
  "apply_execution e account_id symb side fill_quantity fill_price s =
     and_then (position_get_for_update account_id symb s) (\<lambda>(found, s).
     and_then (price_get symb s) (\<lambda>(market_price, s).
     let mark_price = (case market_price of Some m \<Rightarrow> m_price m | None \<Rightarrow> fill_price) in
     and_then (case found of
                 Some p \<Rightarrow> Inr (p, s)
               | None \<Rightarrow>
                   (let p = new_position account_id symb mark_price
                    in and_then (position_add e p s) (\<lambda>s. Inr (p, s)))) (\<lambda>(p, s).
     and_then (book_execution p side fill_quantity fill_price mark_price) (\<lambda>p.
     Inr (p, set_position p s)))))"

section \<open>Effects\<close>

text \<open>The mark price and the position a fill starts from, as the view shows them.\<close>

definition mark_for :: "view \<Rightarrow> string \<Rightarrow> rat \<Rightarrow> rat" where
  "mark_for v symb fill_price = (case v_prices v symb of Some m \<Rightarrow> m_price m | None \<Rightarrow> fill_price)"

definition position_before :: "view \<Rightarrow> uuid \<Rightarrow> string \<Rightarrow> rat \<Rightarrow> position" where
  "position_before v aid symb fill_price =
     (case v_positions v (aid, symb) of
        Some p \<Rightarrow> p | None \<Rightarrow> new_position aid symb (mark_for v symb fill_price))"

lemma position_view_simps [simp]:
  "mark_for (v\<lparr>v_orders := os\<rparr>) = mark_for v" "mark_for (v\<lparr>v_accounts := as\<rparr>) = mark_for v"
  "mark_for (v\<lparr>v_fills := fs\<rparr>) = mark_for v"
  "position_before (v\<lparr>v_orders := os\<rparr>) = position_before v"
  "position_before (v\<lparr>v_accounts := as\<rparr>) = position_before v"
  "position_before (v\<lparr>v_fills := fs\<rparr>) = position_before v"
  by (auto simp: mark_for_def position_before_def fun_eq_iff split: option.split)

lemma p_key_new [simp]: "p_key (new_position aid symb m) = (aid, symb)"
  by (simp add: p_key_def new_position_def)

lemma book_execution_key: "book_execution p side q price mark = Inr p' \<Longrightarrow> p_key p' = p_key p"
  by (auto simp: book_execution_def p_key_def)

lemma apply_execution_steps:
  assumes "apply_execution e aid symb side q price s = Inr (p, s')" and "session_ok s"
  shows "book_execution (position_before (view s) aid symb price) side q price (mark_for (view s) symb price) = Inr p \<and>
    steps_to e s (\<lambda>v. v\<lparr>v_positions := (v_positions v)((aid, symb) \<mapsto> p)\<rparr>) s'"
proof -
  obtain found s1 where 1: "position_get_for_update aid symb s = Inr (found, s1)"
    using assms(1) by (auto simp: apply_execution_def)
  from position_get_for_update_steps [OF 1 assms(2)]
  have st1: "steps_to e s (\<lambda>v. v) s1" and found: "found = v_positions (view s) (aid, symb)" by auto
  from steps_toD [OF st1 assms(2)] have ok1: "session_ok s1" and v1: "view s1 = view s" by auto
  obtain mp s2 where 2: "price_get symb s1 = Inr (mp, s2)"
    using assms(1) 1 by (auto simp: apply_execution_def)
  from price_get_steps [OF 2 ok1]
  have st2: "steps_to e s1 (\<lambda>v. v) s2" and mp: "mp = v_prices (view s) symb" by (auto simp: v1)
  from steps_toD [OF st2 ok1] have ok2: "session_ok s2" and v2: "view s2 = view s" by (auto simp: v1)
  have mark: "(case mp of Some m \<Rightarrow> m_price m | None \<Rightarrow> price) = mark_for (view s) symb price"
    by (simp add: mp mark_for_def)
  note st12 = steps_to_trans [OF st1 st2]
  let ?p0 = "position_before (view s) aid symb price"
  obtain s3 where 3: "book_execution ?p0 side q price (mark_for (view s) symb price) = Inr p"
      "s' = set_position p s3" "v_positions (view s3) (aid, symb) \<noteq> None"
      "steps_to e s2 (\<lambda>v. v\<lparr>v_positions := (v_positions v)((aid, symb) \<mapsto> ?p0)\<rparr>) s3"
  proof (cases found)
    case None
    with assms(1) 1 2 obtain s3 where n: "position_add e (new_position aid symb (mark_for (view s) symb price)) s2 = Inr s3"
        "book_execution (new_position aid symb (mark_for (view s) symb price)) side q price (mark_for (view s) symb price) = Inr p"
        "s' = set_position p s3"
      by (auto simp: apply_execution_def Let_def mark)
    have p0: "?p0 = new_position aid symb (mark_for (view s) symb price)"
      using None found by (simp add: position_before_def)
    from position_add_steps [OF n(1)] have st: "steps_to e s2 (\<lambda>v. v\<lparr>v_positions := (v_positions v)((aid, symb) \<mapsto> ?p0)\<rparr>) s3"
      by (simp add: p0)
    from steps_toD [OF this ok2] have "v_positions (view s3) (aid, symb) \<noteq> None" by simp
    with n st show ?thesis by (intro that) (auto simp: p0)
  next
    case (Some x)
    have p0: "?p0 = x" using Some found by (simp add: position_before_def)
    from Some assms(1) 1 2 have b: "book_execution x side q price (mark_for (view s) symb price) = Inr p"
        "s' = set_position p s2"
      by (auto simp: apply_execution_def Let_def mark)
    have "steps_to e s2 (\<lambda>v. v\<lparr>v_positions := (v_positions v)((aid, symb) \<mapsto> ?p0)\<rparr>) s2"
      using Some found v2 p0 by (intro steps_toI) (simp add: fun_upd_idem)
    with b show ?thesis using Some found v2 by (intro that) (auto simp: p0)
  qed
  have "p_key ?p0 = (aid, symb)"
    using view_keys(3) [OF assms(2), of "(aid, symb)"]
    by (auto simp: position_before_def split: option.splits)
  then have k: "p_key p = (aid, symb)" using book_execution_key [OF 3(1)] by simp
  have "steps_to e s3 (\<lambda>v. v\<lparr>v_positions := (v_positions v)((aid, symb) \<mapsto> p)\<rparr>) s'"
    using set_position_steps [of s3 p] 3(3) k by (simp add: 3(2))
  from steps_to_trans [OF st12 steps_to_trans [OF 3(4) this]] 3(1) show ?thesis by simp
qed

end
