(* ===== verification/Session_Progress.thy ===== *)
theory Session_Progress
  imports Order_Lifecycle Position_Service
begin

text \<open>
  When the operations of a session succeed.

  A session is ready when its tables are well-formed and every object it has loaded can be
  stored. From a ready session a flush succeeds, a look-up by key succeeds, and an insert
  succeeds when its row can be stored, its unique keys are free and its foreign key exists;
  each leaves a ready session whose view is the one the refinement lemmas give. This is what the
  theorems that a handler returns a result rest on.
\<close>

definition can_store :: "('r \<Rightarrow> 'e + 'r) \<Rightarrow> 'r \<Rightarrow> bool" where
  "can_store store x \<longleftrightarrow> (\<exists>r. store x = Inr r)"

definition storable :: "env \<Rightarrow> session \<Rightarrow> bool" where
  "storable e s \<longleftrightarrow>
     (\<forall>k x. loaded_accounts s k = Some x \<longrightarrow> can_store (store_account e) x) \<and>
     (\<forall>k x. loaded_orders s k = Some x \<longrightarrow> can_store (store_order e) x) \<and>
     (\<forall>k x. loaded_positions s k = Some x \<longrightarrow> can_store (store_position e) x) \<and>
     (\<forall>k x. loaded_prices s k = Some x \<longrightarrow> can_store (store_price e) x)"

definition ready :: "env \<Rightarrow> session \<Rightarrow> bool" where
  "ready e s \<longleftrightarrow> documented e \<and> session_ok s \<and> well_formed e (tx s) \<and> storable e s"

text \<open>The operation returns \<open>x\<close>, in a ready session whose view is \<open>f\<close> of the one before.\<close>

definition succeeds :: "env \<Rightarrow> (oms_error + session) \<Rightarrow> (view \<Rightarrow> view) \<Rightarrow> session \<Rightarrow> bool" where
  "succeeds e r f s \<longleftrightarrow> (\<exists>s'. r = Inr s' \<and> ready e s' \<and> view s' = f (view s))"

definition yields :: "env \<Rightarrow> (oms_error + 'a \<times> session) \<Rightarrow> 'a \<Rightarrow> (view \<Rightarrow> view) \<Rightarrow> session \<Rightarrow> bool" where
  "yields e r x f s \<longleftrightarrow> (\<exists>s'. r = Inr (x, s') \<and> ready e s' \<and> view s' = f (view s))"

lemma readyD:
  "ready e s \<Longrightarrow> documented e" "ready e s \<Longrightarrow> session_ok s" "ready e s \<Longrightarrow> well_formed e (tx s)"
  "ready e s \<Longrightarrow> storable e s"
  by (simp_all add: ready_def)

lemma can_storeI: "store x = Inr r \<Longrightarrow> can_store store x"
  by (auto simp: can_store_def)

lemma ready_open: "documented e \<Longrightarrow> well_formed e db \<Longrightarrow> ready e (open_session db)"
  by (simp add: ready_def storable_def) (simp add: open_session_def)

text \<open>A step from a ready session that keeps the loaded objects storable.\<close>

lemma ready_step:
  assumes "ready e s" and "steps_to e s f s'" and "storable e s'"
  shows "ready e s' \<and> view s' = f (view s)"
  using assms by (auto simp: ready_def steps_to_def)

lemma ready_set_account:
  assumes "ready e s" and "v_accounts (view s) (a_id a) \<noteq> None" and "can_store (store_account e) a"
  shows "ready e (set_account a s) \<and>
    view (set_account a s) = (view s)\<lparr>v_accounts := (v_accounts (view s))(a_id a \<mapsto> a)\<rparr>"
  using ready_step [OF assms(1) set_account_steps [OF assms(2)]] assms(1,3)
  by (auto simp: ready_def storable_def set_account_def)

lemma ready_set_order:
  assumes "ready e s" and "v_orders (view s) (o_id ord) \<noteq> None" and "can_store (store_order e) ord"
  shows "ready e (set_order ord s) \<and>
    view (set_order ord s) = (view s)\<lparr>v_orders := (v_orders (view s))(o_id ord \<mapsto> ord)\<rparr>"
  using ready_step [OF assms(1) set_order_steps [OF assms(2)]] assms(1,3)
  by (auto simp: ready_def storable_def set_order_def)

lemma ready_set_position:
  assumes "ready e s" and "v_positions (view s) (p_key p) \<noteq> None" and "can_store (store_position e) p"
  shows "ready e (set_position p s) \<and>
    view (set_position p s) = (view s)\<lparr>v_positions := (v_positions (view s))(p_key p \<mapsto> p)\<rparr>"
  using ready_step [OF assms(1) set_position_steps [OF assms(2)]] assms(1,3)
  by (auto simp: ready_def storable_def set_position_def)

section \<open>Flushing\<close>

lemma traverse_defined: "\<forall>x\<in>set xs. \<exists>y. f x = Inr y \<Longrightarrow> \<exists>ys. traverse f xs = Inr ys"
  by (induction xs) auto

lemma write_back_defined:
  "(\<And>r x. loaded (key r) = Some x \<Longrightarrow> \<exists>y. writes r x = Inr y) \<Longrightarrow>
     \<exists>rows'. write_back key writes loaded rows = Inr rows'"
  unfolding write_back_def by (rule traverse_defined) (auto split: option.splits)

lemma flush_ready:
  assumes "ready e s"
  shows "succeeds e (flush e s) (\<lambda>v. v) s"
proof -
  have known: "known_accounts s = Map.empty" "known_orders s = Map.empty"
    using assms by (simp_all add: ready_def session_ok_def)
  have st: "loaded_accounts s k = Some x \<Longrightarrow> \<exists>r. store_account e x = Inr r"
      "loaded_orders s k = Some y \<Longrightarrow> \<exists>r. store_order e y = Inr r"
      "loaded_positions s pk = Some z \<Longrightarrow> \<exists>r. store_position e z = Inr r"
      "loaded_prices s k = Some w \<Longrightarrow> \<exists>r. store_price e w = Inr r" for k x y pk z w
    using assms unfolding ready_def storable_def can_store_def by blast+
  have "\<exists>as. write_back a_id (write_account e (known_accounts s)) (loaded_accounts s) (accounts (tx s)) = Inr as"
    "\<exists>os. write_back o_id (write_order e (known_orders s)) (loaded_orders s) (orders (tx s)) = Inr os"
    "\<exists>ps. write_back p_key (\<lambda>_. store_position e) (loaded_positions s) (positions (tx s)) = Inr ps"
    "\<exists>ms. write_back m_symbol (\<lambda>_. store_price e) (loaded_prices s) (market_prices (tx s)) = Inr ms"
    by (rule write_back_defined; simp add: known st)+
  then obtain s' where s': "flush e s = Inr s'" by (auto simp: flush_def)
  have "storable e s'"
    using assms flush_frame(1-4) [OF s'] by (simp add: ready_def storable_def)
  with ready_step [OF assms flush_steps [OF s']] s' show ?thesis by (simp add: succeeds_def)
qed

section \<open>Look-ups\<close>

lemma account_get_ready:
  assumes "ready e s"
  shows "yields e (account_get_for_update aid s) (v_accounts (view s) aid) (\<lambda>v. v) s"
proof -
  have d: "distinct (map a_id (accounts (tx s)))" and w: "settled e (tx s)"
    using assms by (simp_all add: ready_def well_formed_defs)
  obtain found s' where g: "account_get_for_update aid s = Inr (found, s')"
    by (cases "account_row (tx s) aid"; cases "resolve_account (the (account_row (tx s) aid)) s")
      (auto simp: account_get_for_update_def select_account_def select_one_key [OF d] )
  note st = account_get_for_update_steps [OF g readyD(2) [OF assms]]
  have "storable e s'"
    using g assms settledD(1) [OF w, of aid] row_of_SomeD [of a_id aid "accounts (tx s)"]
    by (auto simp: account_get_for_update_def select_account_def select_one_key [OF d] resolve_account_def
        set_account_def ready_def storable_def can_store_def split: option.splits if_splits)
  with ready_step [OF assms] st g show ?thesis by (auto simp: yields_def)
qed

lemma order_get_ready:
  assumes "ready e s"
  shows "yields e (order_get_for_update oid s) (v_orders (view s) oid) (\<lambda>v. v) s"
proof -
  have d: "distinct (map o_id (orders (tx s)))" and w: "settled e (tx s)"
    using assms by (simp_all add: ready_def well_formed_defs)
  obtain found s' where g: "order_get_for_update oid s = Inr (found, s')"
    by (cases "order_row (tx s) oid"; cases "resolve_order (the (order_row (tx s) oid)) s")
      (auto simp: order_get_for_update_def select_order_def select_one_key [OF d] )
  note st = order_get_for_update_steps [OF g readyD(2) [OF assms]]
  have "storable e s'"
    using g assms settledD(2) [OF w, of oid] row_of_SomeD [of o_id oid "orders (tx s)"]
    by (auto simp: order_get_for_update_def select_order_def select_one_key [OF d] resolve_order_def
        set_order_def ready_def storable_def can_store_def split: option.splits if_splits)
  with ready_step [OF assms] st g show ?thesis by (auto simp: yields_def)
qed

lemma position_get_ready:
  assumes "ready e s"
  shows "yields e (position_get_for_update aid symb s) (v_positions (view s) (aid, symb)) (\<lambda>v. v) s"
proof -
  have d: "distinct (map p_key (positions (tx s)))" and w: "settled e (tx s)"
    using assms by (simp_all add: ready_def well_formed_defs)
  obtain found s' where g: "position_get_for_update aid symb s = Inr (found, s')"
    by (cases "position_row (tx s) aid symb"; cases "resolve_position (the (position_row (tx s) aid symb)) s")
      (auto simp: position_get_for_update_def select_one_key [OF d] )
  note st = position_get_for_update_steps [OF g readyD(2) [OF assms]]
  have "storable e s'"
    using g assms settledD(3) [OF w, of "(aid, symb)"] row_of_SomeD [of p_key "(aid, symb)" "positions (tx s)"]
    by (auto simp: position_get_for_update_def select_one_key [OF d] resolve_position_def
        set_position_def ready_def storable_def can_store_def split: option.splits if_splits)
  with ready_step [OF assms] st g show ?thesis by (auto simp: yields_def)
qed

lemma price_get_ready:
  assumes "ready e s"
  shows "yields e (price_get symb s) (v_prices (view s) symb) (\<lambda>v. v) s"
proof -
  have d: "distinct (map m_symbol (market_prices (tx s)))" and w: "settled e (tx s)"
    using assms by (simp_all add: ready_def well_formed_defs)
  obtain found s' where g: "price_get symb s = Inr (found, s')"
    by (cases "price_row (tx s) symb"; cases "resolve_price (the (price_row (tx s) symb)) s"; cases "loaded_prices s symb")
      (auto simp: price_get_def select_one_key [OF d] )
  note st = price_get_steps [OF g readyD(2) [OF assms]]
  have "storable e s'"
    using g assms settledD(4) [OF w, of symb] row_of_SomeD [of m_symbol symb "market_prices (tx s)"]
    by (auto simp: price_get_def select_one_key [OF d] resolve_price_def
        set_price_def ready_def storable_def can_store_def split: option.splits if_splits)
  with ready_step [OF assms] st g show ?thesis by (auto simp: yields_def)
qed

section \<open>Inserts\<close>

lemma view_order_known: "session_ok s \<Longrightarrow> v_orders (view s) oid \<noteq> None \<Longrightarrow> oid \<in> o_id ` set (orders (tx s))"
  by (simp add: row_of_None_iff flip: view_has_row(2))

lemma view_account_known:
  "session_ok s \<Longrightarrow> v_accounts (view s) aid \<noteq> None \<Longrightarrow> aid \<in> a_id ` set (accounts (tx s))"
  by (simp add: row_of_None_iff flip: view_has_row(1))

lemma order_add_event_ready:
  assumes "ready e s" and "v_orders (view s) (e_order_id ev) \<noteq> None"
  shows "succeeds e (order_add_event e ev s) (\<lambda>v. v\<lparr>v_events := v_events v @ [ev]\<rparr>) s"
proof -
  from flush_ready [OF assms(1)] obtain t where t: "flush e s = Inr t" "ready e t" "view t = view s"
    by (auto simp: succeeds_def)
  let ?s' = "t\<lparr>tx := (tx t)\<lparr>order_events := order_events (tx t) @ [ev]\<rparr>\<rparr>"
  have add: "order_add_event e ev s = Inr ?s'"
    using t(1) view_order_known [OF readyD(2) [OF t(2)]] assms(2)
    by (simp add: order_add_event_def insert_event_def foreign_key_def t(3))
  have "storable e ?s'" using t(2) by (simp add: ready_def storable_def)
  with ready_step [OF assms(1) order_add_event_steps [OF add]] add show ?thesis
    by (simp add: succeeds_def)
qed

lemma order_add_fill_ready:
  assumes "ready e s" and "v_orders (view s) (f_order_id f) \<noteq> None" and "store_fill e f = Inr row"
    and "f_broker_event_id row \<notin> f_broker_event_id ` set (v_fills (view s))"
    and "f_execution_id row \<notin> f_execution_id ` set (v_fills (view s))"
  shows "succeeds e (order_add_fill e f s) (\<lambda>v. v\<lparr>v_fills := v_fills v @ [row]\<rparr>) s"
proof -
  from flush_ready [OF assms(1)] obtain t where t: "flush e s = Inr t" "ready e t" "view t = view s"
    by (auto simp: succeeds_def)
  let ?s' = "t\<lparr>tx := (tx t)\<lparr>fills := fills (tx t) @ [row]\<rparr>\<rparr>"
  have fl: "fills (tx t) = v_fills (view s)" by (simp add: t(3) [symmetric]) (simp add: view_def)
  have "f_order_id row = f_order_id f" using assms(3) by (auto simp: store_fill_def Let_def)
  then have add: "order_add_fill e f s = Inr ?s'"
    using t(1) view_order_known [OF readyD(2) [OF t(2)]] assms(2-5)
    by (simp add: order_add_fill_def insert_defs t(3) fl)
  have "storable e ?s'" using t(2) by (simp add: ready_def storable_def)
  with order_add_fill_steps [OF add] assms(3) ready_step [OF assms(1), of _ ?s'] add show ?thesis
    by (auto simp: succeeds_def)
qed

lemma processed_add_ready:
  assumes "ready e s" and "v_orders (view s) (b_order_id b) \<noteq> None" and "store_processed e b = Inr b"
    and "b_broker_event_id b \<notin> b_broker_event_id ` set (v_processed (view s))"
  shows "succeeds e (processed_add e b s) (\<lambda>v. v\<lparr>v_processed := v_processed v @ [b]\<rparr>) s"
proof -
  from flush_ready [OF assms(1)] obtain t where t: "flush e s = Inr t" "ready e t" "view t = view s"
    by (auto simp: succeeds_def)
  let ?s' = "t\<lparr>tx := (tx t)\<lparr>processed_broker_events := processed_broker_events (tx t) @ [b]\<rparr>\<rparr>"
  have pr: "processed_broker_events (tx t) = v_processed (view s)"
    by (simp add: t(3) [symmetric]) (simp add: view_def)
  have add: "processed_add e b s = Inr ?s'"
    using t(1) view_order_known [OF readyD(2) [OF t(2)]] assms(2-4)
    by (simp add: processed_add_def insert_defs t(3) pr)
  have "storable e ?s'" using t(2) by (simp add: ready_def storable_def)
  with processed_add_steps [OF add] assms(3) ready_step [OF assms(1), of _ ?s'] add show ?thesis
    by (auto simp: succeeds_def)
qed

lemma position_add_ready:
  assumes "ready e s" and "v_accounts (view s) (p_account_id p) \<noteq> None" and "can_store (store_position e) p"
    and "v_positions (view s) (p_key p) = None"
  shows "succeeds e (position_add e p s) (\<lambda>v. v\<lparr>v_positions := (v_positions v)(p_key p \<mapsto> p)\<rparr>) s"
proof -
  from flush_ready [OF assms(1)] obtain t where t: "flush e s = Inr t" "ready e t" "view t = view s"
    by (auto simp: succeeds_def)
  from assms(3) obtain row where row: "store_position e p = Inr row" by (auto simp: can_store_def)
  note k = store_positionD(1,3) [OF row]
  let ?s' = "set_position p (t\<lparr>tx := (tx t)\<lparr>positions := positions (tx t) @ [row]\<rparr>\<rparr>)"
  have "p_key p \<notin> p_key ` set (positions (tx t))"
    using view_has_row(3) [OF readyD(2) [OF t(2)], of "p_key p"] assms(4) t(3) by (simp add: row_of_None_iff)
  then have add: "position_add e p s = Inr ?s'"
    using t(1) view_account_known [OF readyD(2) [OF t(2)]] assms(2) row k
    by (simp add: position_add_def insert_defs t(3))
  have "storable e ?s'"
    using t(2) assms(3) by (auto simp: ready_def storable_def set_position_def)
  with ready_step [OF assms(1) position_add_steps [OF add]] add show ?thesis
    by (simp add: succeeds_def)
qed

section \<open>Lifecycle and positions\<close>

text \<open>Status and version do not matter for whether an order can be stored.\<close>

lemma store_order_status:
  "store_order e ord = Inr r \<Longrightarrow>
     store_order e (ord\<lparr>o_status := st, o_version := n\<rparr>) = Inr (r\<lparr>o_status := st, o_version := n\<rparr>)"
  by (rule store_orderI) (auto dest: store_orderD simp: order_checks_def)

lemma can_store_order_status [simp]:
  "can_store (store_order e) (ord\<lparr>o_status := st, o_version := n\<rparr>) = can_store (store_order e) ord"
  "can_store (store_order e) (ord\<lparr>o_version := n\<rparr>) = can_store (store_order e) ord"
  "can_store (store_order e) (moved ord st) = can_store (store_order e) ord"
proof -
  have *: "can_store (store_order e) (ord\<lparr>o_status := st, o_version := n\<rparr>) = can_store (store_order e) ord" for ord st n
  proof
    assume "can_store (store_order e) (ord\<lparr>o_status := st, o_version := n\<rparr>)"
    then obtain r where "store_order e (ord\<lparr>o_status := st, o_version := n\<rparr>) = Inr r" by (auto simp: can_store_def)
    from store_order_status [OF this, where st = "o_status ord" and n = "o_version ord"]
    show "can_store (store_order e) ord" by (auto simp: can_store_def)
  qed (auto simp: can_store_def dest: store_order_status)
  show "can_store (store_order e) (ord\<lparr>o_status := st, o_version := n\<rparr>) = can_store (store_order e) ord" by (rule *)
  show "can_store (store_order e) (ord\<lparr>o_version := n\<rparr>) = can_store (store_order e) ord"
    using * [where ord = ord and st = "o_status ord" and n = n] by simp
  show "can_store (store_order e) (moved ord st) = can_store (store_order e) ord"
    unfolding moved_def by (rule *)
qed

lemma append_event_ready:
  assumes "ready e s" and "v_orders (view s) (o_id ord) \<noteq> None"
  shows "succeeds e (append_event e ord ty p n d s) (\<lambda>v. v\<lparr>v_events := v_events v @ [audit e ord ty p n d]\<rparr>) s"
  using order_add_event_ready [OF assms(1), of "audit e ord ty p n d"] assms(2)
  by (simp add: append_event_def audit_def)

lemma transition_ready:
  assumes "ready e s" and "v_orders (view s) (o_id ord) \<noteq> None" and "target \<in> ALLOWED_TRANSITIONS (o_status ord)"
    and "can_store (store_order e) ord"
  shows "yields e (transition e ord target ty d s) (moved ord target)
    (\<lambda>v. v\<lparr>v_orders := (v_orders v)(o_id ord \<mapsto> moved ord target),
           v_events := v_events v @ [audit e ord ty (Some (o_status ord)) (Some target) d]\<rparr>) s"
proof -
  have r: "ready e (set_order (moved ord target) s)"
      "view (set_order (moved ord target) s) = (view s)\<lparr>v_orders := (v_orders (view s))(o_id ord \<mapsto> moved ord target)\<rparr>"
    using ready_set_order [OF assms(1), of "moved ord target"] assms(2,4) by simp_all
  then have "v_orders (view (set_order (moved ord target) s)) (o_id (moved ord target)) \<noteq> None" by simp
  from append_event_ready [OF r(1) this, of ty "Some (o_status ord)" "Some target" d] obtain s' where
      "append_event e (moved ord target) ty (Some (o_status ord)) (Some target) d (set_order (moved ord target) s) = Inr s'"
      "ready e s'" "view s' = (view (set_order (moved ord target) s))\<lparr>v_events :=
         v_events (view (set_order (moved ord target) s)) @ [audit e ord ty (Some (o_status ord)) (Some target) d]\<rparr>"
    by (auto simp: succeeds_def)
  with r(2) assms(3) show ?thesis
    by (auto simp: yields_def transition_def Let_def ensure_transition_allowed_def moved_def [symmetric])
qed

lemma apply_execution_ready:
  assumes "ready e s" and "v_accounts (view s) aid \<noteq> None"
    and "book_execution (position_before (view s) aid symb price) side q price (mark_for (view s) symb price) = Inr p"
    and "v_positions (view s) (aid, symb) = None \<Longrightarrow>
           can_store (store_position e) (new_position aid symb (mark_for (view s) symb price))"
    and "can_store (store_position e) p"
  shows "yields e (apply_execution e aid symb side q price s) p
    (\<lambda>v. v\<lparr>v_positions := (v_positions v)((aid, symb) \<mapsto> p)\<rparr>) s"
proof -
  let ?p0 = "position_before (view s) aid symb price" and ?mark = "mark_for (view s) symb price"
  from position_get_ready [OF assms(1)] obtain s1 where 1: "ready e s1" "view s1 = view s"
      "position_get_for_update aid symb s = Inr (v_positions (view s) (aid, symb), s1)"
    by (auto simp: yields_def)
  from price_get_ready [OF 1(1)] obtain s2 where 2: "ready e s2" "view s2 = view s"
      "price_get symb s1 = Inr (v_prices (view s) symb, s2)"
    by (auto simp: yields_def 1(2))
  have "\<exists>s3. (case v_positions (view s) (aid, symb) of Some p \<Rightarrow> Inr (p, s2) | None \<Rightarrow>
        and_then (position_add e (new_position aid symb ?mark) s2) (\<lambda>s. Inr (new_position aid symb ?mark, s))) = Inr (?p0, s3) \<and>
      ready e s3 \<and> view s3 = (view s)\<lparr>v_positions := (v_positions (view s))((aid, symb) \<mapsto> ?p0)\<rparr>"
  proof (cases "v_positions (view s) (aid, symb)")
    case None
    then have p0: "?p0 = new_position aid symb ?mark" by (simp add: position_before_def)
    have "succeeds e (position_add e ?p0 s2) (\<lambda>v. v\<lparr>v_positions := (v_positions v)((aid, symb) \<mapsto> ?p0)\<rparr>) s2"
      using position_add_ready [OF 2(1), of ?p0] None assms(2,4)
      by (simp add: p0 2(2)) (simp add: new_position_def)
    with None p0 show ?thesis by (auto simp: succeeds_def 2(2))
  next
    case (Some x)
    then show ?thesis using 2 by (auto simp: position_before_def fun_upd_idem)
  qed
  then obtain s3 where 3: "(case v_positions (view s) (aid, symb) of Some p \<Rightarrow> Inr (p, s2) | None \<Rightarrow>
        and_then (position_add e (new_position aid symb ?mark) s2) (\<lambda>s. Inr (new_position aid symb ?mark, s))) = Inr (?p0, s3)"
      "ready e s3" "view s3 = (view s)\<lparr>v_positions := (v_positions (view s))((aid, symb) \<mapsto> ?p0)\<rparr>" by blast
  have k: "p_key p = (aid, symb)"
    using book_execution_key [OF assms(3)] view_keys(3) [OF readyD(2) [OF assms(1)], of "(aid, symb)"]
    by (auto simp: position_before_def split: option.splits)
  have mark: "(case v_prices (view s) symb of Some m \<Rightarrow> m_price m | None \<Rightarrow> price) = ?mark"
    by (simp add: mark_for_def)
  have "apply_execution e aid symb side q price s = Inr (p, set_position p s3)"
    by (simp only: apply_execution_def Let_def 1(3) 2(3) and_then_Inr prod.case mark 3(1) assms(3))
  moreover have "ready e (set_position p s3)" "view (set_position p s3) =
      (view s)\<lparr>v_positions := (v_positions (view s))((aid, symb) \<mapsto> p)\<rparr>"
    using ready_set_position [OF 3(2), of p] k assms(5) by (simp_all add: 3(3))
  ultimately show ?thesis by (auto simp: yields_def)
qed

end
