(* ===== verification/Order_Refinement.thy ===== *)
theory Order_Refinement
  imports Order_Service Cancellation_Service Session_Progress
begin

text \<open>
  What accepting an order and requesting its cancellation do to the database.

  \<open>create_order_body_cases\<close> lists the three ways the transaction of \<open>create_order\<close> returns: the order
  made for an earlier request with the same idempotency key, a new order that is rejected for
  want of cash, a new order that is routed with its cash reserved. \<open>request_cancellation_accepted\<close>
  gives the result of a cancellation request in every case.
\<close>

section \<open>New orders\<close>

definition reserved_for :: "order_create \<Rightarrow> account \<Rightarrow> account" where
  "reserved_for payload a =
     (if oc_side payload = BUY
      then a\<lparr>a_reserved_cash := dadd (a_reserved_cash a)
               (required_buying_power (oc_side payload) (oc_quantity payload) (oc_price payload)),
             a_version := a_version a + 1\<rparr>
      else a)"

definition rejected_order :: "env \<Rightarrow> order_create \<Rightarrow> order" where
  "rejected_order e payload =
     moved ((new_order e payload)\<lparr>o_rejection_reason := Some (message InsufficientBuyingPower)\<rparr>) REJECTED"

definition routed_order :: "env \<Rightarrow> order_create \<Rightarrow> order" where
  "routed_order e payload = moved (moved (new_order e payload) VALIDATED) ROUTED"

definition created_event :: "env \<Rightarrow> order_create \<Rightarrow> order_event" where
  "created_event e payload =
     audit e (new_order e payload) ORDER_CREATED None (Some NEW) (created_event_data (new_order e payload))"

definition rejected_view :: "env \<Rightarrow> order_create \<Rightarrow> view \<Rightarrow> view" where
  "rejected_view e payload v =
     v\<lparr>v_orders := (v_orders v)(new_uuid e \<mapsto> rejected_order e payload),
       v_events := v_events v @
         [created_event e payload,
          audit e (new_order e payload) VALIDATION_FAILED (Some NEW) (Some REJECTED)
            [(''reason'', JText (message InsufficientBuyingPower))]]\<rparr>"

definition routed_view :: "env \<Rightarrow> order_create \<Rightarrow> account \<Rightarrow> view \<Rightarrow> view" where
  "routed_view e payload a v =
     v\<lparr>v_accounts := (v_accounts v)(a_id a \<mapsto> reserved_for payload a),
       v_orders := (v_orders v)(new_uuid e \<mapsto> routed_order e payload),
       v_events := v_events v @
         [created_event e payload,
          audit e (new_order e payload) ORDER_VALIDATED (Some NEW) (Some VALIDATED) [],
          audit e (new_order e payload) ORDER_ROUTED (Some VALIDATED) (Some ROUTED) []]\<rparr>"

lemma new_order_simps [simp]:
  "o_id (new_order e payload) = new_uuid e" "o_status (new_order e payload) = NEW"
  "o_side (new_order e payload) = oc_side payload" "o_account_id (new_order e payload) = oc_account_id payload"
  "o_quantity (new_order e payload) = oc_quantity payload" "o_price (new_order e payload) = oc_price payload"
  "o_filled_quantity (new_order e payload) = 0" "o_cancelled_quantity (new_order e payload) = 0"
  "o_remaining_quantity (new_order e payload) = oc_quantity payload"
  "o_client_order_id (new_order e payload) = oc_client_order_id payload"
  "o_idempotency_key (new_order e payload) = oc_idempotency_key payload"
  "o_symbol (new_order e payload) = oc_symbol payload"
  "o_time_in_force (new_order e payload) = oc_time_in_force payload"
  "o_order_type (new_order e payload) = oc_order_type payload"
  by (simp_all add: new_order_def)

lemma reserved_for_id [simp]: "a_id (reserved_for payload a) = a_id a"
  by (simp add: reserved_for_def)

text \<open>A query for an order on a session that has loaded none.\<close>

lemma select_order_fresh:
  assumes "select_order P s = Inr (found, s')" and "session_ok s" and "keys_distinct (tx s)"
    and "loaded_orders s = Map.empty"
  shows "steps_to e s (\<lambda>v. v) s' \<and>
    (case found of None \<Rightarrow> s' = s \<and> (\<forall>r\<in>set (orders (tx s)). \<not> P r)
     | Some r \<Rightarrow> r \<in> set (orders (tx s)) \<and> P r)"
proof -
  obtain row where f: "select_one MultipleResultsFound P (orders (tx s)) = Inr row"
    using assms by (auto simp: select_order_def)
  show ?thesis
  proof (cases row)
    case None
    then have "s' = s" "found = None" using f assms(1) by (auto simp: select_order_def)
    with f None show ?thesis by (simp add: select_one_None_iff steps_toI)
  next
    case (Some r)
    with f have r: "r \<in> set (orders (tx s))" "P r" by (auto dest: select_one_SomeD)
    from order_row_distinct [OF assms(3) r(1)] have row: "order_row (tx s) (o_id r) = Some r" .
    from f Some assms(1,4) have "found = Some r" "s' = set_order r s" "resolve_order r s = (r, s')"
      by (simp_all add: select_order_def resolve_order_def)
    with resolve_order_steps [of r s r s' e] row r show ?thesis by simp
  qed
qed

lemma account_get_keeps_orders:
  "account_get_for_update aid s = Inr (found, s') \<Longrightarrow> loaded_orders s' = loaded_orders s \<and> tx s' = tx s"
  by (auto simp: account_get_for_update_def select_account_def resolve_account_def set_account_def
      split: option.splits prod.splits)

text \<open>The statements that record a new order.\<close>

lemma order_recorded_steps:
  assumes "order_add e (new_order e payload) s = Inr s1"
    and "append_event e (new_order e payload) ORDER_CREATED None (Some NEW)
           (created_event_data (new_order e payload)) s1 = Inr s2" and "session_ok s"
  shows "v_orders (view s) (new_uuid e) = None \<and>
    steps_to e s (\<lambda>v. v\<lparr>v_orders := (v_orders v)(new_uuid e \<mapsto> new_order e payload),
                       v_events := v_events v @ [created_event e payload]\<rparr>) s2"
  using order_add_steps [OF assms(1,3)] steps_to_trans [OF _ append_event_steps [OF assms(2)]]
  by (fastforce simp: created_event_def)

lemma rejected_steps:
  assumes "transition e ((new_order e payload)\<lparr>o_rejection_reason := Some msg\<rparr>) REJECTED VALIDATION_FAILED d
      (set_order ((new_order e payload)\<lparr>o_rejection_reason := Some msg\<rparr>) s) = Inr (ord, s')"
    and "v_orders (view s) (new_uuid e) \<noteq> None"
  shows "ord = moved ((new_order e payload)\<lparr>o_rejection_reason := Some msg\<rparr>) REJECTED \<and>
    steps_to e s (\<lambda>v. v\<lparr>v_orders := (v_orders v)(new_uuid e \<mapsto> ord),
       v_events := v_events v @ [audit e (new_order e payload) VALIDATION_FAILED (Some NEW) (Some REJECTED) d]\<rparr>) s'"
proof -
  let ?ord = "(new_order e payload)\<lparr>o_rejection_reason := Some msg\<rparr>"
  have some: "v_orders (view (set_order ?ord s)) (o_id ?ord) \<noteq> None" by (simp add: view_set_order)
  have st: "steps_to e s (\<lambda>v. v\<lparr>v_orders := (v_orders v)(new_uuid e \<mapsto> ?ord)\<rparr>) (set_order ?ord s)"
    using set_order_steps [of s ?ord] assms(2) by simp
  have "audit e ?ord VALIDATION_FAILED (Some NEW) (Some REJECTED) d =
      audit e (new_order e payload) VALIDATION_FAILED (Some NEW) (Some REJECTED) d" by (simp add: audit_def)
  with transition_steps [OF assms(1) some] steps_to_trans [OF st] show ?thesis by fastforce
qed

lemma routed_steps:
  assumes "transition e (new_order e payload) VALIDATED ORDER_VALIDATED [] s = Inr (ord1, s1)"
    and "transition e ord1 ROUTED ORDER_ROUTED []
           (if o_side ord1 = BUY then set_account (reserved_for payload a) s1 else s1) = Inr (ord, s')"
    and "session_ok s" and "v_orders (view s) (new_uuid e) \<noteq> None"
    and "v_accounts (view s) (a_id a) = Some a"
  shows "ord = routed_order e payload \<and>
    steps_to e s (\<lambda>v. v\<lparr>v_accounts := (v_accounts v)(a_id a \<mapsto> reserved_for payload a),
       v_orders := (v_orders v)(new_uuid e \<mapsto> ord),
       v_events := v_events v @ [audit e (new_order e payload) ORDER_VALIDATED (Some NEW) (Some VALIDATED) [],
                                 audit e (new_order e payload) ORDER_ROUTED (Some VALIDATED) (Some ROUTED) []]\<rparr>) s'"
proof -
  let ?n = "new_order e payload"
  let ?s2 = "if o_side ord1 = BUY then set_account (reserved_for payload a) s1 else s1"
  from transition_steps [OF assms(1)] assms(4) have o1: "ord1 = moved ?n VALIDATED"
    and st1: "steps_to e s (\<lambda>v. v\<lparr>v_orders := (v_orders v)(new_uuid e \<mapsto> ord1),
       v_events := v_events v @ [audit e ?n ORDER_VALIDATED (Some NEW) (Some VALIDATED) []]\<rparr>) s1" by auto
  from steps_toD [OF st1 assms(3)] have v1: "v_orders (view s1) (new_uuid e) = Some ord1"
      "v_accounts (view s1) = v_accounts (view s)" "session_ok s1" by simp_all
  have st2: "steps_to e s1 (\<lambda>v. v\<lparr>v_accounts := (v_accounts v)(a_id a \<mapsto> reserved_for payload a)\<rparr>) ?s2"
  proof (cases "oc_side payload = BUY")
    case True
    with set_account_steps [of s1 "reserved_for payload a" e] assms(5) v1 show ?thesis by (simp add: o1)
  next
    case False
    then have "(v_accounts (view s1))(a_id a \<mapsto> reserved_for payload a) = v_accounts (view s1)"
      using assms(5) v1(2) by (simp add: reserved_for_def fun_upd_idem)
    with False show ?thesis by (intro steps_toI) (simp add: o1)
  qed
  from steps_toD [OF st2 v1(3)] have "v_orders (view ?s2) (o_id ord1) \<noteq> None"
    using v1(1) by (simp add: o1 split del: if_split)
  from transition_steps [OF assms(2) this] have o2: "ord = routed_order e payload"
    and st3: "steps_to e ?s2 (\<lambda>v. v\<lparr>v_orders := (v_orders v)(new_uuid e \<mapsto> ord),
       v_events := v_events v @ [audit e ?n ORDER_ROUTED (Some VALIDATED) (Some ROUTED) []]\<rparr>) s'"
    by (simp_all add: o1 routed_order_def)
  from steps_to_trans [OF st1 steps_to_trans [OF st2 st3]] o2 show ?thesis by simp
qed

lemma create_order_body_cases:
  assumes "create_order_body e payload (open_session db) = Inr ((ord, route), s')" and "keys_distinct db"
  obtains (existing) a where "account_row db (oc_account_id payload) = Some a"
      "ord \<in> set (orders db)" "o_idempotency_key ord = oc_idempotency_key payload"
      "order_matches_request ord payload" "\<not> route" "steps_to e (open_session db) (\<lambda>v. v) s'"
  | (rejected) a where "account_row db (oc_account_id payload) = Some a"
      "\<forall>r\<in>set (orders db). o_account_id r = oc_account_id payload \<longrightarrow>
         o_idempotency_key r \<noteq> oc_idempotency_key payload \<and> o_client_order_id r \<noteq> oc_client_order_id payload"
      "available_cash a < required_buying_power (oc_side payload) (oc_quantity payload) (oc_price payload)"
      "order_row db (new_uuid e) = None" "ord = rejected_order e payload" "\<not> route"
      "steps_to e (open_session db) (rejected_view e payload) s'"
  | (routed) a where "account_row db (oc_account_id payload) = Some a"
      "\<forall>r\<in>set (orders db). o_account_id r = oc_account_id payload \<longrightarrow>
         o_idempotency_key r \<noteq> oc_idempotency_key payload \<and> o_client_order_id r \<noteq> oc_client_order_id payload"
      "required_buying_power (oc_side payload) (oc_quantity payload) (oc_price payload) \<le> available_cash a"
      "order_row db (new_uuid e) = None" "ord = routed_order e payload" "route"
      "steps_to e (open_session db) (routed_view e payload a) s'"
proof -
  let ?aid = "oc_account_id payload" and ?n = "new_order e payload"
  let ?req = "required_buying_power (oc_side payload) (oc_quantity payload) (oc_price payload)"
  from assms(1) obtain a s1 where 1: "account_get_for_update ?aid (open_session db) = Inr (Some a, s1)"
    by (auto simp: create_order_body_def split: option.splits)
  from account_get_for_update_steps [OF 1 session_ok_open]
  have st1: "steps_to e (open_session db) (\<lambda>v. v) s1" and a: "account_row db ?aid = Some a"
    by (auto simp flip: db_view_def)
  from steps_toD [OF st1 session_ok_open] have v1: "session_ok s1" "view s1 = db_view db" by (auto simp: db_view_def)
  from account_get_keeps_orders [OF 1] have l1: "loaded_orders s1 = Map.empty" "tx s1 = db"
    by (simp_all add: open_session_def)
  from assms(1) 1 obtain by_key s2 where 2: "order_get_by_idempotency_key ?aid (oc_idempotency_key payload) s1 = Inr (by_key, s2)"
    by (auto simp: create_order_body_def)
  from select_order_fresh [OF 2 [unfolded order_get_by_idempotency_key_def] v1(1) _ l1(1), of e] assms(2) l1(2)
  have st2: "steps_to e s1 (\<lambda>v. v) s2" and found: "case by_key of
      None \<Rightarrow> s2 = s1 \<and> (\<forall>r\<in>set (orders db). \<not> (o_account_id r = ?aid \<and> o_idempotency_key r = oc_idempotency_key payload))
    | Some r \<Rightarrow> r \<in> set (orders db) \<and> o_account_id r = ?aid \<and> o_idempotency_key r = oc_idempotency_key payload"
    by auto
  show ?thesis
  proof (cases by_key)
    case (Some r)
    with assms(1) 1 2 have "order_matches_request r payload" "ord = r" "\<not> route" "s' = s2"
      by (auto simp: create_order_body_def split: if_splits)
    with Some found a steps_to_trans [OF st1 st2] show ?thesis by (intro existing) auto
  next
    case None
    with found have s2: "s2 = s1" and nokey: "\<forall>r\<in>set (orders db). o_account_id r = ?aid \<longrightarrow> o_idempotency_key r \<noteq> oc_idempotency_key payload"
      by auto
    from assms(1) 1 2 None obtain by_client s3 where 3:
        "order_get_by_client_order_id ?aid (oc_client_order_id payload) s1 = Inr (by_client, s3)"
      by (auto simp: create_order_body_def s2)
    with assms(1) 1 2 None have none: "by_client = None" by (auto simp: create_order_body_def s2 split: if_splits)
    from select_order_fresh [OF 3 [unfolded order_get_by_client_order_id_def] v1(1) _ l1(1), of e] assms(2) l1(2)
    have s3: "s3 = s1" and noclient: "\<forall>r\<in>set (orders db). o_account_id r = ?aid \<longrightarrow> o_client_order_id r \<noteq> oc_client_order_id payload"
      by (auto simp: none)
    from assms(1) 1 2 None 3 none obtain s4 s5 where 4: "order_add e ?n s1 = Inr s4"
        "append_event e ?n ORDER_CREATED None (Some NEW) (created_event_data ?n) s4 = Inr s5"
      by (auto simp: create_order_body_def s2 s3 Let_def)
    from order_recorded_steps [OF 4 v1(1)] have fresh: "order_row db (new_uuid e) = None"
      and st5: "steps_to e s1 (\<lambda>v. v\<lparr>v_orders := (v_orders v)(new_uuid e \<mapsto> ?n),
                       v_events := v_events v @ [created_event e payload]\<rparr>) s5"
      by (auto simp: v1)
    from steps_toD [OF st5 v1(1)] have v5: "session_ok s5" "v_orders (view s5) (new_uuid e) \<noteq> None"
        "v_accounts (view s5) = account_row db" by (simp_all add: v1)
    have ka: "a_id a = ?aid" using row_of_SomeD [OF a] by simp
    show ?thesis
    proof (cases "?req \<le> available_cash a")
      case False
      then have en: "ensure_sufficient_buying_power (available_cash a) ?req = Inl InsufficientBuyingPower" by simp
      from assms(1) 1 2 None 3 none 4 en have t: "transition e (?n\<lparr>o_rejection_reason := Some (message InsufficientBuyingPower)\<rparr>)
           REJECTED VALIDATION_FAILED [(''reason'', JText (message InsufficientBuyingPower))]
           (set_order (?n\<lparr>o_rejection_reason := Some (message InsufficientBuyingPower)\<rparr>) s5) = Inr (ord, s')" "\<not> route"
        by (auto simp: create_order_body_def s2 s3 Let_def simp del: message.simps)
      from rejected_steps [OF t(1) v5(2)] have o: "ord = rejected_order e payload"
        by (simp add: rejected_order_def)
      from steps_to_trans [OF st1 steps_to_trans [OF st5 conjunct2 [OF rejected_steps [OF t(1) v5(2)]]]]
      have "steps_to e (open_session db) (rejected_view e payload) s'"
        by (simp add: rejected_view_def [abs_def] o del: message.simps)
      with a nokey noclient False fresh o t(2) show ?thesis by (intro rejected) auto
    next
      case True
      then have en: "ensure_sufficient_buying_power (available_cash a) ?req = Inr ()" by simp
      from assms(1) 1 2 None 3 none 4 en obtain ord1 s6 where t:
          "transition e ?n VALIDATED ORDER_VALIDATED [] s5 = Inr (ord1, s6)"
          "transition e ord1 ROUTED ORDER_ROUTED []
             (if o_side ord1 = BUY then set_account (a\<lparr>a_reserved_cash := dadd (a_reserved_cash a) ?req,
                a_version := a_version a + 1\<rparr>) s6 else s6) = Inr (ord, s')" and route: "route"
        by (auto simp: create_order_body_def s2 s3 Let_def)
      have side: "o_side ord1 = oc_side payload" using transition_steps [OF t(1)] v5(2) by simp
      have eqa: "(if o_side ord1 = BUY then set_account (a\<lparr>a_reserved_cash := dadd (a_reserved_cash a) ?req,
                a_version := a_version a + 1\<rparr>) s6 else s6) =
          (if o_side ord1 = BUY then set_account (reserved_for payload a) s6 else s6)"
        by (simp add: side reserved_for_def)
      from routed_steps [OF t(1) t(2) [unfolded eqa] v5(1,2)] a v5(3) ka
      have o: "ord = routed_order e payload" and st6: "steps_to e s5 (\<lambda>v. v\<lparr>v_accounts := (v_accounts v)(a_id a \<mapsto> reserved_for payload a),
         v_orders := (v_orders v)(new_uuid e \<mapsto> ord),
         v_events := v_events v @ [audit e ?n ORDER_VALIDATED (Some NEW) (Some VALIDATED) [],
                                   audit e ?n ORDER_ROUTED (Some VALIDATED) (Some ROUTED) []]\<rparr>) s'" by auto
      from steps_to_trans [OF st1 steps_to_trans [OF st5 st6]]
      have "steps_to e (open_session db) (routed_view e payload a) s'"
        by (simp add: routed_view_def [abs_def] o)
      with a nokey noclient True fresh o route show ?thesis by (intro routed) auto
    qed
  qed
qed

section \<open>When a new order is recorded\<close>

text \<open>No order of the account has the keys of the request.\<close>

definition new_request :: "order_create \<Rightarrow> database \<Rightarrow> bool" where
  "new_request payload db \<longleftrightarrow>
     (\<forall>r\<in>set (orders db). o_account_id r = oc_account_id payload \<longrightarrow>
        o_idempotency_key r \<noteq> oc_idempotency_key payload \<and> o_client_order_id r \<noteq> oc_client_order_id payload)"

lemma order_add_ready:
  assumes "ready e s" and "loaded_orders s = Map.empty" and "can_store (store_order e) ord"
    and "order_row (tx s) (o_id ord) = None" and "v_accounts (view s) (o_account_id ord) \<noteq> None"
    and "varchar e 100 (o_client_order_id ord) = Some (o_client_order_id ord)"
    and "varchar e 100 (o_idempotency_key ord) = Some (o_idempotency_key ord)"
    and "\<forall>r\<in>set (orders (tx s)). o_account_id r = o_account_id ord \<longrightarrow>
           o_idempotency_key r \<noteq> o_idempotency_key ord \<and> o_client_order_id r \<noteq> o_client_order_id ord"
  shows "succeeds e (order_add e ord s) (\<lambda>v. v\<lparr>v_orders := (v_orders v)(o_id ord \<mapsto> ord)\<rparr>) s"
proof -
  from flush_ready [OF assms(1)] obtain t where t: "flush e s = Inr t" "ready e t" "view t = view s"
    by (auto simp: succeeds_def)
  have os: "orders (tx t) = orders (tx s)"
    using t(1) assms(2) by (auto simp: flush_eq_Inr)
  from assms(3) obtain row where row: "store_order e ord = Inr row" by (auto simp: can_store_def)
  note d = store_orderD [OF row]
  have "o_id row \<notin> o_id ` set (orders (tx t))"
    using assms(4) by (simp add: os d(1) row_of_None_iff)
  moreover have "(o_account_id row, o_client_order_id row) \<notin> (\<lambda>r. (o_account_id r, o_client_order_id r)) ` set (orders (tx t))"
    "(o_account_id row, o_idempotency_key row) \<notin> (\<lambda>r. (o_account_id r, o_idempotency_key r)) ` set (orders (tx t))"
    using assms(6-8) d(2,10,11) by (auto simp: os)
  moreover have "o_account_id row \<in> a_id ` set (accounts (tx t))"
    using view_account_known [OF readyD(2) [OF t(2)]] assms(5) d(2) by (simp add: t(3))
  ultimately have add: "order_add e ord s = Inr (set_order ord (t\<lparr>tx := (tx t)\<lparr>orders := orders (tx t) @ [row]\<rparr>\<rparr>))"
    using t(1) row by (simp add: order_add_def insert_defs)
  have "storable e (set_order ord (t\<lparr>tx := (tx t)\<lparr>orders := orders (tx t) @ [row]\<rparr>\<rparr>))"
    using t(2) assms(3) by (auto simp: ready_def storable_def set_order_def)
  with ready_step [OF assms(1) conjunct2 [OF order_add_steps [OF add readyD(2) [OF assms(1)]]]] add show ?thesis
    by (simp add: succeeds_def)
qed

lemma select_order_none:
  "\<forall>r\<in>set (orders (tx s)). \<not> P r \<Longrightarrow> select_order P s = Inr (None, s)"
  unfolding select_order_def select_one_None_iff [THEN iffD2] by simp

lemma can_store_reason [simp]:
  assumes "documented e" and "length msg \<le> 500"
  shows "can_store (store_order e) ord \<Longrightarrow> can_store (store_order e) (ord\<lparr>o_rejection_reason := Some msg\<rparr>)"
proof -
  assume "can_store (store_order e) ord"
  then obtain r where r: "store_order e ord = Inr r" by (auto simp: can_store_def)
  have "varchar e 500 msg = Some msg"
    using assms column_types.txt_fits by (auto simp: documented_def)
  then have "store_order e (ord\<lparr>o_rejection_reason := Some msg\<rparr>) = Inr (r\<lparr>o_rejection_reason := Some msg\<rparr>)"
    using store_orderD [OF r] by (intro store_orderI) (simp_all add: order_checks_def)
  then show ?thesis by (rule can_storeI)
qed

text \<open>The statements up to the audit event of the new order.\<close>

lemma create_order_start:
  assumes "documented e" and "well_formed e db" and "account_row db (oc_account_id payload) = Some a"
    and "new_request payload db" and "order_row db (new_uuid e) = None"
    and "can_store (store_order e) (new_order e payload)"
    and "varchar e 100 (oc_client_order_id payload) = Some (oc_client_order_id payload)"
    and "varchar e 100 (oc_idempotency_key payload) = Some (oc_idempotency_key payload)"
  shows "\<exists>s1 s2 s3. ready e s3 \<and>
    view s3 = (db_view db)\<lparr>v_orders := (v_orders (db_view db))(new_uuid e \<mapsto> new_order e payload),
                          v_events := v_events (db_view db) @ [created_event e payload]\<rparr> \<and>
    account_get_for_update (oc_account_id payload) (open_session db) = Inr (Some a, s1) \<and>
    order_get_by_idempotency_key (oc_account_id payload) (oc_idempotency_key payload) s1 = Inr (None, s1) \<and>
    order_get_by_client_order_id (oc_account_id payload) (oc_client_order_id payload) s1 = Inr (None, s1) \<and>
    order_add e (new_order e payload) s1 = Inr s2 \<and>
    append_event e (new_order e payload) ORDER_CREATED None (Some NEW)
      (created_event_data (new_order e payload)) s2 = Inr s3"
proof -
  from account_get_ready [OF ready_open [OF assms(1,2)], of "oc_account_id payload"] obtain s1 where 1:
      "account_get_for_update (oc_account_id payload) (open_session db) = Inr (Some a, s1)" "ready e s1"
      "view s1 = db_view db"
    using assms(3) by (auto simp: yields_def simp flip: db_view_def)
  from account_get_keeps_orders [OF 1(1)] have l: "loaded_orders s1 = Map.empty" "tx s1 = db"
    by (simp_all add: open_session_def)
  have "succeeds e (order_add e (new_order e payload) s1)
      (\<lambda>v. v\<lparr>v_orders := (v_orders v)(o_id (new_order e payload) \<mapsto> new_order e payload)\<rparr>) s1"
    by (rule order_add_ready [OF 1(2) l(1) assms(6)])
      (use assms(3-5,7,8) 1(3) l(2) in \<open>auto simp: new_request_def\<close>)
  then obtain s2 where 2: "order_add e (new_order e payload) s1 = Inr s2" "ready e s2"
      "view s2 = (db_view db)\<lparr>v_orders := (v_orders (db_view db))(new_uuid e \<mapsto> new_order e payload)\<rparr>"
    by (auto simp: succeeds_def 1(3))
  from append_event_ready [OF 2(2), of "new_order e payload" ORDER_CREATED None "Some NEW"
      "created_event_data (new_order e payload)"] obtain s3 where 3:
      "append_event e (new_order e payload) ORDER_CREATED None (Some NEW) (created_event_data (new_order e payload)) s2 = Inr s3"
      "ready e s3" "view s3 = (view s2)\<lparr>v_events := v_events (view s2) @ [created_event e payload]\<rparr>"
    by (auto simp: succeeds_def 2(3) created_event_def)
  have "order_get_by_idempotency_key (oc_account_id payload) (oc_idempotency_key payload) s1 = Inr (None, s1)"
    "order_get_by_client_order_id (oc_account_id payload) (oc_client_order_id payload) s1 = Inr (None, s1)"
    unfolding order_get_by_idempotency_key_def order_get_by_client_order_id_def
    by (rule select_order_none; use assms(4) in \<open>auto simp: l(2) new_request_def\<close>)+
  with 1(1) 2(1) 3 show ?thesis by (intro exI [of _ s1] exI [of _ s2] exI [of _ s3]) (simp add: 2(3))
qed

lemma create_order_rejects:
  assumes "documented e" and "well_formed e db" and "account_row db (oc_account_id payload) = Some a"
    and "new_request payload db" and "order_row db (new_uuid e) = None"
    and "can_store (store_order e) (new_order e payload)"
    and "varchar e 100 (oc_client_order_id payload) = Some (oc_client_order_id payload)"
    and "varchar e 100 (oc_idempotency_key payload) = Some (oc_idempotency_key payload)"
    and "\<not> required_buying_power (oc_side payload) (oc_quantity payload) (oc_price payload) \<le> available_cash a"
  shows "\<exists>s'. ready e s' \<and>
    create_order_body e payload (open_session db) = Inr ((rejected_order e payload, False), s')"
proof -
  let ?n = "new_order e payload" and ?msg = "message InsufficientBuyingPower"
  let ?o = "(new_order e payload)\<lparr>o_rejection_reason := Some (message InsufficientBuyingPower)\<rparr>"
  from create_order_start [OF assms(1-8)] obtain s1 s2 s3 where 0: "ready e s3"
      "view s3 = (db_view db)\<lparr>v_orders := (v_orders (db_view db))(new_uuid e \<mapsto> ?n),
                          v_events := v_events (db_view db) @ [created_event e payload]\<rparr>"
    and st: "account_get_for_update (oc_account_id payload) (open_session db) = Inr (Some a, s1)"
      "order_get_by_idempotency_key (oc_account_id payload) (oc_idempotency_key payload) s1 = Inr (None, s1)"
      "order_get_by_client_order_id (oc_account_id payload) (oc_client_order_id payload) s1 = Inr (None, s1)"
      "order_add e ?n s1 = Inr s2"
      "append_event e ?n ORDER_CREATED None (Some NEW) (created_event_data ?n) s2 = Inr s3" by blast
  have some: "v_orders (view s3) (o_id ?n) \<noteq> None" by (simp add: 0(2))
  have so: "can_store (store_order e) ?o" using assms(1,6) by (intro can_store_reason) simp_all
  from ready_set_order [OF 0(1), of ?o] some so have 4: "ready e (set_order ?o s3)"
      "v_orders (view (set_order ?o s3)) (o_id ?o) \<noteq> None" by simp_all
  from transition_ready [OF 4(1,2) _ so, of REJECTED VALIDATION_FAILED "[(''reason'', JText ?msg)]"] obtain s5 where
      "transition e ?o REJECTED VALIDATION_FAILED [(''reason'', JText ?msg)] (set_order ?o s3) = Inr (rejected_order e payload, s5)"
      "ready e s5"
    by (auto simp: yields_def rejected_order_def simp del: message.simps)
  with st assms(9) show ?thesis
    by (intro exI [of _ s5]) (simp add: create_order_body_def Let_def ensure_sufficient_buying_power_def del: message.simps)
qed

lemma create_order_body_returns:
  assumes "documented e" and "well_formed e db" and "account_row db (oc_account_id payload) = Some a"
    and "new_request payload db" and "order_row db (new_uuid e) = None"
    and "can_store (store_order e) (new_order e payload)"
    and "varchar e 100 (oc_client_order_id payload) = Some (oc_client_order_id payload)"
    and "varchar e 100 (oc_idempotency_key payload) = Some (oc_idempotency_key payload)"
    and "can_store (store_account e) (reserved_for payload a)"
  shows "\<exists>s'. ready e s' \<and> create_order_body e payload (open_session db) =
    (if required_buying_power (oc_side payload) (oc_quantity payload) (oc_price payload) \<le> available_cash a
     then Inr ((routed_order e payload, True), s') else Inr ((rejected_order e payload, False), s'))"
proof -
  let ?n = "new_order e payload"
  let ?req = "required_buying_power (oc_side payload) (oc_quantity payload) (oc_price payload)"
  from create_order_start [OF assms(1-8)] obtain s1 s2 s3 where 0: "ready e s3"
      "view s3 = (db_view db)\<lparr>v_orders := (v_orders (db_view db))(new_uuid e \<mapsto> ?n),
                          v_events := v_events (db_view db) @ [created_event e payload]\<rparr>"
    and st: "account_get_for_update (oc_account_id payload) (open_session db) = Inr (Some a, s1)"
      "order_get_by_idempotency_key (oc_account_id payload) (oc_idempotency_key payload) s1 = Inr (None, s1)"
      "order_get_by_client_order_id (oc_account_id payload) (oc_client_order_id payload) s1 = Inr (None, s1)"
      "order_add e ?n s1 = Inr s2"
      "append_event e ?n ORDER_CREATED None (Some NEW) (created_event_data ?n) s2 = Inr s3" by blast
  have some: "v_orders (view s3) (o_id ?n) \<noteq> None" by (simp add: 0(2))
  show ?thesis
  proof (cases "?req \<le> available_cash a")
    case True
    from transition_ready [OF 0(1) some _ assms(6), of VALIDATED ORDER_VALIDATED "[]"] obtain s4 where 4:
        "transition e ?n VALIDATED ORDER_VALIDATED [] s3 = Inr (moved ?n VALIDATED, s4)" "ready e s4"
        "v_orders (view s4) (new_uuid e) \<noteq> None" "v_accounts (view s4) = account_row db"
      by (auto simp: yields_def 0(2))
    let ?s5 = "if oc_side payload = BUY then set_account (reserved_for payload a) s4 else s4"
    have ka: "a_id a = oc_account_id payload" using row_of_SomeD [OF assms(3)] by simp
    have 5: "ready e ?s5" "v_orders (view ?s5) (new_uuid e) \<noteq> None"
      using ready_set_account [OF 4(2), of "reserved_for payload a"] assms(3,9) 4 ka by auto
    from transition_ready [OF 5(1), of "moved ?n VALIDATED" ROUTED ORDER_ROUTED "[]"] 5(2) assms(6) obtain s6 where 6:
        "transition e (moved ?n VALIDATED) ROUTED ORDER_ROUTED [] ?s5 = Inr (routed_order e payload, s6)" "ready e s6"
      by (auto simp: yields_def routed_order_def split del: if_split)
    have "?s5 = (if oc_side payload = BUY then set_account (a\<lparr>a_reserved_cash := dadd (a_reserved_cash a) ?req,
                a_version := a_version a + 1\<rparr>) s4 else s4)" by (simp add: reserved_for_def)
    with st 4(1) 6 True show ?thesis
      by (intro exI [of _ s6]) (simp add: create_order_body_def Let_def ensure_sufficient_buying_power_def)
  next
    case False
    with create_order_rejects [OF assms(1-8)] show ?thesis by simp
  qed
qed

section \<open>Cancellation requests\<close>

definition cancel_requested_view :: "env \<Rightarrow> order \<Rightarrow> string \<Rightarrow> view \<Rightarrow> view" where
  "cancel_requested_view e ord reason v =
     v\<lparr>v_orders := (v_orders v)(o_id ord \<mapsto> moved ord CANCEL_PENDING),
       v_events := v_events v @ [audit e ord CANCEL_REQUESTED (Some (o_status ord)) (Some CANCEL_PENDING)
                                   [(''reason'', JText reason)]]\<rparr>"

lemma cancel_requested_view_simps [simp]:
  "v_orders (cancel_requested_view e ord reason v) = (v_orders v)(o_id ord \<mapsto> moved ord CANCEL_PENDING)"
  "v_accounts (cancel_requested_view e ord reason v) = v_accounts v"
  "v_positions (cancel_requested_view e ord reason v) = v_positions v"
  "v_prices (cancel_requested_view e ord reason v) = v_prices v"
  "v_fills (cancel_requested_view e ord reason v) = v_fills v"
  "v_processed (cancel_requested_view e ord reason v) = v_processed v"
  by (simp_all add: cancel_requested_view_def)

lemma order_get_fresh:
  assumes "keys_distinct db" and "order_row db oid = Some ord"
  shows "order_get_for_update oid (open_session db) = Inr (Some ord, set_order ord (open_session db))"
proof -
  have d: "distinct (map o_id (orders db))" using assms(1) by (simp add: keys_distinct_def)
  show ?thesis
    by (simp add: order_get_for_update_def select_order_def select_one_key [OF d] assms(2) resolve_order_def)
      (simp add: open_session_def)
qed

lemma order_get_missing:
  assumes "keys_distinct db" and "order_row db oid = None"
  shows "order_get_for_update oid (open_session db) = Inr (None, open_session db)"
proof -
  have d: "distinct (map o_id (orders db))" using assms(1) by (simp add: keys_distinct_def)
  show ?thesis
    by (simp add: order_get_for_update_def select_order_def select_one_key [OF d] assms(2))
qed

lemma flush_looked_up:
  assumes "well_formed e db" and "order_row db oid = Some ord"
  shows "flush e (set_order ord (open_session db)) = Inr (set_order ord (open_session db))"
  using assms(1) by (rule flush_read_only)
    (use assms(2) row_of_SomeD [OF assms(2)] in \<open>auto simp: set_order_def open_session_def split: if_splits\<close>)

lemma request_cancellation_refused:
  assumes "well_formed e db"
  shows "order_row db oid = None \<Longrightarrow>
      request_cancellation e cancel oid reason (open_session db) = (Inl (OrderNotFound oid), open_session db)"
    and "order_row db oid = Some ord \<Longrightarrow> o_status ord \<notin> CANCELLABLE_ORDER_STATUSES \<Longrightarrow>
      o_status ord \<noteq> CANCEL_PENDING \<Longrightarrow>
      request_cancellation e cancel oid reason (open_session db) =
        (Inl (InvalidCancellation (''Order cannot be cancelled from '' @ status_value (o_status ord))), open_session db)"
    and "order_row db oid = Some ord \<Longrightarrow> o_status ord = CANCEL_PENDING \<Longrightarrow>
      request_cancellation e cancel oid reason (open_session db) = (Inr ord, set_order ord (open_session db))"
proof -
  have k: "keys_distinct db" using assms by (simp add: well_formed_def)
  show "request_cancellation e cancel oid reason (open_session db) = (Inl (OrderNotFound oid), open_session db)"
    if "order_row db oid = None"
    using order_get_missing [OF k that]
    by (simp add: request_cancellation_def request_cancellation_body_def transaction_def)
  show "request_cancellation e cancel oid reason (open_session db) =
        (Inl (InvalidCancellation (''Order cannot be cancelled from '' @ status_value (o_status ord))), open_session db)"
    if "order_row db oid = Some ord" "o_status ord \<notin> CANCELLABLE_ORDER_STATUSES" "o_status ord \<noteq> CANCEL_PENDING"
    using order_get_fresh [OF k that(1)] that
    by (simp add: request_cancellation_def request_cancellation_body_def transaction_def)
  show "request_cancellation e cancel oid reason (open_session db) = (Inr ord, set_order ord (open_session db))"
    if "order_row db oid = Some ord" "o_status ord = CANCEL_PENDING"
    using order_get_fresh [OF k that(1)] flush_looked_up [OF assms that(1)] that
    by (simp add: request_cancellation_def request_cancellation_body_def transaction_def)
qed

lemma request_cancellation_accepted:
  assumes "documented e" and "well_formed e db" and "order_row db oid = Some ord"
    and "o_status ord \<in> CANCELLABLE_ORDER_STATUSES"
  shows "\<exists>s'. request_cancellation e cancel oid reason (open_session db) =
      (case cancel oid reason of None \<Rightarrow> Inr (moved ord CANCEL_PENDING) | Some text \<Rightarrow> Inl (BrokerFailure text), s') \<and>
    leaves e (cancel_requested_view e ord reason (db_view db)) (tx s') \<and> well_formed e (tx s')"
proof -
  let ?s = "set_order ord (open_session db)"
  have k: "keys_distinct db" and w: "settled e db" using assms(2) by (simp_all add: well_formed_def)
  have oid: "o_id ord = oid" using row_of_SomeD [OF assms(3)] by simp
  have st: "can_store (store_order e) ord" using settledD(2) [OF w assms(3)] by (rule can_storeI)
  have r: "ready e ?s" "view ?s = db_view db"
    using ready_set_order [OF ready_open [OF assms(1,2)], of ord] assms(3) oid st
    by (simp_all add: fun_upd_idem flip: db_view_def)
  have ok: "CANCEL_PENDING \<in> ALLOWED_TRANSITIONS (o_status ord)" "o_status ord \<noteq> CANCEL_PENDING"
    using assms(4) by (auto simp: cancellable_iff)
  from transition_ready [OF r(1) _ ok(1) st, of CANCEL_REQUESTED "[(''reason'', JText reason)]"] assms(3) oid
  obtain s1 where 1: "transition e ord CANCEL_PENDING CANCEL_REQUESTED [(''reason'', JText reason)] ?s = Inr (moved ord CANCEL_PENDING, s1)"
      "ready e s1" by (auto simp: yields_def r(2))
  have body: "request_cancellation_body e oid reason (open_session db) = Inr ((moved ord CANCEL_PENDING, True), s1)"
    using order_get_fresh [OF k assms(3)] assms(4) ok(2) 1(1) by (simp add: request_cancellation_body_def)
  from flush_ready [OF 1(2)] obtain s2 where 2: "flush e s1 = Inr s2" "ready e s2" by (auto simp: succeeds_def)
  have t: "transaction e (request_cancellation_body e oid reason) (open_session db) = (Inr (moved ord CANCEL_PENDING, True), s2)"
    by (simp add: transaction_def body 2(1))
  have some: "v_orders (view ?s) (o_id ord) \<noteq> None" using r(2) assms(3) oid by simp
  have st0: "steps_to e (open_session db) (\<lambda>v. v) ?s"
    using resolve_order_steps [of ord "open_session db" ord ?s e] assms(3) oid
    by (simp add: resolve_order_def) (simp add: open_session_def)
  from steps_to_trans [OF st0 conjunct2 [OF conjunct2 [OF transition_steps [OF 1(1) some]]]]
  have "steps_to e (open_session db) (cancel_requested_view e ord reason) s1"
    by (simp add: cancel_requested_view_def [abs_def])
  then have "leaves e (cancel_requested_view e ord reason (db_view db)) (tx s2)"
    by (intro transaction_leaves [OF t w]) (simp add: body)
  moreover have "request_cancellation e cancel oid reason (open_session db) =
      (case cancel oid reason of None \<Rightarrow> Inr (moved ord CANCEL_PENDING) | Some text \<Rightarrow> Inl (BrokerFailure text), s2)"
    by (simp add: request_cancellation_def t oid split: option.split)
  ultimately show ?thesis using 2(2) by (intro exI [of _ s2]) (simp add: ready_def)
qed

end
