(* ===== verification/Execution_Service.thy ===== *)
theory Execution_Service
  imports Order_Lifecycle Position_Service Schemas
begin

text \<open>
  \<open>app/services/execution_service.py\<close>: the handler of broker events.

  \<open>process_event\<close> is the transaction the broker event worker runs for every event: it looks the
  order up, drops an event it has seen before, dispatches on the event type, records the event
  as processed with its outcome, and writes an audit event for an ignored one. The blocks of
  \<open>_apply_fill\<close> that compute on one object are functions of their own: \<open>book_fill\<close> (the order's
  quantities and average price), \<open>settle_account\<close> (cash and reservation) and \<open>conclude_fill\<close>
  (the status that follows). A handler returns the pair of the Python code (applied, reason)
  with the order object it was given, as it has changed it.
\<close>

type_synonym verdict = "bool \<times> string option"

definition book_fill :: "order \<Rightarrow> rat \<Rightarrow> rat \<Rightarrow> oms_error + order" where
  "book_fill ord fill_quantity fill_price =
     (let previous_filled = o_filled_quantity ord;
          new_filled = dadd previous_filled fill_quantity;
          previous_value = dmul previous_filled
            (case o_average_fill_price ord of None \<Rightarrow> 0 | Some average \<Rightarrow> average)
      in and_then (ddiv DecimalSignal (dadd previous_value (dmul fill_quantity fill_price)) new_filled)
           (\<lambda>average.
         Inr (ord\<lparr>o_average_fill_price := Some average, o_filled_quantity := new_filled,
                  o_remaining_quantity := dsub (o_remaining_quantity ord) fill_quantity,
                  o_version := o_version ord + 1\<rparr>)))"

definition settle_account :: "account \<Rightarrow> order \<Rightarrow> rat \<Rightarrow> rat \<Rightarrow> oms_error + account" where
  "settle_account a ord fill_quantity fill_price =
     (let notional = dmul fill_quantity fill_price in
      if o_side ord = BUY then
        (let reserved_release = dmul fill_quantity (o_price ord) in
         if a_reserved_cash a < reserved_release
         then Inl (InvalidFill ''Reserved cash is inconsistent with the order'')
         else if a_cash_balance a < notional
         then Inl (InvalidFill ''Fill would create a negative cash balance'')
         else Inr (a\<lparr>a_reserved_cash := dsub (a_reserved_cash a) reserved_release,
                     a_cash_balance := dsub (a_cash_balance a) notional,
                     a_version := a_version a + 1\<rparr>))
      else Inr (a\<lparr>a_cash_balance := dadd (a_cash_balance a) notional,
                  a_version := a_version a + 1\<rparr>))"

definition release_remaining_reservation :: "account \<Rightarrow> order \<Rightarrow> oms_error + account" where
  "release_remaining_reservation a ord =
     (if o_side ord \<noteq> BUY \<or> o_remaining_quantity ord \<le> 0 then Inr a
      else
        (let release_amount = dmul (o_remaining_quantity ord) (o_price ord) in
         if a_reserved_cash a < release_amount
         then Inl (InvalidFill ''Reserved cash is inconsistent with the order'')
         else Inr (a\<lparr>a_reserved_cash := dsub (a_reserved_cash a) release_amount,
                     a_version := a_version a + 1\<rparr>)))"

definition cancel_remaining ::
  "env \<Rightarrow> order \<Rightarrow> string \<Rightarrow> json_object \<Rightarrow> session \<Rightarrow> oms_error + order \<times> session" where
  "cancel_remaining e ord reason event_data s =
     and_then (account_get_for_update (o_account_id ord) s) (\<lambda>(found, s).
     case found of
       None \<Rightarrow> Inl (AccountNotFound (o_account_id ord))
     | Some a \<Rightarrow>
         and_then (release_remaining_reservation a ord) (\<lambda>a.
         let s = set_account a s;
             cancelled = o_remaining_quantity ord;
             ord = ord\<lparr>o_cancelled_quantity := dadd (o_cancelled_quantity ord) cancelled,
                       o_remaining_quantity := 0, o_version := o_version ord + 1\<rparr>
         in transition e ord CANCELLED ORDER_CANCELLED
              (event_data @ [(''cancelled_quantity'', JDecimal cancelled), (''reason'', JText reason)])
              (set_order ord s)))"

definition conclude_fill ::
  "env \<Rightarrow> order \<Rightarrow> json_object \<Rightarrow> session \<Rightarrow> oms_error + verdict \<times> order \<times> session" where
  "conclude_fill e ord event_data s =
     (if o_remaining_quantity ord = 0 then
        and_then (transition e ord FILLED FULL_FILL_RECEIVED event_data s) (\<lambda>(ord, s).
        Inr ((True, None), ord, s))
      else if o_time_in_force ord = IOC then
        and_then (append_event e ord PARTIAL_FILL_RECEIVED (Some (o_status ord)) (Some (o_status ord))
                    event_data s) (\<lambda>s.
        and_then (cancel_remaining e ord ''IOC remainder cancelled'' event_data s) (\<lambda>(ord, s).
        Inr ((True, None), ord, s)))
      else if o_status ord = ROUTED then
        and_then (transition e ord PARTIALLY_FILLED PARTIAL_FILL_RECEIVED event_data s) (\<lambda>(ord, s).
        Inr ((True, None), ord, s))
      else
        and_then (append_event e ord PARTIAL_FILL_RECEIVED (Some (o_status ord)) (Some (o_status ord))
                    event_data s) (\<lambda>s.
        Inr ((True, None), ord, s)))"

definition fill_event_data :: "broker_execution_event \<Rightarrow> rat \<Rightarrow> json_object" where
  "fill_event_data ev fill_price =
     [(''broker_event_id'', JText (ev_event_id ev)),
      (''execution_id'', case ev_execution_id ev of None \<Rightarrow> JNull | Some t \<Rightarrow> JText t),
      (''quantity'', JDecimal (ev_filled_quantity ev)), (''price'', JDecimal fill_price)]"

definition fill_of :: "order \<Rightarrow> broker_execution_event \<Rightarrow> rat \<Rightarrow> fill" where
  "fill_of ord ev fill_price =
     \<lparr>f_order_id = o_id ord, f_broker_event_id = ev_event_id ev,
      f_execution_id = or_else (ev_execution_id ev) (ev_event_id ev),
      f_quantity = ev_filled_quantity ev, f_price = fill_price, f_executed_at = ev_timestamp ev\<rparr>"

definition apply_fill ::
  "env \<Rightarrow> order \<Rightarrow> broker_execution_event \<Rightarrow> session \<Rightarrow> oms_error + verdict \<times> order \<times> session" where
  "apply_fill e ord ev s =
     (if o_status ord \<notin> {ROUTED, PARTIALLY_FILLED, CANCEL_PENDING} then
        Inr ((False, Some (''Order is already '' @ status_value (o_status ord))), ord, s)
      else
        (let fill_quantity = ev_filled_quantity ev in
         case ev_fill_price ev of
           None \<Rightarrow> Inl (InvalidFill ''Fill price is required'')
         | Some fill_price \<Rightarrow>
             if fill_quantity \<le> 0 then Inl (InvalidFill ''Fill quantity must be positive'')
             else if o_remaining_quantity ord < fill_quantity then
               Inr ((False, Some ''Fill quantity exceeds remaining quantity''), ord, s)
             else if ev_event_type ev = FULL_FILL \<and> fill_quantity \<noteq> o_remaining_quantity ord then
               Inr ((False, Some ''Full-fill event does not consume remaining quantity''), ord, s)
             else
               and_then (book_fill ord fill_quantity fill_price) (\<lambda>ord.
               and_then (order_add_fill e (fill_of ord ev fill_price) (set_order ord s)) (\<lambda>s.
               and_then (account_get_for_update (o_account_id ord) s) (\<lambda>(found, s).
               case found of
                 None \<Rightarrow> Inl (AccountNotFound (o_account_id ord))
               | Some a \<Rightarrow>
                   and_then (settle_account a ord fill_quantity fill_price) (\<lambda>a.
                   and_then (apply_execution e (o_account_id ord) (o_symbol ord) (o_side ord)
                               fill_quantity fill_price (set_account a s)) (\<lambda>(_, s).
                   conclude_fill e ord (fill_event_data ev fill_price) s)))))))"

definition apply_rejection ::
  "env \<Rightarrow> order \<Rightarrow> broker_execution_event \<Rightarrow> session \<Rightarrow> oms_error + verdict \<times> order \<times> session" where
  "apply_rejection e ord ev s =
     (if o_status ord \<noteq> ROUTED then
        Inr ((False, Some (''Order cannot be rejected from '' @ status_value (o_status ord))), ord, s)
      else
        and_then (account_get_for_update (o_account_id ord) s) (\<lambda>(found, s).
        case found of
          None \<Rightarrow> Inl (AccountNotFound (o_account_id ord))
        | Some a \<Rightarrow>
            and_then (release_remaining_reservation a ord) (\<lambda>a.
            let s = set_account a s;
                reason = or_else (ev_reason ev) ''Rejected by broker'';
                ord = ord\<lparr>o_rejection_reason := Some reason\<rparr>
            in and_then (transition e ord REJECTED ORDER_REJECTED
                 [(''broker_event_id'', JText (ev_event_id ev)), (''reason'', JText reason)]
                 (set_order ord s)) (\<lambda>(ord, s).
               Inr ((True, None), ord, s)))))"

definition apply_cancellation ::
  "env \<Rightarrow> order \<Rightarrow> broker_execution_event \<Rightarrow> session \<Rightarrow> oms_error + verdict \<times> order \<times> session" where
  "apply_cancellation e ord ev s =
     (if o_status ord \<notin> {ROUTED, PARTIALLY_FILLED, CANCEL_PENDING} then
        Inr ((False, Some (''Order cannot be cancelled from '' @ status_value (o_status ord))), ord, s)
      else
        and_then (cancel_remaining e ord (or_else (ev_reason ev) ''Cancelled by broker'')
                    [(''broker_event_id'', JText (ev_event_id ev))] s) (\<lambda>(ord, s).
        Inr ((True, None), ord, s)))"

definition dispatch ::
  "env \<Rightarrow> order \<Rightarrow> broker_execution_event \<Rightarrow> session \<Rightarrow> oms_error + verdict \<times> order \<times> session" where
  "dispatch e ord ev s =
     (if ev_event_type ev \<in> {FULL_FILL, PARTIAL_FILL} then apply_fill e ord ev s
      else if ev_event_type ev = broker_event_type.REJECTED then apply_rejection e ord ev s
      else if ev_event_type ev = broker_event_type.CANCELLED then apply_cancellation e ord ev s
      else Inr ((False, Some ''Unsupported broker event''), ord, s))"

definition processed_of :: "broker_execution_event \<Rightarrow> verdict \<Rightarrow> processed_broker_event" where
  "processed_of ev verdict =
     \<lparr>b_broker_event_id = ev_event_id ev, b_order_id = ev_order_id ev, b_event_type = ev_event_type ev,
      b_broker_timestamp = ev_timestamp ev,
      b_outcome = (if fst verdict then ''APPLIED'' else ''IGNORED''),
      b_details = (case snd verdict of None \<Rightarrow> [] | Some reason \<Rightarrow> [(''reason'', JText reason)])\<rparr>"

definition ignored_event_data :: "broker_execution_event \<Rightarrow> string option \<Rightarrow> json_object" where
  "ignored_event_data ev reason =
     [(''broker_event_id'', JText (ev_event_id ev)),
      (''event_type'', JText (broker_event_type_value (ev_event_type ev))),
      (''reason'', case reason of None \<Rightarrow> JNull | Some t \<Rightarrow> JText t)]"

definition process_event_body ::
  "env \<Rightarrow> broker_execution_event \<Rightarrow> session \<Rightarrow> oms_error + bool \<times> session" where
  "process_event_body e ev s =
     and_then (order_get_for_update (ev_order_id ev) s) (\<lambda>(found, s).
     case found of
       None \<Rightarrow> Inl (OrderNotFound (ev_order_id ev))
     | Some ord \<Rightarrow>
         and_then (processed_get_by_event_id (ev_event_id ev) s) (\<lambda>processed.
         if processed \<noteq> None then Inr (False, s)
         else
           and_then (dispatch e ord ev s) (\<lambda>(verdict, ord, s).
           and_then (processed_add e (processed_of ev verdict) s) (\<lambda>s.
           if fst verdict then Inr (True, s)
           else
             and_then (append_event e ord BROKER_EVENT_IGNORED (Some (o_status ord)) (Some (o_status ord))
                         (ignored_event_data ev (snd verdict)) s) (\<lambda>s.
             Inr (False, s))))))"

definition process_event ::
  "env \<Rightarrow> broker_execution_event \<Rightarrow> session \<Rightarrow> (oms_error + bool) \<times> session" where
  "process_event e ev = transaction e (process_event_body e ev)"

end
