(* ===== verification/Execution_Refinement.thy ===== *)
theory Execution_Refinement
  imports Execution_Service
begin

text \<open>
  The specification of the execution service and the proof that its handlers implement it.

  An outcome is what a broker event makes of an order and its account: a function of those two
  objects alone, with the audit events to write, or the exception that is raised. The handlers
  work on a session, through queries, flushes and assignments. \<open>apply_fill_refines\<close>,
  \<open>apply_rejection_refines\<close>, \<open>apply_cancellation_refines\<close> and \<open>process_event_body_cases\<close> show that
  what a handler does to the view of its session is what the outcome says, \<open>process_event_cases\<close>
  that this is what the commit leaves in the tables.
\<close>

section \<open>Outcomes\<close>

type_synonym outcome = "order \<times> account \<times> order_event list"

definition cancel_outcome ::
  "env \<Rightarrow> order \<Rightarrow> account \<Rightarrow> string \<Rightarrow> json_object \<Rightarrow> oms_error + outcome" where
  "cancel_outcome e ord a reason event_data =
     and_then (release_remaining_reservation a ord) (\<lambda>a.
     let cancelled = o_remaining_quantity ord
     in if CANCELLED \<notin> ALLOWED_TRANSITIONS (o_status ord)
        then Inl (InvalidStateTransition (o_status ord) CANCELLED)
        else Inr (moved (ord\<lparr>o_cancelled_quantity := dadd (o_cancelled_quantity ord) cancelled,
                             o_remaining_quantity := 0, o_version := o_version ord + 1\<rparr>) CANCELLED,
                  a, [audit e ord ORDER_CANCELLED (Some (o_status ord)) (Some CANCELLED)
                        (event_data @ [(''cancelled_quantity'', JDecimal cancelled),
                                       (''reason'', JText reason)])]))"

definition conclude_outcome :: "env \<Rightarrow> order \<Rightarrow> account \<Rightarrow> json_object \<Rightarrow> oms_error + outcome" where
  "conclude_outcome e ord a event_data =
     (let st = Some (o_status ord) in
      if o_remaining_quantity ord = 0 then
        if FILLED \<notin> ALLOWED_TRANSITIONS (o_status ord) then Inl (InvalidStateTransition (o_status ord) FILLED)
        else Inr (moved ord FILLED, a, [audit e ord FULL_FILL_RECEIVED st (Some FILLED) event_data])
      else if o_time_in_force ord = IOC then
        and_then (cancel_outcome e ord a ''IOC remainder cancelled'' event_data) (\<lambda>(ord', a', evs).
        Inr (ord', a', audit e ord PARTIAL_FILL_RECEIVED st st event_data # evs))
      else if o_status ord = ROUTED then
        Inr (moved ord PARTIALLY_FILLED, a,
             [audit e ord PARTIAL_FILL_RECEIVED st (Some PARTIALLY_FILLED) event_data])
      else Inr (ord, a, [audit e ord PARTIAL_FILL_RECEIVED st st event_data]))"

definition fill_outcome ::
  "env \<Rightarrow> order \<Rightarrow> account \<Rightarrow> broker_execution_event \<Rightarrow> rat \<Rightarrow> oms_error + outcome" where
  "fill_outcome e ord a ev fill_price =
     and_then (book_fill ord (ev_filled_quantity ev) fill_price) (\<lambda>ord.
     and_then (settle_account a ord (ev_filled_quantity ev) fill_price) (\<lambda>a.
     conclude_outcome e ord a (fill_event_data ev fill_price)))"

definition reject_outcome ::
  "env \<Rightarrow> order \<Rightarrow> account \<Rightarrow> broker_execution_event \<Rightarrow> oms_error + outcome" where
  "reject_outcome e ord a ev =
     and_then (release_remaining_reservation a ord) (\<lambda>a.
     let reason = or_else (ev_reason ev) ''Rejected by broker''
     in Inr (moved (ord\<lparr>o_rejection_reason := Some reason\<rparr>) REJECTED, a,
             [audit e ord ORDER_REJECTED (Some (o_status ord)) (Some REJECTED)
                [(''broker_event_id'', JText (ev_event_id ev)), (''reason'', JText reason)]]))"

text \<open>
  Why an event is ignored, if it is: the specification of the guards of \<open>dispatch\<close> and the methods it
  calls, which \<open>process_event_cases\<close> proves the handler to implement.
\<close>

definition ignored :: "order \<Rightarrow> broker_execution_event \<Rightarrow> string option" where
  "ignored ord ev =
     (if is_fill_type (ev_event_type ev) then
        if o_status ord \<notin> {ROUTED, PARTIALLY_FILLED, CANCEL_PENDING} then
          Some (''Order is already '' @ status_value (o_status ord))
        else if o_remaining_quantity ord < ev_filled_quantity ev then
          Some ''Fill quantity exceeds remaining quantity''
        else if ev_event_type ev = FULL_FILL \<and> ev_filled_quantity ev \<noteq> o_remaining_quantity ord then
          Some ''Full-fill event does not consume remaining quantity''
        else None
      else if ev_event_type ev = broker_event_type.REJECTED then
        if o_status ord \<noteq> ROUTED then
          Some (''Order cannot be rejected from '' @ status_value (o_status ord)) else None
      else if o_status ord \<notin> {ROUTED, PARTIALLY_FILLED, CANCEL_PENDING} then
        Some (''Order cannot be cancelled from '' @ status_value (o_status ord))
      else None)"

text \<open>What an event that is not ignored makes of its order and account.\<close>

definition event_outcome ::
  "env \<Rightarrow> order \<Rightarrow> account \<Rightarrow> broker_execution_event \<Rightarrow> oms_error + outcome" where
  "event_outcome e ord a ev =
     (if is_fill_type (ev_event_type ev) then
        (case ev_fill_price ev of
           None \<Rightarrow> Inl (InvalidFill ''Fill price is required'')
         | Some p \<Rightarrow> fill_outcome e ord a ev p)
      else if ev_event_type ev = broker_event_type.REJECTED then reject_outcome e ord a ev
      else cancel_outcome e ord a (or_else (ev_reason ev) ''Cancelled by broker'')
             [(''broker_event_id'', JText (ev_event_id ev))])"

section \<open>The handlers implement the outcomes\<close>

definition settle_view :: "outcome \<Rightarrow> view \<Rightarrow> view" where
  "settle_view out v =
     (case out of (ord, a, evs) \<Rightarrow>
        v\<lparr>v_accounts := (v_accounts v)(a_id a \<mapsto> a), v_orders := (v_orders v)(o_id ord \<mapsto> ord),
          v_events := v_events v @ evs\<rparr>)"

lemma settle_view_fun:
  "settle_view (ord, a, evs) =
     (\<lambda>v. v\<lparr>v_accounts := (v_accounts v)(a_id a \<mapsto> a), v_orders := (v_orders v)(o_id ord \<mapsto> ord),
          v_events := v_events v @ evs\<rparr>)"
  by (simp add: settle_view_def fun_eq_iff)

lemma settle_view_simps [simp]:
  "v_orders (settle_view (ord, a, evs) v) = (v_orders v)(o_id ord \<mapsto> ord)"
  "v_accounts (settle_view (ord, a, evs) v) = (v_accounts v)(a_id a \<mapsto> a)"
  "v_events (settle_view (ord, a, evs) v) = v_events v @ evs"
  "v_positions (settle_view out v) = v_positions v" "v_prices (settle_view out v) = v_prices v"
  "v_fills (settle_view out v) = v_fills v" "v_processed (settle_view out v) = v_processed v"
  by (simp_all add: settle_view_def split: prod.splits)

lemma release_keeps:
  "release_remaining_reservation a ord = Inr a' \<Longrightarrow> a_id a' = a_id a"
  by (auto simp: release_remaining_reservation_def Let_def split: if_splits)

lemma settle_account_keeps: "settle_account a ord q p = Inr a' \<Longrightarrow> a_id a' = a_id a"
  by (auto simp: settle_account_def Let_def split: if_splits)

lemma book_fill_keeps:
  "book_fill ord q p = Inr ord' \<Longrightarrow>
     o_id ord' = o_id ord \<and> o_account_id ord' = o_account_id ord \<and> o_status ord' = o_status ord \<and>
     o_side ord' = o_side ord \<and> o_symbol ord' = o_symbol ord \<and> o_price ord' = o_price ord \<and>
     o_time_in_force ord' = o_time_in_force ord \<and> o_quantity ord' = o_quantity ord \<and>
     o_cancelled_quantity ord' = o_cancelled_quantity ord"
  by (auto simp: book_fill_def Let_def)

text \<open>Reading the account of an order and assigning to it.\<close>

lemma fetch_and_set_account:
  assumes "account_get_for_update aid s = Inr (Some a, s1)" and "session_ok s"
  shows "v_accounts (view s) aid = Some a" "a_id a = aid" "session_ok s1" "view s1 = view s"
    and "a_id a' = aid \<Longrightarrow> steps_to e s (\<lambda>v. v\<lparr>v_accounts := (v_accounts v)(aid \<mapsto> a')\<rparr>) (set_account a' s1)"
proof -
  from account_get_for_update_steps [OF assms] have st: "steps_to e s (\<lambda>v. v) s1"
    and found: "Some a = v_accounts (view s) aid" by auto
  from found show acc: "v_accounts (view s) aid = Some a" by simp
  from view_keys(1) [OF assms(2) this] show "a_id a = aid" .
  from steps_toD [OF st assms(2)] show v: "session_ok s1" "view s1 = view s" by auto
  show "steps_to e s (\<lambda>v. v\<lparr>v_accounts := (v_accounts v)(aid \<mapsto> a')\<rparr>) (set_account a' s1)" if "a_id a' = aid"
    using steps_to_trans [OF st set_account_steps [of s1 a']] acc v that by simp
qed

text \<open>Assigning to the order the view shows, then moving it.\<close>

lemma set_and_move:
  assumes "transition e ord target ty d (set_order ord s) = Inr (ord', s')"
    and "v_orders (view s) (o_id ord) \<noteq> None"
  shows "target \<in> ALLOWED_TRANSITIONS (o_status ord) \<and> ord' = moved ord target \<and>
    steps_to e s (\<lambda>v. v\<lparr>v_orders := (v_orders v)(o_id ord \<mapsto> moved ord target),
                     v_events := v_events v @ [audit e ord ty (Some (o_status ord)) (Some target) d]\<rparr>) s'"
  using transition_steps [OF assms(1)] steps_to_trans [OF set_order_steps [OF assms(2)]]
  by (fastforce simp: view_set_order)

lemma cancel_remaining_refines:
  assumes "cancel_remaining e ord reason d s = Inr (ord', s')" and "session_ok s"
    and "v_orders (view s) (o_id ord) \<noteq> None"
  shows "\<exists>a out. v_accounts (view s) (o_account_id ord) = Some a \<and>
    cancel_outcome e ord a reason d = Inr out \<and> fst out = ord' \<and> steps_to e s (settle_view out) s'"
proof -
  let ?ord = "ord\<lparr>o_cancelled_quantity := dadd (o_cancelled_quantity ord) (o_remaining_quantity ord),
                  o_remaining_quantity := 0, o_version := o_version ord + 1\<rparr>"
  let ?d = "d @ [(''cancelled_quantity'', JDecimal (o_remaining_quantity ord)), (''reason'', JText reason)]"
  from assms(1) obtain a a1 s1 where
      1: "account_get_for_update (o_account_id ord) s = Inr (Some a, s1)"
    and rel: "release_remaining_reservation a ord = Inr a1"
    and t: "transition e ?ord CANCELLED ORDER_CANCELLED ?d (set_order ?ord (set_account a1 s1)) = Inr (ord', s')"
    by (auto simp: cancel_remaining_def Let_def split: option.splits)
  note acc = fetch_and_set_account [OF 1 assms(2)]
  have st2: "steps_to e s (\<lambda>v. v\<lparr>v_accounts := (v_accounts v)(a_id a1 \<mapsto> a1)\<rparr>) (set_account a1 s1)"
    using acc(5) [of a1] acc(2) release_keeps [OF rel] by simp
  from steps_toD [OF st2 assms(2)] assms(3)
  have "v_orders (view (set_account a1 s1)) (o_id ?ord) \<noteq> None" by simp
  from set_and_move [OF t this] have mv: "CANCELLED \<in> ALLOWED_TRANSITIONS (o_status ord)"
      "ord' = moved ?ord CANCELLED"
    and st3: "steps_to e (set_account a1 s1) (\<lambda>v. v\<lparr>v_orders := (v_orders v)(o_id ord \<mapsto> moved ?ord CANCELLED),
         v_events := v_events v @ [audit e ord ORDER_CANCELLED (Some (o_status ord)) (Some CANCELLED) ?d]\<rparr>) s'"
    by (auto simp: audit_def)
  let ?out = "(ord', a1, [audit e ord ORDER_CANCELLED (Some (o_status ord)) (Some CANCELLED) ?d])"
  have "cancel_outcome e ord a reason d = Inr ?out"
    using rel mv by (simp add: cancel_outcome_def Let_def)
  moreover have "steps_to e s (settle_view ?out) s'"
    using steps_to_trans [OF st2 st3] by (simp add: mv(2) settle_view_fun)
  ultimately show ?thesis using acc(1) by auto
qed

lemma apply_rejection_refines:
  assumes "apply_rejection e ord ev s = Inr (verdict, ord', s')" and "session_ok s"
    and "v_orders (view s) (o_id ord) \<noteq> None" and "o_status ord = ROUTED"
  shows "verdict = (True, None) \<and> (\<exists>a out. v_accounts (view s) (o_account_id ord) = Some a \<and>
    reject_outcome e ord a ev = Inr out \<and> fst out = ord' \<and> steps_to e s (settle_view out) s')"
proof -
  let ?reason = "or_else (ev_reason ev) ''Rejected by broker''"
  let ?ord = "ord\<lparr>o_rejection_reason := Some ?reason\<rparr>"
  let ?d = "[(''broker_event_id'', JText (ev_event_id ev)), (''reason'', JText ?reason)]"
  from assms(1,4) obtain a a1 s1 where
      1: "account_get_for_update (o_account_id ord) s = Inr (Some a, s1)"
    and rel: "release_remaining_reservation a ord = Inr a1"
    and t: "transition e ?ord REJECTED ORDER_REJECTED ?d (set_order ?ord (set_account a1 s1)) = Inr (ord', s')"
    and v: "verdict = (True, None)"
    by (auto simp: apply_rejection_def Let_def split: option.splits)
  note acc = fetch_and_set_account [OF 1 assms(2)]
  have st2: "steps_to e s (\<lambda>v. v\<lparr>v_accounts := (v_accounts v)(a_id a1 \<mapsto> a1)\<rparr>) (set_account a1 s1)"
    using acc(5) [of a1] acc(2) release_keeps [OF rel] by simp
  from steps_toD [OF st2 assms(2)] assms(3)
  have "v_orders (view (set_account a1 s1)) (o_id ?ord) \<noteq> None" by simp
  from set_and_move [OF t this] have mv: "ord' = moved ?ord REJECTED"
    and st3: "steps_to e (set_account a1 s1) (\<lambda>v. v\<lparr>v_orders := (v_orders v)(o_id ord \<mapsto> moved ?ord REJECTED),
         v_events := v_events v @ [audit e ord ORDER_REJECTED (Some (o_status ord)) (Some REJECTED) ?d]\<rparr>) s'"
    by (auto simp: audit_def)
  let ?out = "(ord', a1, [audit e ord ORDER_REJECTED (Some (o_status ord)) (Some REJECTED) ?d])"
  have "reject_outcome e ord a ev = Inr ?out"
    using rel mv by (simp add: reject_outcome_def Let_def)
  moreover have "steps_to e s (settle_view ?out) s'"
    using steps_to_trans [OF st2 st3] by (simp add: mv settle_view_fun)
  ultimately show ?thesis using acc(1) v by auto
qed

lemma conclude_fill_refines:
  assumes "conclude_fill e ord d s = Inr (verdict, ord', s')" and "session_ok s"
    and "v_orders (view s) (o_id ord) = Some ord" and "v_accounts (view s) (o_account_id ord) = Some a"
  shows "verdict = (True, None) \<and> (\<exists>out. conclude_outcome e ord a d = Inr out \<and>
    fst out = ord' \<and> steps_to e s (settle_view out) s')"
proof -
  have same: "steps_to e s (\<lambda>v. v) s \<Longrightarrow> steps_to e s (\<lambda>v. v\<lparr>v_accounts := (v_accounts v)(a_id a \<mapsto> a)\<rparr>) s"
    using assms(2,4) view_keys(1) [OF assms(2,4)] by (simp add: steps_to_def fun_upd_idem)
  note stay = same [OF steps_toI]
  have some: "v_orders (view s) (o_id ord) \<noteq> None" using assms(3) by simp
  consider (full) "o_remaining_quantity ord = 0"
    | (ioc) "o_remaining_quantity ord \<noteq> 0" "o_time_in_force ord = IOC"
    | (first) "o_remaining_quantity ord \<noteq> 0" "o_time_in_force ord \<noteq> IOC" "o_status ord = ROUTED"
    | (further) "o_remaining_quantity ord \<noteq> 0" "o_time_in_force ord \<noteq> IOC" "o_status ord \<noteq> ROUTED"
    by blast
  then show ?thesis
  proof cases
    case full
    with assms(1) have t: "transition e ord FILLED FULL_FILL_RECEIVED d s = Inr (ord', s')" "verdict = (True, None)"
      by (auto simp: conclude_fill_def)
    note tr = transition_steps [OF t(1) some]
    from steps_to_trans [OF stay conjunct2 [OF conjunct2 [OF tr]]] tr full t(2) show ?thesis
      by (simp add: conclude_outcome_def Let_def settle_view_fun)
  next
    case ioc
    let ?au = "audit e ord PARTIAL_FILL_RECEIVED (Some (o_status ord)) (Some (o_status ord)) d"
    from ioc assms(1) obtain s1 where t:
        "append_event e ord PARTIAL_FILL_RECEIVED (Some (o_status ord)) (Some (o_status ord)) d s = Inr s1"
        "cancel_remaining e ord ''IOC remainder cancelled'' d s1 = Inr (ord', s')" "verdict = (True, None)"
      by (auto simp: conclude_fill_def)
    note st1 = append_event_steps [OF t(1)]
    from steps_toD [OF st1 assms(2)] have v1: "session_ok s1" "v_orders (view s1) = v_orders (view s)"
        "v_accounts (view s1) = v_accounts (view s)" by auto
    from cancel_remaining_refines [OF t(2) v1(1)] v1(2,3) assms(3,4) obtain out where
      out: "cancel_outcome e ord a ''IOC remainder cancelled'' d = Inr out" "fst out = ord'"
        "steps_to e s1 (settle_view out) s'" by auto
    obtain a' evs where o: "out = (ord', a', evs)" using out(2) by (cases out) auto
    have "steps_to e s (settle_view (ord', a', ?au # evs)) s'"
      using steps_to_trans [OF st1 out(3)] by (simp add: o settle_view_fun)
    with ioc out(1) t(3) show ?thesis by (simp add: conclude_outcome_def Let_def o)
  next
    case first
    with assms(1) have t: "transition e ord PARTIALLY_FILLED PARTIAL_FILL_RECEIVED d s = Inr (ord', s')"
        "verdict = (True, None)"
      by (auto simp: conclude_fill_def)
    note tr = transition_steps [OF t(1) some]
    from steps_to_trans [OF stay conjunct2 [OF conjunct2 [OF tr]]] tr first t(2) show ?thesis
      by (simp add: conclude_outcome_def Let_def settle_view_fun)
  next
    case further
    with assms(1) have t:
        "append_event e ord PARTIAL_FILL_RECEIVED (Some (o_status ord)) (Some (o_status ord)) d s = Inr s'"
        "ord' = ord" "verdict = (True, None)"
      by (auto simp: conclude_fill_def)
    have "steps_to e s (\<lambda>v. v\<lparr>v_orders := (v_orders v)(o_id ord \<mapsto> ord)\<rparr>) s"
      using assms(3) by (intro steps_toI) (simp add: fun_upd_idem)
    from steps_to_trans [OF stay steps_to_trans [OF this append_event_steps [OF t(1)]]] further t(2,3)
    show ?thesis by (simp add: conclude_outcome_def Let_def settle_view_fun)
  qed
qed

section \<open>Fills\<close>

text \<open>The other half of a fill: the position it changes and the row of the fills table.\<close>

definition trade_outcome ::
  "env \<Rightarrow> view \<Rightarrow> order \<Rightarrow> broker_execution_event \<Rightarrow> rat \<Rightarrow> oms_error + position \<times> fill" where
  "trade_outcome e v ord ev fill_price =
     and_then (store_fill e (fill_of ord ev fill_price)) (\<lambda>f.
     and_then (book_execution (position_before v (o_account_id ord) (o_symbol ord) fill_price) (o_side ord)
                 (ev_filled_quantity ev) fill_price (mark_for v (o_symbol ord) fill_price)) (\<lambda>p.
     Inr (p, f)))"

definition trade_view :: "position \<times> fill \<Rightarrow> view \<Rightarrow> view" where
  "trade_view t v =
     v\<lparr>v_fills := v_fills v @ [snd t], v_positions := (v_positions v)(p_key (fst t) \<mapsto> fst t)\<rparr>"

lemma trade_view_simps [simp]:
  "v_orders (trade_view t v) = v_orders v" "v_accounts (trade_view t v) = v_accounts v"
  "v_events (trade_view t v) = v_events v" "v_prices (trade_view t v) = v_prices v"
  "v_processed (trade_view t v) = v_processed v"
  "v_positions (trade_view t v) = (v_positions v)(p_key (fst t) \<mapsto> fst t)"
  "v_fills (trade_view t v) = v_fills v @ [snd t]"
  by (simp_all add: trade_view_def)

lemma position_before_key:
  "session_ok s \<Longrightarrow> p_key (position_before (view s) aid symb price) = (aid, symb)"
  using view_keys(3) [of s "(aid, symb)"] by (auto simp: position_before_def split: option.splits)

text \<open>The first two statements of a fill: the order is booked and the fill row inserted.\<close>

lemma booked_steps:
  assumes "book_fill ord q p = Inr ord1" and "order_add_fill e (fill_of ord1 ev p) (set_order ord1 s) = Inr s1"
    and "session_ok s" and "v_orders (view s) (o_id ord) = Some ord"
  shows "\<exists>f. store_fill e (fill_of ord ev p) = Inr f \<and>
    ev_event_id ev \<notin> f_broker_event_id ` set (v_fills (view s)) \<and>
    steps_to e s (\<lambda>v. v\<lparr>v_orders := (v_orders v)(o_id ord \<mapsto> ord1), v_fills := v_fills v @ [f]\<rparr>) s1"
proof -
  note keeps = book_fill_keeps [OF assms(1)]
  have fo: "fill_of ord1 ev p = fill_of ord ev p" using keeps by (simp add: fill_of_def)
  have st0: "steps_to e s (\<lambda>v. v\<lparr>v_orders := (v_orders v)(o_id ord \<mapsto> ord1)\<rparr>) (set_order ord1 s)"
    using set_order_steps [of s ord1] keeps assms(4) by simp
  from steps_toD [OF st0 assms(3)] have v0: "v_fills (view (set_order ord1 s)) = v_fills (view s)" by simp
  from order_add_fill_steps [OF assms(2)] obtain f where f: "store_fill e (fill_of ord ev p) = Inr f"
      "f_broker_event_id f \<notin> f_broker_event_id ` set (v_fills (view s))"
      "steps_to e (set_order ord1 s) (\<lambda>v. v\<lparr>v_fills := v_fills v @ [f]\<rparr>) s1" by (auto simp: fo v0)
  have "f_broker_event_id f = ev_event_id ev" using f(1) by (auto simp: store_fill_def fill_of_def Let_def)
  with f steps_to_trans [OF st0 f(3)] show ?thesis by auto
qed

lemma outcome_keys:
  "cancel_outcome e ord a reason d = Inr out \<Longrightarrow> o_id (fst out) = o_id ord \<and> a_id (fst (snd out)) = a_id a"
  "conclude_outcome e ord a d = Inr out \<Longrightarrow> o_id (fst out) = o_id ord \<and> a_id (fst (snd out)) = a_id a"
  "fill_outcome e ord a ev p = Inr out \<Longrightarrow> o_id (fst out) = o_id ord \<and> a_id (fst (snd out)) = a_id a"
  "reject_outcome e ord a ev = Inr out \<Longrightarrow> o_id (fst out) = o_id ord \<and> a_id (fst (snd out)) = a_id a"
proof -
  show cancel: "o_id (fst out) = o_id ord \<and> a_id (fst (snd out)) = a_id a"
    if "cancel_outcome e ord a reason d = Inr out" for ord a reason d out
    using that by (auto simp: cancel_outcome_def Let_def split: if_splits dest: release_keeps)
  show conclude: "o_id (fst out) = o_id ord \<and> a_id (fst (snd out)) = a_id a"
    if "conclude_outcome e ord a d = Inr out" for ord a d out
    using that by (auto simp: conclude_outcome_def Let_def split: if_splits dest: cancel)
  show "o_id (fst out) = o_id ord \<and> a_id (fst (snd out)) = a_id a" if "fill_outcome e ord a ev p = Inr out"
    using that by (auto simp: fill_outcome_def dest!: conclude book_fill_keeps settle_account_keeps)
  show "o_id (fst out) = o_id ord \<and> a_id (fst (snd out)) = a_id a" if "reject_outcome e ord a ev = Inr out"
    using that by (auto simp: reject_outcome_def Let_def dest: release_keeps)
qed

lemma apply_fill_refines:
  assumes "apply_fill e ord ev s = Inr (verdict, ord', s')" and "session_ok s"
    and "v_orders (view s) (o_id ord) = Some ord" and "is_fill_type (ev_event_type ev)"
    and "ignored ord ev = None"
  shows "verdict = (True, None) \<and> (\<exists>p a out t. ev_fill_price ev = Some p \<and> 0 < ev_filled_quantity ev \<and>
    v_accounts (view s) (o_account_id ord) = Some a \<and> fill_outcome e ord a ev p = Inr out \<and>
    trade_outcome e (view s) ord ev p = Inr t \<and> fst out = ord' \<and>
    ev_event_id ev \<notin> f_broker_event_id ` set (v_fills (view s)) \<and>
    steps_to e s (\<lambda>v. settle_view out (trade_view t v)) s')"
proof -
  let ?q = "ev_filled_quantity ev" and ?aid = "o_account_id ord" and ?sym = "o_symbol ord"
  have g: "o_status ord \<in> {ROUTED, PARTIALLY_FILLED, CANCEL_PENDING}" "?q \<le> o_remaining_quantity ord"
      "\<not> (ev_event_type ev = FULL_FILL \<and> ?q \<noteq> o_remaining_quantity ord)"
    using assms(4,5) by (auto simp: ignored_def split: if_splits)
  from g assms(1) obtain p ord1 s1 a s2 a1 pos s4 where
      1: "ev_fill_price ev = Some p" "0 < ?q" "book_fill ord ?q p = Inr ord1"
        "order_add_fill e (fill_of ord1 ev p) (set_order ord1 s) = Inr s1"
    and 2: "account_get_for_update (o_account_id ord1) s1 = Inr (Some a, s2)"
        "settle_account a ord1 ?q p = Inr a1"
    and 3: "apply_execution e (o_account_id ord1) (o_symbol ord1) (o_side ord1) ?q p (set_account a1 s2) = Inr (pos, s4)"
    and 4: "conclude_fill e ord1 (fill_event_data ev p) s4 = Inr (verdict, ord', s')"
    by (auto simp: apply_fill_def Let_def not_le split: option.splits if_splits)
  note keeps = book_fill_keeps [OF 1(3)]
  from booked_steps [OF 1(3,4) assms(2,3)] obtain f where f: "store_fill e (fill_of ord ev p) = Inr f"
      "ev_event_id ev \<notin> f_broker_event_id ` set (v_fills (view s))"
    and st1: "steps_to e s (\<lambda>v. v\<lparr>v_orders := (v_orders v)(o_id ord \<mapsto> ord1), v_fills := v_fills v @ [f]\<rparr>) s1"
    by auto
  from steps_toD [OF st1 assms(2)] have ok1: "session_ok s1"
    and v1: "view s1 = (view s)\<lparr>v_orders := (v_orders (view s))(o_id ord \<mapsto> ord1), v_fills := v_fills (view s) @ [f]\<rparr>"
    by auto
  note acc = fetch_and_set_account [OF 2(1) ok1]
  have a: "v_accounts (view s) ?aid = Some a" "a_id a = ?aid" "a_id a1 = ?aid"
    using acc(1,2) settle_account_keeps [OF 2(2)] by (simp_all add: v1 keeps)
  have st2: "steps_to e s1 (\<lambda>v. v\<lparr>v_accounts := (v_accounts v)(?aid \<mapsto> a1)\<rparr>) (set_account a1 s2)"
    using acc(5) [of a1] a(3) by (simp add: keeps)
  from steps_toD [OF st2 ok1] have ok2: "session_ok (set_account a1 s2)"
    and v2: "view (set_account a1 s2) = (view s1)\<lparr>v_accounts := (v_accounts (view s1))(?aid \<mapsto> a1)\<rparr>"
    by auto
  from apply_execution_steps [OF 3 ok2] have pos:
      "book_execution (position_before (view s) ?aid ?sym p) (o_side ord) ?q p (mark_for (view s) ?sym p) = Inr pos"
    and st3: "steps_to e (set_account a1 s2) (\<lambda>v. v\<lparr>v_positions := (v_positions v)((?aid, ?sym) \<mapsto> pos)\<rparr>) s4"
    by (simp_all add: keeps v1 v2)
  have kp: "p_key pos = (?aid, ?sym)"
    using book_execution_key [OF pos] position_before_key [OF assms(2)] by simp
  from steps_toD [OF st3 ok2] have v4: "session_ok s4" "v_orders (view s4) (o_id ord1) = Some ord1"
      "v_accounts (view s4) (o_account_id ord1) = Some a1"
    using keeps by (simp_all add: v1 v2)
  from conclude_fill_refines [OF 4 v4] obtain out where out: "verdict = (True, None)"
      "conclude_outcome e ord1 a1 (fill_event_data ev p) = Inr out" "fst out = ord'" "steps_to e s4 (settle_view out) s'"
    by auto
  have fo: "fill_outcome e ord a ev p = Inr out"
    using 1(3) 2(2) out(2) by (simp add: fill_outcome_def)
  have to: "trade_outcome e (view s) ord ev p = Inr (pos, f)"
    using f(1) pos by (simp add: trade_outcome_def)
  obtain a2 evs where o: "out = (ord', a2, evs)" using out(3) by (cases out) auto
  have "steps_to e s (\<lambda>v. settle_view out (trade_view (pos, f) v)) s'"
    using steps_to_trans [OF st1 steps_to_trans [OF st2 steps_to_trans [OF st3 out(4)]]]
      outcome_keys(3) [OF fo] a(2)
    by (simp add: o settle_view_fun trade_view_def kp)
  with 1(1,2) a(1) fo to out(1,3) f(2) show ?thesis by blast
qed

section \<open>Dispatch and the whole handler\<close>

text \<open>The trade of an event: only fills have one.\<close>

definition event_trade ::
  "env \<Rightarrow> view \<Rightarrow> order \<Rightarrow> broker_execution_event \<Rightarrow> oms_error + (position \<times> fill) option" where
  "event_trade e v ord ev =
     (if is_fill_type (ev_event_type ev) then
        (case ev_fill_price ev of
           None \<Rightarrow> Inl (InvalidFill ''Fill price is required'')
         | Some p \<Rightarrow> and_then (trade_outcome e v ord ev p) (\<lambda>t. Inr (Some t)))
      else Inr None)"

definition event_view :: "outcome \<Rightarrow> (position \<times> fill) option \<Rightarrow> view \<Rightarrow> view" where
  "event_view out trade v = settle_view out (case trade of None \<Rightarrow> v | Some t \<Rightarrow> trade_view t v)"

lemma event_view_simps [simp]:
  "v_orders (event_view (ord, a, evs) trade v) = (v_orders v)(o_id ord \<mapsto> ord)"
  "v_accounts (event_view (ord, a, evs) trade v) = (v_accounts v)(a_id a \<mapsto> a)"
  "v_events (event_view (ord, a, evs) trade v) = v_events v @ evs"
  "v_prices (event_view out trade v) = v_prices v"
  "v_processed (event_view out trade v) = v_processed v"
  by (simp_all add: event_view_def split: option.splits)

lemma event_view_trade [simp]:
  "v_positions (event_view out None v) = v_positions v" "v_fills (event_view out None v) = v_fills v"
  "v_positions (event_view out (Some t) v) = (v_positions v)(p_key (fst t) \<mapsto> fst t)"
  "v_fills (event_view out (Some t) v) = v_fills v @ [snd t]"
  by (simp_all add: event_view_def)

lemma apply_cancellation_refines:
  assumes "apply_cancellation e ord ev s = Inr (verdict, ord', s')" and "session_ok s"
    and "v_orders (view s) (o_id ord) = Some ord" and "o_status ord \<in> {ROUTED, PARTIALLY_FILLED, CANCEL_PENDING}"
  shows "verdict = (True, None) \<and> (\<exists>a out. v_accounts (view s) (o_account_id ord) = Some a \<and>
    cancel_outcome e ord a (or_else (ev_reason ev) ''Cancelled by broker'')
      [(''broker_event_id'', JText (ev_event_id ev))] = Inr out \<and>
    fst out = ord' \<and> steps_to e s (settle_view out) s')"
  using assms cancel_remaining_refines [of e ord _ _ s] by (auto simp: apply_cancellation_def split: if_splits)

lemma dispatch_ignored:
  assumes "dispatch e ord ev s = Inr (verdict, ord', s')" and "ignored ord ev = Some reason"
  shows "verdict = (False, Some reason) \<and> ord' = ord \<and> s' = s"
  using assms
  by (cases "ev_event_type ev")
    (auto simp: dispatch_def apply_fill_def apply_rejection_def apply_cancellation_def ignored_def
      is_fill_type_def Let_def split: if_splits option.splits)

lemma dispatch_refines:
  assumes "dispatch e ord ev s = Inr (verdict, ord', s')" and "session_ok s"
    and "v_orders (view s) (o_id ord) = Some ord" and "ignored ord ev = None"
  shows "verdict = (True, None) \<and> (\<exists>a out trade. v_accounts (view s) (o_account_id ord) = Some a \<and>
    event_outcome e ord a ev = Inr out \<and> event_trade e (view s) ord ev = Inr trade \<and> fst out = ord' \<and>
    (is_fill_type (ev_event_type ev) \<longrightarrow> 0 < ev_filled_quantity ev) \<and>
    steps_to e s (event_view out trade) s')"
proof (cases "is_fill_type (ev_event_type ev)")
  case True
  then have "apply_fill e ord ev s = Inr (verdict, ord', s')"
    using assms(1) by (auto simp: dispatch_def is_fill_type_def)
  from apply_fill_refines [OF this assms(2,3) True assms(4)] True show ?thesis
    by (auto simp: event_outcome_def event_trade_def event_view_def [abs_def])
next
  case False
  then consider "ev_event_type ev = broker_event_type.REJECTED" | "ev_event_type ev = broker_event_type.CANCELLED"
    by (cases "ev_event_type ev") (auto simp: is_fill_type_def)
  then show ?thesis
  proof cases
    case 1
    then have "apply_rejection e ord ev s = Inr (verdict, ord', s')" "o_status ord = ROUTED"
      using assms(1,4) by (auto simp: dispatch_def ignored_def is_fill_type_def split: if_splits)
    from apply_rejection_refines [OF this(1) assms(2) _ this(2)] 1 False assms(3) show ?thesis
      by (auto simp: event_outcome_def event_trade_def event_view_def [abs_def])
  next
    case 2
    then have "apply_cancellation e ord ev s = Inr (verdict, ord', s')"
        "o_status ord \<in> {ROUTED, PARTIALLY_FILLED, CANCEL_PENDING}"
      using assms(1,4) by (auto simp: dispatch_def ignored_def is_fill_type_def split: if_splits)
    from apply_cancellation_refines [OF this(1) assms(2,3) this(2)] 2 False show ?thesis
      by (auto simp: event_outcome_def event_trade_def event_view_def [abs_def])
  qed
qed

text \<open>What an ignored and an applied event append to the logs.\<close>

definition ignored_view :: "env \<Rightarrow> order \<Rightarrow> broker_execution_event \<Rightarrow> string \<Rightarrow> view \<Rightarrow> view" where
  "ignored_view e ord ev reason v =
     v\<lparr>v_processed := v_processed v @ [processed_of ev (False, Some reason)],
       v_events := v_events v @ [audit e ord BROKER_EVENT_IGNORED (Some (o_status ord)) (Some (o_status ord))
                                   (ignored_event_data ev (Some reason))]\<rparr>"

definition applied_view ::
  "broker_execution_event \<Rightarrow> outcome \<Rightarrow> (position \<times> fill) option \<Rightarrow> view \<Rightarrow> view" where
  "applied_view ev out trade v =
     (event_view out trade v)\<lparr>v_processed := v_processed v @ [processed_of ev (True, None)]\<rparr>"

lemma ignored_view_simps [simp]:
  "v_orders (ignored_view e ord ev r v) = v_orders v" "v_accounts (ignored_view e ord ev r v) = v_accounts v"
  "v_positions (ignored_view e ord ev r v) = v_positions v" "v_prices (ignored_view e ord ev r v) = v_prices v"
  "v_fills (ignored_view e ord ev r v) = v_fills v"
  by (simp_all add: ignored_view_def)

lemma applied_view_simps [simp]:
  "v_orders (applied_view ev out trade v) = v_orders (event_view out trade v)"
  "v_accounts (applied_view ev out trade v) = v_accounts (event_view out trade v)"
  "v_positions (applied_view ev out trade v) = v_positions (event_view out trade v)"
  "v_prices (applied_view ev out trade v) = v_prices v"
  "v_fills (applied_view ev out trade v) = v_fills (event_view out trade v)"
  "v_events (applied_view ev out trade v) = v_events (event_view out trade v)"
  "v_processed (applied_view ev out trade v) = v_processed v @ [processed_of ev (True, None)]"
  by (simp_all add: applied_view_def)

lemma store_processed_documented:
  assumes "documented e" and "store_processed e (processed_of ev vd) = Inr row"
  shows "row = processed_of ev vd"
proof -
  have "varchar e 20 (b_outcome (processed_of ev vd)) = Some (b_outcome (processed_of ev vd))"
    using assms(1) by (intro column_types.txt_fits) (auto simp: documented_def processed_of_def)
  with assms(2) show ?thesis by (simp add: store_processed_def Let_def)
qed

lemma process_event_body_cases:
  assumes "process_event_body e ev s = Inr (b, s')" and "session_ok s" and "documented e"
  obtains (duplicate) ord where "v_orders (view s) (ev_order_id ev) = Some ord"
      "row_of b_broker_event_id (ev_event_id ev) (v_processed (view s)) \<noteq> None" "\<not> b"
      "steps_to e s (\<lambda>v. v) s'"
  | (ignored) ord reason where "v_orders (view s) (ev_order_id ev) = Some ord"
      "row_of b_broker_event_id (ev_event_id ev) (v_processed (view s)) = None"
      "ignored ord ev = Some reason" "\<not> b" "steps_to e s (ignored_view e ord ev reason) s'"
  | (applied) ord a out trade where "v_orders (view s) (ev_order_id ev) = Some ord"
      "row_of b_broker_event_id (ev_event_id ev) (v_processed (view s)) = None"
      "ignored ord ev = None" "b" "v_accounts (view s) (o_account_id ord) = Some a"
      "event_outcome e ord a ev = Inr out" "event_trade e (view s) ord ev = Inr trade"
      "is_fill_type (ev_event_type ev) \<longrightarrow> 0 < ev_filled_quantity ev"
      "steps_to e s (applied_view ev out trade) s'"
proof -
  from assms(1) obtain ord s1 where 1: "order_get_for_update (ev_order_id ev) s = Inr (Some ord, s1)"
    by (auto simp: process_event_body_def split: option.splits)
  from order_get_for_update_steps [OF 1 assms(2)] have st1: "steps_to e s (\<lambda>v. v) s1"
    and ord: "v_orders (view s) (ev_order_id ev) = Some ord" by auto
  from steps_toD [OF st1 assms(2)] have v1: "session_ok s1" "view s1 = view s" by auto
  have oid: "o_id ord = ev_order_id ev" using view_keys(2) [OF assms(2) ord] .
  with ord v1 have ord1: "v_orders (view s1) (o_id ord) = Some ord" by simp
  from assms(1) 1 obtain found where 2: "processed_get_by_event_id (ev_event_id ev) s1 = Inr found"
    by (auto simp: process_event_body_def)
  from processed_get_by_event_id_view [OF 2]
  have found: "found = row_of b_broker_event_id (ev_event_id ev) (v_processed (view s))" by (simp add: v1)
  show ?thesis
  proof (cases found)
    case (Some row)
    with assms(1) 1 2 have "\<not> b" "s' = s1" by (auto simp: process_event_body_def)
    with Some found ord st1 show ?thesis by (intro duplicate) auto
  next
    case None
    with assms(1) 1 2 obtain vd ord' s2 s3 where 3: "dispatch e ord ev s1 = Inr (vd, ord', s2)"
        "processed_add e (processed_of ev vd) s2 = Inr s3"
      and rest: "if fst vd then b \<and> s' = s3 else \<not> b \<and>
        append_event e ord' BROKER_EVENT_IGNORED (Some (o_status ord')) (Some (o_status ord'))
          (ignored_event_data ev (snd vd)) s3 = Inr s'"
      by (auto simp: process_event_body_def split: if_splits)
    from processed_add_steps [OF 3(2)] store_processed_documented [OF assms(3), of ev vd]
    have st3: "steps_to e s2 (\<lambda>v. v\<lparr>v_processed := v_processed v @ [processed_of ev vd]\<rparr>) s3" by auto
    show ?thesis
    proof (cases "ignored ord ev")
      case (Some reason)
      with dispatch_ignored [OF 3(1)] have d: "vd = (False, Some reason)" "ord' = ord" "s2 = s1" by auto
      with rest have b: "\<not> b" and ap: "append_event e ord BROKER_EVENT_IGNORED (Some (o_status ord)) (Some (o_status ord))
          (ignored_event_data ev (Some reason)) s3 = Inr s'" by auto
      from steps_to_trans [OF st1 steps_to_trans [OF st3 [unfolded d] append_event_steps [OF ap]]]
      have "steps_to e s (ignored_view e ord ev reason) s'" by (simp add: ignored_view_def [abs_def])
      with ord found None Some b show ?thesis by (intro ignored) auto
    next
      case ign: None
      from dispatch_refines [OF 3(1) v1(1) ord1 ign] obtain a out trade where d: "vd = (True, None)"
          "v_accounts (view s) (o_account_id ord) = Some a" "event_outcome e ord a ev = Inr out"
          "event_trade e (view s) ord ev = Inr trade"
          "is_fill_type (ev_event_type ev) \<longrightarrow> 0 < ev_filled_quantity ev"
          "steps_to e s1 (event_view out trade) s2" by (auto simp: v1)
      with rest have b: "b" "s' = s3" by auto
      have "v_processed (event_view out trade v) = v_processed v" for v by simp
      with steps_to_trans [OF st1 steps_to_trans [OF d(6) st3 [unfolded d]]]
      have "steps_to e s (applied_view ev out trade) s'" by (simp add: applied_view_def [abs_def] b)
      with ord found None ign b d show ?thesis by (intro applied) auto
    qed
  qed
qed

text \<open>The committed database.\<close>

lemma process_event_cases:
  assumes "process_event e ev (open_session db) = (Inr b, s')" and "settled e db" and "documented e"
  obtains (duplicate) ord where "order_row db (ev_order_id ev) = Some ord"
      "processed_row db (ev_event_id ev) \<noteq> None" "\<not> b" "leaves e (db_view db) (tx s')"
  | (ignored) ord reason where "order_row db (ev_order_id ev) = Some ord"
      "processed_row db (ev_event_id ev) = None" "ignored ord ev = Some reason" "\<not> b"
      "leaves e (ignored_view e ord ev reason (db_view db)) (tx s')"
  | (applied) ord a out trade where "order_row db (ev_order_id ev) = Some ord"
      "processed_row db (ev_event_id ev) = None" "ignored ord ev = None" "b"
      "account_row db (o_account_id ord) = Some a" "event_outcome e ord a ev = Inr out"
      "event_trade e (db_view db) ord ev = Inr trade"
      "is_fill_type (ev_event_type ev) \<longrightarrow> 0 < ev_filled_quantity ev"
      "leaves e (applied_view ev out trade (db_view db)) (tx s')"
proof -
  from assms(1) obtain s1 where s1: "process_event_body e ev (open_session db) = Inr (b, s1)" "flush e s1 = Inr s'"
    by (auto simp: process_event_def transaction_Inr)
  have lv: "leaves e (f (db_view db)) (tx s')" if "steps_to e (open_session db) f s1" for f
    using steps_toD [OF that] commit_leaves [OF _ _ _ s1(2)] assms(2)
    by (metis db_view_def session_ok_open tx_open)
  from s1(1) session_ok_open assms(3) show ?thesis
  proof (cases rule: process_event_body_cases)
    case (duplicate ord)
    with lv [OF duplicate(4)] that(1) show ?thesis by (simp flip: db_view_def)
  next
    case (ignored ord reason)
    with lv [OF ignored(5)] that(2) show ?thesis by (simp flip: db_view_def)
  next
    case (applied ord a out trade)
    with lv [OF applied(9)] that(3) show ?thesis by (simp flip: db_view_def)
  qed
qed

lemma process_event_well_formed:
  assumes "process_event e ev (open_session db) = (r, s')" and "documented e" and "well_formed e db"
  shows "well_formed e (tx s')"
  using assms(1) unfolding process_event_def
proof (rule transaction_well_formed)
  fix b s1
  assume "process_event_body e ev (open_session db) = Inr (b, s1)"
  then show "\<exists>f. steps_to e (open_session db) f s1"
    using session_ok_open assms(2) by (cases rule: process_event_body_cases) blast+
qed (use assms in simp_all)

text \<open>An event that is recorded already finds the database unchanged, and the handler returns.\<close>

lemma process_recorded_event:
  assumes "well_formed e db" and "order_row db (ev_order_id ev) = Some ord"
    and "processed_row db (ev_event_id ev) \<noteq> None"
  shows "fst (process_event e ev (open_session db)) = Inr False \<and> tx (snd (process_event e ev (open_session db))) = db"
proof -
  let ?s = "set_order ord (open_session db)"
  have d: "distinct (map o_id (orders db))" "distinct (map b_broker_event_id (processed_broker_events db))"
    using assms(1) by (simp_all add: well_formed_defs)
  have oid: "o_id ord = ev_order_id ev" using row_of_SomeD [OF assms(2)] by simp
  have "order_get_for_update (ev_order_id ev) (open_session db) = Inr (Some ord, ?s)"
    using assms(2) by (simp add: order_get_for_update_def select_order_def select_one_key [OF d(1)]
      resolve_order_def open_session_def)
  moreover have "processed_get_by_event_id (ev_event_id ev) ?s = Inr (processed_row db (ev_event_id ev))"
    by (simp add: processed_get_by_event_id_def select_one_key [OF d(2)])
  ultimately have "process_event_body e ev (open_session db) = Inr (False, ?s)"
    using assms(3) by (auto simp: process_event_body_def)
  moreover have "flush e ?s = Inr ?s"
    using assms(1) by (rule flush_read_only)
      (use assms(2) oid in \<open>auto simp: set_order_def open_session_def split: if_splits\<close>)
  ultimately show ?thesis by (simp add: process_event_def transaction_def)
qed

end
