(* ===== verification/Execution_Progress.thy ===== *)
theory Execution_Progress
  imports Execution_Refinement Session_Progress
begin

text \<open>
  When the execution service applies an event.

  \<open>process_event_applies\<close>: the handler returns \<open>True\<close> whenever the outcome of the event is defined
  and the rows it makes can be stored. There is no other way to fail: no query finds several
  rows, no flush of an earlier statement is refused, no foreign key is missing.
\<close>

lemma cancel_remaining_ready:
  assumes "ready e s" and "v_orders (view s) (o_id ord) \<noteq> None"
    and "v_accounts (view s) (o_account_id ord) = Some a" and "cancel_outcome e ord a reason d = Inr out"
    and "can_store (store_order e) (fst out)" and "can_store (store_account e) (fst (snd out))"
  shows "yields e (cancel_remaining e ord reason d s) (fst out) (settle_view out) s"
proof -
  let ?ord = "ord\<lparr>o_cancelled_quantity := dadd (o_cancelled_quantity ord) (o_remaining_quantity ord),
                  o_remaining_quantity := 0, o_version := o_version ord + 1\<rparr>"
  let ?d = "d @ [(''cancelled_quantity'', JDecimal (o_remaining_quantity ord)), (''reason'', JText reason)]"
  from assms(4) obtain a1 where rel: "release_remaining_reservation a ord = Inr a1"
    and tr: "CANCELLED \<in> ALLOWED_TRANSITIONS (o_status ord)"
    and out: "out = (moved ?ord CANCELLED, a1, [audit e ord ORDER_CANCELLED (Some (o_status ord)) (Some CANCELLED) ?d])"
    by (auto simp: cancel_outcome_def Let_def split: if_splits)
  from account_get_ready [OF assms(1), of "o_account_id ord"] obtain s1 where 1: "ready e s1" "view s1 = view s"
      "account_get_for_update (o_account_id ord) s = Inr (Some a, s1)"
    by (auto simp: yields_def assms(3))
  have ka: "a_id a1 = o_account_id ord"
    using release_keeps [OF rel] view_keys(1) [OF readyD(2) [OF assms(1)] assms(3)] by simp
  from ready_set_account [OF 1(1), of a1] assms(3,6)
  have 2: "ready e (set_account a1 s1)"
      "view (set_account a1 s1) = (view s)\<lparr>v_accounts := (v_accounts (view s))(a_id a1 \<mapsto> a1)\<rparr>"
    by (simp_all add: ka 1(2) out)
  have st: "can_store (store_order e) ?ord" using assms(5) by (simp add: out)
  from ready_set_order [OF 2(1), of ?ord] assms(2) st
  have 3: "ready e (set_order ?ord (set_account a1 s1))" "view (set_order ?ord (set_account a1 s1)) =
      (view (set_account a1 s1))\<lparr>v_orders := (v_orders (view s))(o_id ord \<mapsto> ?ord)\<rparr>"
    by (simp_all add: 2(2))
  from transition_ready [OF 3(1), of ?ord CANCELLED ORDER_CANCELLED ?d] tr st obtain s' where 4:
      "transition e ?ord CANCELLED ORDER_CANCELLED ?d (set_order ?ord (set_account a1 s1)) = Inr (moved ?ord CANCELLED, s')"
      "ready e s'" "view s' = settle_view out (view s)"
    by (auto simp: yields_def 3(2) 2(2) out settle_view_fun audit_def)
  then show ?thesis
    using 1(3) rel by (simp add: yields_def cancel_remaining_def Let_def out)
qed

text \<open>A handler that was given an order returns its verdict with the order it made of it.\<close>

definition applies ::
  "env \<Rightarrow> (oms_error + verdict \<times> order \<times> session) \<Rightarrow> order \<Rightarrow> (view \<Rightarrow> view) \<Rightarrow> session \<Rightarrow> bool" where
  "applies e r ord f s \<longleftrightarrow>
     (\<exists>s'. r = Inr ((True, None), ord, s') \<and> ready e s' \<and> view s' = f (view s))"

lemma apply_rejection_ready:
  assumes "ready e s" and "v_orders (view s) (o_id ord) \<noteq> None" and "o_status ord = ROUTED"
    and "v_accounts (view s) (o_account_id ord) = Some a" and "reject_outcome e ord a ev = Inr out"
    and "can_store (store_order e) (fst out)" and "can_store (store_account e) (fst (snd out))"
  shows "applies e (apply_rejection e ord ev s) (fst out) (settle_view out) s"
proof -
  let ?reason = "or_else (ev_reason ev) ''Rejected by broker''"
  let ?ord = "ord\<lparr>o_rejection_reason := Some ?reason\<rparr>"
  let ?d = "[(''broker_event_id'', JText (ev_event_id ev)), (''reason'', JText ?reason)]"
  from assms(5) obtain a1 where rel: "release_remaining_reservation a ord = Inr a1"
    and out: "out = (moved ?ord REJECTED, a1, [audit e ord ORDER_REJECTED (Some (o_status ord)) (Some REJECTED) ?d])"
    by (auto simp: reject_outcome_def Let_def)
  from account_get_ready [OF assms(1), of "o_account_id ord"] obtain s1 where 1: "ready e s1" "view s1 = view s"
      "account_get_for_update (o_account_id ord) s = Inr (Some a, s1)"
    by (auto simp: yields_def assms(4))
  have ka: "a_id a1 = o_account_id ord"
    using release_keeps [OF rel] view_keys(1) [OF readyD(2) [OF assms(1)] assms(4)] by simp
  from ready_set_account [OF 1(1), of a1] assms(4,7)
  have 2: "ready e (set_account a1 s1)"
      "view (set_account a1 s1) = (view s)\<lparr>v_accounts := (v_accounts (view s))(a_id a1 \<mapsto> a1)\<rparr>"
    by (simp_all add: ka 1(2) out)
  have st: "can_store (store_order e) ?ord" using assms(6) by (simp add: out)
  from ready_set_order [OF 2(1), of ?ord] assms(2) st
  have 3: "ready e (set_order ?ord (set_account a1 s1))" "view (set_order ?ord (set_account a1 s1)) =
      (view (set_account a1 s1))\<lparr>v_orders := (v_orders (view s))(o_id ord \<mapsto> ?ord)\<rparr>"
    by (simp_all add: 2(2))
  from transition_ready [OF 3(1), of ?ord REJECTED ORDER_REJECTED ?d] assms(3) st obtain s' where 4:
      "transition e ?ord REJECTED ORDER_REJECTED ?d (set_order ?ord (set_account a1 s1)) = Inr (moved ?ord REJECTED, s')"
      "ready e s'" "view s' = settle_view out (view s)"
    by (auto simp: yields_def 3(2) 2(2) out settle_view_fun audit_def)
  then show ?thesis
    using 1(3) rel assms(3) by (simp add: applies_def apply_rejection_def Let_def out)
qed

lemma conclude_fill_ready:
  assumes "ready e s" and "v_orders (view s) (o_id ord) = Some ord"
    and "v_accounts (view s) (o_account_id ord) = Some a" and "conclude_outcome e ord a d = Inr out"
    and "can_store (store_order e) ord"
    and "can_store (store_order e) (fst out)" and "can_store (store_account e) (fst (snd out))"
  shows "applies e (conclude_fill e ord d s) (fst out) (settle_view out) s"
proof -
  have ka: "a_id a = o_account_id ord" using view_keys(1) [OF readyD(2) [OF assms(1)] assms(3)] .
  have same: "(view s)\<lparr>v_accounts := (v_accounts (view s))(a_id a \<mapsto> a)\<rparr> = view s"
    "(view s)\<lparr>v_orders := (v_orders (view s))(o_id ord \<mapsto> ord)\<rparr> = view s"
    using assms(2,3) by (simp_all add: ka fun_upd_idem)
  have some: "v_orders (view s) (o_id ord) \<noteq> None" using assms(2) by simp
  consider (full) "o_remaining_quantity ord = 0"
    | (ioc) "o_remaining_quantity ord \<noteq> 0" "o_time_in_force ord = IOC"
    | (first) "o_remaining_quantity ord \<noteq> 0" "o_time_in_force ord \<noteq> IOC" "o_status ord = ROUTED"
    | (further) "o_remaining_quantity ord \<noteq> 0" "o_time_in_force ord \<noteq> IOC" "o_status ord \<noteq> ROUTED"
    by blast
  then show ?thesis
  proof cases
    case full
    with assms(4) have o: "FILLED \<in> ALLOWED_TRANSITIONS (o_status ord)"
        "out = (moved ord FILLED, a, [audit e ord FULL_FILL_RECEIVED (Some (o_status ord)) (Some FILLED) d])"
      by (auto simp: conclude_outcome_def Let_def split: if_splits)
    from transition_ready [OF assms(1) some o(1) assms(5), of FULL_FILL_RECEIVED d] full show ?thesis
      by (auto simp: yields_def applies_def conclude_fill_def o(2) settle_view_fun same)
  next
    case ioc
    let ?st = "Some (o_status ord)"
    from ioc assms(4) obtain o1 a1 evs where c: "cancel_outcome e ord a ''IOC remainder cancelled'' d = Inr (o1, a1, evs)"
        "out = (o1, a1, audit e ord PARTIAL_FILL_RECEIVED ?st ?st d # evs)"
      by (auto simp: conclude_outcome_def Let_def split: if_splits)
    from append_event_ready [OF assms(1) some, of PARTIAL_FILL_RECEIVED ?st ?st d] obtain s1 where 1:
        "append_event e ord PARTIAL_FILL_RECEIVED ?st ?st d s = Inr s1" "ready e s1"
        "view s1 = (view s)\<lparr>v_events := v_events (view s) @ [audit e ord PARTIAL_FILL_RECEIVED ?st ?st d]\<rparr>"
      by (auto simp: succeeds_def)
    from cancel_remaining_ready [OF 1(2) _ _ c(1)] some assms(3,6,7) obtain s2 where 2:
        "cancel_remaining e ord ''IOC remainder cancelled'' d s1 = Inr (o1, s2)" "ready e s2"
        "view s2 = settle_view (o1, a1, evs) (view s1)"
      by (auto simp: yields_def 1(3) c(2))
    then show ?thesis using ioc 1
      by (simp add: applies_def conclude_fill_def c(2) settle_view_fun)
  next
    case first
    with assms(4) have o: "out = (moved ord PARTIALLY_FILLED, a,
          [audit e ord PARTIAL_FILL_RECEIVED (Some (o_status ord)) (Some PARTIALLY_FILLED) d])"
      by (auto simp: conclude_outcome_def Let_def)
    from transition_ready [OF assms(1) some _ assms(5), of PARTIALLY_FILLED PARTIAL_FILL_RECEIVED d] first show ?thesis
      by (auto simp: yields_def applies_def conclude_fill_def o settle_view_fun same)
  next
    case further
    let ?st = "Some (o_status ord)"
    from further assms(4) have o: "out = (ord, a, [audit e ord PARTIAL_FILL_RECEIVED ?st ?st d])"
      by (auto simp: conclude_outcome_def Let_def)
    from append_event_ready [OF assms(1) some, of PARTIAL_FILL_RECEIVED ?st ?st d] further show ?thesis
      by (auto simp: succeeds_def applies_def conclude_fill_def o settle_view_fun same)
  qed
qed

section \<open>Fills\<close>

text \<open>Every row a fill makes on its way fits its columns, and its keys are free.\<close>

definition fill_fits ::
  "env \<Rightarrow> view \<Rightarrow> order \<Rightarrow> account \<Rightarrow> broker_execution_event \<Rightarrow> rat \<Rightarrow> outcome \<Rightarrow> position \<times> fill \<Rightarrow> bool" where
  "fill_fits e v ord a ev p out t \<longleftrightarrow>
     (\<forall>ord1. book_fill ord (ev_filled_quantity ev) p = Inr ord1 \<longrightarrow>
        can_store (store_order e) ord1 \<and>
        (\<forall>a1. settle_account a ord1 (ev_filled_quantity ev) p = Inr a1 \<longrightarrow> can_store (store_account e) a1)) \<and>
     (v_positions v (o_account_id ord, o_symbol ord) = None \<longrightarrow>
        can_store (store_position e) (new_position (o_account_id ord) (o_symbol ord) (mark_for v (o_symbol ord) p))) \<and>
     can_store (store_position e) (fst t) \<and>
     can_store (store_order e) (fst out) \<and> can_store (store_account e) (fst (snd out)) \<and>
     f_broker_event_id (snd t) \<notin> f_broker_event_id ` set (v_fills v) \<and>
     f_execution_id (snd t) \<notin> f_execution_id ` set (v_fills v)"

lemma apply_fill_ready:
  assumes "ready e s" and "v_orders (view s) (o_id ord) = Some ord"
    and "v_accounts (view s) (o_account_id ord) = Some a" and "is_fill_type (ev_event_type ev)"
    and "ignored ord ev = None" and "0 < ev_filled_quantity ev" and "ev_fill_price ev = Some p"
    and "fill_outcome e ord a ev p = Inr out" and "trade_outcome e (view s) ord ev p = Inr t"
    and "fill_fits e (view s) ord a ev p out t"
  shows "applies e (apply_fill e ord ev s) (fst out) (\<lambda>v. settle_view out (trade_view t v)) s"
proof -
  let ?q = "ev_filled_quantity ev" and ?aid = "o_account_id ord" and ?sym = "o_symbol ord"
  obtain pos f where t: "t = (pos, f)" by (cases t)
  from assms(9) have tr: "store_fill e (fill_of ord ev p) = Inr f"
      "book_execution (position_before (view s) ?aid ?sym p) (o_side ord) ?q p (mark_for (view s) ?sym p) = Inr pos"
    by (auto simp: trade_outcome_def t)
  from assms(8) obtain ord1 a1 where o: "book_fill ord ?q p = Inr ord1" "settle_account a ord1 ?q p = Inr a1"
      "conclude_outcome e ord1 a1 (fill_event_data ev p) = Inr out"
    by (auto simp: fill_outcome_def)
  note keeps = book_fill_keeps [OF o(1)]
  note fits = assms(10) [unfolded fill_fits_def t fst_conv snd_conv]
  have ka: "a_id a = ?aid" "a_id a1 = ?aid"
    using view_keys(1) [OF readyD(2) [OF assms(1)] assms(3)] settle_account_keeps [OF o(2)] by simp_all
  have 0: "ready e (set_order ord1 s)" "view (set_order ord1 s) =
      (view s)\<lparr>v_orders := (v_orders (view s))(o_id ord \<mapsto> ord1)\<rparr>"
    using ready_set_order [OF assms(1), of ord1] keeps assms(2) fits o(1) by auto
  have fo: "fill_of ord1 ev p = fill_of ord ev p" using keeps by (simp add: fill_of_def)
  have "succeeds e (order_add_fill e (fill_of ord ev p) (set_order ord1 s)) (\<lambda>v. v\<lparr>v_fills := v_fills v @ [f]\<rparr>) (set_order ord1 s)"
    by (rule order_add_fill_ready [OF 0(1) _ tr(1)]) (use fits in \<open>auto simp: 0(2) fill_of_def\<close>)
  then obtain s1 where 1: "order_add_fill e (fill_of ord1 ev p) (set_order ord1 s) = Inr s1" "ready e s1"
      "view s1 = (view s)\<lparr>v_orders := (v_orders (view s))(o_id ord \<mapsto> ord1), v_fills := v_fills (view s) @ [f]\<rparr>"
    by (auto simp: succeeds_def 0(2) fo)
  from account_get_ready [OF 1(2), of "o_account_id ord1"] obtain s2 where 2: "ready e s2" "view s2 = view s1"
      "account_get_for_update (o_account_id ord1) s1 = Inr (Some a, s2)"
    by (auto simp: yields_def 1(3) keeps assms(3))
  have 3: "ready e (set_account a1 s2)" "view (set_account a1 s2) =
      (view s1)\<lparr>v_accounts := (v_accounts (view s))(?aid \<mapsto> a1)\<rparr>"
    using ready_set_account [OF 2(1), of a1] assms(3) fits o(1,2) by (auto simp: 2(2) 1(3) ka)
  have "yields e (apply_execution e ?aid ?sym (o_side ord) ?q p (set_account a1 s2)) pos
      (\<lambda>v. v\<lparr>v_positions := (v_positions v)((?aid, ?sym) \<mapsto> pos)\<rparr>) (set_account a1 s2)"
    by (rule apply_execution_ready [OF 3(1)]) (use tr(2) fits in \<open>auto simp: 3(2) 1(3)\<close>)
  then obtain s4 where 4: "apply_execution e (o_account_id ord1) (o_symbol ord1) (o_side ord1) ?q p (set_account a1 s2) = Inr (pos, s4)"
      "ready e s4" "view s4 = (view (set_account a1 s2))\<lparr>v_positions := (v_positions (view s))((?aid, ?sym) \<mapsto> pos)\<rparr>"
    by (auto simp: yields_def keeps 3(2) 1(3))
  have "applies e (conclude_fill e ord1 (fill_event_data ev p) s4) (fst out) (settle_view out) s4"
    by (rule conclude_fill_ready [OF 4(2) _ _ o(3)]) (use keeps fits o(1) in \<open>auto simp: 4(3) 3(2) 1(3)\<close>)
  then obtain s' where 5: "conclude_fill e ord1 (fill_event_data ev p) s4 = Inr ((True, None), fst out, s')"
      "ready e s'" "view s' = settle_view out (view s4)"
    by (auto simp: applies_def)
  have g: "o_status ord \<in> {ROUTED, PARTIALLY_FILLED, CANCEL_PENDING}" "\<not> o_remaining_quantity ord < ?q"
      "\<not> (ev_event_type ev = FULL_FILL \<and> ?q \<noteq> o_remaining_quantity ord)"
    using assms(4,5) by (auto simp: ignored_def split: if_splits)
  have "apply_fill e ord ev s = Inr ((True, None), fst out, s')"
    using g(1) assms(6)
    by (auto simp: apply_fill_def Let_def assms(7) g(2,3) o(1,2) 1(1) 2(3) 4(1) 5(1))
  moreover have "view s' = settle_view out (trade_view t (view s))"
  proof -
    obtain o1 a2 evs where out: "out = (o1, a2, evs)" by (cases out)
    have "p_key pos = (?aid, ?sym)"
      using book_execution_key [OF tr(2)] position_before_key [OF readyD(2) [OF assms(1)]] by simp
    with outcome_keys(3) [OF assms(8)] ka(1) show ?thesis
      by (simp add: 5(3) out settle_view_fun trade_view_def t 4(3) 3(2) 1(3))
  qed
  ultimately show ?thesis using 5(2) by (simp add: applies_def)
qed

section \<open>The whole handler\<close>

definition event_fits ::
  "env \<Rightarrow> view \<Rightarrow> order \<Rightarrow> account \<Rightarrow> broker_execution_event \<Rightarrow> outcome \<Rightarrow> (position \<times> fill) option \<Rightarrow> bool" where
  "event_fits e v ord a ev out trade \<longleftrightarrow>
     can_store (store_order e) (fst out) \<and> can_store (store_account e) (fst (snd out)) \<and>
     (\<forall>p t. ev_fill_price ev = Some p \<longrightarrow> trade = Some t \<longrightarrow> fill_fits e v ord a ev p out t)"

lemma dispatch_ready:
  assumes "ready e s" and "v_orders (view s) (o_id ord) = Some ord"
    and "v_accounts (view s) (o_account_id ord) = Some a" and "ignored ord ev = None"
    and "is_fill_type (ev_event_type ev) \<Longrightarrow> 0 < ev_filled_quantity ev"
    and "event_outcome e ord a ev = Inr out" and "event_trade e (view s) ord ev = Inr trade"
    and "event_fits e (view s) ord a ev out trade"
  shows "applies e (dispatch e ord ev s) (fst out) (event_view out trade) s"
proof (cases "is_fill_type (ev_event_type ev)")
  case True
  then obtain p t where o: "ev_fill_price ev = Some p" "fill_outcome e ord a ev p = Inr out"
      "trade_outcome e (view s) ord ev p = Inr t" "trade = Some t"
    using assms(6,7) by (auto simp: event_outcome_def event_trade_def split: option.splits)
  have "applies e (apply_fill e ord ev s) (fst out) (\<lambda>v. settle_view out (trade_view t v)) s"
    by (rule apply_fill_ready [OF assms(1-3) True assms(4) assms(5) [OF True] o(1-3)])
      (use assms(8) o in \<open>auto simp: event_fits_def\<close>)
  then show ?thesis using True
    by (simp add: dispatch_def is_fill_type_def event_view_def [abs_def] o(4))
next
  case False
  have tr: "trade = None" using False assms(7) by (simp add: event_trade_def)
  have st: "can_store (store_order e) (fst out)" "can_store (store_account e) (fst (snd out))"
    using assms(8) by (simp_all add: event_fits_def)
  have some: "v_orders (view s) (o_id ord) \<noteq> None" using assms(2) by simp
  from False consider "ev_event_type ev = broker_event_type.REJECTED" | "ev_event_type ev = broker_event_type.CANCELLED"
    by (cases "ev_event_type ev") (auto simp: is_fill_type_def)
  then show ?thesis
  proof cases
    case 1
    with assms(4,6) False have "o_status ord = ROUTED" "reject_outcome e ord a ev = Inr out"
      by (auto simp: ignored_def event_outcome_def split: if_splits)
    from apply_rejection_ready [OF assms(1) some this(1) assms(3) this(2) st] 1 show ?thesis
      by (simp add: dispatch_def event_view_def [abs_def] tr)
  next
    case 2
    with assms(4,6) False have c: "o_status ord \<in> {ROUTED, PARTIALLY_FILLED, CANCEL_PENDING}"
        "cancel_outcome e ord a (or_else (ev_reason ev) ''Cancelled by broker'')
           [(''broker_event_id'', JText (ev_event_id ev))] = Inr out"
      by (auto simp: ignored_def event_outcome_def split: if_splits)
    from cancel_remaining_ready [OF assms(1) some assms(3) c(2) st] 2 c(1) show ?thesis
      by (auto simp: dispatch_def applies_def yields_def apply_cancellation_def event_view_def [abs_def] tr)
  qed
qed

lemma processed_documented:
  "documented e \<Longrightarrow> store_processed e (processed_of ev vd) = Inr (processed_of ev vd)"
  by (auto simp: store_processed_def processed_of_def Let_def processed_checks_def documented_def
      intro: column_types.txt_fits)

text \<open>The first statements of the handler, and its last ones.\<close>

lemma process_event_start:
  assumes "documented e" and "well_formed e db" and "order_row db (ev_order_id ev) = Some ord"
    and "processed_row db (ev_event_id ev) = None"
  shows "\<exists>s. ready e s \<and> view s = db_view db \<and>
    process_event_body e ev (open_session db) =
      and_then (dispatch e ord ev s) (\<lambda>(verdict, ord, s).
      and_then (processed_add e (processed_of ev verdict) s) (\<lambda>s.
      if fst verdict then Inr (True, s)
      else and_then (append_event e ord BROKER_EVENT_IGNORED (Some (o_status ord)) (Some (o_status ord))
                       (ignored_event_data ev (snd verdict)) s) (\<lambda>s. Inr (False, s))))"
proof -
  from order_get_ready [OF ready_open [OF assms(1,2)], of "ev_order_id ev"] obtain s where 1: "ready e s"
      "view s = db_view db" "order_get_for_update (ev_order_id ev) (open_session db) = Inr (Some ord, s)"
    using assms(3) by (auto simp: yields_def simp flip: db_view_def)
  have "processed_broker_events (tx s) = processed_broker_events db"
    using arg_cong [OF 1(2), of v_processed] by simp (simp add: view_def)
  then have "processed_get_by_event_id (ev_event_id ev) s = Inr None"
    using assms(2,4) by (simp add: processed_get_by_event_id_def select_one_key well_formed_defs)
  with 1 show ?thesis by (intro exI [of _ s]) (simp add: process_event_body_def)
qed

lemma process_event_applies:
  assumes "documented e" and "well_formed e db" and "order_row db (ev_order_id ev) = Some ord"
    and "processed_row db (ev_event_id ev) = None" and "ignored ord ev = None"
    and "is_fill_type (ev_event_type ev) \<Longrightarrow> 0 < ev_filled_quantity ev"
    and "account_row db (o_account_id ord) = Some a"
    and "event_outcome e ord a ev = Inr out" and "event_trade e (db_view db) ord ev = Inr trade"
    and "event_fits e (db_view db) ord a ev out trade"
  shows "\<exists>s'. process_event e ev (open_session db) = (Inr True, s')"
proof -
  from process_event_start [OF assms(1-4)] obtain s where 1: "ready e s" "view s = db_view db"
      "process_event_body e ev (open_session db) =
        and_then (dispatch e ord ev s) (\<lambda>(verdict, ord, s).
        and_then (processed_add e (processed_of ev verdict) s) (\<lambda>s.
        if fst verdict then Inr (True, s)
        else and_then (append_event e ord BROKER_EVENT_IGNORED (Some (o_status ord)) (Some (o_status ord))
                         (ignored_event_data ev (snd verdict)) s) (\<lambda>s. Inr (False, s))))"
    by blast
  have oid: "o_id ord = ev_order_id ev" using row_of_SomeD [OF assms(3)] by simp
  have "applies e (dispatch e ord ev s) (fst out) (event_view out trade) s"
    by (rule dispatch_ready [OF 1(1) _ _ assms(5,6) assms(8)]) (use assms(3,7,9,10) 1(2) oid in simp_all)
  then obtain s1 where 2: "dispatch e ord ev s = Inr ((True, None), fst out, s1)" "ready e s1"
      "view s1 = event_view out trade (db_view db)"
    by (auto simp: applies_def 1(2))
  have "o_id (fst out) = ev_order_id ev"
    using assms(8) oid outcome_keys(1,3,4) by (auto simp: event_outcome_def split: if_splits option.splits)
  then have "succeeds e (processed_add e (processed_of ev (True, None)) s1)
      (\<lambda>v. v\<lparr>v_processed := v_processed v @ [processed_of ev (True, None)]\<rparr>) s1"
    using assms(4) processed_documented [OF assms(1), of ev "(True, None)"]
    by (intro processed_add_ready [OF 2(2)]; cases out)
      (auto simp: 2(3) processed_of_def row_of_None_iff)
  then obtain s2 where 3: "processed_add e (processed_of ev (True, None)) s1 = Inr s2" "ready e s2"
    by (auto simp: succeeds_def)
  from flush_ready [OF 3(2)] obtain s3 where "flush e s2 = Inr s3" by (auto simp: succeeds_def)
  with 1(3) 2(1) 3(1) show ?thesis by (simp add: process_event_def transaction_def)
qed

lemma process_event_ignores:
  assumes "documented e" and "well_formed e db" and "order_row db (ev_order_id ev) = Some ord"
    and "processed_row db (ev_event_id ev) = None" and "ignored ord ev = Some reason" and "valid_event ev"
  shows "\<exists>s'. process_event e ev (open_session db) = (Inr False, s')"
proof -
  from process_event_start [OF assms(1-4)] obtain s where 1: "ready e s" "view s = db_view db"
      "process_event_body e ev (open_session db) =
        and_then (dispatch e ord ev s) (\<lambda>(verdict, ord, s).
        and_then (processed_add e (processed_of ev verdict) s) (\<lambda>s.
        if fst verdict then Inr (True, s)
        else and_then (append_event e ord BROKER_EVENT_IGNORED (Some (o_status ord)) (Some (o_status ord))
                         (ignored_event_data ev (snd verdict)) s) (\<lambda>s. Inr (False, s))))"
    by blast
  have oid: "o_id ord = ev_order_id ev" using row_of_SomeD [OF assms(3)] by simp
  have "dispatch e ord ev s = Inr ((False, Some reason), ord, s)"
    using assms(5) valid_event_fill [OF assms(6)]
    by (cases "ev_event_type ev")
      (auto simp: dispatch_def apply_fill_def apply_rejection_def apply_cancellation_def ignored_def
        is_fill_type_def Let_def split: if_splits)
  moreover have "succeeds e (processed_add e (processed_of ev (False, Some reason)) s)
      (\<lambda>v. v\<lparr>v_processed := v_processed v @ [processed_of ev (False, Some reason)]\<rparr>) s"
    using assms(3,4) processed_documented [OF assms(1), of ev "(False, Some reason)"]
    by (intro processed_add_ready [OF 1(1)]) (auto simp: 1(2) processed_of_def row_of_None_iff)
  then obtain s2 where 3: "processed_add e (processed_of ev (False, Some reason)) s = Inr s2" "ready e s2"
      "v_orders (view s2) = order_row db"
    by (auto simp: succeeds_def 1(2))
  moreover have "\<exists>s3. append_event e ord BROKER_EVENT_IGNORED (Some (o_status ord)) (Some (o_status ord))
      (ignored_event_data ev (Some reason)) s2 = Inr s3 \<and> ready e s3"
    using append_event_ready [OF 3(2), of ord BROKER_EVENT_IGNORED "Some (o_status ord)" "Some (o_status ord)"
        "ignored_event_data ev (Some reason)"] 3(3) oid assms(3)
    by (auto simp: succeeds_def)
  then obtain s3 where 4: "append_event e ord BROKER_EVENT_IGNORED (Some (o_status ord)) (Some (o_status ord))
      (ignored_event_data ev (Some reason)) s2 = Inr s3" "ready e s3" by blast
  from flush_ready [OF 4(2)] obtain s4 where "flush e s3 = Inr s4" by (auto simp: succeeds_def)
  ultimately show ?thesis using 1(3) 4(1) by (simp add: process_event_def transaction_def)
qed

end
