(* ===== verification/Quantities.thy ===== *)
theory Quantities
  imports Execution_Progress
begin

text \<open>
  Exact amounts: what the outcomes of the execution service compute when quantities and amounts
  are multiples of \<open>10 ^ -8\<close>, the unit of the columns. The rounding of \<open>Decimal\<close> to 28 digits and
  of the columns to 8 decimals is then the identity, because the rows of a well-formed database
  and the guards of the code bound the numbers.
\<close>

section \<open>Rounding on the grid\<close>

text \<open>Two multiples of \<open>10 ^ -8\<close> that are closer than half a unit are equal.\<close>

lemma on_grid_eq:
  assumes "on_grid 8 x" and "on_grid 8 y" and "\<bar>y - x\<bar> \<le> 1 / (2 * 10 ^ 8)"
  shows "y = x"
proof -
  obtain m where m: "x = of_int m / 10 ^ 8" using assms(1) by (rule on_gridE)
  obtain n where n: "y = of_int n / 10 ^ 8" using assms(2) by (rule on_gridE)
  have "\<bar>of_int (n - m) :: rat\<bar> \<le> 1 / 2"
    using assms(3) by (simp add: m n abs_le_iff field_simps)
  then have "\<bar>of_int (n - m) :: rat\<bar> < 1" by simp
  then have "of_int \<bar>n - m\<bar> < (1 :: rat)" by simp
  then have "n = m" by linarith
  then show ?thesis by (simp add: m n)
qed

context column_types
begin

lemma num_of_grid: "num x = Some y \<Longrightarrow> on_grid 8 x \<Longrightarrow> y = x"
  using num_grid num_near on_grid_eq by blast

end

lemma numeric_on_grid:
  assumes "documented e"
  shows "numeric e x = Some y \<Longrightarrow> on_grid 8 x \<Longrightarrow> y = x"
    and "numeric e x = Some y \<Longrightarrow> on_grid 8 y \<and> \<bar>y\<bar> < 10 ^ 16"
  using assms column_types.num_of_grid column_types.num_grid unfolding documented_def by blast+

lemma prec28_le:
  assumes "prec28 x \<le> b" and "0 \<le> x"
  shows "x \<le> 2 * b"
proof -
  have "\<bar>prec28 x - x\<bar> \<le> x * (5 / 10 ^ 28)" using prec28_rel_error [of x] assms(2) by simp
  then have "x - x * (5 / 10 ^ 28) \<le> b" using assms(1) by linarith
  moreover have "x * (5 / 10 ^ 28) \<le> x / 2" using assms(2) by (simp add: field_simps)
  ultimately show ?thesis by simp
qed

text \<open>A product that the code has compared with a stored amount, or stored itself, is exact.\<close>

lemma dmul_exact:
  assumes "on_grid 8 (x * y)" and "0 \<le> x * y" and "dmul x y \<le> 10 ^ 17"
  shows "dmul x y = x * y"
proof -
  have "x * y \<le> 2 * 10 ^ 17" using prec28_le [OF assms(3) [unfolded dmul_def] assms(2)] .
  then have "\<bar>x * y\<bar> < 10 ^ 20" using assms(2) by simp
  with assms(1) show ?thesis by (rule dmul_cents)
qed

section \<open>Settled rows\<close>

lemma settled_order:
  assumes "documented e" and "store_order e ord = Inr ord"
  shows "on_grid 8 (o_quantity ord)" "on_grid 8 (o_price ord)" "on_grid 8 (o_filled_quantity ord)"
    "on_grid 8 (o_cancelled_quantity ord)" "on_grid 8 (o_remaining_quantity ord)"
    "o_quantity ord < 10 ^ 16" "o_price ord < 10 ^ 16" "order_checks ord"
proof -
  note d = store_orderD [OF assms(2)] and n = numeric_on_grid(2) [OF assms(1)]
  show "on_grid 8 (o_quantity ord)" "on_grid 8 (o_price ord)" "on_grid 8 (o_filled_quantity ord)"
    "on_grid 8 (o_cancelled_quantity ord)" "on_grid 8 (o_remaining_quantity ord)"
    using n [OF d(13)] n [OF d(14)] n [OF d(15)] n [OF d(16)] n [OF d(17)] by simp_all
  show "o_quantity ord < 10 ^ 16" "o_price ord < 10 ^ 16"
    using n [OF d(13)] n [OF d(14)] by (simp_all add: abs_less_iff)
  show "order_checks ord" by (rule d(21))
qed

lemma settled_account:
  assumes "documented e" and "store_account e a = Inr a"
  shows "on_grid 8 (a_cash_balance a)" "on_grid 8 (a_reserved_cash a)" "a_cash_balance a < 10 ^ 16"
    "0 \<le> a_reserved_cash a" "a_reserved_cash a \<le> a_cash_balance a"
proof -
  note d = store_accountD [OF assms(2)] and n = numeric_on_grid(2) [OF assms(1)]
  show "on_grid 8 (a_cash_balance a)" "on_grid 8 (a_reserved_cash a)" "a_cash_balance a < 10 ^ 16"
    using n [OF d(3)] n [OF d(4)] by (simp_all add: abs_less_iff)
  show "0 \<le> a_reserved_cash a" "a_reserved_cash a \<le> a_cash_balance a"
    using d(7) by (simp_all add: account_checks_def)
qed

lemma order_bounds:
  assumes "order_checks ord" and "o_quantity ord < 10 ^ 16"
  shows "0 \<le> o_remaining_quantity ord" "o_remaining_quantity ord < 10 ^ 16"
    "0 \<le> o_filled_quantity ord" "o_filled_quantity ord < 10 ^ 16"
    "0 \<le> o_cancelled_quantity ord" "o_cancelled_quantity ord < 10 ^ 16"
    "o_filled_quantity ord + o_remaining_quantity ord \<le> o_quantity ord"
  using assms unfolding order_checks_def by linarith+

section \<open>Booking a fill on its order\<close>

lemma book_fill_exact:
  assumes "book_fill ord q p = Inr ord'" and "documented e" and "store_order e ord = Inr ord"
    and "on_grid 8 q" and "0 < q" and "q \<le> o_remaining_quantity ord"
  shows "o_filled_quantity ord' = o_filled_quantity ord + q"
    "o_remaining_quantity ord' = o_remaining_quantity ord - q"
proof -
  note s = settled_order [OF assms(2,3)]
  note b = order_bounds [OF s(8,6)]
  have f: "o_filled_quantity ord' = dadd (o_filled_quantity ord) q"
    "o_remaining_quantity ord' = dsub (o_remaining_quantity ord) q"
    using assms(1) by (auto simp: book_fill_def Let_def)
  show "o_filled_quantity ord' = o_filled_quantity ord + q"
    unfolding f using s(3) assms(4-6) b s(6) by (intro dadd_cents) auto
  show "o_remaining_quantity ord' = o_remaining_quantity ord - q"
    unfolding f using s(5) assms(4-6) b by (intro dsub_cents) auto
qed

text \<open>The attributes of an order that no operation changes.\<close>

definition request_of ::
  "order \<Rightarrow> uuid \<times> uuid \<times> string \<times> string \<times> string \<times> order_side \<times> order_type \<times> time_in_force \<times> rat \<times> rat" where
  "request_of ord =
     (o_id ord, o_account_id ord, o_client_order_id ord, o_idempotency_key ord, o_symbol ord, o_side ord,
      o_order_type ord, o_time_in_force ord, o_quantity ord, o_price ord)"

lemma request_of_eqD:
  assumes "request_of ord' = request_of ord"
  shows "o_id ord' = o_id ord" "o_account_id ord' = o_account_id ord"
    "o_client_order_id ord' = o_client_order_id ord" "o_idempotency_key ord' = o_idempotency_key ord"
    "o_symbol ord' = o_symbol ord" "o_side ord' = o_side ord" "o_order_type ord' = o_order_type ord"
    "o_time_in_force ord' = o_time_in_force ord" "o_quantity ord' = o_quantity ord" "o_price ord' = o_price ord"
  using assms by (simp_all add: request_of_def)

lemma request_of_updates [simp]:
  "request_of (ord\<lparr>o_cancelled_quantity := x\<rparr>) = request_of ord"
  "request_of (ord\<lparr>o_remaining_quantity := x\<rparr>) = request_of ord"
  "request_of (ord\<lparr>o_filled_quantity := x\<rparr>) = request_of ord"
  "request_of (ord\<lparr>o_average_fill_price := y\<rparr>) = request_of ord"
  "request_of (ord\<lparr>o_rejection_reason := r\<rparr>) = request_of ord"
  "request_of (ord\<lparr>o_version := n\<rparr>) = request_of ord"
  "request_of (ord\<lparr>o_status := t\<rparr>) = request_of ord"
  "request_of (moved ord t) = request_of ord"
  by (simp_all add: request_of_def moved_def)

lemma request_of_book_fill: "book_fill ord q p = Inr ord' \<Longrightarrow> request_of ord' = request_of ord"
  by (auto simp: book_fill_def Let_def)

lemma request_of_cancel:
  "cancel_outcome e ord a reason d = Inr out \<Longrightarrow> request_of (fst out) = request_of ord"
  by (auto simp: cancel_outcome_def Let_def split: if_splits)

lemma request_of_conclude:
  "conclude_outcome e ord a d = Inr out \<Longrightarrow> request_of (fst out) = request_of ord"
  by (auto simp: conclude_outcome_def Let_def split: if_splits dest: request_of_cancel)

lemma request_of_outcome:
  "event_outcome e ord a ev = Inr out \<Longrightarrow> request_of (fst out) = request_of ord"
  by (auto simp: event_outcome_def fill_outcome_def reject_outcome_def Let_def split: if_splits option.splits
      dest!: request_of_cancel request_of_conclude request_of_book_fill)

lemma request_of_stored:
  assumes "documented e" and "store_order e x = Inr r" and "store_order e ord = Inr ord"
    and "request_of x = request_of ord"
  shows "request_of r = request_of ord"
proof -
  note d = store_orderD [OF assms(2)] and d0 = store_orderD [OF assms(3)] and q = request_of_eqD [OF assms(4)]
  show ?thesis
    unfolding request_of_def using d(1-5,10-14) d0(10-14) q by simp
qed

text \<open>What is stored of an order with quantities on the grid.\<close>

lemma stored_order_exact:
  assumes "documented e" and "store_order e x = Inr r"
  shows "on_grid 8 (o_filled_quantity x) \<Longrightarrow> o_filled_quantity r = o_filled_quantity x"
    "on_grid 8 (o_cancelled_quantity x) \<Longrightarrow> o_cancelled_quantity r = o_cancelled_quantity x"
    "on_grid 8 (o_remaining_quantity x) \<Longrightarrow> o_remaining_quantity r = o_remaining_quantity x"
    "on_grid 8 (o_quantity x) \<Longrightarrow> o_quantity r = o_quantity x"
    "o_status r = o_status x" "o_version r = o_version x"
  using store_orderD [OF assms(2)] numeric_on_grid(1) [OF assms(1)] by auto

lemma stored_account_exact:
  assumes "documented e" and "store_account e x = Inr r"
  shows "on_grid 8 (a_cash_balance x) \<Longrightarrow> a_cash_balance r = a_cash_balance x"
    "on_grid 8 (a_reserved_cash x) \<Longrightarrow> a_reserved_cash r = a_reserved_cash x"
    "a_version r = a_version x" "a_id r = a_id x"
  using store_accountD [OF assms(2)] numeric_on_grid(1) [OF assms(1)] by auto

section \<open>The quantities after a fill\<close>

text \<open>How the quantities and the status of an order must look after \<open>q\<close> more has been filled.\<close>

definition filled_by :: "rat \<Rightarrow> order \<Rightarrow> order \<Rightarrow> bool" where
  "filled_by q ord ord' \<longleftrightarrow>
     o_filled_quantity ord' = o_filled_quantity ord + q \<and>
     (if q = o_remaining_quantity ord then
        o_status ord' = FILLED \<and> o_remaining_quantity ord' = 0 \<and>
        o_cancelled_quantity ord' = o_cancelled_quantity ord
      else if o_time_in_force ord = IOC then
        o_status ord' = CANCELLED \<and> o_remaining_quantity ord' = 0 \<and>
        o_cancelled_quantity ord' = o_cancelled_quantity ord + (o_remaining_quantity ord - q)
      else
        o_status ord' = (if o_status ord = ROUTED then PARTIALLY_FILLED else o_status ord) \<and>
        o_remaining_quantity ord' = o_remaining_quantity ord - q \<and>
        o_cancelled_quantity ord' = o_cancelled_quantity ord)"

lemma fill_outcome_quantities:
  assumes "fill_outcome e ord a ev p = Inr out" and "documented e" and "store_order e ord = Inr ord"
    and "on_grid 8 (ev_filled_quantity ev)" and "0 < ev_filled_quantity ev"
    and "ev_filled_quantity ev \<le> o_remaining_quantity ord"
  shows "filled_by (ev_filled_quantity ev) ord (fst out) \<and> on_grid 8 (o_filled_quantity (fst out)) \<and>
    on_grid 8 (o_cancelled_quantity (fst out)) \<and> on_grid 8 (o_remaining_quantity (fst out))"
proof -
  let ?q = "ev_filled_quantity ev"
  from assms(1) obtain ord1 a1 where o: "book_fill ord ?q p = Inr ord1"
      "conclude_outcome e ord1 a1 (fill_event_data ev p) = Inr out"
    by (auto simp: fill_outcome_def)
  note x = book_fill_exact [OF o(1) assms(2-6)] and k = book_fill_keeps [OF o(1)]
  note s = settled_order [OF assms(2,3)]
  note b = order_bounds [OF s(8,6)]
  have g: "on_grid 8 (o_filled_quantity ord + ?q)" "on_grid 8 (o_remaining_quantity ord - ?q)"
    using s(3,5) assms(4) by (auto intro: on_grid_add on_grid_diff)
  have c: "dadd (o_cancelled_quantity ord) (o_remaining_quantity ord - ?q) =
      o_cancelled_quantity ord + (o_remaining_quantity ord - ?q)"
    using s(4) g(2) b assms(5,6) by (intro dadd_cents) auto
  show ?thesis
    using o(2) k x c s g
    by (auto simp: conclude_outcome_def cancel_outcome_def filled_by_def Let_def on_grid_add split: if_splits)
qed

section \<open>Settling the account\<close>

lemma store_numeric_le:
  assumes "documented e" and "numeric e x = Some y"
  shows "x \<le> 10 ^ 16 + 1"
proof -
  have "\<bar>y\<bar> < 10 ^ 16" "\<bar>y - x\<bar> \<le> 1 / (2 * 10 ^ 8)"
    using assms column_types.num_grid column_types.num_near unfolding documented_def by blast+
  then have "x \<le> 10 ^ 16 + 1 / (2 * 10 ^ 8)" by linarith
  also have "\<dots> \<le> 10 ^ 16 + 1" by simp
  finally show ?thesis .
qed

lemma settle_account_exact:
  assumes "settle_account a ord q p = Inr a1" and "documented e" and "store_account e a = Inr a"
    and "on_grid 8 (q * p)" and "on_grid 8 (q * o_price ord)" and "0 < q" and "0 < p" and "0 < o_price ord"
    and "o_side ord = SELL \<Longrightarrow> can_store (store_account e) a1"
  shows "a_cash_balance a1 = (if o_side ord = BUY then a_cash_balance a - q * p else a_cash_balance a + q * p)"
    and "a_reserved_cash a1 = a_reserved_cash a - (if o_side ord = BUY then q * o_price ord else 0)"
proof -
  note s = settled_account [OF assms(2,3)]
  have pos: "0 \<le> q * p" "0 \<le> q * o_price ord" using assms(6-8) by simp_all
  have "a_cash_balance a1 = (if o_side ord = BUY then a_cash_balance a - q * p else a_cash_balance a + q * p) \<and>
      a_reserved_cash a1 = a_reserved_cash a - (if o_side ord = BUY then q * o_price ord else 0)"
  proof (cases "o_side ord")
    case BUY
    with assms(1) have le: "dmul q (o_price ord) \<le> a_reserved_cash a" "dmul q p \<le> a_cash_balance a"
      by (auto simp: settle_account_def Let_def not_less split: if_splits)
    have n: "dmul q p = q * p" using assms(4) pos(1) le(2) s(3) by (intro dmul_exact) auto
    have r: "dmul q (o_price ord) = q * o_price ord" using assms(5) pos(2) le(1) s(3,5) by (intro dmul_exact) auto
    have "dsub (a_cash_balance a) (q * p) = a_cash_balance a - q * p"
      using s le pos assms(4) n by (intro dsub_cents) auto
    moreover have "dsub (a_reserved_cash a) (q * o_price ord) = a_reserved_cash a - q * o_price ord"
      using s le pos assms(5) r by (intro dsub_cents) auto
    ultimately show ?thesis
      using assms(1) BUY by (auto simp: settle_account_def Let_def n r split: if_splits)
  next
    case SELL
    with assms(1) have a1: "a1 = a\<lparr>a_cash_balance := dadd (a_cash_balance a) (dmul q p), a_version := a_version a + 1\<rparr>"
      by (simp add: settle_account_def Let_def)
    from SELL assms(9) obtain r where r: "store_account e a1 = Inr r" by (auto simp: can_store_def)
    have "numeric e (dadd (a_cash_balance a) (dmul q p)) = Some (a_cash_balance r)"
      using store_accountD(3) [OF r] by (simp add: a1)
    from store_numeric_le [OF assms(2) this] have "prec28 (a_cash_balance a + dmul q p) \<le> 10 ^ 16 + 1"
      by (simp add: dadd_def)
    moreover have nn: "0 \<le> dmul q p" "0 \<le> a_cash_balance a"
      using pos s(4,5) by (auto simp: dmul_def)
    ultimately have le: "a_cash_balance a + dmul q p \<le> 2 * (10 ^ 16 + 1)" by (intro prec28_le) auto
    have n: "dmul q p = q * p" using assms(4) pos(1) le nn by (intro dmul_exact) auto
    have "dadd (a_cash_balance a) (q * p) = a_cash_balance a + q * p"
      using s(1) assms(4) le nn pos n by (intro dadd_cents) auto
    with SELL show ?thesis by (simp add: a1 n)
  qed
  then show "a_cash_balance a1 = (if o_side ord = BUY then a_cash_balance a - q * p else a_cash_balance a + q * p)"
    and "a_reserved_cash a1 = a_reserved_cash a - (if o_side ord = BUY then q * o_price ord else 0)" by auto
qed

lemma release_exact:
  assumes "release_remaining_reservation a ord = Inr a'" and "on_grid 8 (a_reserved_cash a)"
    and "a_reserved_cash a < 10 ^ 16" and "on_grid 8 (o_remaining_quantity ord * o_price ord)"
    and "0 \<le> o_remaining_quantity ord" and "0 < o_price ord"
  shows "a_reserved_cash a' =
      a_reserved_cash a - (if o_side ord = BUY then o_remaining_quantity ord * o_price ord else 0)"
    and "a_cash_balance a' = a_cash_balance a"
proof -
  let ?x = "o_remaining_quantity ord * o_price ord"
  have pos: "0 \<le> ?x" using assms(5,6) by simp
  show "a_reserved_cash a' = a_reserved_cash a - (if o_side ord = BUY then ?x else 0)"
  proof (cases "o_side ord \<noteq> BUY \<or> o_remaining_quantity ord \<le> 0")
    case True
    then have "a' = a" using assms(1) by (simp add: release_remaining_reservation_def)
    moreover have "(if o_side ord = BUY then ?x else 0) = 0"
      using True assms(5) by (cases "o_side ord = BUY") simp_all
    ultimately show ?thesis by simp
  next
    case False
    let ?amount = "dmul (o_remaining_quantity ord) (o_price ord)"
    have r: "(if a_reserved_cash a < ?amount
         then Inl (InvalidFill ''Reserved cash is inconsistent with the order'')
         else Inr (a\<lparr>a_reserved_cash := dsub (a_reserved_cash a) ?amount, a_version := a_version a + 1\<rparr>)) = Inr a'"
      using False assms(1) by (simp add: release_remaining_reservation_def Let_def)
    have le: "?amount \<le> a_reserved_cash a"
      using r by (cases "a_reserved_cash a < ?amount") simp_all
    with r have a': "a' = a\<lparr>a_reserved_cash := dsub (a_reserved_cash a) ?amount, a_version := a_version a + 1\<rparr>"
      by simp
    have m: "dmul (o_remaining_quantity ord) (o_price ord) = ?x"
      using assms(4) pos le assms(3) by (intro dmul_exact) auto
    have "dsub (a_reserved_cash a) ?x = a_reserved_cash a - ?x"
      using assms(2-4) le pos m by (intro dsub_cents) auto
    with False show ?thesis by (simp add: a' m)
  qed
  show "a_cash_balance a' = a_cash_balance a"
    using assms(1) by (auto simp: release_remaining_reservation_def Let_def split: if_splits)
qed

text \<open>The money of the account after a fill of \<open>q\<close> at \<open>p\<close> of an order.\<close>

definition settled_by :: "rat \<Rightarrow> rat \<Rightarrow> order \<Rightarrow> account \<Rightarrow> account \<Rightarrow> bool" where
  "settled_by q p ord a a' \<longleftrightarrow>
     (if o_side ord = BUY then
        a_cash_balance a' = a_cash_balance a - q * p \<and>
        a_reserved_cash a' = a_reserved_cash a -
          (if o_time_in_force ord = IOC then o_remaining_quantity ord else q) * o_price ord
      else
        a_cash_balance a' = a_cash_balance a + q * p \<and> a_reserved_cash a' = a_reserved_cash a)"

lemma fill_outcome_money:
  assumes "fill_outcome e ord a ev p = Inr out" and "documented e" and "store_order e ord = Inr ord"
    and "store_account e a = Inr a" and "can_store (store_account e) (fst (snd out))"
    and "on_grid 8 (ev_filled_quantity ev)" and "0 < ev_filled_quantity ev"
    and "ev_filled_quantity ev \<le> o_remaining_quantity ord" and "0 < p"
    and "on_grid 8 (ev_filled_quantity ev * p)" and "on_grid 8 (ev_filled_quantity ev * o_price ord)"
    and "on_grid 8 (o_remaining_quantity ord * o_price ord)"
  shows "settled_by (ev_filled_quantity ev) p ord a (fst (snd out)) \<and>
    on_grid 8 (a_cash_balance (fst (snd out))) \<and> on_grid 8 (a_reserved_cash (fst (snd out)))"
proof -
  let ?q = "ev_filled_quantity ev"
  note s = settled_order [OF assms(2,3)] and sa = settled_account [OF assms(2,4)]
  have price: "0 < o_price ord" using s(8) by (simp add: order_checks_def)
  from assms(1) obtain ord1 a1 where o: "book_fill ord ?q p = Inr ord1" "settle_account a ord1 ?q p = Inr a1"
      "conclude_outcome e ord1 a1 (fill_event_data ev p) = Inr out"
    by (auto simp: fill_outcome_def)
  note x = book_fill_exact [OF o(1) assms(2,3,6-8)] and k = book_fill_keeps [OF o(1)]
  have sell: "fst (snd out) = a1" if "o_side ord1 = SELL"
    using o(3) that by (auto simp: conclude_outcome_def cancel_outcome_def release_remaining_reservation_def Let_def split: if_splits)
  have m: "a_cash_balance a1 = (if o_side ord = BUY then a_cash_balance a - ?q * p else a_cash_balance a + ?q * p)"
    "a_reserved_cash a1 = a_reserved_cash a - (if o_side ord = BUY then ?q * o_price ord else 0)"
  proof -
    have 1: "on_grid 8 (?q * o_price ord1)" "0 < o_price ord1" using assms(11) price k by simp_all
    have 2: "can_store (store_account e) a1" if "o_side ord1 = SELL"
      using assms(5) sell [OF that] by simp
    note se = settle_account_exact [OF o(2) assms(2,4,10) 1(1) assms(7,9) 1(2) 2]
    show "a_cash_balance a1 = (if o_side ord = BUY then a_cash_balance a - ?q * p else a_cash_balance a + ?q * p)"
      using se(1) k by simp
    show "a_reserved_cash a1 = a_reserved_cash a - (if o_side ord = BUY then ?q * o_price ord else 0)"
      using se(2) k by simp
  qed
  have g: "on_grid 8 (a_cash_balance a1)" "on_grid 8 (a_reserved_cash a1)"
    using sa(1,2) assms(10,11) by (auto simp: m on_grid_add on_grid_diff)
  have le: "a_reserved_cash a1 < 10 ^ 16"
  proof -
    have "0 \<le> (if o_side ord = BUY then ?q * o_price ord else 0)" using assms(7) price by simp
    with sa(3,5) show ?thesis unfolding m(2) by linarith
  qed
  have rem: "on_grid 8 (o_remaining_quantity ord1 * o_price ord1)"
    using assms(11,12) k by (simp add: x left_diff_distrib on_grid_diff)
  show ?thesis
  proof (cases "o_remaining_quantity ord1 \<noteq> 0 \<and> o_time_in_force ord1 = IOC")
    case True
    then obtain a2 where r: "release_remaining_reservation a1 ord1 = Inr a2" "fst (snd out) = a2"
      using o(3) by (auto simp: conclude_outcome_def cancel_outcome_def Let_def split: if_splits)
    note ex = release_exact [OF r(1) g(2) le rem]
    have "a_reserved_cash a2 = a_reserved_cash a1 - (if o_side ord = BUY then (o_remaining_quantity ord - ?q) * o_price ord else 0)"
      "a_cash_balance a2 = a_cash_balance a1"
      using ex k x assms(8) price by auto
    moreover have "on_grid 8 ((o_remaining_quantity ord - ?q) * o_price ord)"
      using rem k by (simp add: x)
    moreover have "?q * o_price ord + (o_remaining_quantity ord - ?q) * o_price ord = o_remaining_quantity ord * o_price ord"
      by (simp add: algebra_simps)
    ultimately show ?thesis
      using True m k g by (cases "o_side ord") (simp_all add: settled_by_def r(2) on_grid_diff)
  next
    case False
    then have "fst (snd out) = a1"
      using o(3) by (auto simp: conclude_outcome_def Let_def split: if_splits)
    with False m k x g show ?thesis by (auto simp: settled_by_def)
  qed
qed

section \<open>The position after a fill\<close>

lemma calculated_net_quantity:
  "calculate_position_after_fill cur avg pnl side q p = Inr r \<Longrightarrow> calc_net_quantity r = dadd cur (signed_fill side q)"
  by (auto simp: calculate_position_after_fill_def Let_def split: if_splits)

lemma settled_position:
  assumes "documented e" and "store_position e pos = Inr pos"
  shows "on_grid 8 (p_net_quantity pos)" "\<bar>p_net_quantity pos\<bar> < 10 ^ 16"
  using numeric_on_grid(2) [OF assms(1) store_positionD(4) [OF assms(2)]] by simp_all

text \<open>The position of an account in a symbol; flat where there is no row.\<close>

definition net_quantity_of :: "database \<Rightarrow> uuid \<Rightarrow> string \<Rightarrow> rat" where
  "net_quantity_of db aid symb =
     (case position_row db aid symb of None \<Rightarrow> 0 | Some pos \<Rightarrow> p_net_quantity pos)"

lemma book_execution_net:
  assumes "book_execution (position_before (db_view db) aid symb price) side q price mark = Inr pos"
    and "documented e" and "settled e db" and "on_grid 8 q" and "0 < q" and "q < 10 ^ 16"
  shows "p_net_quantity pos = net_quantity_of db aid symb + (if side = BUY then q else - q)"
    and "on_grid 8 (p_net_quantity pos)" and "p_last_mark_price pos = Some mark"
proof -
  let ?net = "net_quantity_of db aid symb"
  have n: "p_net_quantity (position_before (db_view db) aid symb price) = ?net"
    by (simp add: position_before_def net_quantity_of_def new_position_def split: option.split)
  have g: "on_grid 8 ?net" "\<bar>?net\<bar> < 10 ^ 16"
    using settledD(3) [OF assms(3), of "(aid, symb)"] settled_position [OF assms(2)]
    by (auto simp: net_quantity_of_def split: option.split)
  have sf: "signed_fill side q = (if side = BUY then q else - q)"
    using assms(4-6) by (simp add: signed_fill_def dneg_cents)
  have "p_net_quantity pos = dadd ?net (signed_fill side q)"
    using assms(1) by (auto simp: book_execution_def n dest: calculated_net_quantity)
  also have "\<dots> = ?net + (if side = BUY then q else - q)"
    unfolding sf using g assms(4-6) by (intro dadd_cents) (auto intro: on_grid_minus)
  finally show net: "p_net_quantity pos = ?net + (if side = BUY then q else - q)" .
  show "on_grid 8 (p_net_quantity pos)"
    unfolding net using g(1) assms(4) by (auto intro: on_grid_add on_grid_diff)
  show "p_last_mark_price pos = Some mark" using assms(1) by (auto simp: book_execution_def)
qed

end
