(* ===== verification/Order_Effects.thy ===== *)
theory Order_Effects
  imports Order_Refinement Quantities
begin

text \<open>
  Accepting an order, on whole databases: which objects the session of \<open>create_order\<close> holds when
  its transaction has committed, and what the second transaction of the same session makes of
  the tables when the broker has refused the order (\<open>mark_routing_failure_effect\<close>), whatever other
  transactions have committed to the account in between.
\<close>

section \<open>Replacing one row of a table\<close>

definition replace_row :: "('r \<Rightarrow> 'k) \<Rightarrow> 'k \<Rightarrow> 'r \<Rightarrow> 'r list \<Rightarrow> 'r list" where
  "replace_row key k x rows = map (\<lambda>r. if key r = k then x else r) rows"

lemma row_of_replace:
  "key x = k \<Longrightarrow> row_of key j (replace_row key k x rows) =
     (if j = k \<and> row_of key k rows \<noteq> None then Some x else row_of key j rows)"
  unfolding replace_row_def by (induction rows) (auto simp: row_of_Cons)

lemma replace_row_keys [simp]: "key x = k \<Longrightarrow> map key (replace_row key k x rows) = map key rows"
  unfolding replace_row_def by (induction rows) auto

lemma replace_row_twice [simp]:
  "key x = k \<Longrightarrow> replace_row key k y (replace_row key k x rows) = replace_row key k y rows"
  unfolding replace_row_def by (induction rows) auto

lemma traverse_map: "\<forall>r\<in>set rows. f r = Inr (g r) \<Longrightarrow> traverse f rows = Inr (map g rows)"
  by (induction rows) auto

lemma write_back_single:
  assumes "distinct (map key rows)" and "row_of key k rows = Some r" and "writes r x = Inr r'"
  shows "write_back key writes [k \<mapsto> x] rows = Inr (replace_row key k r' rows)"
  unfolding write_back_def replace_row_def
proof (rule traverse_map, intro ballI)
  fix b assume b: "b \<in> set rows"
  show "(case [k \<mapsto> x] (key b) of None \<Rightarrow> Inr b | Some x \<Rightarrow> writes b x) = Inr (if key b = k then r' else b)"
  proof (cases "key b = k")
    case True
    then have "b = r" using row_of_self [OF assms(1) b] assms(2) by simp
    with True assms(3) show ?thesis by simp
  qed simp
qed

lemma flush_pair:
  assumes "loaded_accounts s = [aid \<mapsto> x]" and "loaded_orders s = [oid \<mapsto> y]"
    and "loaded_positions s = Map.empty" and "loaded_prices s = Map.empty" and "keys_distinct (tx s)"
    and "account_row (tx s) aid = Some r" and "write_account e (known_accounts s) r x = Inr r'"
    and "order_row (tx s) oid = Some q" and "write_order e (known_orders s) q y = Inr q'"
  shows "flush e s = Inr (s\<lparr>tx := (tx s)\<lparr>accounts := replace_row a_id aid r' (accounts (tx s)),
                                       orders := replace_row o_id oid q' (orders (tx s))\<rparr>\<rparr>)"
  using assms write_back_single [of a_id "accounts (tx s)" aid r "write_account e (known_accounts s)" x r']
    write_back_single [of o_id "orders (tx s)" oid q "write_order e (known_orders s)" y q']
  by (simp add: flush_def keys_distinct_def)

section \<open>What the session of a new order holds\<close>

lemma append_event_loaded:
  "append_event e ord ty p n d s = Inr s' \<Longrightarrow>
     loaded_accounts s' = loaded_accounts s \<and> loaded_orders s' = loaded_orders s \<and>
     loaded_positions s' = loaded_positions s \<and> loaded_prices s' = loaded_prices s"
  unfolding append_event_def order_add_event_def insert_event_def
  by (auto dest: flush_frame)

lemma transition_loaded:
  "transition e ord t ty d s = Inr (ord', s') \<Longrightarrow> ord' = moved ord t \<and>
     loaded_accounts s' = loaded_accounts s \<and> loaded_orders s' = (loaded_orders s)(o_id ord \<mapsto> moved ord t) \<and>
     loaded_positions s' = loaded_positions s \<and> loaded_prices s' = loaded_prices s"
  unfolding transition_def
  by (auto simp: Let_def moved_def set_order_def dest!: append_event_loaded)

lemma order_add_loaded:
  "order_add e ord s = Inr s' \<Longrightarrow>
     loaded_accounts s' = loaded_accounts s \<and> loaded_orders s' = (loaded_orders s)(o_id ord \<mapsto> ord) \<and>
     loaded_positions s' = loaded_positions s \<and> loaded_prices s' = loaded_prices s"
  unfolding order_add_def
  by (auto simp: set_order_def dest: flush_frame)

lemma loaded_open [simp]:
  "loaded_accounts (open_session db) = Map.empty" "loaded_orders (open_session db) = Map.empty"
  "loaded_positions (open_session db) = Map.empty" "loaded_prices (open_session db) = Map.empty"
  "known_accounts (open_session db) = Map.empty" "known_orders (open_session db) = Map.empty"
  by (simp_all add: open_session_def)

lemma account_get_loaded:
  assumes "account_get_for_update aid (open_session db) = Inr (Some a, s)"
  shows "a_id a = aid \<and> loaded_accounts s = [aid \<mapsto> a] \<and> loaded_orders s = Map.empty \<and>
    loaded_positions s = Map.empty \<and> loaded_prices s = Map.empty"
proof -
  obtain found where f: "select_one MultipleResultsFound (\<lambda>r. a_id r = aid) (accounts db) = Inr found"
    using assms by (auto simp: account_get_for_update_def select_account_def)
  with assms obtain r where r: "found = Some r" "resolve_account r (open_session db) = (a, s)"
    by (auto simp: account_get_for_update_def select_account_def split: option.splits prod.splits)
  then have "a = r" "s = set_account r (open_session db)" by (auto simp: resolve_account_def)
  moreover have "a_id r = aid" using f r(1) by (auto dest: select_one_SomeD)
  ultimately show ?thesis by (simp add: set_account_def)
qed

lemma lookup_None_loaded: "select_order P s = Inr (None, s') \<Longrightarrow> s' = s"
  by (auto simp: select_order_def split: option.splits prod.splits)

lemma create_order_loaded:
  assumes "create_order_body e payload (open_session db) = Inr ((ord, True), s')"
  shows "\<exists>a. account_row db (oc_account_id payload) = Some a \<and>
    loaded_accounts s' = [oc_account_id payload \<mapsto> reserved_for payload a] \<and>
    loaded_orders s' = [new_uuid e \<mapsto> routed_order e payload] \<and>
    loaded_positions s' = Map.empty \<and> loaded_prices s' = Map.empty"
proof -
  let ?n = "new_order e payload"
  let ?req = "required_buying_power (oc_side payload) (oc_quantity payload) (oc_price payload)"
  from assms obtain a s1 where 1: "account_get_for_update (oc_account_id payload) (open_session db) = Inr (Some a, s1)"
    by (auto simp: create_order_body_def split: option.splits)
  have a: "account_row db (oc_account_id payload) = Some a"
    using account_get_for_update_steps [OF 1 session_ok_open] by (auto simp flip: db_view_def)
  have 2: "order_get_by_idempotency_key (oc_account_id payload) (oc_idempotency_key payload) s1 = Inr (None, s1)"
  proof -
    obtain f t where ft: "order_get_by_idempotency_key (oc_account_id payload) (oc_idempotency_key payload) s1 = Inr (f, t)"
      using assms 1 by (auto simp: create_order_body_def)
    have "f = None" using assms 1 ft by (cases f) (auto simp: create_order_body_def split: if_splits)
    with ft show ?thesis
      by (auto simp: order_get_by_idempotency_key_def dest: lookup_None_loaded)
  qed
  have 3: "order_get_by_client_order_id (oc_account_id payload) (oc_client_order_id payload) s1 = Inr (None, s1)"
  proof -
    obtain f t where ft: "order_get_by_client_order_id (oc_account_id payload) (oc_client_order_id payload) s1 = Inr (f, t)"
      using assms 1 2 by (auto simp: create_order_body_def)
    have "f = None" using assms 1 2 ft by (auto simp: create_order_body_def split: if_splits)
    with ft show ?thesis
      by (auto simp: order_get_by_client_order_id_def dest: lookup_None_loaded)
  qed
  note 2 = 2 3
  from assms 1 2 obtain s2 s3 where 3: "order_add e ?n s1 = Inr s2"
      "append_event e ?n ORDER_CREATED None (Some NEW) (created_event_data ?n) s2 = Inr s3"
    by (auto simp: create_order_body_def Let_def)
  have en: "ensure_sufficient_buying_power (available_cash a) ?req = Inr ()"
  proof (cases "ensure_sufficient_buying_power (available_cash a) ?req")
    case (Inl exc)
    with assms 1 2 3 show ?thesis by (auto simp: create_order_body_def Let_def simp del: message.simps)
  qed simp
  from assms 1 2 3 en obtain ord1 s4 where 4:
      "transition e ?n VALIDATED ORDER_VALIDATED [] s3 = Inr (ord1, s4)"
      "transition e ord1 ROUTED ORDER_ROUTED []
         (if o_side ord1 = BUY then set_account (a\<lparr>a_reserved_cash := dadd (a_reserved_cash a) ?req,
            a_version := a_version a + 1\<rparr>) s4 else s4) = Inr (ord, s')"
    by (auto simp: create_order_body_def Let_def)
  note l1 = account_get_loaded [OF 1] and l2 = order_add_loaded [OF 3(1)] and l3 = append_event_loaded [OF 3(2)]
    and l4 = transition_loaded [OF 4(1)] and l5 = transition_loaded [OF 4(2)]
  show ?thesis
    using a l1 l2 l3 l4 l5
    by (auto simp: reserved_for_def set_account_def routed_order_def split: if_splits)
qed

section \<open>A failed routing\<close>

definition unreserved_for :: "order \<Rightarrow> account \<Rightarrow> account" where
  "unreserved_for ord a =
     (if o_side ord = BUY
      then a\<lparr>a_reserved_cash := dsub (a_reserved_cash a) (dmul (o_remaining_quantity ord) (o_price ord)),
             a_version := a_version a + 1\<rparr>
      else a)"

definition routing_failed :: "string \<Rightarrow> order \<Rightarrow> order" where
  "routing_failed reason ord =
     moved (ord\<lparr>o_rejection_reason := Some (''Broker routing failed: '' @ reason)\<rparr>) REJECTED"

definition routing_failed_event :: "env \<Rightarrow> string \<Rightarrow> order \<Rightarrow> order_event" where
  "routing_failed_event e reason ord =
     audit e ord ORDER_REJECTED (Some (o_status ord)) (Some REJECTED)
       [(''reason'', JText (''Broker routing failed: '' @ reason))]"

lemma failed_ids [simp]:
  "a_id (unreserved_for ord a) = a_id a" "o_id (routing_failed reason ord) = o_id ord"
  "o_status (routing_failed reason ord) = REJECTED"
  by (simp_all add: unreserved_for_def routing_failed_def)

lemma merge_twice [simp]:
  fixes a x r :: account and ord y q :: order
  shows "merge_account a x (merge_account a x r) = merge_account a x r"
    and "merge_order ord y (merge_order ord y q) = merge_order ord y q"
  by (simp_all add: merge_account_def merge_order_def changed_def)

lemma order_get_loaded:
  assumes "keys_distinct (tx s)" and "order_row (tx s) oid = Some q" and "loaded_orders s oid = Some ord"
  shows "order_get_for_update oid s = Inr (Some ord, s)"
proof -
  have d: "distinct (map o_id (orders (tx s)))" using assms(1) by (simp add: keys_distinct_def)
  show ?thesis
    using row_of_SomeD [OF assms(2)] assms(2,3)
    by (simp add: order_get_for_update_def select_order_def select_one_key [OF d] resolve_order_def)
qed

lemma account_get_loaded_row:
  assumes "keys_distinct (tx s)" and "account_row (tx s) aid = Some r" and "loaded_accounts s aid = Some a"
  shows "account_get_for_update aid s = Inr (Some a, s)"
proof -
  have d: "distinct (map a_id (accounts (tx s)))" using assms(1) by (simp add: keys_distinct_def)
  show ?thesis
    using row_of_SomeD [OF assms(2)] assms(2,3)
    by (simp add: account_get_for_update_def select_account_def select_one_key [OF d] resolve_account_def)
qed

lemma mark_routing_failure_effect:
  assumes "keys_distinct db" and "a_id a = o_account_id ord" and "o_status ord = ROUTED"
    and l: "loaded_accounts s = [o_account_id ord \<mapsto> a]" "loaded_orders s = [o_id ord \<mapsto> ord]"
      "loaded_positions s = Map.empty" "loaded_prices s = Map.empty"
    and "account_row db (o_account_id ord) = Some r" and "order_row db (o_id ord) = Some q"
    and "store_account e (merge_account a (unreserved_for ord a) r) = Inr (merge_account a (unreserved_for ord a) r)"
    and "store_order e (merge_order ord (routing_failed reason ord) q) = Inr (merge_order ord (routing_failed reason ord) q)"
  shows "\<exists>s'. mark_routing_failure e (o_id ord) reason (begin_on db s) = (Inr (), s') \<and>
    tx s' = db\<lparr>accounts := replace_row a_id (o_account_id ord) (merge_account a (unreserved_for ord a) r) (accounts db),
               orders := replace_row o_id (o_id ord) (merge_order ord (routing_failed reason ord) q) (orders db),
               order_events := order_events db @ [routing_failed_event e reason ord]\<rparr>"
proof -
  let ?a = "unreserved_for ord a" and ?o = "routing_failed reason ord"
  let ?r = "merge_account a ?a r" and ?q = "merge_order ord ?o q"
  let ?aid = "o_account_id ord" and ?oid = "o_id ord"
  define ord1 where "ord1 = ord\<lparr>o_rejection_reason := Some (''Broker routing failed: '' @ reason)\<rparr>"
  define s0 where "s0 = begin_on db s"
  define s1 where "s1 = (if o_side ord = BUY then set_account ?a s0 else s0)"
  define s2 where "s2 = set_order ?o (set_order ord1 s1)"
  have k: "a_id r = ?aid" "o_id q = ?oid"
    using row_of_SomeD [OF assms(8)] row_of_SomeD [OF assms(9)] by simp_all
  have s0: "tx s0 = db" "loaded_accounts s0 = [?aid \<mapsto> a]" "loaded_orders s0 = [?oid \<mapsto> ord]"
      "loaded_positions s0 = Map.empty" "loaded_prices s0 = Map.empty"
      "known_accounts s0 = [?aid \<mapsto> a]" "known_orders s0 = [?oid \<mapsto> ord]"
    using l by (simp_all add: s0_def begin_on_def)
  have s2: "tx s2 = db" "loaded_accounts s2 = [?aid \<mapsto> ?a]" "loaded_orders s2 = [?oid \<mapsto> ?o]"
      "loaded_positions s2 = Map.empty" "loaded_prices s2 = Map.empty"
      "known_accounts s2 = [?aid \<mapsto> a]" "known_orders s2 = [?oid \<mapsto> ord]"
    using s0 assms(2)
    by (auto simp: s2_def s1_def set_account_def set_order_def unreserved_for_def ord1_def)
  define t where "t = s2\<lparr>tx := db\<lparr>accounts := replace_row a_id ?aid ?r (accounts db),
                            orders := replace_row o_id ?oid ?q (orders db)\<rparr>\<rparr>"
  have f1: "flush e s2 = Inr t"
    using flush_pair [OF s2(2-5), of r e ?r q ?q] assms(1,8-11) k s2
    by (simp add: write_account_def write_order_def t_def)
  define u where "u = t\<lparr>tx := (tx t)\<lparr>order_events := order_events db @ [routing_failed_event e reason ord]\<rparr>\<rparr>"
  have rows: "account_row (tx u) ?aid = Some ?r" "order_row (tx u) ?oid = Some ?q"
    using assms(8,9) k by (simp_all add: u_def t_def row_of_replace)
  have "?oid \<in> o_id ` set (orders (tx t))"
    using rows(2) row_of_SomeD [of o_id ?oid "orders (tx u)" ?q] by (auto simp: u_def rev_image_eqI)
  then have "order_add_event e (routing_failed_event e reason ord) s2 = Inr u"
    using f1 by (simp add: order_add_event_def insert_event_def foreign_key_def check_constraint_def ensure_def
        routing_failed_event_def u_def) (simp add: t_def)
  then have tr: "transition e ord1 REJECTED ORDER_REJECTED
      [(''reason'', JText (''Broker routing failed: '' @ reason))] (set_order ord1 s1) = Inr (?o, u)"
    using assms(3) by (simp add: transition_def append_event_def Let_def s2_def routing_failed_def moved_def
        ord1_def routing_failed_event_def audit_def ensure_transition_allowed_def)
  have "keys_distinct (tx u)" using assms(1) k by (simp add: keys_distinct_def u_def t_def)
  then have "flush e u = Inr (u\<lparr>tx := (tx u)\<lparr>accounts := replace_row a_id ?aid ?r (accounts (tx u)),
                                       orders := replace_row o_id ?oid ?q (orders (tx u))\<rparr>\<rparr>)"
    using rows s2 assms(10,11) k by (intro flush_pair [where r = ?r and q = ?q])
      (simp_all add: write_account_def write_order_def u_def t_def, simp_all only: merge_twice)
  then have f2: "flush e u = Inr u" using k by (simp add: u_def t_def)
  have "mark_routing_failure_body e ?oid reason s0 = Inr ((), u)"
    using order_get_loaded [of s0 ?oid q ord] account_get_loaded_row [of s0 ?aid r a] s0 assms(1,3,8,9) tr
    by (cases "o_side ord = BUY") (simp_all add: mark_routing_failure_body_def Let_def ord1_def s1_def unreserved_for_def)
  with f2 have "mark_routing_failure e ?oid reason s0 = (Inr (), u)"
    by (simp add: mark_routing_failure_def transaction_def)
  then show ?thesis by (intro exI [of _ u]) (simp add: s0_def u_def t_def)
qed

end
