(* ===== verification/Order_Commit.thy ===== *)
theory Order_Commit
  imports Order_Effects
begin

text \<open>
  What \<open>create_order\<close> leaves in the tables, for requests the schema has validated and whose
  notional (quantity times price) is a multiple of \<open>10 ^ -8\<close>: the new order and the account of
  the session are stored without rounding, so that rows and objects agree.
\<close>

section \<open>Validated requests\<close>

definition valid_request :: "order_create \<Rightarrow> bool" where
  "valid_request payload \<longleftrightarrow> (\<exists>raw. validate_order_create raw = Some payload)"

lemma length_normalize_symbol: "length (normalize_symbol s) \<le> length s"
  using length_strip [of s] by (simp add: normalize_symbol_def)

lemma valid_requestD:
  assumes "valid_request payload"
  shows "length (oc_client_order_id payload) \<le> 100" "length (oc_idempotency_key payload) \<le> 100"
    "length (oc_symbol payload) \<le> 32" "0 < oc_quantity payload" "0 < oc_price payload"
    "on_grid 8 (oc_quantity payload)" "on_grid 8 (oc_price payload)"
  using assms length_normalize_symbol [THEN order_trans]
  by (auto simp: valid_request_def validate_order_create_def split: if_splits)

lemma fits_text:
  "documented e \<Longrightarrow> length t \<le> n \<Longrightarrow> varchar e n t = Some t"
  using column_types.txt_fits by (auto simp: documented_def)

text \<open>An order with short texts and numbers on the grid is stored as it is.\<close>

definition plain_order :: "order \<Rightarrow> bool" where
  "plain_order ord \<longleftrightarrow>
     length (o_client_order_id ord) \<le> 100 \<and> length (o_idempotency_key ord) \<le> 100 \<and>
     length (o_symbol ord) \<le> 32 \<and> on_grid 8 (o_quantity ord) \<and> on_grid 8 (o_price ord) \<and>
     on_grid 8 (o_filled_quantity ord) \<and> on_grid 8 (o_cancelled_quantity ord) \<and>
     on_grid 8 (o_remaining_quantity ord) \<and> o_average_fill_price ord = None \<and>
     (case o_rejection_reason ord of None \<Rightarrow> True | Some t \<Rightarrow> length t \<le> 500) \<and>
     o_broker_order_id ord = None"

lemma store_plain_order:
  assumes "documented e" and "store_order e x = Inr r" and "plain_order x"
  shows "r = x"
proof -
  note d = store_orderD [OF assms(2)] and n = numeric_on_grid(1) [OF assms(1)]
  note p = assms(3) [unfolded plain_order_def]
  have t: "o_client_order_id r = o_client_order_id x" "o_idempotency_key r = o_idempotency_key x"
      "o_symbol r = o_symbol x"
    using d(10-12) p fits_text [OF assms(1)] by auto
  have q: "o_quantity r = o_quantity x" "o_price r = o_price x" "o_filled_quantity r = o_filled_quantity x"
      "o_cancelled_quantity r = o_cancelled_quantity x" "o_remaining_quantity r = o_remaining_quantity x"
    using n [OF d(13)] n [OF d(14)] n [OF d(15)] n [OF d(16)] n [OF d(17)] p by simp_all
  have o: "o_average_fill_price r = o_average_fill_price x" "o_broker_order_id r = o_broker_order_id x"
    using d(18,20) p by auto
  have "o_rejection_reason r = o_rejection_reason x"
    using d(19) p fits_text [OF assms(1)] by (cases "o_rejection_reason x") auto
  with t q o d(1-9) show ?thesis by (cases r, cases x) simp
qed

lemma plain_new_order:
  assumes "valid_request payload"
  shows "plain_order (new_order e payload)" "plain_order (routed_order e payload)" "plain_order (rejected_order e payload)"
  using valid_requestD [OF assms]
  by (simp_all add: plain_order_def new_order_def routed_order_def rejected_order_def moved_def)

lemma routed_order_simps [simp]:
  "o_id (routed_order e payload) = new_uuid e" "o_status (routed_order e payload) = ROUTED"
  "o_account_id (routed_order e payload) = oc_account_id payload" "o_side (routed_order e payload) = oc_side payload"
  "o_quantity (routed_order e payload) = oc_quantity payload" "o_price (routed_order e payload) = oc_price payload"
  "o_remaining_quantity (routed_order e payload) = oc_quantity payload"
  "o_filled_quantity (routed_order e payload) = 0" "o_cancelled_quantity (routed_order e payload) = 0"
  "o_time_in_force (routed_order e payload) = oc_time_in_force payload"
  "o_symbol (routed_order e payload) = oc_symbol payload"
  by (simp_all add: routed_order_def)

lemma rejected_order_simps [simp]:
  "o_id (rejected_order e payload) = new_uuid e" "o_status (rejected_order e payload) = REJECTED"
  "o_account_id (rejected_order e payload) = oc_account_id payload" "o_side (rejected_order e payload) = oc_side payload"
  "o_quantity (rejected_order e payload) = oc_quantity payload" "o_price (rejected_order e payload) = oc_price payload"
  "o_remaining_quantity (rejected_order e payload) = oc_quantity payload"
  "o_filled_quantity (rejected_order e payload) = 0" "o_cancelled_quantity (rejected_order e payload) = 0"
  by (simp_all add: rejected_order_def moved_def)

section \<open>The reservation\<close>

text \<open>The notional of a BUY request, which its account reserves; nothing for a SELL.\<close>

definition notional_of :: "order_create \<Rightarrow> rat" where
  "notional_of payload = (if oc_side payload = BUY then oc_quantity payload * oc_price payload else 0)"

lemma store_account_same:
  assumes "varchar e 100 (a_user_id a) = Some (a_user_id a)" and "varchar e 3 (a_currency a) = Some (a_currency a)"
    and "numeric e (a_cash_balance a) = Some (a_cash_balance a)"
    and "numeric e (a_reserved_cash a) = Some (a_reserved_cash a)" and "account_checks a"
  shows "store_account e a = Inr a"
  using assms by (simp add: store_account_eq_Inr)

lemma available_cash_exact:
  assumes "documented e" and "store_account e a = Inr a"
  shows "available_cash a = a_cash_balance a - a_reserved_cash a"
  using settled_account [OF assms] by (simp add: available_cash_def dsub_cents)

lemma required_exact:
  assumes "valid_request payload" and "on_grid 8 (notional_of payload)"
    and "required_buying_power (oc_side payload) (oc_quantity payload) (oc_price payload) \<le> 10 ^ 17"
  shows "required_buying_power (oc_side payload) (oc_quantity payload) (oc_price payload) = notional_of payload"
  using valid_requestD(4,5) [OF assms(1)] assms(2,3)
  by (auto simp: required_buying_power_def notional_of_def intro!: dmul_exact)

lemma required_is_notional:
  assumes "documented e" and "store_account e a = Inr a" and "valid_request payload"
    and "on_grid 8 (notional_of payload)" and "notional_of payload \<le> a_cash_balance a - a_reserved_cash a"
  shows "required_buying_power (oc_side payload) (oc_quantity payload) (oc_price payload) = notional_of payload"
proof -
  have "notional_of payload < 10 ^ 16" using assms(5) settled_account(3,4) [OF assms(1,2)] by simp
  moreover have "0 \<le> notional_of payload" using valid_requestD(4,5) [OF assms(3)] by (simp add: notional_of_def)
  ultimately have "prec28 (notional_of payload) = notional_of payload"
    using assms(4) by (intro prec28_cents) auto
  then show ?thesis
    by (cases "oc_side payload = BUY") (simp_all add: required_buying_power_def notional_of_def dmul_def)
qed

lemma reserved_for_exact:
  assumes "documented e" and "store_account e a = Inr a" and "valid_request payload"
    and "on_grid 8 (notional_of payload)"
    and "required_buying_power (oc_side payload) (oc_quantity payload) (oc_price payload) \<le> available_cash a"
  shows "a_reserved_cash (reserved_for payload a) = a_reserved_cash a + notional_of payload"
    and "a_cash_balance (reserved_for payload a) = a_cash_balance a"
    and "store_account e (reserved_for payload a) = Inr (reserved_for payload a)"
proof -
  note s = settled_account [OF assms(1,2)] and av = available_cash_exact [OF assms(1,2)]
  let ?req = "required_buying_power (oc_side payload) (oc_quantity payload) (oc_price payload)"
  have le: "?req \<le> a_cash_balance a - a_reserved_cash a" using assms(5) av by simp
  moreover have "a_cash_balance a - a_reserved_cash a \<le> 10 ^ 17" using s(3,4) by simp
  ultimately have "?req \<le> 10 ^ 17" by (rule order_trans)
  note ex = required_exact [OF assms(3,4) this]
  have nn: "0 \<le> notional_of payload" using valid_requestD(4,5) [OF assms(3)] by (simp add: notional_of_def)
  have "\<bar>a_reserved_cash a + notional_of payload\<bar> < 10 ^ 20" using s(3,4) le nn ex by simp
  with s(2) assms(4) have d: "dadd (a_reserved_cash a) (notional_of payload) = a_reserved_cash a + notional_of payload"
    by (rule dadd_cents)
  show r: "a_reserved_cash (reserved_for payload a) = a_reserved_cash a + notional_of payload"
  proof (cases "oc_side payload")
    case BUY
    with d ex show ?thesis by (simp add: reserved_for_def)
  next
    case SELL
    then show ?thesis by (simp add: reserved_for_def notional_of_def)
  qed
  show c: "a_cash_balance (reserved_for payload a) = a_cash_balance a" by (simp add: reserved_for_def)
  have "on_grid 8 (a_reserved_cash a + notional_of payload)" using s(2) assms(4) by (rule on_grid_add)
  then have "numeric e (a_reserved_cash a + notional_of payload) = Some (a_reserved_cash a + notional_of payload)"
    using column_types.num_exact [OF assms(1) [unfolded documented_def]] s(3,4) le nn ex by simp
  moreover have "varchar e 100 (a_user_id a) = Some (a_user_id a)" "varchar e 3 (a_currency a) = Some (a_currency a)"
      "numeric e (a_cash_balance a) = Some (a_cash_balance a)"
    using store_accountD(3,5,6) [OF assms(2)] by simp_all
  moreover have "a_user_id (reserved_for payload a) = a_user_id a" "a_currency (reserved_for payload a) = a_currency a"
    by (simp_all add: reserved_for_def)
  moreover have "account_checks (reserved_for payload a)"
    unfolding account_checks_def r c using le nn ex s(3-5) by simp
  ultimately show "store_account e (reserved_for payload a) = Inr (reserved_for payload a)"
    by (intro store_account_same) (simp_all only: r c)
qed

section \<open>The first transaction\<close>

lemma leaves_accounts:
  assumes "leaves e v db'" and "settled e db" and "v_accounts v = (account_row db)(k \<mapsto> a)"
    and "store_account e a = Inr a'"
  shows "account_row db' = (account_row db)(k \<mapsto> a')"
proof
  fix j
  show "account_row db' j = ((account_row db)(k \<mapsto> a')) j"
    using leavesD(1) [OF assms(1), of j] leaves_unchanged(1) [OF assms(1,2), of j] assms(3,4)
    by (cases "j = k") auto
qed

lemma leaves_orders:
  assumes "leaves e v db'" and "settled e db" and "v_orders v = (order_row db)(k \<mapsto> ord)"
    and "store_order e ord = Inr ord'"
  shows "order_row db' = (order_row db)(k \<mapsto> ord')"
proof
  fix j
  show "order_row db' j = ((order_row db)(k \<mapsto> ord')) j"
    using leavesD(2) [OF assms(1), of j] leaves_unchanged(2) [OF assms(1,2), of j] assms(3,4)
    by (cases "j = k") auto
qed

lemma create_order_transaction_well_formed:
  assumes "transaction e (create_order_body e payload) (open_session db) = (r, s')"
    and "documented e" and "well_formed e db"
  shows "well_formed e (tx s')"
  using assms(1) session_ok_open assms(2)
proof (rule transaction_well_formed)
  show "well_formed e (tx (open_session db))" using assms(3) by simp
next
  fix x :: "order \<times> bool" and s1 assume b: "create_order_body e payload (open_session db) = Inr (x, s1)"
  obtain ord route where x: "x = (ord, route)" by (cases x)
  have k: "keys_distinct db" using assms(3) by (simp add: well_formed_def)
  from b [unfolded x] k show "\<exists>f. steps_to e (open_session db) f s1"
    by (cases rule: create_order_body_cases) blast+
qed

text \<open>
  How the transaction returns, and what it leaves: the order of an earlier request, a rejected
  order, or a routed one with its reservation.
\<close>

lemma create_order_transaction_cases:
  assumes "transaction e (create_order_body e payload) (open_session db) = (Inr (ord, route), s')"
    and "documented e" and "well_formed e db" and "valid_request payload"
  obtains (existing) a where "account_row db (oc_account_id payload) = Some a" "ord \<in> set (orders db)"
      "o_idempotency_key ord = oc_idempotency_key payload" "order_matches_request ord payload" "\<not> route"
      "leaves e (db_view db) (tx s')"
  | (rejected) a where "account_row db (oc_account_id payload) = Some a" "new_request payload db"
      "available_cash a < required_buying_power (oc_side payload) (oc_quantity payload) (oc_price payload)"
      "order_row db (new_uuid e) = None" "ord = rejected_order e payload" "\<not> route"
      "store_order e ord = Inr ord" "leaves e (rejected_view e payload (db_view db)) (tx s')"
  | (routed) a where "account_row db (oc_account_id payload) = Some a" "new_request payload db"
      "required_buying_power (oc_side payload) (oc_quantity payload) (oc_price payload) \<le> available_cash a"
      "order_row db (new_uuid e) = None" "ord = routed_order e payload" "route"
      "store_order e ord = Inr ord" "leaves e (routed_view e payload a (db_view db)) (tx s')"
proof -
  obtain s1 where s1: "create_order_body e payload (open_session db) = Inr ((ord, route), s1)" "flush e s1 = Inr s'"
    using assms(1) by (auto simp: transaction_Inr)
  have k: "keys_distinct db" and w: "settled e db" using assms(3) by (simp_all add: well_formed_def)
  have lv: "leaves e (f (db_view db)) (tx s')" if "steps_to e (open_session db) f s1" for f
    using steps_toD [OF that] commit_leaves [OF _ _ _ s1(2)] w by (metis db_view_def session_ok_open tx_open)
  from s1(1) k show ?thesis
  proof (cases rule: create_order_body_cases)
    case (existing a)
    with lv [OF existing(6)] that(1) show ?thesis by simp
  next
    case (rejected a)
    note l = lv [OF rejected(7)]
    obtain r where "store_order e (rejected_order e payload) = Inr r"
      using leavesD(2) [OF l, of "new_uuid e"] by (auto simp: rejected_view_def)
    with store_plain_order [OF assms(2) this plain_new_order(3) [OF assms(4)]] rejected l that(2) show ?thesis
      by (simp add: new_request_def)
  next
    case (routed a)
    note l = lv [OF routed(7)]
    obtain r where "store_order e (routed_order e payload) = Inr r"
      using leavesD(2) [OF l, of "new_uuid e"] by (auto simp: routed_view_def)
    with store_plain_order [OF assms(2) this plain_new_order(2) [OF assms(4)]] routed l that(3) show ?thesis
      by (simp add: new_request_def)
  qed
qed

end
