(* ===== verification/Ledger.thy ===== *)
theory Ledger
  imports Order_Commit
begin

text \<open>
  The books of the system: what the tables say about each other.

  The code keeps several figures twice. The reserved cash of an account repeats what its open BUY
  orders may still cost; the filled quantity of an order repeats its rows in \<open>fills\<close>; the net
  quantity of a position repeats the fills of the account in the symbol; the status of an order
  repeats its audit trail in \<open>order_events\<close>. \<open>consistent\<close> says that these figures agree, over the
  whole database, and that the keys clients choose identify one row each. A service changes one order, its account, and the rows that belong to
  them: \<open>booked\<close> says which rows, \<open>balanced\<close> when the change keeps the books, and
  \<open>booked_consistent\<close> that it then does.
\<close>

section \<open>Totals\<close>

text \<open>What an order may still cost its account.\<close>

definition commitment :: "order \<Rightarrow> rat" where
  "commitment ord =
     (if o_side ord = BUY \<and> o_status ord \<in> OPEN_ORDER_STATUSES
      then o_remaining_quantity ord * o_price ord else 0)"

definition committed_cash :: "database \<Rightarrow> uuid \<Rightarrow> rat" where
  "committed_cash db aid = (\<Sum>ord\<leftarrow>orders db. if o_account_id ord = aid then commitment ord else 0)"

definition filled_total :: "database \<Rightarrow> uuid \<Rightarrow> rat" where
  "filled_total db oid = (\<Sum>f\<leftarrow>fills db. if f_order_id f = oid then f_quantity f else 0)"

definition signed_quantity :: "order \<Rightarrow> fill \<Rightarrow> rat" where
  "signed_quantity ord f = (if o_side ord = BUY then f_quantity f else - f_quantity f)"

text \<open>What one fill contributes to the position of an account in a symbol.\<close>

definition contribution :: "(uuid \<rightharpoonup> order) \<Rightarrow> uuid \<Rightarrow> string \<Rightarrow> fill \<Rightarrow> rat" where
  "contribution rows aid symb f =
     (case rows (f_order_id f) of
        None \<Rightarrow> 0
      | Some ord \<Rightarrow> if o_account_id ord = aid \<and> o_symbol ord = symb then signed_quantity ord f else 0)"

definition traded_total :: "database \<Rightarrow> uuid \<Rightarrow> string \<Rightarrow> rat" where
  "traded_total db aid symb = (\<Sum>f\<leftarrow>fills db. contribution (order_row db) aid symb f)"

text \<open>The audit trail of an order, and the status it leads to.\<close>

definition history :: "database \<Rightarrow> uuid \<Rightarrow> order_event list" where
  "history db oid = filter (\<lambda>ev. e_order_id ev = oid) (order_events db)"

definition change_allowed :: "order_status option \<Rightarrow> order_status option \<Rightarrow> bool" where
  "change_allowed old new =
     (case new of
        None \<Rightarrow> False
      | Some t \<Rightarrow> (case old of None \<Rightarrow> t = NEW | Some s \<Rightarrow> t = s \<or> t \<in> ALLOWED_TRANSITIONS s))"

fun replay :: "order_status option \<Rightarrow> order_event list \<Rightarrow> order_status option option" where
  "replay cur [] = Some cur"
| "replay cur (ev # evs) =
     (if e_previous_status ev = cur \<and> change_allowed cur (e_new_status ev)
      then replay (e_new_status ev) evs else None)"

text \<open>What the status of an order says of its quantities.\<close>

definition status_fits :: "order \<Rightarrow> bool" where
  "status_fits ord =
     (case o_status ord of
        NEW \<Rightarrow> False
      | VALIDATED \<Rightarrow> False
      | ROUTED \<Rightarrow> o_filled_quantity ord = 0 \<and> o_cancelled_quantity ord = 0 \<and> 0 < o_remaining_quantity ord
      | PARTIALLY_FILLED \<Rightarrow> 0 < o_filled_quantity ord \<and> o_cancelled_quantity ord = 0 \<and> 0 < o_remaining_quantity ord
      | CANCEL_PENDING \<Rightarrow> o_cancelled_quantity ord = 0 \<and> 0 < o_remaining_quantity ord
      | FILLED \<Rightarrow> o_cancelled_quantity ord = 0 \<and> o_remaining_quantity ord = 0
      | REJECTED \<Rightarrow> o_filled_quantity ord = 0 \<and> o_cancelled_quantity ord = 0
      | CANCELLED \<Rightarrow> 0 < o_cancelled_quantity ord \<and> o_remaining_quantity ord = 0)"

section \<open>Consistent books\<close>

definition order_booked :: "database \<Rightarrow> order \<Rightarrow> bool" where
  "order_booked db ord \<longleftrightarrow>
     account_row db (o_account_id ord) \<noteq> None \<and> status_fits ord \<and>
     on_grid 8 (o_remaining_quantity ord * o_price ord) \<and>
     o_filled_quantity ord = filled_total db (o_id ord) \<and>
     replay None (history db (o_id ord)) = Some (Some (o_status ord))"

text \<open>The keys that clients choose.\<close>

definition request_keys :: "order \<Rightarrow> uuid \<times> string" where
  "request_keys ord = (o_account_id ord, o_idempotency_key ord)"

definition client_keys :: "order \<Rightarrow> uuid \<times> string" where
  "client_keys ord = (o_account_id ord, o_client_order_id ord)"

definition keys_unique :: "database \<Rightarrow> bool" where
  "keys_unique db \<longleftrightarrow>
     distinct (map request_keys (orders db)) \<and> distinct (map client_keys (orders db)) \<and>
     distinct (map a_user_id (accounts db))"

definition consistent :: "env \<Rightarrow> database \<Rightarrow> bool" where
  "consistent e db \<longleftrightarrow>
     well_formed e db \<and> keys_unique db \<and> (\<forall>ord\<in>set (orders db). order_booked db ord) \<and>
     (\<forall>a\<in>set (accounts db). a_reserved_cash a = committed_cash db (a_id a)) \<and>
     (\<forall>aid symb. net_quantity_of db aid symb = traded_total db aid symb) \<and>
     (\<forall>f\<in>set (fills db). order_row db (f_order_id f) \<noteq> None) \<and>
     (\<forall>ev\<in>set (order_events db). order_row db (e_order_id ev) \<noteq> None)"

lemma consistent_empty: "consistent e empty_db"
  by (simp add: consistent_def) (simp add: empty_db_def keys_unique_def net_quantity_of_def traded_total_def)

text \<open>Row by row instead of over the table.\<close>

lemma ball_rows:
  assumes "distinct (map key rows)"
  shows "(\<forall>r\<in>set rows. P r) \<longleftrightarrow> (\<forall>k r. row_of key k rows = Some r \<longrightarrow> P r)"
  using row_of_self [OF assms] by (auto dest: row_of_SomeD)

lemma consistentD:
  assumes "consistent e db"
  shows "well_formed e db" "settled e db" "keys_distinct db" "keys_unique db"
    and "order_row db oid = Some ord \<Longrightarrow> order_booked db ord"
    and "account_row db aid = Some a \<Longrightarrow> a_reserved_cash a = committed_cash db aid"
    and "net_quantity_of db aid symb = traded_total db aid symb"
    and "f \<in> set (fills db) \<Longrightarrow> order_row db (f_order_id f) \<noteq> None"
    and "ev \<in> set (order_events db) \<Longrightarrow> order_row db (e_order_id ev) \<noteq> None"
  using assms by (auto simp: consistent_def well_formed_def dest: row_of_SomeD)

lemma consistentI:
  assumes "well_formed e db" and "keys_unique db" and "\<And>oid ord. order_row db oid = Some ord \<Longrightarrow> order_booked db ord"
    and "\<And>aid a. account_row db aid = Some a \<Longrightarrow> a_reserved_cash a = committed_cash db aid"
    and "\<And>aid symb. net_quantity_of db aid symb = traded_total db aid symb"
    and "\<And>f. f \<in> set (fills db) \<Longrightarrow> order_row db (f_order_id f) \<noteq> None"
    and "\<And>ev. ev \<in> set (order_events db) \<Longrightarrow> order_row db (e_order_id ev) \<noteq> None"
  shows "consistent e db"
proof -
  have k: "keys_distinct db" using assms(1) by (simp add: well_formed_def)
  have "\<forall>ord\<in>set (orders db). order_booked db ord"
    using assms(3) order_row_distinct [OF k] by blast
  moreover have "\<forall>a\<in>set (accounts db). a_reserved_cash a = committed_cash db (a_id a)"
    using assms(4) account_row_distinct [OF k] by blast
  ultimately show ?thesis using assms(1,2,5-7) by (simp add: consistent_def)
qed

section \<open>Totals after a change of one row\<close>

lemma sum_rows:
  assumes "distinct (map key rows)" and "row_of key k rows = Some r"
  shows "(\<Sum>r\<leftarrow>rows. f r) = f r + (\<Sum>j\<in>key ` set rows - {k}. f (the (row_of key j rows)))"
proof -
  have "k \<in> key ` set rows" using row_of_SomeD [OF assms(2)] by auto
  then show ?thesis
    using assms by (simp add: sum_list_keys sum.remove)
qed

lemma sum_rows_update:
  fixes f :: "'r \<Rightarrow> rat"
  assumes "distinct (map key rows)" and "distinct (map key rows')"
    and upd: "\<And>j. row_of key j rows' = (if j = k then Some x else row_of key j rows)"
  shows "(\<Sum>r\<leftarrow>rows'. f r) = (\<Sum>r\<leftarrow>rows. f r) + f x - (case row_of key k rows of None \<Rightarrow> 0 | Some r \<Rightarrow> f r)"
proof -
  let ?rest = "\<lambda>rs. \<Sum>j\<in>key ` set rs - {k}. f (the (row_of key j rs))"
  have "j \<in> key ` set rows' \<longleftrightarrow> j = k \<or> j \<in> key ` set rows" for j
    using upd [of j] row_of_None_iff [of key j rows] row_of_None_iff [of key j rows'] by (auto split: if_splits)
  then have keys: "key ` set rows' - {k} = key ` set rows - {k}" by blast
  have "?rest rows' = ?rest rows"
    unfolding keys by (rule sum.cong) (auto simp: upd)
  moreover have "(\<Sum>r\<leftarrow>rows'. f r) = f x + ?rest rows'"
    using sum_rows [OF assms(2), of k x] upd by simp
  moreover have "(\<Sum>r\<leftarrow>rows. f r) = (case row_of key k rows of None \<Rightarrow> 0 | Some r \<Rightarrow> f r) + ?rest rows"
  proof (cases "row_of key k rows")
    case None
    then have "key ` set rows - {k} = key ` set rows" by (auto simp: row_of_None_iff)
    with None show ?thesis using sum_list_keys [OF assms(1)] by simp
  next
    case (Some r)
    then show ?thesis using sum_rows [OF assms(1) Some] by simp
  qed
  ultimately show ?thesis by simp
qed

lemma distinct_rows_update:
  assumes "distinct (map key rows)" and "distinct (map key rows')"
    and upd: "\<And>j. row_of key j rows' = (if j = k then Some x else row_of key j rows)"
    and "distinct (map f rows)"
    and "case row_of key k rows of None \<Rightarrow> \<forall>r\<in>set rows. f r \<noteq> f x | Some r \<Rightarrow> f r = f x"
  shows "distinct (map f rows')"
proof -
  have old: "r = x \<and> key r = k \<or> r \<in> set rows \<and> key r \<noteq> k" if "r \<in> set rows'" for r
    using row_of_self [OF assms(2) that] upd [of "key r"] row_of_SomeD [of key "key r" rows r] by (auto split: if_splits)
  have new: "f r \<noteq> f x" if "r \<in> set rows" "key r \<noteq> k" for r
    using assms(4,5) that row_of_SomeD [of key k rows]
    by (auto simp: distinct_map inj_on_def split: option.splits)
  have "inj_on f (set rows')"
  proof (rule inj_onI)
    fix r r' assume "r \<in> set rows'" "r' \<in> set rows'" "f r = f r'"
    with old [of r] old [of r'] new [of r] new [of r'] assms(4) show "r = r'"
      by (auto simp: distinct_map inj_on_def)
  qed
  with assms(2) show ?thesis by (simp add: distinct_map)
qed

lemma distinct_rows_same:
  assumes "distinct (map key rows)" and "distinct (map key rows')"
    and "\<And>j. row_of key j rows' = row_of key j rows" and "distinct (map f rows)"
  shows "distinct (map f rows')"
proof -
  have "set rows' = set rows"
    using row_of_self [OF assms(1)] row_of_self [OF assms(2)] assms(3) by (auto dest: row_of_SomeD) (metis row_of_SomeD)+
  with assms(2,4) show ?thesis by (simp add: distinct_map)
qed

lemma replay_append:
  "replay cur (evs @ evs') = (case replay cur evs of None \<Rightarrow> None | Some mid \<Rightarrow> replay mid evs')"
  by (induction evs arbitrary: cur) auto

section \<open>Booking a change\<close>

text \<open>
  \<open>db'\<close> is \<open>db\<close> with the order \<open>ord\<close> and the account \<open>a\<close> as they are here, new or changed, with
  the rows \<open>fs\<close> and \<open>evs\<close> added to fills and audit events, and with the position of the account
  in the symbol moved by the fills.
\<close>

definition booked :: "database \<Rightarrow> order \<Rightarrow> account \<Rightarrow> fill list \<Rightarrow> order_event list \<Rightarrow> database \<Rightarrow> bool" where
  "booked db ord a fs evs db' \<longleftrightarrow>
     order_row db' = (order_row db)(o_id ord \<mapsto> ord) \<and> account_row db' = (account_row db)(a_id a \<mapsto> a) \<and>
     fills db' = fills db @ fs \<and> order_events db' = order_events db @ evs \<and>
     (\<forall>aid symb. net_quantity_of db' aid symb = net_quantity_of db aid symb +
        (if aid = o_account_id ord \<and> symb = o_symbol ord then \<Sum>f\<leftarrow>fs. signed_quantity ord f else 0))"

text \<open>
  The change from \<open>old\<close> (nothing, for a new order) to \<open>ord\<close> and from \<open>a\<close> to \<open>a'\<close> keeps the books.
\<close>

definition balanced ::
  "order option \<Rightarrow> order \<Rightarrow> account \<Rightarrow> account \<Rightarrow> fill list \<Rightarrow> order_event list \<Rightarrow> bool" where
  "balanced old ord a a' fs evs \<longleftrightarrow>
     a_id a = o_account_id ord \<and> a_id a' = a_id a \<and> a_user_id a' = a_user_id a \<and>
     a_reserved_cash a' = a_reserved_cash a + commitment ord - (case old of None \<Rightarrow> 0 | Some r \<Rightarrow> commitment r) \<and>
     o_filled_quantity ord = (case old of None \<Rightarrow> 0 | Some r \<Rightarrow> o_filled_quantity r) + (\<Sum>f\<leftarrow>fs. f_quantity f) \<and>
     (case old of None \<Rightarrow> True | Some r \<Rightarrow> request_of ord = request_of r) \<and>
     status_fits ord \<and> on_grid 8 (o_remaining_quantity ord * o_price ord) \<and>
     (\<forall>f\<in>set fs. f_order_id f = o_id ord) \<and> (\<forall>ev\<in>set evs. e_order_id ev = o_id ord) \<and>
     replay (map_option o_status old) evs = Some (Some (o_status ord))"

lemma committed_cash_booked:
  assumes "keys_distinct db" and "keys_distinct db'" and "order_row db' = (order_row db)(o_id ord \<mapsto> ord)"
    and "\<And>r. order_row db (o_id ord) = Some r \<Longrightarrow> request_of ord = request_of r"
  shows "committed_cash db' aid = committed_cash db aid +
    (if o_account_id ord = aid
     then commitment ord - (case order_row db (o_id ord) of None \<Rightarrow> 0 | Some r \<Rightarrow> commitment r) else 0)"
proof -
  let ?f = "\<lambda>r. if o_account_id r = aid then commitment r else 0"
  have "committed_cash db' aid = committed_cash db aid + ?f ord -
      (case order_row db (o_id ord) of None \<Rightarrow> 0 | Some r \<Rightarrow> ?f r)"
    unfolding committed_cash_def using assms(1,2) fun_cong [OF assms(3)]
    by (intro sum_rows_update) (simp_all add: keys_distinct_def)
  then show ?thesis
    using request_of_eqD(2) [OF assms(4)] by (cases "order_row db (o_id ord)") auto
qed

lemma sum_list_constant_key:
  "\<forall>x\<in>set xs. g x = k \<Longrightarrow> (\<Sum>x\<leftarrow>xs. if g x = j then f x else 0) = (if j = k then \<Sum>x\<leftarrow>xs. f x else (0 :: rat))"
  by (induction xs) auto

lemma filled_total_booked:
  assumes "fills db' = fills db @ fs" and "\<forall>f\<in>set fs. f_order_id f = k"
  shows "filled_total db' oid = filled_total db oid + (if oid = k then \<Sum>f\<leftarrow>fs. f_quantity f else 0)"
  using sum_list_constant_key [OF assms(2)] by (simp add: filled_total_def assms(1))

lemma history_booked:
  assumes "order_events db' = order_events db @ evs" and "\<forall>ev\<in>set evs. e_order_id ev = k"
  shows "history db' oid = history db oid @ (if oid = k then evs else [])"
  using assms by (auto simp: history_def filter_empty_conv intro: filter_True)

lemma sum_list_zero: "\<forall>x\<in>set xs. f x = 0 \<Longrightarrow> (\<Sum>x\<leftarrow>xs. f x) = (0 :: rat)"
  by (induction xs) auto

text \<open>Nothing has been booked on an order that is not there.\<close>

lemma nothing_booked:
  assumes "consistent e db" and "order_row db oid = None"
  shows "filled_total db oid = 0" and "history db oid = []"
proof -
  have "f_order_id f \<noteq> oid" if "f \<in> set (fills db)" for f
    using consistentD(8) [OF assms(1) that] assms(2) by auto
  then show "filled_total db oid = 0" by (simp add: filled_total_def sum_list_zero)
  have "e_order_id ev \<noteq> oid" if "ev \<in> set (order_events db)" for ev
    using consistentD(9) [OF assms(1) that] assms(2) by auto
  then show "history db oid = []" by (simp add: history_def filter_empty_conv)
qed

lemma traded_total_booked:
  assumes "consistent e db" and "order_row db' = (order_row db)(o_id ord \<mapsto> ord)"
    and "\<And>r. order_row db (o_id ord) = Some r \<Longrightarrow> request_of ord = request_of r"
    and "fills db' = fills db @ fs" and "\<forall>f\<in>set fs. f_order_id f = o_id ord"
  shows "traded_total db' aid symb = traded_total db aid symb +
    (if aid = o_account_id ord \<and> symb = o_symbol ord then \<Sum>f\<leftarrow>fs. signed_quantity ord f else 0)"
proof -
  have rows: "order_row db' oid = (if oid = o_id ord then Some ord else order_row db oid)" for oid
    using fun_cong [OF assms(2), of oid] by simp
  have "contribution (order_row db') aid symb f = contribution (order_row db) aid symb f"
    if "f \<in> set (fills db)" for f
    using consistentD(8) [OF assms(1) that] request_of_eqD(2,5,6) [OF assms(3)]
    by (cases "f_order_id f = o_id ord") (auto simp: contribution_def rows signed_quantity_def)
  then have old: "(\<Sum>f\<leftarrow>fills db. contribution (order_row db') aid symb f) = traded_total db aid symb"
    unfolding traded_total_def by (intro arg_cong [where f = sum_list] map_cong) auto
  have "(\<Sum>f\<leftarrow>fs. contribution (order_row db') aid symb f) =
      (\<Sum>f\<leftarrow>fs. if aid = o_account_id ord \<and> symb = o_symbol ord then signed_quantity ord f else 0)"
    using assms(5) by (intro arg_cong [where f = sum_list] map_cong) (auto simp: contribution_def rows)
  with old show ?thesis
    by (cases "aid = o_account_id ord \<and> symb = o_symbol ord")
      (auto simp: traded_total_def [of db'] assms(4) sum_list_zero)
qed

text \<open>No other order uses the keys of a new order.\<close>

definition new_keys :: "database \<Rightarrow> order \<Rightarrow> bool" where
  "new_keys db ord \<longleftrightarrow>
     (\<forall>r\<in>set (orders db). request_keys r \<noteq> request_keys ord \<and> client_keys r \<noteq> client_keys ord)"

lemma keys_unique_booked:
  assumes "keys_unique db" and "keys_distinct db" and "keys_distinct db'"
    and "\<And>oid. order_row db' oid = (if oid = o_id ord then Some ord else order_row db oid)"
    and "\<And>aid. account_row db' aid = (if aid = a_id a then Some a' else account_row db aid)"
    and "account_row db (a_id a) = Some a" and "a_user_id a' = a_user_id a"
    and "case order_row db (o_id ord) of None \<Rightarrow> new_keys db ord | Some r \<Rightarrow> request_of ord = request_of r"
  shows "keys_unique db'"
proof -
  have d: "distinct (map o_id (orders db))" "distinct (map o_id (orders db'))"
      "distinct (map a_id (accounts db))" "distinct (map a_id (accounts db'))"
    using assms(2,3) by (simp_all add: keys_distinct_def)
  have u: "distinct (map request_keys (orders db))" "distinct (map client_keys (orders db))"
      "distinct (map a_user_id (accounts db))" using assms(1) by (simp_all add: keys_unique_def)
  have "distinct (map request_keys (orders db'))"
    using assms(8) by (intro distinct_rows_update [OF d(1,2) assms(4) u(1)])
      (auto simp: new_keys_def request_keys_def split: option.splits dest: request_of_eqD)
  moreover have "distinct (map client_keys (orders db'))"
    using assms(8) by (intro distinct_rows_update [OF d(1,2) assms(4) u(2)])
      (auto simp: new_keys_def client_keys_def split: option.splits dest: request_of_eqD)
  moreover have "distinct (map a_user_id (accounts db'))"
    by (rule distinct_rows_update [OF d(3,4) assms(5) u(3)]) (simp add: assms(6,7))
  ultimately show ?thesis by (simp add: keys_unique_def)
qed

text \<open>A balanced change keeps the books consistent.\<close>

lemma booked_consistent:
  assumes "consistent e db" and "well_formed e db'" and "booked db ord a' fs evs db'"
    and "account_row db (o_account_id ord) = Some a"
    and "balanced (order_row db (o_id ord)) ord a a' fs evs"
    and "order_row db (o_id ord) = None \<Longrightarrow> new_keys db ord"
  shows "consistent e db'"
proof (rule consistentI)
  let ?old = "order_row db (o_id ord)"
  note c = consistentD [OF assms(1)]
  note k = booked_def [THEN iffD1, OF assms(3)] and b = balanced_def [THEN iffD1, OF assms(5)]
  have rows: "order_row db' oid = (if oid = o_id ord then Some ord else order_row db oid)"
      "account_row db' aid = (if aid = o_account_id ord then Some a' else account_row db aid)" for oid aid
    using k b fun_cong [of "order_row db'" _ oid] fun_cong [of "account_row db'" _ aid] by auto
  have same: "request_of ord = request_of r" if "?old = Some r" for r using b that by simp
  have kd: "keys_distinct db'" using assms(2) by (simp add: well_formed_def)
  note committed = committed_cash_booked [OF c(3) kd _ same]
  note filled = filled_total_booked [of db' db fs "o_id ord"] and hist = history_booked [of db' db evs "o_id ord"]
  show "well_formed e db'" by (rule assms(2))
  show "keys_unique db'"
    by (rule keys_unique_booked [OF c(4,3) kd rows(1), where a = a and a' = a'])
      (use rows b assms(4,6) same in \<open>auto split: option.splits\<close>)
  show "a_reserved_cash r = committed_cash db' aid" if "account_row db' aid = Some r" for aid r
    using that committed [of aid] c(6) [of aid] c(6) [OF assms(4)] k b rows(2) [of aid] by (auto split: if_splits)
  show "net_quantity_of db' aid symb = traded_total db' aid symb" for aid symb
    using traded_total_booked [OF assms(1) _ same, of db' fs aid symb] c(7) [of aid symb] k b by simp
  show "order_row db' (f_order_id f) \<noteq> None" if "f \<in> set (fills db')" for f
    using that c(8) [of f] k b by (auto simp: rows)
  show "order_row db' (e_order_id ev) \<noteq> None" if "ev \<in> set (order_events db')" for ev
    using that c(9) [of ev] k b by (auto simp: rows)
  show "order_booked db' r" if r: "order_row db' oid = Some r" for oid r
  proof (cases "oid = o_id ord")
    case True
    then have "r = ord" using r by (simp add: rows)
    moreover have "o_filled_quantity ord = filled_total db' (o_id ord)"
      using filled k b nothing_booked(1) [OF assms(1)] c(5) [of "o_id ord"]
      by (cases ?old) (auto simp: order_booked_def dest: row_of_SomeD)
    moreover have "replay None (history db' (o_id ord)) = Some (Some (o_status ord))"
      using hist k b nothing_booked(2) [OF assms(1)] c(5) [of "o_id ord"]
      by (cases ?old) (auto simp: order_booked_def replay_append dest: row_of_SomeD)
    ultimately show ?thesis using b by (simp add: order_booked_def rows(2))
  next
    case False
    then have "order_row db oid = Some r" "o_id r = oid" using r row_of_SomeD [OF r] by (simp_all add: rows)
    with c(5) [OF this(1)] False show ?thesis
      using filled hist k b by (simp add: order_booked_def rows(2))
  qed
qed

text \<open>
  So does a transaction that leaves orders, fills and audit events as they are, and adds at most
  accounts with nothing reserved.
\<close>

lemma same_orders_consistent:
  assumes "consistent e db" and "well_formed e db'" and "order_row db' = order_row db"
    and "fills db' = fills db" and "order_events db' = order_events db"
    and "\<And>aid. account_row db aid \<noteq> None \<Longrightarrow> account_row db' aid = account_row db aid"
    and "\<And>aid a. account_row db aid = None \<Longrightarrow> account_row db' aid = Some a \<Longrightarrow> a_reserved_cash a = 0"
    and "\<And>aid symb. net_quantity_of db' aid symb = net_quantity_of db aid symb"
    and "distinct (map a_user_id (accounts db'))"
  shows "consistent e db'"
proof (rule consistentI)
  note c = consistentD [OF assms(1)]
  have kd: "keys_distinct db'" using assms(2) by (simp add: well_formed_def)
  note rows = fun_cong [OF assms(3)]
  have d: "distinct (map o_id (orders db))" "distinct (map o_id (orders db'))"
    using c(3) kd by (simp_all add: keys_distinct_def)
  have cc: "committed_cash db' aid = committed_cash db aid" for aid
  proof -
    have "o_id ` set (orders db') = o_id ` set (orders db)"
    proof (rule set_eqI)
      fix j
      show "j \<in> o_id ` set (orders db') \<longleftrightarrow> j \<in> o_id ` set (orders db)"
        using rows [of j] row_of_None_iff [of o_id j "orders db"] row_of_None_iff [of o_id j "orders db'"] by simp
    qed
    then show ?thesis
      by (simp add: committed_cash_def sum_list_keys [OF d(1)] sum_list_keys [OF d(2)] rows cong: if_cong)
  qed
  show "well_formed e db'" by (rule assms(2))
  show "keys_unique db'"
    using c(4) assms(9) distinct_rows_same [OF d rows, of request_keys] distinct_rows_same [OF d rows, of client_keys]
    by (simp add: keys_unique_def)
  show "order_booked db' ord" if "order_row db' oid = Some ord" for oid ord
    using c(5) [of oid ord] that assms(6) [of "o_account_id ord"]
    by (simp add: order_booked_def filled_total_def history_def rows assms(4,5))
  show "a_reserved_cash a = committed_cash db' aid" if "account_row db' aid = Some a" for aid a
  proof (cases "account_row db aid")
    case None
    then have "\<forall>ord\<in>set (orders db). o_account_id ord \<noteq> aid"
      using assms(1) by (auto simp: consistent_def order_booked_def)
    then have "committed_cash db aid = 0" by (simp add: committed_cash_def sum_list_zero)
    with assms(7) [OF None that] show ?thesis by (simp add: cc)
  next
    case (Some r)
    with c(6) [OF Some] assms(6) [of aid] that show ?thesis by (simp add: cc)
  qed
  show "net_quantity_of db' aid symb = traded_total db' aid symb" for aid symb
    using c(7) [of aid symb] assms(3,4,8) by (simp add: traded_total_def)
  show "order_row db' (f_order_id f) \<noteq> None" if "f \<in> set (fills db')" for f
    using c(8) [of f] that by (simp add: assms(4) rows)
  show "order_row db' (e_order_id ev) \<noteq> None" if "ev \<in> set (order_events db')" for ev
    using c(9) [of ev] that by (simp add: assms(5) rows)
qed

end
