(* ===== verification/Samples.thy ===== *)
theory Samples
  imports Quantities
begin

text \<open>
  A small database and a few broker events, for the witnesses: an account with 100 in cash, of
  which 50 are reserved for a routed BUY order of 10 at limit 5, and the PostgreSQL column types.
  The outcomes of the execution service are evaluated on them, and \<open>process_event_applies\<close> then
  gives that the handler returns.
\<close>

definition sample_env :: env where
  "sample_env = pg_env 0 ''NEW-ID''"

definition sample_account :: account where
  "sample_account =
     \<lparr>a_id = ''A'', a_user_id = ''user'', a_currency = ''INR'', a_cash_balance = 100,
      a_reserved_cash = 50, a_version = 2\<rparr>"

definition sample_order :: order where
  "sample_order =
     \<lparr>o_id = ''O'', o_client_order_id = ''client-1'', o_idempotency_key = ''key-0001'',
      o_account_id = ''A'', o_symbol = ''INFY'', o_side = BUY, o_order_type = LIMIT,
      o_time_in_force = GTC, o_quantity = 10, o_price = 5, o_filled_quantity = 0,
      o_cancelled_quantity = 0, o_remaining_quantity = 10, o_average_fill_price = None,
      o_status = ROUTED, o_rejection_reason = None, o_broker_order_id = None, o_expires_at = None,
      o_version = 3, o_created_at = 0\<rparr>"

definition sample_db :: database where
  "sample_db =
     \<lparr>accounts = [sample_account], orders = [sample_order], positions = [], fills = [],
      order_events = [], processed_broker_events = [], market_prices = []\<rparr>"

definition sample_event :: "broker_event_type \<Rightarrow> rat \<Rightarrow> rat \<Rightarrow> broker_execution_event" where
  "sample_event t q p =
     \<lparr>ev_event_id = ''E'', ev_event_type = t, ev_order_id = ''O'', ev_timestamp = 1,
      ev_filled_quantity = q, ev_fill_price = (if is_fill_type t then Some p else None),
      ev_execution_id = (if is_fill_type t then Some ''X'' else None), ev_reason = None\<rparr>"

lemma numeric_sample [simp]: "numeric sample_env = pg_numeric" "varchar sample_env = pg_varchar"
  "now sample_env = 0" "new_uuid sample_env = ''NEW-ID''" "day_order_expiry_seconds sample_env = 300"
  by (simp_all add: sample_env_def pg_env_def)

lemma documented_sample [simp]: "documented sample_env"
  by (simp add: sample_env_def)

lemma pg_numeric_numeral [simp]:
  "(numeral n :: rat) < 10 ^ 16 \<Longrightarrow> pg_numeric (numeral n) = Some (numeral n)"
  "pg_numeric 0 = Some 0" "pg_numeric 1 = Some 1"
  by (auto intro!: pg.num_exact)

lemma pg_numeric_fraction [simp]:
  "on_grid 8 (numeral m / numeral n) \<Longrightarrow> numeral m / numeral n < (10 ^ 16 :: rat) \<Longrightarrow>
     pg_numeric (numeral m / numeral n) = Some (numeral m / numeral n)"
  by (rule pg.num_exact) auto

lemma sample_order_fields [simp]:
  "o_id sample_order = ''O''" "o_client_order_id sample_order = ''client-1''"
  "o_idempotency_key sample_order = ''key-0001''" "o_account_id sample_order = ''A''"
  "o_symbol sample_order = ''INFY''" "o_side sample_order = BUY" "o_order_type sample_order = LIMIT"
  "o_time_in_force sample_order = GTC" "o_quantity sample_order = 10" "o_price sample_order = 5"
  "o_filled_quantity sample_order = 0" "o_cancelled_quantity sample_order = 0"
  "o_remaining_quantity sample_order = 10" "o_average_fill_price sample_order = None"
  "o_status sample_order = ROUTED" "o_rejection_reason sample_order = None"
  "o_broker_order_id sample_order = None" "o_expires_at sample_order = None" "o_version sample_order = 3"
  "o_created_at sample_order = 0"
  by (simp_all add: sample_order_def)

lemma sample_account_fields [simp]:
  "a_id sample_account = ''A''" "a_user_id sample_account = ''user''" "a_currency sample_account = ''INR''"
  "a_cash_balance sample_account = 100" "a_reserved_cash sample_account = 50" "a_version sample_account = 2"
  by (simp_all add: sample_account_def)

lemma sample_event_fields [simp]:
  "ev_event_id (sample_event t q p) = ''E''" "ev_event_type (sample_event t q p) = t"
  "ev_order_id (sample_event t q p) = ''O''" "ev_timestamp (sample_event t q p) = 1"
  "ev_filled_quantity (sample_event t q p) = q" "ev_reason (sample_event t q p) = None"
  "ev_fill_price (sample_event t q p) = (if is_fill_type t then Some p else None)"
  "ev_execution_id (sample_event t q p) = (if is_fill_type t then Some ''X'' else None)"
  by (simp_all add: sample_event_def)

lemma sample_rows [simp]:
  "order_row sample_db ''O'' = Some sample_order" "account_row sample_db ''A'' = Some sample_account"
  "processed_row sample_db k = None" "positions sample_db = []" "market_prices sample_db = []"
  "fills sample_db = []" "order_events sample_db = []" "processed_broker_events sample_db = []"
  "orders sample_db = [sample_order]" "accounts sample_db = [sample_account]"
  "row_of o_id ''O'' [sample_order] = Some sample_order" "row_of a_id ''A'' [sample_account] = Some sample_account"
  by (simp_all add: sample_db_def row_of_Cons)

lemma is_fill_type_simps [simp]:
  "is_fill_type FULL_FILL" "is_fill_type PARTIAL_FILL" "\<not> is_fill_type broker_event_type.REJECTED"
  "\<not> is_fill_type broker_event_type.CANCELLED"
  by (simp_all add: is_fill_type_def)

text \<open>Storing a row whose numbers and texts fit.\<close>

lemmas sample_store =
  can_store_def store_account_eq_Inr store_order_def store_position_eq_Inr store_fill_def Let_def
  store_numeric_def store_varchar_def pg_varchar_def check_constraint_def
  account_checks_def order_checks_def position_checks_def fill_checks_def

lemma sample_well_formed [simp]: "well_formed sample_env sample_db"
  by (simp add: well_formed_defs sample_store)

section \<open>A partial fill: 4 of 10 at 3\<close>

definition sample_booked :: order where
  "sample_booked = sample_order\<lparr>o_average_fill_price := Some 3, o_filled_quantity := 4,
     o_remaining_quantity := 6, o_version := 4\<rparr>"

definition sample_charged :: account where
  "sample_charged = sample_account\<lparr>a_reserved_cash := 30, a_cash_balance := 88, a_version := 3\<rparr>"

definition sample_position :: position where
  "sample_position =
     \<lparr>p_account_id = ''A'', p_symbol = ''INFY'', p_net_quantity = 4, p_average_entry_price = 3,
      p_realized_pnl = 0, p_unrealized_pnl = 0, p_last_mark_price = Some 3\<rparr>"

abbreviation sample_partial :: broker_execution_event where
  "sample_partial \<equiv> sample_event PARTIAL_FILL 4 3"

lemmas decimal_defs = dadd_def dsub_def dmul_def ddiv_def dabs_def dneg_def

lemma sample_book: "book_fill sample_order 4 3 = Inr sample_booked"
  by (simp add: book_fill_def decimal_defs sample_booked_def)

lemma sample_settle: "settle_account sample_account sample_booked 4 3 = Inr sample_charged"
  by (simp add: settle_account_def decimal_defs sample_charged_def sample_booked_def)

lemma sample_fill_outcome:
  "fill_outcome sample_env sample_order sample_account sample_partial 3 =
     Inr (moved sample_booked PARTIALLY_FILLED, sample_charged,
          [audit sample_env sample_booked PARTIAL_FILL_RECEIVED (Some ROUTED) (Some PARTIALLY_FILLED)
             (fill_event_data sample_partial 3)])"
  by (simp add: fill_outcome_def sample_book sample_settle conclude_outcome_def)
    (simp add: sample_booked_def)

lemma sample_book_execution:
  "book_execution (new_position ''A'' ''INFY'' 3) BUY 4 3 3 = Inr sample_position"
  by (simp add: book_execution_def new_position_def calculate_position_after_fill_def signed_fill_def Let_def
      decimal_defs calculate_unrealized_pnl_def sample_position_def)

lemma sample_trade_outcome:
  "trade_outcome sample_env (db_view sample_db) sample_order sample_partial 3 =
     Inr (sample_position, fill_of sample_order sample_partial 3)"
  by (simp add: trade_outcome_def position_before_def mark_for_def sample_book_execution)
    (simp add: sample_store fill_of_def or_else_def)

lemma sample_storable [simp]:
  "can_store (store_order sample_env) sample_booked" "can_store (store_account sample_env) sample_charged"
  "can_store (store_position sample_env) sample_position"
  "can_store (store_position sample_env) (new_position ''A'' ''INFY'' 3)"
  by (simp_all add: sample_store sample_booked_def sample_charged_def sample_position_def new_position_def)

lemma sample_fill_fits:
  "fill_fits sample_env (db_view sample_db) sample_order sample_account sample_partial 3
     (moved sample_booked PARTIALLY_FILLED, sample_charged,
      [audit sample_env sample_booked PARTIAL_FILL_RECEIVED (Some ROUTED) (Some PARTIALLY_FILLED)
         (fill_event_data sample_partial 3)])
     (sample_position, fill_of sample_order sample_partial 3)"
  unfolding fill_fits_def by (simp add: sample_book sample_settle mark_for_def)

lemma sample_partial_fill_applies:
  "\<exists>s'. process_event sample_env sample_partial (open_session sample_db) = (Inr True, s')"
  apply (rule process_event_applies [where ord = sample_order and a = sample_account])
  apply (simp_all add: ignored_def event_outcome_def sample_fill_outcome event_trade_def sample_trade_outcome
      event_fits_def)
  apply (simp add: sample_fill_fits)
  done

end
