(* ===== verification/Order_Properties.thy ===== *)
theory Order_Properties
  imports Order_Commit Samples
begin

text \<open>
  The properties of \<open>create_order\<close> and of cancellation requests, over whole databases.
\<close>

section \<open>Lemmas\<close>

lemma can_store_new_order:
  assumes "documented e" and "valid_request payload" and "oc_quantity payload < 10 ^ 16" and "oc_price payload < 10 ^ 16"
  shows "can_store (store_order e) (new_order e payload)"
proof -
  note v = valid_requestD [OF assms(2)] and num = column_types.num_exact [OF assms(1) [unfolded documented_def]]
  have "numeric e (oc_quantity payload) = Some (oc_quantity payload)"
    "numeric e (oc_price payload) = Some (oc_price payload)" "numeric e 0 = Some 0"
    using num v(4-7) assms(3,4) by simp_all
  then have "store_order e (new_order e payload) = Inr (new_order e payload)"
    using v fits_text [OF assms(1)] by (intro store_orderI) (simp_all add: new_order_def order_checks_def)
  then show ?thesis by (rule can_storeI)
qed

lemma new_request_transaction:
  assumes "documented e" and "well_formed e db" and "valid_request payload"
    and "account_row db (oc_account_id payload) = Some a" and "new_request payload db"
    and "order_row db (new_uuid e) = None" and "on_grid 8 (notional_of payload)"
    and "oc_quantity payload < 10 ^ 16" and "oc_price payload < 10 ^ 16"
  shows "\<exists>s'. transaction e (create_order_body e payload) (open_session db) =
    (Inr (if required_buying_power (oc_side payload) (oc_quantity payload) (oc_price payload) \<le> available_cash a
          then (routed_order e payload, True) else (rejected_order e payload, False)), s')"
proof -
  let ?req = "required_buying_power (oc_side payload) (oc_quantity payload) (oc_price payload)"
  note v = valid_requestD [OF assms(3)]
  have sa: "store_account e a = Inr a" using settledD(1) [OF well_formed_settled [OF assms(2)] assms(4)] .
  have "\<exists>s'. ready e s' \<and> create_order_body e payload (open_session db) =
      (if ?req \<le> available_cash a then Inr ((routed_order e payload, True), s')
       else Inr ((rejected_order e payload, False), s'))"
  proof (cases "?req \<le> available_cash a")
    case True
    have "can_store (store_account e) (reserved_for payload a)"
      using reserved_for_exact(3) [OF assms(1) sa assms(3,7) True] by (rule can_storeI)
    from create_order_body_returns [OF assms(1,2,4,5,6) can_store_new_order [OF assms(1,3,8,9)]
        fits_text [OF assms(1) v(1)] fits_text [OF assms(1) v(2)] this] show ?thesis .
  next
    case False
    from create_order_rejects [OF assms(1,2,4,5,6) can_store_new_order [OF assms(1,3,8,9)]
        fits_text [OF assms(1) v(1)] fits_text [OF assms(1) v(2)]] False show ?thesis by auto
  qed
  then obtain s1 where s1: "ready e s1" "create_order_body e payload (open_session db) =
      Inr (if ?req \<le> available_cash a then (routed_order e payload, True) else (rejected_order e payload, False), s1)"
    by (auto split: if_splits)
  from flush_ready [OF s1(1)] obtain s2 where "flush e s1 = Inr s2" by (auto simp: succeeds_def)
  with s1(2) show ?thesis by (intro exI [of _ s2]) (simp add: transaction_def split del: if_split)
qed

text \<open>A request whose idempotency key has been used already.\<close>

lemma key_used_body:
  assumes "well_formed e db" and "distinct (map (\<lambda>r. (o_account_id r, o_idempotency_key r)) (orders db))"
    and "account_row db (oc_account_id payload) = Some a" and "ord \<in> set (orders db)"
    and "o_account_id ord = oc_account_id payload" and "o_idempotency_key ord = oc_idempotency_key payload"
  shows "create_order_body e payload (open_session db) =
    (if order_matches_request ord payload
     then Inr ((ord, False), set_order ord (set_account a (open_session db)))
     else Inl (DuplicateOrder (oc_client_order_id payload)))"
proof -
  let ?key = "\<lambda>r. (o_account_id r, o_idempotency_key r)"
  have k: "keys_distinct db" using assms(1) by (simp add: well_formed_def)
  have d: "distinct (map a_id (accounts db))" using k by (simp add: keys_distinct_def)
  have id: "a_id a = oc_account_id payload" using row_of_SomeD [OF assms(3)] by simp
  have 1: "account_get_for_update (oc_account_id payload) (open_session db) = Inr (Some a, set_account a (open_session db))"
    by (simp add: account_get_for_update_def select_account_def select_one_key [OF d] assms(3) resolve_account_def)
  have "select_one MultipleResultsFound (\<lambda>r. ?key r = ?key ord) (orders db) = Inr (Some ord)"
    unfolding select_one_key [OF assms(2)] using row_of_self [OF assms(2,4)] by simp
  then have f: "select_one MultipleResultsFound (\<lambda>r. o_account_id r = oc_account_id payload \<and>
      o_idempotency_key r = oc_idempotency_key payload) (orders db) = Inr (Some ord)"
    by (simp add: assms(5,6))
  have 2: "order_get_by_idempotency_key (oc_account_id payload) (oc_idempotency_key payload)
      (set_account a (open_session db)) = Inr (Some ord, set_order ord (set_account a (open_session db)))"
    by (simp add: order_get_by_idempotency_key_def select_order_def f resolve_order_def)
      (simp add: set_account_def)
  show ?thesis by (simp add: create_order_body_def 1 2)
qed

lemma flush_two_looked_up:
  assumes "well_formed e db" and "account_row db (a_id a) = Some a" and "order_row db (o_id ord) = Some ord"
  shows "flush e (set_order ord (set_account a (open_session db))) = Inr (set_order ord (set_account a (open_session db)))"
  using assms by (intro flush_read_only [OF assms(1)]) (auto simp: set_order_def set_account_def split: if_splits)

section \<open>Accepting orders\<close>

text \<open>
  C18. Idempotent placement: a request that repeats the idempotency key and all attributes of an
  order of the account is answered with that order; nothing is stored, and the broker is not
  called, whatever it would have answered.
\<close>

theorem create_order_is_idempotent:
  assumes "well_formed e db" and "distinct (map (\<lambda>r. (o_account_id r, o_idempotency_key r)) (orders db))"
    and "account_row db (oc_account_id payload) = Some a" and "ord \<in> set (orders db)"
    and "o_idempotency_key ord = oc_idempotency_key payload" and "order_matches_request ord payload"
  shows "fst (create_order e submit meanwhile payload (open_session db)) = Inr ord \<and>
    tx (snd (create_order e submit meanwhile payload (open_session db))) = db"
proof -
  have k: "keys_distinct db" using assms(1) by (simp add: well_formed_def)
  have aid: "o_account_id ord = oc_account_id payload" using assms(6) by (simp add: order_matches_request_def)
  have rows: "account_row db (a_id a) = Some a" "order_row db (o_id ord) = Some ord"
    using assms(3) row_of_SomeD [OF assms(3)] order_row_distinct [OF k assms(4)] by simp_all
  show ?thesis
    using key_used_body [OF assms(1-4) aid assms(5)] flush_two_looked_up [OF assms(1) rows] assms(6)
    by (simp add: create_order_def transaction_def)
qed

abbreviation sample_request :: order_create where
  "sample_request \<equiv>
     \<lparr>oc_client_order_id = ''client-1'', oc_idempotency_key = ''key-0001'', oc_account_id = ''A'',
      oc_symbol = ''INFY'', oc_side = BUY, oc_order_type = LIMIT, oc_time_in_force = GTC,
      oc_quantity = 10, oc_price = 5\<rparr>"

theorem create_order_is_idempotent_witness:
  "fst (create_order sample_env (\<lambda>_. Some ''down'') (\<lambda>db. db) sample_request (open_session sample_db)) = Inr sample_order"
proof -
  have "fst (create_order sample_env (\<lambda>_. Some ''down'') (\<lambda>db. db) sample_request (open_session sample_db)) = Inr sample_order \<and>
      tx (snd (create_order sample_env (\<lambda>_. Some ''down'') (\<lambda>db. db) sample_request (open_session sample_db))) = sample_db"
    by (rule create_order_is_idempotent [OF sample_well_formed]) (simp_all add: order_matches_request_def)
  then show ?thesis by simp
qed

text \<open>
  C39. A used idempotency key with any other attribute changed is refused with \<open>DuplicateOrder\<close>,
  and nothing is stored.
\<close>

theorem create_order_refuses_reused_key:
  assumes "well_formed e db" and "distinct (map (\<lambda>r. (o_account_id r, o_idempotency_key r)) (orders db))"
    and "account_row db (oc_account_id payload) = Some a" and "ord \<in> set (orders db)"
    and "o_account_id ord = oc_account_id payload" and "o_idempotency_key ord = oc_idempotency_key payload"
    and "\<not> order_matches_request ord payload"
  shows "create_order e submit meanwhile payload (open_session db) =
    (Inl (DuplicateOrder (oc_client_order_id payload)), open_session db)"
  using key_used_body [OF assms(1-6)] assms(7) by (simp add: create_order_def transaction_def)

theorem create_order_refuses_reused_key_witness:
  "create_order sample_env (\<lambda>_. None) (\<lambda>db. db) (sample_request\<lparr>oc_quantity := 11\<rparr>) (open_session sample_db) =
     (Inl (DuplicateOrder ''client-1''), open_session sample_db)"
  by (subst create_order_refuses_reused_key [OF sample_well_formed, where ord = sample_order and a = sample_account])
    (simp_all add: order_matches_request_def)

text \<open>
  C19. A new request (neither of its keys used) for an existing account with enough buying power, whose
  quantity times price is a multiple of \<open>10 ^ -8\<close>, is routed when the broker accepts it: the caller
  gets the ROUTED order with all of its quantity open, exactly quantity times price is reserved for
  a BUY and nothing for a SELL, no cash moves, and the three audit events of its creation are
  written.
\<close>

theorem create_order_routes:
  assumes "documented e" and "well_formed e db" and "valid_request payload"
    and "account_row db (oc_account_id payload) = Some a" and "new_request payload db"
    and "order_row db (new_uuid e) = None" and "on_grid 8 (notional_of payload)"
    and "oc_quantity payload < 10 ^ 16" and "oc_price payload < 10 ^ 16"
    and "notional_of payload \<le> a_cash_balance a - a_reserved_cash a"
    and "submit (broker_order_of (routed_order e payload)) = None"
  shows "\<exists>s' a'. create_order e submit meanwhile payload (open_session db) = (Inr (routed_order e payload), s') \<and>
    order_row (tx s') = (order_row db)(new_uuid e \<mapsto> routed_order e payload) \<and>
    account_row (tx s') = (account_row db)(oc_account_id payload \<mapsto> a') \<and>
    a_cash_balance a' = a_cash_balance a \<and>
    a_reserved_cash a' = a_reserved_cash a + notional_of payload \<and>
    map (\<lambda>ev. (e_order_id ev, e_new_status ev)) (order_events (tx s')) =
      map (\<lambda>ev. (e_order_id ev, e_new_status ev)) (order_events db) @
        [(new_uuid e, Some NEW), (new_uuid e, Some VALIDATED), (new_uuid e, Some ROUTED)] \<and>
    fills (tx s') = fills db \<and> well_formed e (tx s')"
proof -
  let ?req = "required_buying_power (oc_side payload) (oc_quantity payload) (oc_price payload)"
  note w = well_formed_settled [OF assms(2)]
  have sa: "store_account e a = Inr a" using settledD(1) [OF w assms(4)] .
  have ka: "a_id a = oc_account_id payload" using row_of_SomeD [OF assms(4)] by simp
  note req = required_is_notional [OF assms(1) sa assms(3,7,10)]
  have le: "?req \<le> available_cash a" using req assms(10) available_cash_exact [OF assms(1) sa] by simp
  from new_request_transaction [OF assms(1-9)] le obtain s1 where
      t: "transaction e (create_order_body e payload) (open_session db) = (Inr (routed_order e payload, True), s1)"
    by auto
  note r = reserved_for_exact [OF assms(1) sa assms(3,7) le]
  from t assms(1-3) have l: "leaves e (routed_view e payload a (db_view db)) (tx s1)"
    and so: "store_order e (routed_order e payload) = Inr (routed_order e payload)"
    by (cases rule: create_order_transaction_cases; use assms(4) in simp)+
  have "order_row (tx s1) = (order_row db)(new_uuid e \<mapsto> routed_order e payload)"
    by (rule leaves_orders [OF l w _ so]) (simp add: routed_view_def)
  moreover have "account_row (tx s1) = (account_row db)(oc_account_id payload \<mapsto> reserved_for payload a)"
    by (rule leaves_accounts [OF l w _ r(3)]) (simp add: routed_view_def ka)
  moreover have "create_order e submit meanwhile payload (open_session db) = (Inr (routed_order e payload), s1)"
    using t assms(11) by (simp add: create_order_def)
  ultimately show ?thesis
    using r(1,2) leavesD(5,6) [OF l] create_order_transaction_well_formed [OF t assms(1,2)]
    by (intro exI [of _ s1] exI [of _ "reserved_for payload a"]) (simp add: routed_view_def created_event_def)
qed

abbreviation sample_new_request :: order_create where
  "sample_new_request \<equiv> sample_request\<lparr>oc_client_order_id := ''client-2'', oc_idempotency_key := ''key-0002''\<rparr>"

lemma sample_valid_request:
  assumes "on_grid 8 q" and "0 < q"
  shows "valid_request (sample_new_request\<lparr>oc_quantity := q\<rparr>)"
proof -
  have "normalize_symbol ''INFY'' = ''INFY''" by code_simp
  then have "validate_order_create (sample_new_request\<lparr>oc_quantity := q\<rparr>) = Some (sample_new_request\<lparr>oc_quantity := q\<rparr>)"
    using assms by (simp add: validate_order_create_def)
  then show ?thesis by (auto simp: valid_request_def)
qed

theorem create_order_routes_witness:
  "\<exists>s' a'. create_order sample_env (\<lambda>_. None) (\<lambda>db. db) sample_new_request (open_session sample_db) =
      (Inr (routed_order sample_env sample_new_request), s') \<and>
    account_row (tx s') ''A'' = Some a' \<and> a_reserved_cash a' = 100 \<and> a_cash_balance a' = 100"
proof -
  have "new_request sample_new_request sample_db" by (simp add: new_request_def)
  from create_order_routes [OF documented_sample sample_well_formed _ _ this, of sample_account "\<lambda>_. None" "\<lambda>db. db"]
  obtain s' a' where s': "create_order sample_env (\<lambda>_. None) (\<lambda>db. db) sample_new_request (open_session sample_db) =
      (Inr (routed_order sample_env sample_new_request), s')"
      "account_row (tx s') = (account_row sample_db)(''A'' \<mapsto> a')" "a_reserved_cash a' = 100" "a_cash_balance a' = 100"
    using sample_valid_request [of 10] by (auto simp: notional_of_def row_of_Cons)
  then have "account_row (tx s') ''A'' = Some a'" by (simp add: fun_cong [OF s'(2)])
  with s' show ?thesis by blast
qed

text \<open>
  C20. A new request without enough buying power is kept as a REJECTED order with its reason; the
  account is untouched, and the broker is not called, whatever it would have answered.
\<close>

theorem create_order_rejects_without_cash:
  assumes "documented e" and "well_formed e db" and "valid_request payload"
    and "account_row db (oc_account_id payload) = Some a" and "new_request payload db"
    and "order_row db (new_uuid e) = None" and "on_grid 8 (notional_of payload)"
    and "oc_quantity payload < 10 ^ 16" and "oc_price payload < 10 ^ 16"
    and "a_cash_balance a - a_reserved_cash a < required_buying_power (oc_side payload) (oc_quantity payload) (oc_price payload)"
  shows "\<exists>s'. create_order e submit meanwhile payload (open_session db) = (Inr (rejected_order e payload), s') \<and>
    order_row (tx s') = (order_row db)(new_uuid e \<mapsto> rejected_order e payload) \<and>
    o_rejection_reason (rejected_order e payload) = Some ''Insufficient buying power'' \<and>
    account_row (tx s') = account_row db \<and> fills (tx s') = fills db \<and> well_formed e (tx s')"
proof -
  let ?req = "required_buying_power (oc_side payload) (oc_quantity payload) (oc_price payload)"
  note w = well_formed_settled [OF assms(2)]
  have sa: "store_account e a = Inr a" using settledD(1) [OF w assms(4)] .
  have le: "\<not> ?req \<le> available_cash a" using assms(10) available_cash_exact [OF assms(1) sa] by simp
  from new_request_transaction [OF assms(1-9)] le obtain s1 where
      t: "transaction e (create_order_body e payload) (open_session db) = (Inr (rejected_order e payload, False), s1)"
    by auto
  from t assms(1-3) have "leaves e (rejected_view e payload (db_view db)) (tx s1) \<and>
      store_order e (rejected_order e payload) = Inr (rejected_order e payload)"
  proof (cases rule: create_order_transaction_cases)
    case existing
    with assms(5) show ?thesis by (auto simp: new_request_def order_matches_request_def)
  qed simp_all
  then have l: "leaves e (rejected_view e payload (db_view db)) (tx s1)"
    and so: "store_order e (rejected_order e payload) = Inr (rejected_order e payload)" by blast+
  have "order_row (tx s1) = (order_row db)(new_uuid e \<mapsto> rejected_order e payload)"
    by (rule leaves_orders [OF l w _ so]) (simp add: rejected_view_def)
  moreover have "account_row (tx s1) = account_row db"
    using leaves_unchanged(1) [OF l w] by (simp add: rejected_view_def)
  moreover have "create_order e submit meanwhile payload (open_session db) = (Inr (rejected_order e payload), s1)"
    using t by (simp add: create_order_def)
  moreover have "o_rejection_reason (rejected_order e payload) = Some ''Insufficient buying power''"
    by (simp add: rejected_order_def moved_def)
  moreover have "fills (tx s1) = fills db" using leavesD(5) [OF l] by (simp add: rejected_view_def)
  ultimately show ?thesis
    using create_order_transaction_well_formed [OF t assms(1,2)] by blast
qed

theorem create_order_rejects_without_cash_witness:
  "\<exists>s'. create_order sample_env (\<lambda>_. None) (\<lambda>db. db) (sample_new_request\<lparr>oc_quantity := 11\<rparr>) (open_session sample_db) =
      (Inr (rejected_order sample_env (sample_new_request\<lparr>oc_quantity := 11\<rparr>)), s') \<and>
    account_row (tx s') = account_row sample_db"
proof -
  let ?p = "sample_new_request\<lparr>oc_quantity := 11\<rparr>"
  have v: "valid_request ?p"
    using sample_valid_request [of 11] by simp
  have "new_request ?p sample_db" by (simp add: new_request_def)
  from create_order_rejects_without_cash [OF documented_sample sample_well_formed v _ this, of sample_account "\<lambda>_. None" "\<lambda>db. db"]
  show ?thesis by (auto simp: notional_of_def row_of_Cons required_buying_power_def decimal_defs)
qed

end
