(* ===== verification/Routing_Failure.thy ===== *)
theory Routing_Failure
  imports Order_Properties
begin

text \<open>
  \<open>create_order\<close> when the broker refuses the order: the second transaction takes the order and its
  reservation back, on the session of the first, which keeps the account object it loaded
  (\<open>expire_on_commit=False\<close>). Where nothing has been committed in between the account is as it
  was; a reservation that another transaction has made in between is overwritten.
\<close>

section \<open>Lemmas\<close>

lemma store_account_updated:
  assumes "documented e" and "store_account e a = Inr a" and "on_grid 8 x" and "0 \<le> x" and "x \<le> a_cash_balance a"
  shows "store_account e (a\<lparr>a_reserved_cash := x, a_version := v\<rparr>) = Inr (a\<lparr>a_reserved_cash := x, a_version := v\<rparr>)"
proof -
  note d = store_accountD [OF assms(2)] and s = settled_account [OF assms(1,2)]
  have "numeric e x = Some x"
    using column_types.num_exact [OF assms(1) [unfolded documented_def], of x] assms(3-5) s(3) by simp
  with d s assms(4,5) show ?thesis by (intro store_account_same) (simp_all add: account_checks_def)
qed

lemma store_failed_order:
  assumes "documented e" and "store_order e (routed_order e payload) = Inr (routed_order e payload)"
    and "length reason \<le> 477"
  shows "store_order e (routing_failed reason (routed_order e payload)) = Inr (routing_failed reason (routed_order e payload))"
proof -
  have "varchar e 500 (''Broker routing failed: '' @ reason) = Some (''Broker routing failed: '' @ reason)"
    using assms(3) by (intro fits_text [OF assms(1)]) simp
  then show ?thesis
    using store_orderD [OF assms(2)]
    by (intro store_orderI) (simp_all add: routing_failed_def moved_def order_checks_def)
qed

lemma merge_failed_order:
  "merge_order (routed_order e payload) (routing_failed reason (routed_order e payload)) (routed_order e payload) =
     routing_failed reason (routed_order e payload)"
  by (simp add: merge_order_def changed_def routing_failed_def moved_def routed_order_def new_order_def)

text \<open>The account of the failed order, after others have set its reservation to \<open>x\<close> in between.\<close>

lemma merge_unreserved:
  assumes "a_reserved_cash (reserved_for payload a) = a_reserved_cash a + notional_of payload"
    and "valid_request payload" and "dmul (oc_quantity payload) (oc_price payload) = notional_of payload \<or> oc_side payload = SELL"
    and "on_grid 8 (a_reserved_cash a)" and "on_grid 8 (notional_of payload)" and "\<bar>a_reserved_cash a\<bar> < 10 ^ 20"
  shows "merge_account (reserved_for payload a) (unreserved_for (routed_order e payload) (reserved_for payload a))
      ((reserved_for payload a)\<lparr>a_reserved_cash := x, a_version := v\<rparr>) =
    (if oc_side payload = BUY then a\<lparr>a_version := a_version a + 2\<rparr> else a\<lparr>a_reserved_cash := x, a_version := v\<rparr>)"
proof (cases "oc_side payload")
  case BUY
  have "0 < notional_of payload" using valid_requestD(4,5) [OF assms(2)] BUY by (simp add: notional_of_def)
  moreover have "dsub (a_reserved_cash a + notional_of payload) (notional_of payload) = a_reserved_cash a"
    using dsub_cents [OF on_grid_add [OF assms(4,5)] assms(5)] assms(6) by simp
  moreover have "dadd (a_reserved_cash a) (required_buying_power BUY (oc_quantity payload) (oc_price payload)) =
      a_reserved_cash a + notional_of payload" using assms(1) BUY by (simp add: reserved_for_def)
  ultimately show ?thesis
    using BUY assms(3) by (simp add: merge_account_def changed_def unreserved_for_def reserved_for_def)
next
  case SELL
  then show ?thesis by (simp add: merge_account_def changed_def unreserved_for_def reserved_for_def)
qed

text \<open>What the first transaction leaves.\<close>

lemma routed_transaction:
  assumes "documented e" and "well_formed e db" and "valid_request payload"
    and "account_row db (oc_account_id payload) = Some a" and "on_grid 8 (notional_of payload)"
    and t: "transaction e (create_order_body e payload) (open_session db) = (Inr (ord, True), s1)"
  shows "ord = routed_order e payload" "order_row db (new_uuid e) = None"
    and "required_buying_power (oc_side payload) (oc_quantity payload) (oc_price payload) \<le> available_cash a"
    and "store_order e (routed_order e payload) = Inr (routed_order e payload)"
    and "leaves e (routed_view e payload a (db_view db)) (tx s1)" "well_formed e (tx s1)"
    and "order_row (tx s1) = (order_row db)(new_uuid e \<mapsto> routed_order e payload)"
    and "account_row (tx s1) = (account_row db)(oc_account_id payload \<mapsto> reserved_for payload a)"
    and "loaded_accounts s1 = [oc_account_id payload \<mapsto> reserved_for payload a]"
      "loaded_orders s1 = [new_uuid e \<mapsto> routed_order e payload]"
      "loaded_positions s1 = Map.empty" "loaded_prices s1 = Map.empty"
    and "new_request payload db"
proof -
  note w = well_formed_settled [OF assms(2)] and ka = row_of_SomeD [OF assms(4)]
  have sa: "store_account e a = Inr a" using settledD(1) [OF w assms(4)] .
  from t assms(1-3) have l: "leaves e (routed_view e payload a (db_view db)) (tx s1)"
    and ord: "ord = routed_order e payload" "order_row db (new_uuid e) = None" "store_order e ord = Inr ord"
      "new_request payload db"
    and le: "required_buying_power (oc_side payload) (oc_quantity payload) (oc_price payload) \<le> available_cash a"
    by (cases rule: create_order_transaction_cases; use assms(4) in simp)+
  show "ord = routed_order e payload" "order_row db (new_uuid e) = None"
    "required_buying_power (oc_side payload) (oc_quantity payload) (oc_price payload) \<le> available_cash a"
    "leaves e (routed_view e payload a (db_view db)) (tx s1)" "new_request payload db" by fact+
  show so: "store_order e (routed_order e payload) = Inr (routed_order e payload)" using ord by simp
  note r = reserved_for_exact [OF assms(1) sa assms(3,5) le]
  show "order_row (tx s1) = (order_row db)(new_uuid e \<mapsto> routed_order e payload)"
    by (rule leaves_orders [OF l w _ so]) (simp add: routed_view_def)
  show "account_row (tx s1) = (account_row db)(oc_account_id payload \<mapsto> reserved_for payload a)"
    by (rule leaves_accounts [OF l w _ r(3)]) (simp add: routed_view_def ka)
  show "well_formed e (tx s1)" by (rule create_order_transaction_well_formed [OF t assms(1,2)])
  from t ord(1) obtain s0 where s0: "create_order_body e payload (open_session db) = Inr ((routed_order e payload, True), s0)"
      "flush e s0 = Inr s1"
    by (auto simp: transaction_Inr)
  show "loaded_accounts s1 = [oc_account_id payload \<mapsto> reserved_for payload a]"
      "loaded_orders s1 = [new_uuid e \<mapsto> routed_order e payload]"
      "loaded_positions s1 = Map.empty" "loaded_prices s1 = Map.empty"
    using create_order_loaded [OF s0(1)] flush_frame [OF s0(2)] assms(4) by auto
qed

text \<open>
  The tables after both transactions, where the transactions of others that commit between them
  have set the reservation and version of the account to \<open>x\<close> and \<open>v\<close>.
\<close>

definition failed_account :: "order_create \<Rightarrow> account \<Rightarrow> rat \<Rightarrow> int \<Rightarrow> account" where
  "failed_account payload a x v =
     (if oc_side payload = BUY then a\<lparr>a_version := a_version a + 2\<rparr> else a\<lparr>a_reserved_cash := x, a_version := v\<rparr>)"

lemma routing_failure_tables:
  assumes "documented e" and "well_formed e db" and "valid_request payload"
    and "account_row db (oc_account_id payload) = Some a" and "on_grid 8 (notional_of payload)"
    and t: "transaction e (create_order_body e payload) (open_session db) = (Inr (ord, True), s1)"
    and "submit (broker_order_of (routed_order e payload)) = Some reason" and "length reason \<le> 477"
    and "on_grid 8 x" and "0 \<le> x" and "x \<le> a_cash_balance a"
    and m: "keys_distinct (meanwhile (tx s1))"
      "order_row (meanwhile (tx s1)) (new_uuid e) = Some (routed_order e payload)"
      "account_row (meanwhile (tx s1)) (oc_account_id payload) =
         Some ((reserved_for payload a)\<lparr>a_reserved_cash := x, a_version := v\<rparr>)"
  shows "\<exists>s2. create_order e submit meanwhile payload (open_session db) = (Inl BrokerUnavailable, s2) \<and>
    tx s2 = (meanwhile (tx s1))\<lparr>
      accounts := replace_row a_id (oc_account_id payload) (failed_account payload a x v) (accounts (meanwhile (tx s1))),
      orders := replace_row o_id (new_uuid e) (routing_failed reason (routed_order e payload)) (orders (meanwhile (tx s1))),
      order_events := order_events (meanwhile (tx s1)) @ [routing_failed_event e reason (routed_order e payload)]\<rparr>"
    and "store_account e (failed_account payload a x v) = Inr (failed_account payload a x v)"
    and "store_order e (routing_failed reason (routed_order e payload)) = Inr (routing_failed reason (routed_order e payload))"
proof -
  let ?aid = "oc_account_id payload" and ?oid = "new_uuid e" and ?ord = "routed_order e payload"
  let ?R = "reserved_for payload a" and ?F = "failed_account payload a x v"
  let ?req = "required_buying_power (oc_side payload) (oc_quantity payload) (oc_price payload)"
  note rt = routed_transaction [OF assms(1-5) t] and ka = row_of_SomeD [OF assms(4)]
  have sa: "store_account e a = Inr a" using settledD(1) [OF well_formed_settled [OF assms(2)] assms(4)] .
  note sc = settled_account [OF assms(1) sa]
  note r = reserved_for_exact [OF assms(1) sa assms(3,5) rt(3)]
  have "?req \<le> 10 ^ 17" using rt(3) available_cash_exact [OF assms(1) sa] sc(3,4) by simp
  note req = required_exact [OF assms(3,5) this]
  have mg: "merge_account ?R (unreserved_for ?ord ?R) (?R\<lparr>a_reserved_cash := x, a_version := v\<rparr>) = ?F"
    unfolding failed_account_def using r(1) assms(3) _ sc(2) assms(5)
  proof (rule merge_unreserved)
    show "dmul (oc_quantity payload) (oc_price payload) = notional_of payload \<or> oc_side payload = SELL"
      using req by (cases "oc_side payload") (simp_all add: required_buying_power_def)
  qed (use sc in simp)
  show st: "store_account e ?F = Inr ?F"
    using store_account_updated [OF assms(1) sa sc(2,4,5), of "a_version a + 2"]
      store_account_updated [OF assms(1) sa assms(9-11), of v] by (simp add: failed_account_def)
  show so: "store_order e (routing_failed reason ?ord) = Inr (routing_failed reason ?ord)"
    by (rule store_failed_order [OF assms(1) rt(4) assms(8)])
  have keys: "a_id ?R = o_account_id ?ord" "o_id ?ord = ?oid" "o_account_id ?ord = ?aid" using ka by simp_all
  obtain s2 where "mark_routing_failure e ?oid reason (begin_on (meanwhile (tx s1)) s1) = (Inr (), s2)"
      "tx s2 = (meanwhile (tx s1))\<lparr>accounts := replace_row a_id ?aid ?F (accounts (meanwhile (tx s1))),
        orders := replace_row o_id ?oid (routing_failed reason ?ord) (orders (meanwhile (tx s1))),
        order_events := order_events (meanwhile (tx s1)) @ [routing_failed_event e reason ?ord]\<rparr>"
    using mark_routing_failure_effect [where db = "meanwhile (tx s1)" and a = ?R and ord = ?ord and s = s1
        and r = "?R\<lparr>a_reserved_cash := x, a_version := v\<rparr>" and q = ?ord and e = e and reason = reason,
        unfolded mg merge_failed_order keys(2,3)]
      m(1) keys(1) rt(9-12) m(2,3) st so by fastforce
  moreover have "ord = ?ord" by (rule rt(1))
  ultimately show "\<exists>s2. create_order e submit meanwhile payload (open_session db) = (Inl BrokerUnavailable, s2) \<and>
    tx s2 = (meanwhile (tx s1))\<lparr>accounts := replace_row a_id ?aid ?F (accounts (meanwhile (tx s1))),
      orders := replace_row o_id ?oid (routing_failed reason ?ord) (orders (meanwhile (tx s1))),
      order_events := order_events (meanwhile (tx s1)) @ [routing_failed_event e reason ?ord]\<rparr>"
    using t assms(7) by (intro exI [of _ s2]) (simp add: create_order_def)
qed

lemma routing_failure_outcome:
  assumes "documented e" and "well_formed e db" and "valid_request payload"
    and "account_row db (oc_account_id payload) = Some a" and "new_request payload db"
    and "order_row db (new_uuid e) = None" and "on_grid 8 (notional_of payload)"
    and "oc_quantity payload < 10 ^ 16" and "oc_price payload < 10 ^ 16"
    and "notional_of payload \<le> a_cash_balance a - a_reserved_cash a"
    and "submit (broker_order_of (routed_order e payload)) = Some reason" and "length reason \<le> 477"
    and "on_grid 8 x" and "0 \<le> x" and "x \<le> a_cash_balance a"
    and reserves: "\<And>d. keys_distinct d \<Longrightarrow> account_row d (oc_account_id payload) = Some (reserved_for payload a) \<Longrightarrow>
      keys_distinct (meanwhile d) \<and> order_row (meanwhile d) = order_row d \<and>
      account_row (meanwhile d) = (account_row d)(oc_account_id payload \<mapsto>
        (reserved_for payload a)\<lparr>a_reserved_cash := x, a_version := v\<rparr>)"
  shows "\<exists>s'. create_order e submit meanwhile payload (open_session db) = (Inl BrokerUnavailable, s') \<and>
    order_row (tx s') = (order_row db)(new_uuid e \<mapsto> routing_failed reason (routed_order e payload)) \<and>
    account_row (tx s') = (account_row db)(oc_account_id payload \<mapsto> failed_account payload a x v)"
proof -
  let ?aid = "oc_account_id payload" and ?oid = "new_uuid e" and ?ord = "routed_order e payload"
  have sa: "store_account e a = Inr a" using settledD(1) [OF well_formed_settled [OF assms(2)] assms(4)] .
  have "required_buying_power (oc_side payload) (oc_quantity payload) (oc_price payload) \<le> available_cash a"
    using required_is_notional [OF assms(1) sa assms(3,7,10)] assms(10) available_cash_exact [OF assms(1) sa] by simp
  with new_request_transaction [OF assms(1-9)] obtain s1 where
      t: "transaction e (create_order_body e payload) (open_session db) = (Inr (?ord, True), s1)" by auto
  note rt = routed_transaction [OF assms(1-4,7) t]
  have "keys_distinct (tx s1)" using rt(6) by (simp add: well_formed_def)
  from reserves [OF this] fun_cong [OF rt(8), of ?aid] have m: "keys_distinct (meanwhile (tx s1))"
      "order_row (meanwhile (tx s1)) = order_row (tx s1)"
      "account_row (meanwhile (tx s1)) = (account_row (tx s1))(?aid \<mapsto>
         (reserved_for payload a)\<lparr>a_reserved_cash := x, a_version := v\<rparr>)"
    by simp_all
  have rows: "order_row (meanwhile (tx s1)) ?oid = Some ?ord"
      "account_row (meanwhile (tx s1)) ?aid = Some ((reserved_for payload a)\<lparr>a_reserved_cash := x, a_version := v\<rparr>)"
    using fun_cong [OF m(3), of ?aid] fun_cong [OF m(2), of ?oid] fun_cong [OF rt(7), of ?oid] by simp_all
  from routing_failure_tables(1) [where submit = submit and meanwhile = meanwhile, OF assms(1-4,7) t assms(11-15) m(1) rows] obtain s2 where
      s2: "create_order e submit meanwhile payload (open_session db) = (Inl BrokerUnavailable, s2)"
      "tx s2 = (meanwhile (tx s1))\<lparr>accounts := replace_row a_id ?aid (failed_account payload a x v) (accounts (meanwhile (tx s1))),
        orders := replace_row o_id ?oid (routing_failed reason ?ord) (orders (meanwhile (tx s1))),
        order_events := order_events (meanwhile (tx s1)) @ [routing_failed_event e reason ?ord]\<rparr>"
    by blast
  have "a_id (failed_account payload a x v) = ?aid" using row_of_SomeD [OF assms(4)] by (simp add: failed_account_def)
  then have "account_row (tx s2) = (account_row db)(?aid \<mapsto> failed_account payload a x v)"
    using rows(2) m(3) rt(8) by (simp add: s2(2) row_of_replace fun_eq_iff)
  moreover have "order_row (tx s2) = (order_row db)(?oid \<mapsto> routing_failed reason ?ord)"
    using rows(1) m(2) rt(7) by (simp add: s2(2) row_of_replace fun_eq_iff)
  ultimately show ?thesis using s2(1) by blast
qed

section \<open>Properties\<close>

text \<open>
  C21. A broker that refuses a new, funded order leaves nothing of it behind but its record, when the
  text of the refusal has at most 477 characters, quantity times price is a multiple of \<open>10 ^ -8\<close>,
  and nothing is committed between the two transactions of the request: the caller gets
  \<open>BrokerUnavailable\<close>, the order is REJECTED with the broker's reason and the whole quantity
  unfilled, and cash and reservation of the account are exactly what they were before the request.
\<close>

theorem broker_refusal_releases_reservation:
  assumes "documented e" and "well_formed e db" and "valid_request payload"
    and "account_row db (oc_account_id payload) = Some a" and "new_request payload db"
    and "order_row db (new_uuid e) = None" and "on_grid 8 (notional_of payload)"
    and "oc_quantity payload < 10 ^ 16" and "oc_price payload < 10 ^ 16"
    and "notional_of payload \<le> a_cash_balance a - a_reserved_cash a"
    and "submit (broker_order_of (routed_order e payload)) = Some reason" and "length reason \<le> 477"
  shows "\<exists>s' a' ord. create_order e submit (\<lambda>d. d) payload (open_session db) = (Inl BrokerUnavailable, s') \<and>
    account_row (tx s') = (account_row db)(oc_account_id payload \<mapsto> a') \<and>
    a_cash_balance a' = a_cash_balance a \<and> a_reserved_cash a' = a_reserved_cash a \<and>
    order_row (tx s') = (order_row db)(new_uuid e \<mapsto> ord) \<and> o_status ord = REJECTED \<and>
    o_rejection_reason ord = Some (''Broker routing failed: '' @ reason) \<and>
    o_filled_quantity ord = 0 \<and> o_remaining_quantity ord = oc_quantity payload"
proof -
  let ?R = "reserved_for payload a"
  note ka = row_of_SomeD [OF assms(4)]
  have sa: "store_account e a = Inr a" using settledD(1) [OF well_formed_settled [OF assms(2)] assms(4)] .
  note sc = settled_account [OF assms(1) sa]
  have le: "required_buying_power (oc_side payload) (oc_quantity payload) (oc_price payload) \<le> available_cash a"
    using required_is_notional [OF assms(1) sa assms(3,7,10)] assms(10) available_cash_exact [OF assms(1) sa] by simp
  note r = reserved_for_exact [OF assms(1) sa assms(3,7) le]
  have nn: "0 \<le> notional_of payload" using valid_requestD(4,5) [OF assms(3)] by (simp add: notional_of_def)
  have "\<exists>s'. create_order e submit (\<lambda>d. d) payload (open_session db) = (Inl BrokerUnavailable, s') \<and>
    order_row (tx s') = (order_row db)(new_uuid e \<mapsto> routing_failed reason (routed_order e payload)) \<and>
    account_row (tx s') = (account_row db)(oc_account_id payload \<mapsto>
      failed_account payload a (a_reserved_cash ?R) (a_version ?R))"
    by (rule routing_failure_outcome [where submit = submit, OF assms]) (use r sc nn assms(7,10) ka in \<open>auto intro: on_grid_add\<close>)
  moreover have "a_reserved_cash ?R = a_reserved_cash a" if "oc_side payload \<noteq> BUY"
    using r(1) that by (simp add: notional_of_def)
  ultimately show ?thesis
    by (fastforce simp: failed_account_def routing_failed_def moved_def routed_order_def new_order_def split: if_splits)
qed

theorem broker_refusal_releases_reservation_witness:
  "\<exists>s' a'. create_order sample_env (\<lambda>_. Some ''down'') (\<lambda>d. d) sample_new_request (open_session sample_db) =
      (Inl BrokerUnavailable, s') \<and> account_row (tx s') ''A'' = Some a' \<and> a_reserved_cash a' = 50"
proof -
  have "new_request sample_new_request sample_db" by (simp add: new_request_def)
  from broker_refusal_releases_reservation [OF documented_sample sample_well_formed _ _ this, of sample_account
      "\<lambda>_. Some ''down''" "''down''"]
  obtain s' a' where s': "create_order sample_env (\<lambda>_. Some ''down'') (\<lambda>d. d) sample_new_request (open_session sample_db) =
      (Inl BrokerUnavailable, s')" "account_row (tx s') = (account_row sample_db)(''A'' \<mapsto> a')" "a_reserved_cash a' = 50"
    using sample_valid_request [of 10] by (auto simp: notional_of_def row_of_Cons)
  then have "account_row (tx s') ''A'' = Some a'" by (simp add: fun_cong [OF s'(2)])
  with s' show ?thesis by blast
qed

text \<open>Another transaction reserves \<open>y\<close> on the account, and commits.\<close>

definition reserve_meanwhile :: "uuid \<Rightarrow> rat \<Rightarrow> database \<Rightarrow> database" where
  "reserve_meanwhile aid y db =
     db\<lparr>accounts := map (\<lambda>r. if a_id r = aid
          then r\<lparr>a_reserved_cash := a_reserved_cash r + y, a_version := a_version r + 1\<rparr> else r) (accounts db)\<rparr>"

lemma reserve_meanwhile_rows:
  "account_row (reserve_meanwhile aid y db) k =
     (if k = aid then map_option (\<lambda>r. r\<lparr>a_reserved_cash := a_reserved_cash r + y, a_version := a_version r + 1\<rparr>) (account_row db k)
      else account_row db k)"
proof -
  have rows: "row_of a_id k (map (\<lambda>r. if a_id r = aid then r\<lparr>a_reserved_cash := a_reserved_cash r + y, a_version := a_version r + 1\<rparr> else r) rows) =
    (if k = aid then map_option (\<lambda>r. r\<lparr>a_reserved_cash := a_reserved_cash r + y, a_version := a_version r + 1\<rparr>) (row_of a_id k rows)
      else row_of a_id k rows)" for rows
    by (induction rows) (auto simp: row_of_Cons)
  show ?thesis by (subst rows [symmetric]) (simp add: reserve_meanwhile_def)
qed

lemma reserve_meanwhile_keys: "keys_distinct db \<Longrightarrow> keys_distinct (reserve_meanwhile aid y db)"
proof -
  have ids: "map a_id (map (\<lambda>r. if a_id r = aid then r\<lparr>a_reserved_cash := a_reserved_cash r + y, a_version := a_version r + 1\<rparr> else r) rows) =
      map a_id rows" for rows
    by (induction rows) auto
  show "keys_distinct db \<Longrightarrow> keys_distinct (reserve_meanwhile aid y db)"
    by (simp add: keys_distinct_def reserve_meanwhile_def ids del: map_map)
qed

text \<open>
  C22. The lost update: when another order of the account has reserved \<open>y\<close> between the two
  transactions, the release writes the amount computed from the account object of the first
  transaction. The account ends with the reservation it had before both orders, so the
  other order, which is open, has nothing reserved.
\<close>

theorem broker_refusal_loses_concurrent_reservation:
  assumes "documented e" and "well_formed e db" and "valid_request payload" and "oc_side payload = BUY"
    and "account_row db (oc_account_id payload) = Some a" and "new_request payload db"
    and "order_row db (new_uuid e) = None" and "on_grid 8 (notional_of payload)"
    and "oc_quantity payload < 10 ^ 16" and "oc_price payload < 10 ^ 16"
    and "0 < y" and "on_grid 8 y" and "notional_of payload + y \<le> a_cash_balance a - a_reserved_cash a"
    and "submit (broker_order_of (routed_order e payload)) = Some reason" and "length reason \<le> 477"
  shows "\<exists>s' a'. create_order e submit (reserve_meanwhile (oc_account_id payload) y) payload (open_session db) =
      (Inl BrokerUnavailable, s') \<and>
    account_row (tx s') = (account_row db)(oc_account_id payload \<mapsto> a') \<and> a_reserved_cash a' = a_reserved_cash a"
proof -
  let ?R = "reserved_for payload a" and ?aid = "oc_account_id payload"
  note ka = row_of_SomeD [OF assms(5)]
  have sa: "store_account e a = Inr a" using settledD(1) [OF well_formed_settled [OF assms(2)] assms(5)] .
  note sc = settled_account [OF assms(1) sa]
  have nle: "notional_of payload \<le> a_cash_balance a - a_reserved_cash a" using assms(11,13) by linarith
  have le: "required_buying_power (oc_side payload) (oc_quantity payload) (oc_price payload) \<le> available_cash a"
    using required_is_notional [OF assms(1) sa assms(3,8) nle] nle available_cash_exact [OF assms(1) sa] by simp
  note r = reserved_for_exact [OF assms(1) sa assms(3,8) le]
  have nn: "0 \<le> notional_of payload" using valid_requestD(4,5) [OF assms(3)] by (simp add: notional_of_def)
  have "\<exists>s'. create_order e submit (reserve_meanwhile ?aid y) payload (open_session db) = (Inl BrokerUnavailable, s') \<and>
    order_row (tx s') = (order_row db)(new_uuid e \<mapsto> routing_failed reason (routed_order e payload)) \<and>
    account_row (tx s') = (account_row db)(?aid \<mapsto>
      failed_account payload a (a_reserved_cash ?R + y) (a_version ?R + 1))"
  proof (rule routing_failure_outcome [where submit = submit, OF assms(1-3,5-10) nle assms(14,15)])
    show "on_grid 8 (a_reserved_cash ?R + y)" using r(1) sc(2) assms(8,12) by (auto intro: on_grid_add)
    show "0 \<le> a_reserved_cash ?R + y" "a_reserved_cash ?R + y \<le> a_cash_balance a"
      using r(1) sc(4) nn assms(11,13) by linarith+
    show "keys_distinct (reserve_meanwhile ?aid y d) \<and> order_row (reserve_meanwhile ?aid y d) = order_row d \<and>
        account_row (reserve_meanwhile ?aid y d) = (account_row d)(?aid \<mapsto>
          ?R\<lparr>a_reserved_cash := a_reserved_cash ?R + y, a_version := a_version ?R + 1\<rparr>)"
      if "keys_distinct d" "account_row d ?aid = Some ?R" for d
      using that reserve_meanwhile_keys [OF that(1)]
      by (simp add: fun_eq_iff reserve_meanwhile_rows) (simp add: reserve_meanwhile_def)
  qed
  then show ?thesis using assms(4) by (fastforce simp: failed_account_def)
qed

theorem broker_refusal_loses_concurrent_reservation_witness:
  "\<exists>s' a'. create_order sample_env (\<lambda>_. Some ''down'') (reserve_meanwhile ''A'' 20)
      (sample_new_request\<lparr>oc_quantity := 2\<rparr>) (open_session sample_db) = (Inl BrokerUnavailable, s') \<and>
    account_row (tx s') ''A'' = Some a' \<and> a_reserved_cash a' = 50"
proof -
  let ?p = "sample_new_request\<lparr>oc_quantity := 2\<rparr>"
  have v: "valid_request ?p" using sample_valid_request [of 2] by simp
  have "new_request ?p sample_db" by (simp add: new_request_def)
  from broker_refusal_loses_concurrent_reservation [OF documented_sample sample_well_formed v _ _ this, of sample_account 20
      "\<lambda>_. Some ''down''" "''down''"]
  obtain s' a' where s': "create_order sample_env (\<lambda>_. Some ''down'') (reserve_meanwhile ''A'' 20) ?p (open_session sample_db) =
      (Inl BrokerUnavailable, s')" "account_row (tx s') = (account_row sample_db)(''A'' \<mapsto> a')" "a_reserved_cash a' = 50"
    by (auto simp: notional_of_def row_of_Cons)
  then have "account_row (tx s') ''A'' = Some a'" by (simp add: fun_cong [OF s'(2)])
  with s' show ?thesis by blast
qed

end
