(* ===== verification/Cancellation_Effects.thy ===== *)
theory Cancellation_Effects
  imports Order_Commit Samples
begin

text \<open>
  What a cancellation request makes of the database, for the interfaces that request one: the HTTP
  route and the worker that expires DAY orders.
\<close>

text \<open>A cancellation request for an order that can be cancelled, and what it leaves.\<close>

lemma cancel_requested:
  assumes "documented e" and "well_formed e db" and "order_row db oid = Some ord"
    and "o_status ord \<in> CANCELLABLE_ORDER_STATUSES"
  obtains s' where "request_cancellation e cancel oid reason (open_session db) =
      (case cancel oid reason of None \<Rightarrow> Inr (moved ord CANCEL_PENDING) | Some msg \<Rightarrow> Inl (BrokerFailure msg), s')"
    and "order_row (tx s') = (order_row db)(oid \<mapsto> moved ord CANCEL_PENDING)"
    and "account_row (tx s') = account_row db" and "fills (tx s') = fills db"
    and "order_events (tx s') = order_events db @
      [audit e ord CANCEL_REQUESTED (Some (o_status ord)) (Some CANCEL_PENDING) [(''reason'', JText reason)]]"
    and "well_formed e (tx s')"
proof -
  note w = well_formed_settled [OF assms(2)]
  have oid: "o_id ord = oid" using row_of_SomeD [OF assms(3)] by simp
  obtain s' where s': "request_cancellation e cancel oid reason (open_session db) =
      (case cancel oid reason of None \<Rightarrow> Inr (moved ord CANCEL_PENDING) | Some msg \<Rightarrow> Inl (BrokerFailure msg), s')"
      "leaves e (cancel_requested_view e ord reason (db_view db)) (tx s')" "well_formed e (tx s')"
    using request_cancellation_accepted [OF assms] by blast
  have "store_order e (moved ord CANCEL_PENDING) = Inr (moved ord CANCEL_PENDING)"
    using store_order_status [where st = CANCEL_PENDING and n = "o_version ord + 1" and e = e and ord = ord and r = ord] settledD(2) [OF w assms(3)]
    by (simp add: moved_def)
  then have "order_row (tx s') = (order_row db)(oid \<mapsto> moved ord CANCEL_PENDING)"
    by (intro leaves_orders [OF s'(2) w]) (simp_all add: oid)
  moreover have "account_row (tx s') = account_row db"
    using leaves_unchanged(1) [OF s'(2) w] by simp
  moreover have "fills (tx s') = fills db" "order_events (tx s') = order_events db @
      [audit e ord CANCEL_REQUESTED (Some (o_status ord)) (Some CANCEL_PENDING) [(''reason'', JText reason)]]"
    using leavesD(5,6) [OF s'(2)] by (simp_all add: cancel_requested_view_def)
  ultimately show thesis using s'(1,3) by (intro that) simp_all
qed

end
