(* ===== verification/Market_Data_Service.thy ===== *)
theory Market_Data_Service
  imports Samples
begin

text \<open>
  \<open>app/services/market_data_service.py\<close>: a market tick updates the price of its symbol unless a
  later observation is stored already, and then marks every position in the symbol to it.
\<close>

section \<open>Operations\<close>

definition marked :: "rat \<Rightarrow> position \<Rightarrow> position" where
  "marked price p =
     p\<lparr>p_last_mark_price := Some price,
       p_unrealized_pnl :=
         calculate_unrealized_pnl (p_net_quantity p) (p_average_entry_price p) (Some price)\<rparr>"

fun mark_positions :: "rat \<Rightarrow> position list \<Rightarrow> session \<Rightarrow> session" where
  "mark_positions price [] s = s"
| "mark_positions price (p # ps) s = mark_positions price ps (set_position (marked price p) s)"

definition apply_tick_body ::
  "env \<Rightarrow> string \<Rightarrow> rat \<Rightarrow> timestamp \<Rightarrow> session \<Rightarrow> oms_error + unit \<times> session" where
  "apply_tick_body e symb price observed_at s =
     (let normalized_symbol = upper symb in
      and_then (price_upsert e normalized_symbol price observed_at s) (\<lambda>((_, applied), s).
      if \<not> applied then Inr ((), s)
      else (case position_list_by_symbol_for_update normalized_symbol s of
              (ps, s) \<Rightarrow> Inr ((), mark_positions price ps s))))"

definition apply_tick ::
  "env \<Rightarrow> string \<Rightarrow> rat \<Rightarrow> timestamp \<Rightarrow> session \<Rightarrow> (oms_error + unit) \<times> session" where
  "apply_tick e symb price observed_at = transaction e (apply_tick_body e symb price observed_at)"

section \<open>What a tick makes of the view\<close>

definition newer :: "timestamp \<Rightarrow> market_price option \<Rightarrow> bool" where
  "newer observed_at m \<longleftrightarrow> (case m of None \<Rightarrow> True | Some m \<Rightarrow> m_observed_at m \<le> observed_at)"

definition price_view :: "string \<Rightarrow> rat \<Rightarrow> timestamp \<Rightarrow> view \<Rightarrow> view" where
  "price_view symb price observed_at v =
     v\<lparr>v_prices := (v_prices v)(symb \<mapsto>
         \<lparr>m_symbol = symb, m_price = price, m_observed_at = observed_at\<rparr>)\<rparr>"

definition marks_view :: "(uuid \<times> string) set \<Rightarrow> rat \<Rightarrow> view \<Rightarrow> view" where
  "marks_view K price v =
     v\<lparr>v_positions := (\<lambda>k. if k \<in> K then map_option (marked price) (v_positions v k) else v_positions v k)\<rparr>"

lemma marked_simps [simp]:
  "p_key (marked price p) = p_key p" "p_symbol (marked price p) = p_symbol p"
  "p_account_id (marked price p) = p_account_id p" "p_net_quantity (marked price p) = p_net_quantity p"
  "p_average_entry_price (marked price p) = p_average_entry_price p"
  "p_realized_pnl (marked price p) = p_realized_pnl p" "p_last_mark_price (marked price p) = Some price"
  "p_unrealized_pnl (marked price p) =
     calculate_unrealized_pnl (p_net_quantity p) (p_average_entry_price p) (Some price)"
  by (simp_all add: marked_def p_key_def)

lemma set_price_steps:
  "v_prices (view s) (m_symbol m) \<noteq> None \<Longrightarrow>
     steps_to e s (\<lambda>v. v\<lparr>v_prices := (v_prices v)(m_symbol m \<mapsto> m)\<rparr>) (set_price m s)"
  by (rule steps_toI) (simp add: set_price_evolves view_set_price view_has_row)

lemma price_insert_steps:
  assumes "insert_price e m (tx s) = Inr db" and "varchar e 32 (m_symbol m) = Some (m_symbol m)"
  shows "steps_to e s (\<lambda>v. v\<lparr>v_prices := (v_prices v)(m_symbol m \<mapsto> m)\<rparr>) (set_price m (s\<lparr>tx := db\<rparr>))"
proof -
  obtain row where r: "store_price e m = Inr row" "m_symbol row \<notin> m_symbol ` set (market_prices (tx s))"
      "db = (tx s)\<lparr>market_prices := market_prices (tx s) @ [row]\<rparr>"
    using assms by (auto simp: insert_defs)
  have k: "m_symbol row = m_symbol m" using r(1) by (auto simp: store_price_eq_Inr)
  show ?thesis
    using r(2) store_price_idem [OF _ r(1)]
    by (intro steps_toI)
      (simp add: r(3) set_price_def evolves_def view_def k table_evolves_insert overlay_insert well_formed_defs)
qed

lemma price_upsert_steps:
  assumes "price_upsert e symb price observed_at s = Inr ((m, applied), s')" and "session_ok s"
    and "varchar e 32 symb = Some symb"
  shows "applied = newer observed_at (v_prices (view s) symb) \<and>
    steps_to e s (if applied then price_view symb price observed_at else (\<lambda>v. v)) s'"
proof -
  let ?m = "\<lparr>m_symbol = symb, m_price = price, m_observed_at = observed_at\<rparr>"
  obtain found s1 where g: "price_get symb s = Inr (found, s1)"
    using assms(1) by (cases "price_get symb s") (auto simp: price_upsert_def)
  note st = price_get_steps [OF g assms(2), of e]
  have ok: "session_ok s1" "view s1 = view s" using steps_toD [OF conjunct1 [OF st] assms(2)] by simp_all
  show ?thesis
  proof (cases found)
    case None
    with assms(1) g obtain t db where t: "flush e s1 = Inr t" "insert_price e ?m (tx t) = Inr db" "applied"
        "s' = set_price ?m (t\<lparr>tx := db\<rparr>)"
      by (auto simp: price_upsert_def Let_def)
    have "steps_to e t (price_view symb price observed_at) s'"
      using price_insert_steps [OF t(2)] assms(3) by (simp add: t(4) price_view_def [abs_def])
    from steps_to_trans [OF conjunct1 [OF st] steps_to_trans [OF flush_steps [OF t(1)] this]] t(3) None st
    show ?thesis by (simp add: newer_def)
  next
    case (Some old)
    then have old: "v_prices (view s1) symb = Some old" using st ok(2) by simp
    then have k: "m_symbol old = symb" using view_keys(4) [OF ok(1)] by blast
    have upd: "old\<lparr>m_price := price, m_observed_at := observed_at\<rparr> = ?m" using k by (cases old) simp
    show ?thesis
    proof (cases "m_observed_at old \<le> observed_at")
      case True
      with assms(1) g Some upd have t: "flush e (set_price ?m s1) = Inr s'" "applied"
        by (auto simp: price_upsert_def Let_def)
      have "steps_to e s1 (price_view symb price observed_at) (set_price ?m s1)"
        using set_price_steps [of s1 ?m] old by (simp add: price_view_def [abs_def])
      from steps_to_trans [OF conjunct1 [OF st] steps_to_trans [OF this flush_steps [OF t(1)]]] t(2) Some st True
      show ?thesis by (auto simp: newer_def)
    next
      case False
      with assms(1) g Some have t: "flush e s1 = Inr s'" "\<not> applied" by (auto simp: price_upsert_def)
      from steps_to_trans [OF conjunct1 [OF st] flush_steps [OF t(1)]] t(2) Some st False
      show ?thesis by (auto simp: newer_def)
    qed
  qed
qed

text \<open>The positions of a query are the objects of its rows.\<close>

lemma resolve_positions_steps:
  "resolve_positions rs s = (ps, s') \<Longrightarrow> session_ok s \<Longrightarrow>
     \<forall>r\<in>set rs. row_of p_key (p_key r) (positions (tx s)) = Some r \<Longrightarrow>
     steps_to e s (\<lambda>v. v) s' \<and> map (\<lambda>r. v_positions (view s) (p_key r)) rs = map Some ps"
proof (induction rs arbitrary: s ps)
  case Nil
  then show ?case by (auto intro: steps_toI)
next
  case (Cons r rs)
  obtain p s1 where p: "resolve_position r s = (p, s1)" by (cases "resolve_position r s")
  obtain qs where qs: "resolve_positions rs s1 = (qs, s')" "ps = p # qs"
    using Cons.prems(1) by (auto simp: p split: prod.splits)
  have "row_of p_key (p_key r) (positions (tx s)) = Some r" using Cons.prems(3) by simp
  note st = resolve_position_steps [OF p this, of e]
  have tx: "tx s1 = tx s" using p by (auto simp: resolve_position_def split: option.splits)
  note ok = steps_toD [OF conjunct1 [OF st] Cons.prems(2)]
  have "steps_to e s1 (\<lambda>v. v) s' \<and> map (\<lambda>r. v_positions (view s1) (p_key r)) rs = map Some qs"
    using ok Cons.prems(3) by (intro Cons.IH [OF qs(1)]) (simp_all add: tx)
  moreover from this have "steps_to e s (\<lambda>v. v) s'" using steps_to_trans conjunct1 [OF st] by blast
  moreover have "view s1 = view s" using ok by blast
  ultimately show ?case using conjunct2 [OF st] by (simp only: qs(2) list.map simp_thms)
qed

lemma mark_positions_steps:
  "distinct (map p_key ps) \<Longrightarrow> session_ok s \<Longrightarrow> \<forall>p\<in>set ps. v_positions (view s) (p_key p) = Some p \<Longrightarrow>
     evolves s (mark_positions price ps s) \<and> tx (mark_positions price ps s) = tx s \<and>
     view (mark_positions price ps s) = marks_view (p_key ` set ps) price (view s)"
proof (induction ps arbitrary: s)
  case Nil
  then show ?case by (simp add: marks_view_def)
next
  case (Cons p ps)
  let ?s = "set_position (marked price p) s"
  have p: "v_positions (view s) (p_key p) = Some p" and ps: "\<forall>q\<in>set ps. v_positions (view s) (p_key q) = Some q"
    and d: "p_key p \<notin> p_key ` set ps" "distinct (map p_key ps)" using Cons.prems by simp_all
  have ev: "evolves s ?s"
    using view_has_row(3) [OF Cons.prems(2), of "p_key p"] p by (intro set_position_evolves) simp
  have v: "view ?s = (view s)\<lparr>v_positions := (v_positions (view s))(p_key p \<mapsto> marked price p)\<rparr>"
    by (simp add: view_set_position)
  have "\<forall>q\<in>set ps. v_positions (view ?s) (p_key q) = Some q"
    using ps d(1) by (simp add: v) (metis image_eqI)
  note ih = Cons.IH [OF d(2) evolves_ok [OF ev Cons.prems(2)] this]
  have "marks_view (p_key ` set ps) price (view ?s) = marks_view (p_key ` set (p # ps)) price (view s)"
    unfolding v marks_view_def using d(1) p by (simp add: fun_eq_iff)
  with ih evolves_trans [OF ev] show ?case by simp
qed

text \<open>The whole body on a fresh session.\<close>

definition tick_view :: "string \<Rightarrow> rat \<Rightarrow> timestamp \<Rightarrow> view \<Rightarrow> view" where
  "tick_view symb price observed_at v =
     (if newer observed_at (v_prices v symb)
      then marks_view {k. snd k = symb} price (price_view symb price observed_at v) else v)"

lemma unloaded_positions:
  "loaded_positions s = Map.empty \<Longrightarrow> v_positions (view s) k = row_of p_key k (positions (tx s))"
  by (simp add: view_def)

lemma marks_view_rows:
  assumes "\<And>k. v_positions v k = row_of p_key k rows"
  shows "marks_view (p_key ` set (filter (\<lambda>p. p_symbol p = symb) rows)) price v = marks_view {k. snd k = symb} price v"
proof -
  have "v_positions v k = None" if "k \<notin> p_key ` set (filter (\<lambda>p. p_symbol p = symb) rows)" "snd k = symb" for k
    using that assms [of k] row_of_SomeD [of p_key k rows]
    by (cases "v_positions v k") (force simp: p_key_def)+
  moreover have "snd k = symb" if "k \<in> p_key ` set (filter (\<lambda>p. p_symbol p = symb) rows)" for k
    using that by (auto simp: p_key_def)
  ultimately show ?thesis
    unfolding marks_view_def by (intro arg_cong [of _ _ "\<lambda>f. v\<lparr>v_positions := f\<rparr>"] ext) auto
qed

lemma mark_symbol_steps:
  assumes "position_list_by_symbol_for_update symb s = (ps, s')" and "session_ok s" and "keys_distinct (tx s)"
    and "loaded_positions s = Map.empty"
  shows "steps_to e s (marks_view {k. snd k = symb} price) (mark_positions price ps s')"
proof -
  let ?rs = "filter (\<lambda>p. p_symbol p = symb) (positions (tx s))"
  have d: "distinct (map p_key (positions (tx s)))" using assms(3) by (simp add: keys_distinct_def)
  have rows: "\<forall>r\<in>set ?rs. row_of p_key (p_key r) (positions (tx s)) = Some r"
    using row_of_self [OF d] by simp
  have r: "resolve_positions ?rs s = (ps, s')" using assms(1) by (simp add: position_list_by_symbol_for_update_def)
  note st = resolve_positions_steps [OF r assms(2) rows, of e]
  note ok = steps_toD [OF conjunct1 [OF st] assms(2)]
  have "map (\<lambda>r. v_positions (view s) (p_key r)) ?rs = map Some ?rs"
    using rows by (simp add: unloaded_positions [OF assms(4)])
  with st have ps: "ps = ?rs" by (metis inj_Some map_injective)
  have "distinct (map p_key ps)" unfolding ps using d by (rule distinct_map_filter)
  moreover have "\<forall>p\<in>set ps. v_positions (view s') (p_key p) = Some p"
    using rows ok unloaded_positions [OF assms(4)] by (simp add: ps)
  ultimately have m: "evolves s' (mark_positions price ps s')" "tx (mark_positions price ps s') = tx s'"
      "view (mark_positions price ps s') = marks_view (p_key ` set ps) price (view s')"
    using mark_positions_steps ok by blast+
  have "steps_to e s' (marks_view {k. snd k = symb} price) (mark_positions price ps s')"
    using m marks_view_rows [of "view s'" "positions (tx s)" symb price] ok unloaded_positions [OF assms(4)]
    by (intro steps_toI) (simp add: ps)
  from steps_to_trans [OF conjunct1 [OF st] this] show ?thesis by simp
qed

lemma price_upsert_unloaded:
  assumes "price_upsert e symb price observed_at s = Inr (r, s')"
  shows "loaded_positions s' = loaded_positions s"
proof -
  have g: "price_get symb s = Inr (found, t) \<Longrightarrow> loaded_positions t = loaded_positions s" for found t
    by (auto simp: price_get_def resolve_price_def set_price_def split: option.splits)
  show ?thesis
    using assms
    by (cases "price_get symb s")
      (auto simp: price_upsert_def Let_def set_price_def dest!: g flush_frame(3) split: option.splits if_splits)
qed

lemma apply_tick_body_steps:
  assumes "apply_tick_body e symb price observed_at (open_session db) = Inr (x, s')"
    and "documented e" and "well_formed e db" and "length symb \<le> 32"
  shows "steps_to e (open_session db)
    (if newer observed_at (price_row db (upper symb))
     then (\<lambda>v. marks_view {k. snd k = upper symb} price (price_view (upper symb) price observed_at v))
     else (\<lambda>v. v)) s'"
proof -
  obtain m applied s1 where u: "price_upsert e (upper symb) price observed_at (open_session db) = Inr ((m, applied), s1)"
    using assms(1) by (auto simp: apply_tick_body_def Let_def)
  have "varchar e 32 (upper symb) = Some (upper symb)"
    using column_types.txt_fits [OF assms(2) [unfolded documented_def]] assms(4) by simp
  note st = price_upsert_steps [OF u session_ok_open this]
  have ap: "applied = newer observed_at (price_row db (upper symb))" using st by (simp add: view_open)
  note ok = steps_toD [OF conjunct2 [OF st] session_ok_open]
  have d: "keys_distinct (tx s1)"
    using steps_to_well_formed [OF conjunct2 [OF st] session_ok_open assms(2)] assms(3)
    by (simp add: well_formed_def)
  have l: "loaded_positions s1 = Map.empty"
    using price_upsert_unloaded [OF u] by (simp add: open_session_def)
  show ?thesis
  proof (cases applied)
    case True
    obtain ps s2 where "position_list_by_symbol_for_update (upper symb) s1 = (ps, s2)"
        "s' = mark_positions price ps s2"
      using assms(1) u True by (auto simp: apply_tick_body_def Let_def split: prod.splits)
    with mark_symbol_steps [of "upper symb" s1 ps s2 e price] ok d l
    have "steps_to e s1 (marks_view {k. snd k = upper symb} price) s'" by simp
    from steps_to_trans [OF conjunct2 [OF st] this] True ap show ?thesis by simp
  next
    case False
    with assms(1) u have "s' = s1" by (simp add: apply_tick_body_def Let_def)
    with st False ap show ?thesis by simp
  qed
qed

lemma apply_tick_leaves:
  assumes "apply_tick e symb price observed_at (open_session db) = (Inr x, s')"
    and "documented e" and "well_formed e db" and "length symb \<le> 32"
  shows "leaves e (tick_view (upper symb) price observed_at (db_view db)) (tx s')"
proof -
  note st = apply_tick_body_steps [where symb = symb and price = price and observed_at = observed_at,
      OF _ assms(2-4)]
  from transaction_leaves [OF assms(1) [unfolded apply_tick_def] well_formed_settled [OF assms(3)] st]
  show ?thesis by (simp add: tick_view_def split: if_splits)
qed

lemma tick_marked_row:
  assumes "documented e" and "well_formed e db" and "length symb \<le> 32" and "on_grid 8 price"
    and "newer observed_at (price_row db (upper symb))"
    and "apply_tick e symb price observed_at (open_session db) = (Inr x, s')"
    and p: "position_row db aid (upper symb) = Some p"
  shows "\<exists>u. numeric e (calculate_unrealized_pnl (p_net_quantity p) (p_average_entry_price p) (Some price)) = Some u \<and>
    position_row (tx s') aid (upper symb) = Some (p\<lparr>p_last_mark_price := Some price, p_unrealized_pnl := u\<rparr>)"
proof -
  let ?v = "marks_view {k. snd k = upper symb} price (price_view (upper symb) price observed_at (db_view db))"
  note num = numeric_on_grid(1) [OF assms(1) _ assms(4)]
  have l: "leaves e ?v (tx s')"
    using apply_tick_leaves [OF assms(6,1,2,3)] assms(5) by (simp add: tick_view_def)
  have sp: "store_position e p = Inr p" using settledD(3) [OF well_formed_settled [OF assms(2)] p] .
  obtain r where r: "store_position e (marked price p) = Inr r" "position_row (tx s') aid (upper symb) = Some r"
    using leavesD(3) [OF l, of aid "upper symb"] p by (auto simp: marks_view_def price_view_def)
  note d = store_positionD [OF r(1)] and d0 = store_positionD [OF sp]
  have "p_last_mark_price r = Some price"
    using d(8) num by (cases "p_last_mark_price r") auto
  then have "r = p\<lparr>p_last_mark_price := Some price, p_unrealized_pnl := p_unrealized_pnl r\<rparr>"
    using d d0 by (cases r, cases p) (simp add: marked_def)
  with r d(7) show ?thesis by (intro exI [of _ "p_unrealized_pnl r"]) simp
qed

section \<open>Ticks return\<close>

lemma price_upsert_ready:
  assumes "ready e s" and "varchar e 32 symb = Some symb"
    and "can_store (store_price e) \<lparr>m_symbol = symb, m_price = price, m_observed_at = observed_at\<rparr>"
  shows "\<exists>m applied s'. price_upsert e symb price observed_at s = Inr ((m, applied), s') \<and> ready e s'"
proof -
  let ?m = "\<lparr>m_symbol = symb, m_price = price, m_observed_at = observed_at\<rparr>"
  from price_get_ready [OF assms(1)] obtain s1 where g: "price_get symb s = Inr (v_prices (view s) symb, s1)"
      "ready e s1" "view s1 = view s" by (auto simp: yields_def)
  note ok = readyD(2) [OF g(2)]
  show ?thesis
  proof (cases "v_prices (view s) symb")
    case None
    from flush_ready [OF g(2)] obtain t where t: "flush e s1 = Inr t" "ready e t" "view t = view s1"
      by (auto simp: succeeds_def)
    from assms(3) obtain row where row: "store_price e ?m = Inr row" by (auto simp: can_store_def)
    then have k: "m_symbol row = symb" by (auto simp: store_price_eq_Inr)
    have "price_row (tx t) symb = None" using view_has_row(4) [OF readyD(2) [OF t(2)]] None g(3) t(3) by simp
    then have ins: "insert_price e ?m (tx t) = Inr ((tx t)\<lparr>market_prices := market_prices (tx t) @ [row]\<rparr>)"
      using row k assms(2) by (simp add: insert_defs row_of_None_iff)
    let ?s' = "set_price ?m (t\<lparr>tx := (tx t)\<lparr>market_prices := market_prices (tx t) @ [row]\<rparr>\<rparr>)"
    have "storable e ?s'" using t(2) assms(3) by (auto simp: ready_def storable_def set_price_def)
    moreover have "steps_to e t (\<lambda>v. v\<lparr>v_prices := (v_prices v)(symb \<mapsto> ?m)\<rparr>) ?s'"
      using price_insert_steps [OF ins] assms(2) by simp
    ultimately have "ready e ?s'" using ready_step [OF t(2)] by blast
    moreover have "price_upsert e symb price observed_at s = Inr ((?m, True), ?s')"
      using g(1) None t(1) ins by (simp add: price_upsert_def Let_def)
    ultimately show ?thesis by blast
  next
    case (Some old)
    then have k: "m_symbol old = symb" using view_keys(4) [OF ok] g(3) by simp
    then have upd: "old\<lparr>m_price := price, m_observed_at := observed_at\<rparr> = ?m" by (cases old) simp
    have "storable e (set_price ?m s1)" using g(2) assms(3) by (auto simp: ready_def storable_def set_price_def)
    then have "ready e (set_price ?m s1)"
      using ready_step [OF g(2) set_price_steps [of s1 ?m]] Some g(3) by simp
    from flush_ready [OF this] flush_ready [OF g(2)] show ?thesis
      using g(1) Some upd by (auto simp: price_upsert_def Let_def succeeds_def)
  qed
qed

lemma resolve_positions_ready:
  "resolve_positions rs s = (ps, s') \<Longrightarrow> ready e s \<Longrightarrow>
     \<forall>r\<in>set rs. row_of p_key (p_key r) (positions (tx s)) = Some r \<Longrightarrow> ready e s'"
proof (induction rs arbitrary: s ps)
  case (Cons r rs)
  obtain p s1 where p: "resolve_position r s = (p, s1)" by (cases "resolve_position r s")
  have row: "row_of p_key (p_key r) (positions (tx s)) = Some r" using Cons.prems(3) by simp
  have tx: "tx s1 = tx s" using p by (auto simp: resolve_position_def split: option.splits)
  have "store_position e r = Inr r"
    using settledD(3) [OF well_formed_settled [OF readyD(3) [OF Cons.prems(2)]] row] .
  then have "storable e s1"
    using p Cons.prems(2) by (auto simp: resolve_position_def set_position_def ready_def storable_def
        can_store_def split: option.splits if_splits)
  then have "ready e s1"
    using ready_step [OF Cons.prems(2) conjunct1 [OF resolve_position_steps [OF p row]]] by simp
  moreover obtain qs where "resolve_positions rs s1 = (qs, s')"
    using Cons.prems(1) by (auto simp: p split: prod.splits)
  ultimately show ?case using Cons.IH Cons.prems(3) tx by simp
qed simp

lemma mark_positions_ready:
  "ready e s \<Longrightarrow> \<forall>p\<in>set ps. v_positions (view s) (p_key p) \<noteq> None \<and> can_store (store_position e) (marked price p) \<Longrightarrow>
     ready e (mark_positions price ps s)"
proof (induction ps arbitrary: s)
  case (Cons p ps)
  have "ready e (set_position (marked price p) s) \<and> view (set_position (marked price p) s) =
      (view s)\<lparr>v_positions := (v_positions (view s))(p_key p \<mapsto> marked price p)\<rparr>"
    using ready_set_position [OF Cons.prems(1), of "marked price p"] Cons.prems(2) by simp
  with Cons.IH [of "set_position (marked price p) s"] Cons.prems(2) show ?case by simp
qed simp

lemma can_mark:
  assumes "documented e" and "store_position e p = Inr p" and "numeric e price = Some price" and "0 < price"
    and "numeric e (calculate_unrealized_pnl (p_net_quantity p) (p_average_entry_price p) (Some price)) \<noteq> None"
  shows "can_store (store_position e) (marked price p)"
proof -
  obtain u where u: "numeric e (calculate_unrealized_pnl (p_net_quantity p) (p_average_entry_price p) (Some price)) = Some u"
    using assms(5) by auto
  have "store_position e (marked price p) = Inr ((marked price p)\<lparr>p_unrealized_pnl := u\<rparr>)"
    using store_positionD [OF assms(2)] u assms(3,4)
    by (simp add: store_position_eq_Inr position_checks_def marked_def)
  then show ?thesis by (rule can_storeI)
qed

lemma apply_tick_returns:
  assumes "documented e" and "well_formed e db" and "length symb \<le> 32"
    and "on_grid 8 price" and "0 < price" and "price < 10 ^ 16"
    and "\<forall>p\<in>set (positions db). p_symbol p = upper symb \<longrightarrow>
      numeric e (calculate_unrealized_pnl (p_net_quantity p) (p_average_entry_price p) (Some price)) \<noteq> None"
  shows "\<exists>s'. apply_tick e symb price observed_at (open_session db) = (Inr (), s') \<and> well_formed e (tx s')"
proof -
  note cols = assms(1) [unfolded documented_def]
  have num: "numeric e price = Some price" using column_types.num_exact [OF cols assms(4)] assms(5,6) by simp
  have vc: "varchar e 32 (upper symb) = Some (upper symb)"
    using column_types.txt_fits [OF cols] assms(3) by simp
  have "can_store (store_price e) \<lparr>m_symbol = upper symb, m_price = price, m_observed_at = observed_at\<rparr>"
    using num assms(5) by (auto simp: can_store_def store_price_eq_Inr price_checks_def)
  from price_upsert_ready [OF ready_open [OF assms(1,2)] vc this] obtain m applied s1 where
      u: "price_upsert e (upper symb) price observed_at (open_session db) = Inr ((m, applied), s1)" "ready e s1"
    by blast
  note st = price_upsert_steps [OF u(1) session_ok_open vc]
  have l: "loaded_positions s1 = Map.empty"
    using price_upsert_unloaded [OF u(1)] by (simp add: open_session_def)
  have "v_positions (view s1) k = v_positions (view (open_session db)) k" for k
    using steps_toD [OF conjunct2 [OF st] session_ok_open] by (simp add: price_view_def split: if_splits)
  then have rows: "row_of p_key k (positions (tx s1)) = row_of p_key k (positions db)" for k
    by (simp add: view_open unloaded_positions [OF l])
  have "\<exists>s2. apply_tick_body e symb price observed_at (open_session db) = Inr ((), s2) \<and> ready e s2"
  proof (cases applied)
    case True
    let ?rs = "filter (\<lambda>p. p_symbol p = upper symb) (positions (tx s1))"
    obtain ps s2 where r: "resolve_positions ?rs s1 = (ps, s2)" by (cases "resolve_positions ?rs s1")
    have d: "distinct (map p_key (positions (tx s1)))" using readyD(3) [OF u(2)] by (simp add: well_formed_defs)
    have own: "\<forall>r\<in>set ?rs. row_of p_key (p_key r) (positions (tx s1)) = Some r"
      using row_of_self [OF d] by simp
    note rp = resolve_positions_steps [OF r readyD(2) [OF u(2)] own, of e]
    have "map (\<lambda>r. v_positions (view s1) (p_key r)) ?rs = map Some ?rs"
      using own by (simp add: unloaded_positions [OF l])
    with rp have ps: "ps = ?rs" by (metis inj_Some map_injective)
    have "v_positions (view s2) (p_key p) = Some p \<and> can_store (store_position e) (marked price p)"
      if "p \<in> set ps" for p
    proof -
      have "row_of p_key (p_key p) (positions (tx s1)) = Some p" "p_symbol p = upper symb"
        using that own by (auto simp: ps)
      moreover from this have "row_of p_key (p_key p) (positions db) = Some p" using rows by simp
      ultimately show ?thesis
        using can_mark [OF assms(1) settledD(3) [OF well_formed_settled [OF assms(2)]] num assms(5)]
          assms(7) row_of_SomeD [of p_key "p_key p" "positions db" p]
          steps_toD [OF conjunct1 [OF rp] readyD(2) [OF u(2)]] unloaded_positions [OF l, of "p_key p"]
        by simp
    qed
    then have "ready e (mark_positions price ps s2)"
      using mark_positions_ready [OF resolve_positions_ready [OF r u(2) own]] by simp
    with u r True show ?thesis
      by (auto simp: apply_tick_body_def Let_def position_list_by_symbol_for_update_def)
  next
    case False
    with u show ?thesis by (auto simp: apply_tick_body_def Let_def)
  qed
  then obtain s2 where b: "apply_tick_body e symb price observed_at (open_session db) = Inr ((), s2)" "ready e s2"
    by blast
  from flush_ready [OF b(2)] obtain s3 where "flush e s2 = Inr s3" "ready e s3" by (auto simp: succeeds_def)
  with b(1) show ?thesis by (auto simp: apply_tick_def transaction_def dest: readyD(3))
qed

section \<open>Samples\<close>

definition sample_held :: database where
  "sample_held = sample_db\<lparr>positions := [sample_position]\<rparr>"

lemma sample_held_rows [simp]:
  "positions sample_held = [sample_position]" "market_prices sample_held = []"
  "row_of p_key (''A'', ''INFY'') [sample_position] = Some sample_position" "price_row sample_held k = None"
  by (simp_all add: sample_held_def row_of_Cons p_key_def sample_position_def)

lemma sample_held_well_formed [simp]: "well_formed sample_env sample_held"
proof -
  have "store_position sample_env sample_position = Inr sample_position"
    by (simp add: sample_store sample_position_def)
  then show ?thesis using sample_well_formed by (simp add: well_formed_defs sample_held_def)
qed

lemma upper_sample [simp]: "upper ''infy'' = ''INFY''"
  by code_simp

lemma sample_tick: "\<exists>s'. apply_tick sample_env ''infy'' 7 t (open_session sample_held) = (Inr (), s')"
  using apply_tick_returns [OF documented_sample sample_held_well_formed, of "''infy''" 7 t]
  by (auto simp: sample_position_def calculate_unrealized_pnl_def decimal_defs)

section \<open>Properties\<close>

text \<open>
  C17. A tick that is applied, for a symbol of at most 32 characters, at a price that is a multiple of
  \<open>10 ^ -8\<close>, and not older than the stored price, stores its price (the symbol in upper case)
  and marks every position in the symbol to it: last mark price and unrealized profit follow,
  while quantity, entry price and realized profit stay. Positions in other symbols, accounts,
  orders, fills and the audit log are untouched. (An older tick is dropped: it stores and marks
  nothing.)
\<close>

theorem tick_marks_positions:
  assumes "documented e" and "well_formed e db" and "length symb \<le> 32" and "on_grid 8 price"
    and "newer observed_at (price_row db (upper symb))"
    and "apply_tick e symb price observed_at (open_session db) = (Inr x, s')"
  shows "price_row (tx s') (upper symb) =
      Some \<lparr>m_symbol = upper symb, m_price = price, m_observed_at = observed_at\<rparr> \<and>
    (\<forall>aid p. position_row db aid (upper symb) = Some p \<longrightarrow>
      (\<exists>u. numeric e (calculate_unrealized_pnl (p_net_quantity p) (p_average_entry_price p) (Some price)) = Some u \<and>
        position_row (tx s') aid (upper symb) =
          Some (p\<lparr>p_last_mark_price := Some price, p_unrealized_pnl := u\<rparr>))) \<and>
    (\<forall>aid other. other \<noteq> upper symb \<longrightarrow> position_row (tx s') aid other = position_row db aid other) \<and>
    account_row (tx s') = account_row db \<and> order_row (tx s') = order_row db \<and>
    fills (tx s') = fills db \<and> order_events (tx s') = order_events db"
proof -
  let ?v = "marks_view {k. snd k = upper symb} price (price_view (upper symb) price observed_at (db_view db))"
  note w = well_formed_settled [OF assms(2)] and num = numeric_on_grid(1) [OF assms(1) _ assms(4)]
  have l: "leaves e ?v (tx s')"
    using apply_tick_leaves [OF assms(6,1,2,3)] assms(5) by (simp add: tick_view_def)
  have 1: "price_row (tx s') (upper symb) =
      Some \<lparr>m_symbol = upper symb, m_price = price, m_observed_at = observed_at\<rparr>"
    using leavesD(4) [OF l, of "upper symb"] num
    by (auto simp: marks_view_def price_view_def store_price_eq_Inr)
  have 2: "position_row (tx s') aid other = position_row db aid other" if "other \<noteq> upper symb" for aid other
    using that by (intro leaves_unchanged(3) [OF l w]) (simp add: marks_view_def price_view_def)
  have 3: "account_row (tx s') = account_row db \<and> order_row (tx s') = order_row db \<and>
      fills (tx s') = fills db \<and> order_events (tx s') = order_events db"
    using leaves_unchanged(1,2) [OF l w] leavesD(5,6) [OF l]
    by (simp add: marks_view_def price_view_def fun_eq_iff)
  note 4 = tick_marked_row [OF assms(1-4) assms(5,6)]
  show ?thesis using 1 2 3 4 by simp
qed

theorem tick_marks_positions_witness:
  "\<exists>s' p. apply_tick sample_env ''infy'' 7 3 (open_session sample_held) = (Inr (), s') \<and>
    position_row (tx s') ''A'' ''INFY'' = Some p \<and> p_unrealized_pnl p = 16 \<and> p_last_mark_price p = Some 7"
proof -
  obtain s' where run: "apply_tick sample_env ''infy'' 7 3 (open_session sample_held) = (Inr (), s')"
    using sample_tick by blast
  have nw: "newer 3 (price_row sample_held (upper ''infy''))" by (simp add: newer_def)
  have "\<forall>aid p. position_row sample_held aid (upper ''infy'') = Some p \<longrightarrow>
      (\<exists>u. numeric sample_env (calculate_unrealized_pnl (p_net_quantity p) (p_average_entry_price p) (Some 7)) = Some u \<and>
        position_row (tx s') aid (upper ''infy'') = Some (p\<lparr>p_last_mark_price := Some 7, p_unrealized_pnl := u\<rparr>))"
    using tick_marks_positions [OF documented_sample sample_held_well_formed _ _ nw run] by simp
  from this [THEN spec, THEN spec, of "''A''" sample_position]
  have "\<exists>u. pg_numeric 16 = Some u \<and> position_row (tx s') ''A'' ''INFY'' =
      Some (sample_position\<lparr>p_last_mark_price := Some 7, p_unrealized_pnl := u\<rparr>)"
    by (simp add: sample_position_def [THEN arg_cong, of p_net_quantity]
        sample_position_def [THEN arg_cong, of p_average_entry_price] calculate_unrealized_pnl_def decimal_defs)
  with run show ?thesis by auto
qed

text \<open>
  The stored price never goes back in time: after a tick the stored observation is the
  latest of the tick's and the one before, and a tick older than the stored price changes nothing.
\<close>

theorem tick_keeps_latest:
  assumes "documented e" and "well_formed e db" and "length symb \<le> 32"
    and "apply_tick e symb price observed_at (open_session db) = (Inr x, s')"
  shows "\<exists>m. price_row (tx s') (upper symb) = Some m \<and>
    m_observed_at m = (case price_row db (upper symb) of None \<Rightarrow> observed_at
                       | Some old \<Rightarrow> max observed_at (m_observed_at old)) \<and>
    (\<not> newer observed_at (price_row db (upper symb)) \<longrightarrow>
       price_row (tx s') = price_row db \<and> (\<forall>aid other. position_row (tx s') aid other = position_row db aid other))"
proof -
  note w = well_formed_settled [OF assms(2)]
  have l: "leaves e (tick_view (upper symb) price observed_at (db_view db)) (tx s')"
    by (rule apply_tick_leaves [OF assms(4,1,2,3)])
  show ?thesis
  proof (cases "newer observed_at (price_row db (upper symb))")
    case True
    then have "stored_as (store_price e)
        (Some \<lparr>m_symbol = upper symb, m_price = price, m_observed_at = observed_at\<rparr>)
        (price_row (tx s') (upper symb))"
      using leavesD(4) [OF l, of "upper symb"] by (simp add: tick_view_def marks_view_def price_view_def)
    with True show ?thesis
      by (auto simp: store_price_eq_Inr newer_def max_def split: option.splits)
  next
    case False
    then have "leaves e (db_view db) (tx s')" using l by (simp add: tick_view_def)
    from leaves_unchanged(3,4) [OF this w] False show ?thesis
      by (auto simp: newer_def max_def fun_eq_iff split: option.splits)
  qed
qed

theorem tick_keeps_latest_witness:
  "\<exists>s' m. apply_tick sample_env ''infy'' 7 3 (open_session sample_held) = (Inr (), s') \<and>
    price_row (tx s') ''INFY'' = Some m \<and> m_observed_at m = 3"
proof -
  obtain s' where run: "apply_tick sample_env ''infy'' 7 3 (open_session sample_held) = (Inr (), s')"
    using sample_tick by blast
  from tick_keeps_latest [OF documented_sample sample_held_well_formed _ run] run show ?thesis by auto
qed

end
