(* ===== verification/Account_Service.thy ===== *)
theory Account_Service
  imports Samples Schemas
begin

text \<open>
  \<open>app/services/account_service.py\<close>: opening an account and looking one up. Every violation of a
  constraint during \<open>create_account\<close> is reported as \<open>DuplicateAccount\<close>, which is how two
  concurrent requests for the same user are told apart from each other.
\<close>

section \<open>Operations\<close>

definition new_account :: "env \<Rightarrow> account_create \<Rightarrow> account" where
  "new_account e payload =
     \<lparr>a_id = new_uuid e, a_user_id = ac_user_id payload, a_currency = ac_currency payload,
      a_cash_balance = ac_initial_cash_balance payload, a_reserved_cash = 0, a_version = 1\<rparr>"

definition create_account_body ::
  "env \<Rightarrow> account_create \<Rightarrow> session \<Rightarrow> oms_error + account \<times> session" where
  "create_account_body e payload s =
     and_then (account_get_by_user_id (ac_user_id payload) s) (\<lambda>(existing, s).
     if existing \<noteq> None then Inl (DuplicateAccount (ac_user_id payload))
     else and_then (account_add e (new_account e payload) s) (\<lambda>s.
          Inr (new_account e payload, s)))"

definition create_account ::
  "env \<Rightarrow> account_create \<Rightarrow> session \<Rightarrow> (oms_error + account) \<times> session" where
  "create_account e payload s =
     (case transaction e (create_account_body e payload) s of
        (Inl (IntegrityError name), s) \<Rightarrow> (Inl (DuplicateAccount (ac_user_id payload)), s)
      | r \<Rightarrow> r)"

definition get_account :: "uuid \<Rightarrow> session \<Rightarrow> oms_error + account \<times> session" where
  "get_account account_id s =
     and_then (account_get_by_id account_id s) (\<lambda>(found, s).
     case found of None \<Rightarrow> Inl (AccountNotFound account_id) | Some a \<Rightarrow> Inr (a, s))"

section \<open>Lemmas\<close>

lemma new_account_simps [simp]:
  "a_id (new_account e payload) = new_uuid e" "a_user_id (new_account e payload) = ac_user_id payload"
  "a_cash_balance (new_account e payload) = ac_initial_cash_balance payload"
  "a_reserved_cash (new_account e payload) = 0"
  by (simp_all add: new_account_def)

lemma valid_account_stored:
  assumes "documented e" and "validate_account_create raw = Some payload"
    and "ac_initial_cash_balance payload < 10 ^ 16"
  shows "store_account e (new_account e payload) = Inr (new_account e payload)"
proof -
  have v: "length (ac_user_id payload) \<le> 100" "length (ac_currency payload) \<le> 3"
      "0 < ac_initial_cash_balance payload" "on_grid 8 (ac_initial_cash_balance payload)"
    using assms(2) by (auto simp: validate_account_create_def split: if_splits)
  have "numeric e (ac_initial_cash_balance payload) = Some (ac_initial_cash_balance payload)"
    "numeric e 0 = Some 0"
    using column_types.num_exact [OF assms(1) [unfolded documented_def]] v(3,4) assms(3) by simp_all
  moreover have "varchar e 100 (ac_user_id payload) = Some (ac_user_id payload)"
    "varchar e 3 (ac_currency payload) = Some (ac_currency payload)"
    using column_types.txt_fits [OF assms(1) [unfolded documented_def]] v(1,2) by simp_all
  ultimately show ?thesis using v(3) by (simp add: store_account_eq_Inr new_account_def account_checks_def)
qed

lemma well_formed_new_account:
  assumes "well_formed e db" and "store_account e a = Inr a" and "account_row db (a_id a) = None"
  shows "well_formed e (db\<lparr>accounts := accounts db @ [a]\<rparr>)"
  using assms by (auto simp: well_formed_defs row_of_None_iff)

lemma user_unknown:
  assumes "\<forall>a\<in>set (accounts db). a_user_id a \<noteq> user"
  shows "account_get_by_user_id user (open_session db) = Inr (None, open_session db)"
  using assms by (simp add: account_get_by_user_id_def select_account_def select_one_None_iff [THEN iffD2])

lemma account_add_fresh:
  assumes "store_account e a = Inr a" and "account_row db (a_id a) = None"
    and "\<forall>b\<in>set (accounts db). a_user_id b \<noteq> a_user_id a"
  shows "account_add e a (open_session db) =
    Inr (set_account a (open_session (db\<lparr>accounts := accounts db @ [a]\<rparr>)))"
  using assms by (auto simp: account_add_def flush_def open_session_def insert_account_def
      unique_constraint_def check_constraint_def ensure_def row_of_None_iff set_account_def)

lemma create_account_new_user:
  assumes "documented e" and "well_formed e db" and "validate_account_create raw = Some payload"
    and "ac_initial_cash_balance payload < 10 ^ 16" and "account_row db (new_uuid e) = None"
    and "\<forall>a\<in>set (accounts db). a_user_id a \<noteq> ac_user_id payload"
  shows "\<exists>s'. create_account e payload (open_session db) = (Inr (new_account e payload), s') \<and>
    tx s' = db\<lparr>accounts := accounts db @ [new_account e payload]\<rparr> \<and> well_formed e (tx s')"
proof -
  let ?a = "new_account e payload" and ?db = "db\<lparr>accounts := accounts db @ [new_account e payload]\<rparr>"
  note st = valid_account_stored [OF assms(1,3,4)]
  have wf: "well_formed e ?db" using well_formed_new_account [OF assms(2) st] assms(5) by simp
  have "account_row ?db (new_uuid e) = Some ?a"
    using assms(5) by (simp add: row_of_append row_of_Cons)
  then have "flush e (set_account ?a (open_session ?db)) = Inr (set_account ?a (open_session ?db))"
    by (intro flush_read_only [OF wf]) (auto simp: set_account_def open_session_def)
  then have "create_account e payload (open_session db) = (Inr ?a, set_account ?a (open_session ?db))"
    using user_unknown [OF assms(6)] account_add_fresh [OF st, of db] assms(5,6)
    by (simp add: create_account_def transaction_def create_account_body_def)
  with wf show ?thesis by simp
qed

section \<open>Properties\<close>

text \<open>
  Opening an account: a validated request for a new user, with an initial balance below
  \<open>10 ^ 16\<close>, returns an account that holds exactly that balance with nothing reserved, so that
  all of it is available; the database gains exactly that row.
\<close>

theorem create_account_opens:
  assumes "documented e" and "well_formed e db" and "validate_account_create raw = Some payload"
    and "ac_initial_cash_balance payload < 10 ^ 16" and "account_row db (new_uuid e) = None"
    and "\<forall>a\<in>set (accounts db). a_user_id a \<noteq> ac_user_id payload"
  shows "\<exists>a s'. create_account e payload (open_session db) = (Inr a, s') \<and>
    tx s' = db\<lparr>accounts := accounts db @ [a]\<rparr> \<and> well_formed e (tx s') \<and>
    a_user_id a = ac_user_id payload \<and> a_cash_balance a = ac_initial_cash_balance raw \<and>
    available_cash a = ac_initial_cash_balance raw"
proof -
  let ?a = "new_account e payload" and ?c = "ac_initial_cash_balance payload"
  have c: "?c = ac_initial_cash_balance raw" "0 < ?c" "on_grid 8 ?c"
    using assms(3) by (auto simp: validate_account_create_def split: if_splits)
  have "available_cash ?a = ?c" using c(2,3) assms(4) by (simp add: available_cash_def dsub_cents)
  moreover from create_account_new_user [OF assms] obtain s' where
      "create_account e payload (open_session db) = (Inr ?a, s')"
      "tx s' = db\<lparr>accounts := accounts db @ [?a]\<rparr>" "well_formed e (tx s')" by blast
  ultimately show ?thesis using c(1) by (intro exI [of _ ?a] exI [of _ s']) simp
qed

theorem create_account_opens_witness:
  "\<exists>a s'. create_account sample_env \<lparr>ac_user_id = ''bob'', ac_initial_cash_balance = 5, ac_currency = ''INR''\<rparr>
      (open_session empty_db) = (Inr a, s') \<and> available_cash a = 5"
proof -
  let ?p = "\<lparr>ac_user_id = ''bob'', ac_initial_cash_balance = 5, ac_currency = ''inr''\<rparr>"
  have "upper ''inr'' = ''INR''" by code_simp
  then have "validate_account_create ?p = Some (?p\<lparr>ac_currency := ''INR''\<rparr>)"
    by (simp add: validate_account_create_def)
  from create_account_opens [OF documented_sample well_formed_empty this]
  show ?thesis by (auto simp: empty_db_def)
qed

text \<open>
  A second account for the same user is refused with \<open>DuplicateAccount\<close>, and nothing is stored.
\<close>

theorem create_account_refuses_duplicate:
  assumes "distinct (map a_user_id (accounts db))"
    and "\<exists>a\<in>set (accounts db). a_user_id a = ac_user_id payload"
  shows "create_account e payload (open_session db) =
    (Inl (DuplicateAccount (ac_user_id payload)), open_session db)"
proof -
  obtain a where a: "a \<in> set (accounts db)" "a_user_id a = ac_user_id payload" using assms(2) by blast
  have "select_one MultipleResultsFound (\<lambda>r. a_user_id r = ac_user_id payload) (accounts db) =
      Inr (row_of a_user_id (ac_user_id payload) (accounts db))"
    by (rule select_one_key [OF assms(1)])
  also have "row_of a_user_id (ac_user_id payload) (accounts db) = Some a"
    using row_of_self [OF assms(1) a(1)] a(2) by simp
  finally show ?thesis
    by (simp add: create_account_def transaction_def create_account_body_def
        account_get_by_user_id_def select_account_def split: prod.split)
qed

theorem create_account_refuses_duplicate_witness:
  "fst (create_account sample_env
      \<lparr>ac_user_id = a_user_id sample_account, ac_initial_cash_balance = 5, ac_currency = ''INR''\<rparr>
      (open_session sample_db)) = Inl (DuplicateAccount (a_user_id sample_account))"
  by (subst create_account_refuses_duplicate) (simp_all add: sample_db_def)

end
