(* ===== verification/Ledger_Steps.thy ===== *)
theory Ledger_Steps
  imports Ledger Routing_Failure Cancellation_Effects Market_Data_Service Account_Service
begin

text \<open>
  Every operation of the services keeps the books consistent: opening an account, placing an order
  (accepted, rejected, or refused by the broker), requesting a cancellation, applying a tick, and
  processing a broker event.
\<close>

section \<open>From what a commit leaves to what is booked\<close>

text \<open>A position keeps its net quantity when it is stored.\<close>

lemma stored_net_quantity:
  assumes "documented e" and "store_position e p = Inr r" and "on_grid 8 (p_net_quantity p)"
  shows "p_net_quantity r = p_net_quantity p"
  using numeric_on_grid(1) [OF assms(1) store_positionD(4) [OF assms(2)] assms(3)] .

lemma net_quantity_kept:
  assumes "leaves e v db'" and "settled e db" and "v_positions v (aid, symb) = position_row db aid symb"
  shows "net_quantity_of db' aid symb = net_quantity_of db aid symb"
  using leaves_unchanged(3) [OF assms] by (simp add: net_quantity_of_def)

lemma leaves_booked:
  assumes "leaves e v db'" and "settled e db"
    and "v_orders v = (order_row db)(o_id ord \<mapsto> ord)" and "v_accounts v = (account_row db)(a_id a \<mapsto> a)"
    and "v_events v = order_events db @ evs" and "v_fills v = fills db" and "v_positions v = v_positions (db_view db)"
    and "store_order e ord = Inr ord" and "store_account e a = Inr a"
  shows "booked db ord a [] evs db'"
  unfolding booked_def
  using leaves_orders [OF assms(1-3,8)] leaves_accounts [OF assms(1,2,4,9)] leavesD(5,6) [OF assms(1)] assms(5-7)
    net_quantity_kept [OF assms(1,2)]
  by simp

text \<open>A commit that leaves the view of the database it began with.\<close>

lemma leaves_same_consistent:
  assumes "consistent e db" and "well_formed e db'" and "leaves e v db'" and "v_orders v = order_row db"
    and "v_accounts v = account_row db" and "v_fills v = fills db" and "v_events v = order_events db"
    and "\<And>aid symb. net_quantity_of db' aid symb = net_quantity_of db aid symb"
  shows "consistent e db'"
proof (rule same_orders_consistent [OF assms(1,2)])
  note w = consistentD(2) [OF assms(1)]
  show "order_row db' = order_row db"
    using leaves_unchanged(2) [OF assms(3) w] fun_cong [OF assms(4)] by (intro ext) simp
  have a: "account_row db' aid = account_row db aid" for aid
    using leaves_unchanged(1) [OF assms(3) w] fun_cong [OF assms(5)] by simp
  show "account_row db' aid = account_row db aid" if "account_row db aid \<noteq> None" for aid by (rule a)
  show "a_reserved_cash r = 0" if "account_row db aid = None" "account_row db' aid = Some r" for aid r
    using a [of aid] that by simp
  show "fills db' = fills db" "order_events db' = order_events db"
    using leavesD(5,6) [OF assms(3)] assms(6,7) by simp_all
  show "net_quantity_of db' aid symb = net_quantity_of db aid symb" for aid symb by (rule assms(8))
  have d: "distinct (map a_id (accounts db))" "distinct (map a_id (accounts db'))"
    using consistentD(3) [OF assms(1)] assms(2) by (simp_all add: keys_distinct_def well_formed_def)
  show "distinct (map a_user_id (accounts db'))"
    using distinct_rows_same [OF d a, of a_user_id] consistentD(4) [OF assms(1)] by (simp add: keys_unique_def)
qed

section \<open>Opening an account\<close>

lemma create_account_body_steps:
  assumes "create_account_body e payload (open_session db) = Inr (a, s)"
  shows "a = new_account e payload \<and> account_row db (new_uuid e) = None \<and>
    (\<forall>r\<in>set (accounts db). a_user_id r \<noteq> ac_user_id payload) \<and>
    steps_to e (open_session db) (\<lambda>v. v\<lparr>v_accounts := (v_accounts v)(new_uuid e \<mapsto> new_account e payload)\<rparr>) s"
proof -
  obtain existing s1 where g: "account_get_by_user_id (ac_user_id payload) (open_session db) = Inr (existing, s1)"
    using assms by (cases "account_get_by_user_id (ac_user_id payload) (open_session db)")
      (auto simp: create_account_body_def simp del: and_then_eq_Inr)
  have "existing = None"
    using assms by (cases existing) (simp_all add: create_account_body_def g)
  with g assms have s1: "account_get_by_user_id (ac_user_id payload) (open_session db) = Inr (None, s1)"
      "account_add e (new_account e payload) s1 = Inr s" "a = new_account e payload"
    by (auto simp: create_account_body_def)
  have none: "s' = t \<and> (\<forall>r\<in>set (accounts (tx t)). \<not> P r)" if "select_account P t = Inr (None, s')" for P t s'
    using that by (simp add: select_account_def select_one_None_iff split: option.splits prod.splits)
  from s1(1) have "s1 = open_session db \<and> (\<forall>r\<in>set (accounts (tx (open_session db))). a_user_id r \<noteq> ac_user_id payload)"
    unfolding account_get_by_user_id_def by (rule none)
  with s1(2) have new: "account_add e (new_account e payload) (open_session db) = Inr s"
      "\<forall>r\<in>set (accounts db). a_user_id r \<noteq> ac_user_id payload" by simp_all
  have v: "v_accounts (view (open_session db)) = account_row db" by (simp add: view_open)
  from account_add_steps [OF new(1) session_ok_open] s1(3) new(2) show ?thesis unfolding v by simp
qed

lemma create_account_consistent:
  assumes "consistent e db" and "documented e" and "length (ac_user_id payload) \<le> 100"
  shows "consistent e (tx (snd (create_account e payload (open_session db))))"
proof -
  note c = consistentD [OF assms(1)]
  obtain r s' where t: "transaction e (create_account_body e payload) (open_session db) = (r, s')"
    by (cases "transaction e (create_account_body e payload) (open_session db)")
  have tx: "tx (snd (create_account e payload (open_session db))) = tx s'"
    by (simp add: create_account_def t split: sum.split oms_error.split)
  show ?thesis
  proof (cases r)
    case (Inl err)
    with t have "tx s' = db" by (auto dest: transaction_rollback)
    with tx assms(1) show ?thesis by simp
  next
    case (Inr a)
    let ?a = "new_account e payload"
    let ?f = "\<lambda>v. v\<lparr>v_accounts := (v_accounts v)(new_uuid e \<mapsto> ?a)\<rparr>"
    from t Inr obtain s where "create_account_body e payload (open_session db) = Inr (a, s)"
      by (auto simp: transaction_Inr)
    from create_account_body_steps [OF this] have fresh: "account_row db (new_uuid e) = None"
        "\<forall>r\<in>set (accounts db). a_user_id r \<noteq> ac_user_id payload" by simp_all
    have l: "leaves e (?f (db_view db)) (tx s')"
    proof (rule transaction_leaves [OF _ c(2)])
      show "transaction e (create_account_body e payload) (open_session db) = (Inr a, s')" using t Inr by simp
      show "steps_to e (open_session db) ?f s1" if "create_account_body e payload (open_session db) = Inr (a, s1)" for s1
        using create_account_body_steps [OF that] by simp
    qed
    have wf: "well_formed e (tx s')"
      using t session_ok_open assms(2)
    proof (rule transaction_well_formed)
      fix x s1 assume "create_account_body e payload (open_session db) = Inr (x, s1)"
      from create_account_body_steps [OF this] show "\<exists>f. steps_to e (open_session db) f s1" by blast
    qed (use c(1) in simp)
    from leavesD(1) [OF l, of "new_uuid e"] obtain b where b: "store_account e ?a = Inr b" by auto
    have rows: "account_row (tx s') = (account_row db)(new_uuid e \<mapsto> b)"
      by (rule leaves_accounts [OF l c(2) _ b]) simp
    note row = fun_cong [OF rows]
    note d = store_accountD [OF b]
    have reserved: "a_reserved_cash b = 0" using d(4) numeric_on_grid(1) [OF assms(2)] by simp
    have user: "a_user_id b = ac_user_id payload" using d(5) fits_text [OF assms(2,3)] by simp
    have "consistent e (tx s')"
    proof (rule same_orders_consistent [OF assms(1) wf])
      show "order_row (tx s') = order_row db" using leaves_unchanged(2) [OF l c(2)] by simp
      show "fills (tx s') = fills db" "order_events (tx s') = order_events db" using leavesD(5,6) [OF l] by simp_all
      show "account_row (tx s') aid = account_row db aid" if "account_row db aid \<noteq> None" for aid
        using that fresh(1) row [of aid] by auto
      show "a_reserved_cash r = 0" if "account_row db aid = None" "account_row (tx s') aid = Some r" for aid r
        using that row [of aid] reserved by (auto split: if_splits)
      show "net_quantity_of (tx s') aid symb = net_quantity_of db aid symb" for aid symb
        by (rule net_quantity_kept [OF l c(2)]) simp
      show "distinct (map a_user_id (accounts (tx s')))"
      proof (rule distinct_rows_update)
        show "distinct (map a_id (accounts db))" "distinct (map a_id (accounts (tx s')))"
          "distinct (map a_user_id (accounts db))"
          using c(3,4) wf by (simp_all add: keys_distinct_def well_formed_def keys_unique_def)
        show "account_row (tx s') j = (if j = new_uuid e then Some b else account_row db j)" for j
          using row [of j] by simp
        show "case account_row db (new_uuid e) of None \<Rightarrow> \<forall>r\<in>set (accounts db). a_user_id r \<noteq> a_user_id b
            | Some r \<Rightarrow> a_user_id r = a_user_id b"
          using fresh by (simp add: user)
      qed
    qed
    with tx show ?thesis by simp
  qed
qed

section \<open>Ticks\<close>

lemma apply_tick_consistent:
  assumes "consistent e db" and "documented e" and "length symb \<le> 32"
  shows "consistent e (tx (snd (apply_tick e symb price observed_at (open_session db))))"
proof -
  note c = consistentD [OF assms(1)]
  obtain r s' where t: "apply_tick e symb price observed_at (open_session db) = (r, s')"
    by (cases "apply_tick e symb price observed_at (open_session db)")
  show ?thesis
  proof (cases r)
    case (Inl err)
    with t have "tx s' = db" by (auto simp: apply_tick_def dest: transaction_rollback)
    with t assms(1) show ?thesis by simp
  next
    case (Inr u)
    let ?v = "tick_view (upper symb) price observed_at (db_view db)"
    from t Inr have l: "leaves e ?v (tx s')"
      by (intro apply_tick_leaves [OF _ assms(2) c(1) assms(3)]) simp
    have wf: "well_formed e (tx s')"
      using t [unfolded apply_tick_def] session_ok_open assms(2)
      by (rule transaction_well_formed) (use c(1) apply_tick_body_steps [OF _ assms(2) c(1) assms(3)] in auto)
    have "net_quantity_of (tx s') aid sy = net_quantity_of db aid sy" for aid sy
    proof (cases "position_row db aid sy")
      case None
      then have "v_positions ?v (aid, sy) = None" by (auto simp: tick_view_def marks_view_def price_view_def)
      with leavesD(3) [OF l, of aid sy] None show ?thesis by (simp add: net_quantity_of_def)
    next
      case (Some p)
      then obtain p' where p': "v_positions ?v (aid, sy) = Some p'" "p_net_quantity p' = p_net_quantity p"
        by (cases "newer observed_at (v_prices (db_view db) (upper symb))"; cases "sy = upper symb")
          (auto simp: tick_view_def marks_view_def price_view_def)
      with leavesD(3) [OF l, of aid sy] obtain r where r: "store_position e p' = Inr r"
          "position_row (tx s') aid sy = Some r" by auto
      have "on_grid 8 (p_net_quantity p')"
        using settled_position(1) [OF assms(2) settledD(3) [OF c(2) Some]] p'(2) by simp
      from stored_net_quantity [OF assms(2) r(1) this] r(2) p'(2) Some show ?thesis
        by (simp add: net_quantity_of_def)
    qed
    then have "consistent e (tx s')"
      by (rule leaves_same_consistent [OF assms(1) wf l, rotated 4])
        (simp_all add: tick_view_def marks_view_def price_view_def)
    with t show ?thesis by simp
  qed
qed

section \<open>Cancellation requests\<close>

lemma status_fits_open:
  "status_fits ord \<Longrightarrow> o_status ord \<in> CANCELLABLE_ORDER_STATUSES \<Longrightarrow>
     status_fits (moved ord CANCEL_PENDING) \<and> commitment (moved ord CANCEL_PENDING) = commitment ord"
  by (auto simp: status_fits_def commitment_def status_sets)

lemma request_cancellation_consistent:
  assumes "consistent e db" and "documented e"
  shows "consistent e (tx (snd (request_cancellation e cancel oid reason (open_session db))))"
proof -
  note c = consistentD [OF assms(1)]
  consider (unknown) "order_row db oid = None"
    | (pending) ord where "order_row db oid = Some ord" "o_status ord = CANCEL_PENDING"
    | (refused) ord where "order_row db oid = Some ord" "o_status ord \<notin> CANCELLABLE_ORDER_STATUSES"
        "o_status ord \<noteq> CANCEL_PENDING"
    | (accepted) ord where "order_row db oid = Some ord" "o_status ord \<in> CANCELLABLE_ORDER_STATUSES"
    by (cases "order_row db oid") auto
  then show ?thesis
  proof cases
    case unknown
    with request_cancellation_refused(1) [OF c(1)] assms(1) show ?thesis by simp
  next
    case pending
    with request_cancellation_refused(3) [OF c(1)] assms(1) show ?thesis by simp
  next
    case refused
    with request_cancellation_refused(2) [OF c(1)] assms(1) show ?thesis by simp
  next
    case (accepted ord)
    let ?ord = "moved ord CANCEL_PENDING"
    let ?au = "audit e ord CANCEL_REQUESTED (Some (o_status ord)) (Some CANCEL_PENDING) [(''reason'', JText reason)]"
    note b = c(5) [OF accepted(1), unfolded order_booked_def]
    have oid: "o_id ord = oid" using row_of_SomeD [OF accepted(1)] by simp
    obtain a where a: "account_row db (o_account_id ord) = Some a" using b by auto
    then have aid: "a_id a = o_account_id ord" using row_of_SomeD [OF a] by simp
    obtain s' where s': "snd (request_cancellation e cancel oid reason (open_session db)) = s'"
        "leaves e (cancel_requested_view e ord reason (db_view db)) (tx s')" "well_formed e (tx s')"
      using request_cancellation_accepted [OF assms(2) c(1) accepted, of cancel reason] by (auto split: option.splits)
    have so: "store_order e ?ord = Inr ?ord"
      using store_order_status [where st = CANCEL_PENDING and n = "o_version ord + 1" and e = e and ord = ord and r = ord]
        settledD(2) [OF c(2) accepted(1)] by (simp add: moved_def)
    have "booked db ?ord a [] [?au] (tx s')"
      using settledD(1) [OF c(2) a] so a aid
      by (intro leaves_booked [OF s'(2) c(2)]) (simp_all add: cancel_requested_view_def fun_upd_idem)
    moreover have "CANCEL_PENDING \<in> ALLOWED_TRANSITIONS (o_status ord)" using accepted(2) by (auto simp: cancellable_iff)
    then have "balanced (order_row db (o_id ?ord)) ?ord a a [] [?au]"
      using b accepted aid oid status_fits_open [of ord]
      by (auto simp: balanced_def change_allowed_def)
    ultimately have "consistent e (tx s')"
      using booked_consistent [OF assms(1) s'(3), of ?ord a "[]" "[?au]" a] a accepted(1) oid by simp
    with s'(1) show ?thesis by simp
  qed
qed

section \<open>Orders\<close>

lemma new_order_keys:
  assumes "new_request payload db"
  shows "new_keys db (rejected_order e payload)" "new_keys db (routed_order e payload)"
    "new_keys db (routing_failed reason (routed_order e payload))"
  using assms
  by (auto simp: new_keys_def new_request_def request_keys_def client_keys_def rejected_order_def routed_order_def
      routing_failed_def moved_def)

lemma reserved_for_user [simp]: "a_user_id (reserved_for payload a) = a_user_id a"
  by (simp add: reserved_for_def)

lemma rejected_consistent:
  assumes "consistent e db" and "well_formed e db'" and "account_row db (oc_account_id payload) = Some a"
    and "new_request payload db" and "order_row db (new_uuid e) = None" and "store_order e (rejected_order e payload) = Inr (rejected_order e payload)"
    and "leaves e (rejected_view e payload (db_view db)) db'" and "on_grid 8 (oc_quantity payload * oc_price payload)"
  shows "consistent e db'"
proof (rule booked_consistent [OF assms(1,2)])
  note c = consistentD [OF assms(1)] and k = row_of_SomeD [OF assms(3)]
  let ?evs = "[created_event e payload, audit e (new_order e payload) VALIDATION_FAILED (Some NEW) (Some REJECTED)
    [(''reason'', JText (message InsufficientBuyingPower))]]"
  show "booked db (rejected_order e payload) a [] ?evs db'"
    using settledD(1) [OF c(2) assms(3)] assms(3,6) k
    by (intro leaves_booked [OF assms(7) c(2)]) (simp_all add: rejected_view_def fun_upd_idem)
  show "balanced (order_row db (o_id (rejected_order e payload))) (rejected_order e payload) a a [] ?evs"
    using assms(5,8) k
    by (simp add: balanced_def commitment_def status_fits_def status_sets change_allowed_def created_event_def)
qed (use assms(3) new_order_keys [OF assms(4)] in simp_all)


lemma routed_consistent:
  assumes "consistent e db" and "well_formed e db'" and "account_row db (oc_account_id payload) = Some a"
    and "new_request payload db" and "order_row db (new_uuid e) = None" and "store_order e (routed_order e payload) = Inr (routed_order e payload)"
    and "leaves e (routed_view e payload a (db_view db)) db'"
    and "store_account e (reserved_for payload a) = Inr (reserved_for payload a)"
    and "a_reserved_cash (reserved_for payload a) = a_reserved_cash a + notional_of payload"
    and "0 < oc_quantity payload" and "on_grid 8 (oc_quantity payload * oc_price payload)"
  shows "consistent e db'"
proof (rule booked_consistent [OF assms(1,2)])
  note c = consistentD [OF assms(1)] and k = row_of_SomeD [OF assms(3)]
  let ?evs = "[created_event e payload, audit e (new_order e payload) ORDER_VALIDATED (Some NEW) (Some VALIDATED) [],
    audit e (new_order e payload) ORDER_ROUTED (Some VALIDATED) (Some ROUTED) []]"
  show "booked db (routed_order e payload) (reserved_for payload a) [] ?evs db'"
    using assms(6,8) by (intro leaves_booked [OF assms(7) c(2)]) (simp_all add: routed_view_def)
  show "balanced (order_row db (o_id (routed_order e payload))) (routed_order e payload) a (reserved_for payload a) [] ?evs"
    using assms(5,9-11) k
    by (simp add: balanced_def commitment_def notional_of_def status_fits_def status_sets change_allowed_def created_event_def)
qed (use assms(3) new_order_keys [OF assms(4)] in simp_all)

lemma in_replace_row: "x \<in> set (replace_row key k y rows) \<Longrightarrow> x = y \<or> x \<in> set rows"
  by (auto simp: replace_row_def split: if_splits)

lemma well_formed_replace:
  assumes "well_formed e db" and "store_account e r = Inr r" and "a_id r = aid"
    and "store_order e q = Inr q" and "o_id q = oid"
  shows "well_formed e (db\<lparr>accounts := replace_row a_id aid r (accounts db),
    orders := replace_row o_id oid q (orders db), order_events := evs\<rparr>)" (is "well_formed e ?db'")
proof -
  have s: "settled e db" "keys_distinct db" using assms(1) by (simp_all add: well_formed_def)
  have "store_account e x = Inr x" if "x \<in> set (replace_row a_id aid r (accounts db))" for x
    using in_replace_row [OF that] s(1) assms(2) by (auto simp: settled_def)
  moreover have "store_order e x = Inr x" if "x \<in> set (replace_row o_id oid q (orders db))" for x
    using in_replace_row [OF that] s(1) assms(4) by (auto simp: settled_def)
  ultimately have "settled e ?db'" using s(1) by (simp add: settled_def)
  moreover have "keys_distinct ?db'" using s(2) assms(3,5) by (simp add: keys_distinct_def)
  ultimately show ?thesis by (simp add: well_formed_def)
qed

lemma routing_failed_consistent:
  assumes "consistent e db" and "documented e" and "valid_request payload"
    and "account_row db (oc_account_id payload) = Some a" and "on_grid 8 (oc_quantity payload * oc_price payload)"
    and t: "transaction e (create_order_body e payload) (open_session db) = (Inr (ord, True), s1)"
    and "submit (broker_order_of (routed_order e payload)) = Some reason" and "length reason \<le> 477"
  shows "consistent e (tx (snd (create_order e submit (\<lambda>d. d) payload (open_session db))))"
proof -
  let ?ord = "routed_order e payload" and ?R = "reserved_for payload a"
  let ?q = "routing_failed reason ?ord" and ?F = "failed_account payload a (a_reserved_cash ?R) (a_version ?R)"
  let ?evs = "[created_event e payload, audit e (new_order e payload) ORDER_VALIDATED (Some NEW) (Some VALIDATED) [],
    audit e (new_order e payload) ORDER_ROUTED (Some VALIDATED) (Some ROUTED) [], routing_failed_event e reason ?ord]"
  note c = consistentD [OF assms(1)] and k = row_of_SomeD [OF assms(4)]
  have g: "on_grid 8 (notional_of payload)" using assms(5) by (simp add: notional_of_def)
  note rt = routed_transaction [OF assms(2) c(1) assms(3,4) g t]
  have sa: "store_account e a = Inr a" by (rule settledD(1) [OF c(2) assms(4)])
  note sc = settled_account [OF assms(2) sa]
  note r = reserved_for_exact [OF assms(2) sa assms(3) g rt(3)]
  note sR = settled_account [OF assms(2) r(3)]
  have rows: "order_row (tx s1) (new_uuid e) = Some ?ord"
      "account_row (tx s1) (oc_account_id payload) = Some (?R\<lparr>a_reserved_cash := a_reserved_cash ?R, a_version := a_version ?R\<rparr>)"
    using fun_cong [OF rt(7), of "new_uuid e"] fun_cong [OF rt(8), of "oc_account_id payload"] by simp_all
  have kd: "keys_distinct (tx s1)" using rt(6) by (simp add: well_formed_def)
  note tables = routing_failure_tables [where submit = submit and meanwhile = "\<lambda>d. d", OF assms(2) c(1) assms(3,4) g t assms(7,8)
      sR(2,4) sR(5) [unfolded r(2)] kd rows]
  from tables(1) obtain s2 where s2: "create_order e submit (\<lambda>d. d) payload (open_session db) = (Inl BrokerUnavailable, s2)"
    "tx s2 = (tx s1)\<lparr>accounts := replace_row a_id (oc_account_id payload) ?F (accounts (tx s1)),
      orders := replace_row o_id (new_uuid e) ?q (orders (tx s1)),
      order_events := order_events (tx s1) @ [routing_failed_event e reason ?ord]\<rparr>" by blast
  have ids: "a_id ?F = oc_account_id payload" using k by (simp add: failed_account_def)
  have wf: "well_formed e (tx s2)"
    unfolding s2(2) using rt(6) tables(2) ids tables(3) by (rule well_formed_replace) simp
  have "consistent e (tx s2)"
  proof (rule booked_consistent [OF assms(1) wf])
    have "order_row (tx s2) oid = ((order_row db)(o_id ?q \<mapsto> ?q)) oid" for oid
      using rows(1) fun_cong [OF rt(7), of oid] by (simp add: s2(2) row_of_replace)
    moreover have "account_row (tx s2) aid = ((account_row db)(a_id ?F \<mapsto> ?F)) aid" for aid
      using rows(2) fun_cong [OF rt(8), of aid] ids by (simp add: s2(2) row_of_replace)
    moreover have "net_quantity_of (tx s2) aid symb = net_quantity_of db aid symb" for aid symb
      using net_quantity_kept [OF rt(5) c(2), of aid symb] by (simp add: routed_view_def s2(2) net_quantity_of_def)
    ultimately show "booked db ?q ?F [] ?evs (tx s2)"
      using leavesD(5,6) [OF rt(5)] by (simp add: booked_def fun_eq_iff s2(2) routed_view_def)
    have "a_reserved_cash ?F = a_reserved_cash a"
      using r(1) by (simp add: failed_account_def notional_of_def)
    moreover have "a_user_id ?F = a_user_id a" by (simp add: failed_account_def)
    ultimately show "balanced (order_row db (o_id ?q)) ?q a ?F [] ?evs"
      using assms(5) rt(2) k ids
      by (simp add: balanced_def commitment_def status_fits_def status_sets change_allowed_def created_event_def
          routing_failed_event_def) (simp add: routing_failed_def moved_def routed_order_def)
    show "account_row db (o_account_id ?q) = Some a"
      using assms(4) by (simp add: routing_failed_def moved_def routed_order_def)
    show "new_keys db ?q" by (rule new_order_keys(3) [OF rt(13)])
  qed
  with s2(1) show ?thesis by simp
qed

lemma create_order_consistent:
  assumes "consistent e db" and "documented e" and "valid_request payload"
    and "on_grid 8 (oc_quantity payload * oc_price payload)"
    and "\<And>reason. submit (broker_order_of (routed_order e payload)) = Some reason \<Longrightarrow> length reason \<le> 477"
  shows "consistent e (tx (snd (create_order e submit (\<lambda>d. d) payload (open_session db))))"
proof -
  note c = consistentD [OF assms(1)]
  have g: "on_grid 8 (notional_of payload)" using assms(4) by (simp add: notional_of_def)
  obtain r s1 where t: "transaction e (create_order_body e payload) (open_session db) = (r, s1)"
    by (cases "transaction e (create_order_body e payload) (open_session db)")
  show ?thesis
  proof (cases r)
    case (Inl err)
    with t have "tx s1 = db" by (auto dest: transaction_rollback)
    with t Inl assms(1) show ?thesis by (simp add: create_order_def)
  next
    case (Inr x)
    obtain ord route where x: "x = (ord, route)" by (cases x)
    have tr: "transaction e (create_order_body e payload) (open_session db) = (Inr (ord, route), s1)"
      using t Inr x by simp
    have wf: "well_formed e (tx s1)" by (rule create_order_transaction_well_formed [OF tr assms(2) c(1)])
    have kept: "consistent e (tx s1) \<Longrightarrow> \<not> route \<Longrightarrow> ?thesis" by (simp add: create_order_def tr)
    from tr assms(2) c(1) assms(3) show ?thesis
    proof (cases rule: create_order_transaction_cases)
      case (existing a)
      have "consistent e (tx s1)"
        using net_quantity_kept [OF existing(6) c(2)]
        by (intro leaves_same_consistent [OF assms(1) wf existing(6)]) simp_all
      with kept existing(5) show ?thesis by simp
    next
      case (rejected a)
      have "consistent e (tx s1)"
        using rejected_consistent [OF assms(1) wf rejected(1,2,4) _ rejected(8) assms(4)] rejected(5,7) by simp
      with kept rejected(6) show ?thesis by simp
    next
      case (routed a)
      have sa: "store_account e a = Inr a" by (rule settledD(1) [OF c(2) routed(1)])
      note rs = reserved_for_exact [OF assms(2) sa assms(3) g routed(3)]
      have "consistent e (tx s1)"
        using routed_consistent [OF assms(1) wf routed(1,2,4) _ routed(8) rs(3,1) _ assms(4)] routed(5,7)
          valid_requestD(4) [OF assms(3)] by simp
      then have accepted: "submit (broker_order_of ord) = None \<Longrightarrow> ?thesis"
        by (simp add: create_order_def tr routed(6))
      have refused: "submit (broker_order_of ord) = Some reason \<Longrightarrow> ?thesis" for reason
        using routing_failed_consistent [OF assms(1-3) routed(1) assms(4), of ord s1 submit reason] tr routed(5,6) assms(5)
        by simp
      show ?thesis using accepted refused by (cases "submit (broker_order_of ord)") blast+
    qed
  qed
qed

end
