(* ===== verification/Execution_Properties.thy ===== *)
theory Execution_Properties
  imports Samples
begin

text \<open>
  The properties of the execution service, stated over whole transactions: what processing one
  broker event on a fresh session, as the broker event worker does it, makes of the database.
\<close>

section \<open>Lemmas\<close>

lemma ignored_status:
  "is_fill_type (ev_event_type ev) \<Longrightarrow> ignored ord ev = None \<Longrightarrow>
     o_status ord \<in> {ROUTED, PARTIALLY_FILLED, CANCEL_PENDING} \<and>
     ev_filled_quantity ev \<le> o_remaining_quantity ord"
  by (auto simp: ignored_def split: if_splits)

text \<open>The parts of an applied fill.\<close>

lemma applied_fill:
  assumes "process_event e ev (open_session db) = (Inr True, s')" and "documented e" and "settled e db"
    and "is_fill_type (ev_event_type ev)" and "order_row db (ev_order_id ev) = Some ord"
  obtains p a out pos f where "ev_fill_price ev = Some p" "account_row db (o_account_id ord) = Some a"
    "ignored ord ev = None" "0 < ev_filled_quantity ev" "fill_outcome e ord a ev p = Inr out"
    "trade_outcome e (db_view db) ord ev p = Inr (pos, f)"
    "leaves e (applied_view ev out (Some (pos, f)) (db_view db)) (tx s')"
    "o_id (fst out) = ev_order_id ev" "a_id (fst (snd out)) = o_account_id ord"
    "p_key pos = (o_account_id ord, o_symbol ord)"
  using assms(1,3,2)
proof (cases rule: process_event_cases)
  case (applied ord' a out trade)
  then have o: "ord' = ord" using assms(5) by simp
  from applied(6,7) assms(4) obtain p t where p: "ev_fill_price ev = Some p" "fill_outcome e ord a ev p = Inr out"
      "trade_outcome e (db_view db) ord ev p = Inr t" "trade = Some t"
    by (auto simp: event_outcome_def event_trade_def o split: option.splits)
  obtain pos f where t: "t = (pos, f)" by (cases t)
  have ids: "o_id ord = ev_order_id ev" "a_id a = o_account_id ord"
    using row_of_SomeD [OF assms(5)] row_of_SomeD [OF applied(5)] o by auto
  have "p_key pos = (o_account_id ord, o_symbol ord)"
    using p(3) position_before_key [OF session_ok_open, of db] book_execution_key
    by (auto simp: trade_outcome_def t db_view_def)
  with applied p t ids outcome_keys(3) [OF p(2)] assms(4) show ?thesis by (intro that) (auto simp: o)
qed auto

lemma stored_out:
  assumes "leaves e (applied_view ev out trade v) db'"
  shows "stored_as (store_order e) (Some (fst out)) (order_row db' (o_id (fst out)))"
    and "stored_as (store_account e) (Some (fst (snd out))) (account_row db' (a_id (fst (snd out))))"
  using leavesD(1) [OF assms, of "a_id (fst (snd out))"] leavesD(2) [OF assms, of "o_id (fst out)"]
  by (cases out; simp)+

lemma settled_rows:
  assumes "well_formed e db"
  shows "order_row db oid = Some ord \<Longrightarrow> store_order e ord = Inr ord"
    and "account_row db aid = Some a \<Longrightarrow> store_account e a = Inr a"
  using settledD [OF well_formed_settled [OF assms]] by auto

text \<open>An event the handler returned for is recorded, on an order that is still there.\<close>

lemma process_event_records:
  assumes "documented e" and "well_formed e db" and "process_event e ev (open_session db) = (Inr applied, s')"
  shows "order_row (tx s') (ev_order_id ev) \<noteq> None \<and> processed_row (tx s') (ev_event_id ev) \<noteq> None"
proof -
  from assms(3) well_formed_settled [OF assms(2)] assms(1)
  show "order_row (tx s') (ev_order_id ev) \<noteq> None \<and> processed_row (tx s') (ev_event_id ev) \<noteq> None"
  proof (cases rule: process_event_cases)
    case (duplicate ord)
    then show ?thesis
      using leaves_unchanged(2) [OF duplicate(4) well_formed_settled [OF assms(2)], of "ev_order_id ev"]
        leavesD(7) [OF duplicate(4)] by simp
  next
    case (ignored ord reason)
    have "processed_broker_events (tx s') = processed_broker_events db @ [processed_of ev (False, Some reason)]"
      using leavesD(7) [OF ignored(5)] by (simp add: ignored_view_def)
    then show ?thesis
      using leaves_unchanged(2) [OF ignored(5) well_formed_settled [OF assms(2)], of "ev_order_id ev"] ignored(1)
      by (auto simp: row_of_None_iff processed_of_def)
  next
    case (applied ord a out trade)
    have "processed_broker_events (tx s') = processed_broker_events db @ [processed_of ev (True, None)]"
      using leavesD(7) [OF applied(9)] by simp
    moreover have "o_id (fst out) = ev_order_id ev"
      using applied(6) row_of_SomeD [OF applied(1)] outcome_keys(1,3,4)
      by (auto simp: event_outcome_def split: if_splits option.splits)
    ultimately have "order_row (tx s') (ev_order_id ev) \<noteq> None"
        "processed_row (tx s') (ev_event_id ev) \<noteq> None"
      using stored_out(1) [OF applied(9)] by (auto simp: row_of_append row_of_Cons processed_of_def split: option.splits)
    then show ?thesis by simp
  qed
qed

text \<open>The record of processed events only grows.\<close>

lemma process_event_keeps_records:
  assumes "documented e" and "well_formed e db" and "processed_row db eid \<noteq> None"
  shows "processed_row (tx (snd (process_event e ev (open_session db)))) eid \<noteq> None"
proof -
  obtain r s' where run: "process_event e ev (open_session db) = (r, s')" by (cases "process_event e ev (open_session db)")
  show ?thesis
  proof (cases r)
    case (Inl err)
    with run have "tx s' = db" by (auto simp: process_event_def dest: transaction_Inl)
    with run assms(3) show ?thesis by simp
  next
    case (Inr b)
    with run have "process_event e ev (open_session db) = (Inr b, s')" by simp
    from this well_formed_settled [OF assms(2)] assms(1)
    have "\<exists>new. processed_broker_events (tx s') = processed_broker_events db @ new"
      by (cases rule: process_event_cases) (auto dest: leavesD(7) simp: ignored_view_def)
    with run assms(3) show ?thesis by (auto simp: row_of_append split: option.splits)
  qed
qed

section \<open>Properties\<close>

text \<open>
  A broker event whose identifier is recorded already is not applied again: the handler
  returns \<open>False\<close> and the database stays exactly as it is.
\<close>

theorem recorded_event_is_noop:
  assumes "well_formed e db" and "order_row db (ev_order_id ev) \<noteq> None"
    and "processed_row db (ev_event_id ev) \<noteq> None"
  shows "fst (process_event e ev (open_session db)) = Inr False \<and>
    tx (snd (process_event e ev (open_session db))) = db"
  using assms process_recorded_event [of e db ev] by auto

theorem recorded_event_is_noop_witness:
  "fst (process_event sample_env sample_partial (open_session
       (sample_db\<lparr>processed_broker_events := [processed_of sample_partial (True, None)]\<rparr>))) = Inr False"
proof -
  let ?db = "sample_db\<lparr>processed_broker_events := [processed_of sample_partial (True, None)]\<rparr>"
  have "well_formed sample_env ?db" using sample_well_formed by (simp add: well_formed_defs)
  moreover have "processed_row ?db (ev_event_id sample_partial) \<noteq> None"
    by (simp add: processed_of_def row_of_Cons)
  ultimately show ?thesis
    using recorded_event_is_noop [of sample_env ?db sample_partial] by simp
qed

text \<open>
  C10. Delivering an event a second time changes nothing: once the handler has returned, with
  whatever result, processing the same event on the database it left returns \<open>False\<close> and leaves
  that database as it is.
\<close>

theorem event_replay_is_noop:
  assumes "documented e" and "well_formed e db"
    and "process_event e ev (open_session db) = (Inr applied, s')"
  shows "fst (process_event e ev (open_session (tx s'))) = Inr False \<and>
    tx (snd (process_event e ev (open_session (tx s')))) = tx s'"
  using process_event_records [OF assms] process_recorded_event [OF process_event_well_formed [OF assms(3,1,2)]]
  by auto

theorem event_replay_is_noop_witness:
  "\<exists>s'. process_event sample_env sample_partial (open_session sample_db) = (Inr True, s') \<and>
    fst (process_event sample_env sample_partial (open_session (tx s'))) = Inr False"
proof -
  obtain s' where "process_event sample_env sample_partial (open_session sample_db) = (Inr True, s')"
    using sample_partial_fill_applies by blast
  with event_replay_is_noop [OF documented_sample sample_well_formed this] show ?thesis by blast
qed

text \<open>
  A broker event that raises leaves no trace: the transaction is rolled back, so neither the
  order, the account, the position nor the record of processed events has changed.
\<close>

theorem failed_event_rolls_back:
  assumes "process_event e ev (open_session db) = (Inl err, s')"
  shows "tx s' = db \<and> s' = open_session db"
  using assms unfolding process_event_def by (auto dest: transaction_Inl)

theorem failed_event_rolls_back_witness:
  "process_event sample_env (sample_partial\<lparr>ev_order_id := ''Z''\<rparr>) (open_session sample_db) =
     (Inl (OrderNotFound ''Z''), open_session sample_db)"
proof -
  let ?ev = "sample_partial\<lparr>ev_order_id := ''Z''\<rparr>"
  have "order_get_for_update ''Z'' (open_session sample_db) = Inr (None, open_session sample_db)"
    by (simp add: order_get_for_update_def select_order_def select_one_def)
  then have "fst (process_event sample_env ?ev (open_session sample_db)) = Inl (OrderNotFound ''Z'')"
    by (simp add: process_event_def process_event_body_def transaction_def)
  then obtain s' where s': "process_event sample_env ?ev (open_session sample_db) = (Inl (OrderNotFound ''Z''), s')"
    by (cases "process_event sample_env ?ev (open_session sample_db)") simp
  from failed_event_rolls_back [OF this] s' show ?thesis by simp
qed

text \<open>
  C12. The quantities of an order after an applied fill: the filled quantity grows by exactly the
  filled amount; a complete fill makes the order FILLED; an incomplete one cancels the rest of
  an IOC order, and otherwise leaves the rest open, moving a ROUTED order to PARTIALLY_FILLED.
  The attributes of the request stay as they are.
\<close>

theorem fill_books_order:
  assumes "documented e" and "well_formed e db" and "process_event e ev (open_session db) = (Inr True, s')"
    and "is_fill_type (ev_event_type ev)" and "on_grid 8 (ev_filled_quantity ev)"
    and "order_row db (ev_order_id ev) = Some ord"
  shows "\<exists>ord'. order_row (tx s') (ev_order_id ev) = Some ord' \<and>
    filled_by (ev_filled_quantity ev) ord ord' \<and> request_of ord' = request_of ord"
proof -
  note so = settled_rows(1) [OF assms(2,6)]
  from assms(3,1) well_formed_settled [OF assms(2)] assms(4,6) obtain p a out pos f where f:
      "ev_fill_price ev = Some p" "ignored ord ev = None" "0 < ev_filled_quantity ev"
      "fill_outcome e ord a ev p = Inr out" "o_id (fst out) = ev_order_id ev"
      "leaves e (applied_view ev out (Some (pos, f)) (db_view db)) (tx s')"
    by (rule applied_fill) blast
  note q = fill_outcome_quantities [OF f(4) assms(1) so assms(5) f(3)] ignored_status [OF assms(4) f(2)]
  from stored_out(1) [OF f(6)] obtain r where r: "store_order e (fst out) = Inr r"
      "order_row (tx s') (ev_order_id ev) = Some r" by (auto simp: f(5))
  have "event_outcome e ord a ev = Inr out" using f(1,4) assms(4) by (simp add: event_outcome_def)
  from request_of_stored [OF assms(1) r(1) so request_of_outcome [OF this]]
  have "request_of r = request_of ord" .
  moreover have "filled_by (ev_filled_quantity ev) ord r"
    using q stored_order_exact [OF assms(1) r(1)] by (auto simp: filled_by_def)
  ultimately show ?thesis using r(2) by blast
qed

theorem fill_books_order_witness:
  "\<exists>s' ord'. process_event sample_env sample_partial (open_session sample_db) = (Inr True, s') \<and>
    order_row (tx s') ''O'' = Some ord' \<and> o_status ord' = PARTIALLY_FILLED \<and>
    o_filled_quantity ord' = 4 \<and> o_remaining_quantity ord' = 6"
proof -
  obtain s' where run: "process_event sample_env sample_partial (open_session sample_db) = (Inr True, s')"
    using sample_partial_fill_applies by blast
  have "\<exists>ord'. order_row (tx s') (ev_order_id sample_partial) = Some ord' \<and>
    filled_by (ev_filled_quantity sample_partial) sample_order ord' \<and> request_of ord' = request_of sample_order"
    by (rule fill_books_order [OF documented_sample sample_well_formed run]) simp_all
  with run show ?thesis by (auto simp: filled_by_def)
qed

text \<open>
  C11. The money of the account after an applied fill at a positive price, when the amounts are exact:
  quantity, quantity times fill price, quantity times limit price and open quantity times limit
  price are multiples of \<open>10 ^ -8\<close> (the columns round others). A BUY pays quantity times fill price in
  cash and gives back quantity times limit price of the reservation (the whole remaining
  reservation for an IOC order); a SELL receives quantity times fill price and reserves nothing.
\<close>

theorem fill_settles_account:
  assumes "documented e" and "well_formed e db" and "process_event e ev (open_session db) = (Inr True, s')"
    and "is_fill_type (ev_event_type ev)" and "ev_fill_price ev = Some p" and "0 < p"
    and "order_row db (ev_order_id ev) = Some ord" and "account_row db (o_account_id ord) = Some a"
    and "on_grid 8 (ev_filled_quantity ev)" and "on_grid 8 (ev_filled_quantity ev * p)"
    and "on_grid 8 (ev_filled_quantity ev * o_price ord)" and "on_grid 8 (o_remaining_quantity ord * o_price ord)"
  shows "\<exists>a'. account_row (tx s') (o_account_id ord) = Some a' \<and>
    settled_by (ev_filled_quantity ev) p ord a a'"
proof -
  note so = settled_rows(1) [OF assms(2,7)] and sa = settled_rows(2) [OF assms(2,8)]
  from assms(3,1) well_formed_settled [OF assms(2)] assms(4,7) obtain out pos f where f:
      "ignored ord ev = None" "0 < ev_filled_quantity ev"
      "fill_outcome e ord a ev p = Inr out" "a_id (fst (snd out)) = o_account_id ord"
      "leaves e (applied_view ev out (Some (pos, f)) (db_view db)) (tx s')"
    by (rule applied_fill) (use assms(5,8) in auto)
  from stored_out(2) [OF f(5)] obtain r where r: "store_account e (fst (snd out)) = Inr r"
      "account_row (tx s') (o_account_id ord) = Some r" by (auto simp: f(4))
  have fits: "can_store (store_account e) (fst (snd out))" using r(1) by (rule can_storeI)
  have "settled_by (ev_filled_quantity ev) p ord a (fst (snd out)) \<and>
      on_grid 8 (a_cash_balance (fst (snd out))) \<and> on_grid 8 (a_reserved_cash (fst (snd out)))"
    by (rule fill_outcome_money [OF f(3) assms(1) so sa fits assms(9) f(2) _ assms(6,10-12)])
      (use ignored_status [OF assms(4) f(1)] in simp)
  then have "settled_by (ev_filled_quantity ev) p ord a r"
    using stored_account_exact [OF assms(1) r(1)] by (auto simp: settled_by_def)
  with r(2) show ?thesis by blast
qed

theorem fill_settles_account_witness:
  "\<exists>s' a'. process_event sample_env sample_partial (open_session sample_db) = (Inr True, s') \<and>
    account_row (tx s') ''A'' = Some a' \<and> a_cash_balance a' = 88 \<and> a_reserved_cash a' = 30"
proof -
  obtain s' where run: "process_event sample_env sample_partial (open_session sample_db) = (Inr True, s')"
    using sample_partial_fill_applies by blast
  have "\<exists>a'. account_row (tx s') (o_account_id sample_order) = Some a' \<and>
    settled_by (ev_filled_quantity sample_partial) 3 sample_order sample_account a'"
    by (rule fill_settles_account [OF documented_sample sample_well_formed run]) simp_all
  with run show ?thesis by (auto simp: settled_by_def)
qed

text \<open>
  C13. The position after an applied fill: the net quantity of the account in the symbol moves by
  exactly the filled quantity, up for a BUY and down for a SELL, starting from a flat position
  where there was none, and it is marked at the last market price of the symbol, or at the fill
  price where there is no market price.
\<close>

theorem fill_moves_position:
  assumes "documented e" and "well_formed e db" and "process_event e ev (open_session db) = (Inr True, s')"
    and "is_fill_type (ev_event_type ev)" and "ev_fill_price ev = Some p" and "on_grid 8 p"
    and "order_row db (ev_order_id ev) = Some ord" and "on_grid 8 (ev_filled_quantity ev)"
  shows "net_quantity_of (tx s') (o_account_id ord) (o_symbol ord) =
      net_quantity_of db (o_account_id ord) (o_symbol ord) +
        (if o_side ord = BUY then ev_filled_quantity ev else - ev_filled_quantity ev) \<and>
    (\<exists>pos. position_row (tx s') (o_account_id ord) (o_symbol ord) = Some pos \<and>
       p_last_mark_price pos =
         Some (case price_row db (o_symbol ord) of None \<Rightarrow> p | Some m \<Rightarrow> m_price m))"
proof -
  let ?aid = "o_account_id ord" and ?sym = "o_symbol ord" and ?q = "ev_filled_quantity ev"
  note w = well_formed_settled [OF assms(2)]
  note so = settled_rows(1) [OF assms(2,7)]
  from assms(3,1) w assms(4,7) obtain out pos f where f: "ignored ord ev = None" "0 < ?q"
      "trade_outcome e (db_view db) ord ev p = Inr (pos, f)" "p_key pos = (?aid, ?sym)"
      "leaves e (applied_view ev out (Some (pos, f)) (db_view db)) (tx s')"
    by (rule applied_fill) (use assms(5) in auto)
  have "?q \<le> o_remaining_quantity ord" using ignored_status [OF assms(4) f(1)] by simp
  then have q: "?q < 10 ^ 16"
    using order_bounds(2) [OF settled_order(8,6) [OF assms(1) so]] by simp
  have "book_execution (position_before (db_view db) ?aid ?sym p) (o_side ord) ?q p
      (mark_for (db_view db) ?sym p) = Inr pos" using f(3) by (auto simp: trade_outcome_def)
  note n = book_execution_net [OF this assms(1) w assms(8) f(2) q]
  from leavesD(3) [OF f(5), of ?aid ?sym] obtain r where r: "store_position e pos = Inr r"
      "position_row (tx s') ?aid ?sym = Some r" by (auto simp: f(4))
  note d = store_positionD [OF r(1)]
  have "p_net_quantity r = p_net_quantity pos" using numeric_on_grid(1) [OF assms(1) d(4) n(2)] .
  with n(1) r(2) have "net_quantity_of (tx s') ?aid ?sym =
      net_quantity_of db ?aid ?sym + (if o_side ord = BUY then ?q else - ?q)"
    by (simp add: net_quantity_of_def)
  moreover have "on_grid 8 (mark_for (db_view db) ?sym p)"
  proof (cases "price_row db ?sym")
    case None
    then show ?thesis using assms(6) by (simp add: mark_for_def)
  next
    case (Some m)
    then obtain price where "numeric e (m_price m) = Some price" "m = m\<lparr>m_price := price\<rparr>"
      using settledD(4) [OF w Some] by (auto simp: store_price_eq_Inr)
    then have "numeric e (m_price m) = Some (m_price m)"
      by (metis market_price.select_convs(2) market_price.surjective market_price.update_convs(2))
    with Some show ?thesis using numeric_on_grid(2) [OF assms(1)] by (simp add: mark_for_def)
  qed
  then have "p_last_mark_price r = Some (mark_for (db_view db) ?sym p)"
    using d(8) n(3) numeric_on_grid(1) [OF assms(1)] by (cases "p_last_mark_price r") auto
  ultimately show ?thesis using r(2) by (simp add: mark_for_def split: option.split)
qed

theorem fill_moves_position_witness:
  "\<exists>s'. process_event sample_env sample_partial (open_session sample_db) = (Inr True, s') \<and>
    net_quantity_of (tx s') ''A'' ''INFY'' = 4"
proof -
  obtain s' where run: "process_event sample_env sample_partial (open_session sample_db) = (Inr True, s')"
    using sample_partial_fill_applies by blast
  have "net_quantity_of (tx s') (o_account_id sample_order) (o_symbol sample_order) =
      net_quantity_of sample_db (o_account_id sample_order) (o_symbol sample_order) +
        (if o_side sample_order = BUY then ev_filled_quantity sample_partial else - ev_filled_quantity sample_partial) \<and>
    (\<exists>pos. position_row (tx s') (o_account_id sample_order) (o_symbol sample_order) = Some pos \<and>
       p_last_mark_price pos =
         Some (case price_row sample_db (o_symbol sample_order) of None \<Rightarrow> 3 | Some m \<Rightarrow> m_price m))"
    by (rule fill_moves_position [OF documented_sample sample_well_formed run]) simp_all
  with run show ?thesis by (simp add: net_quantity_of_def [of sample_db])
qed

text \<open>
  C30. An applied fill, whose quantity and price are multiples of \<open>10 ^ -8\<close>, leaves exactly one new row
  in the table of fills, with the order, the event, the quantity and the price of the event, and
  the event was not among the fills before; the event is recorded as processed with outcome APPLIED.
\<close>

theorem fill_is_recorded:
  assumes "documented e" and "well_formed e db" and "process_event e ev (open_session db) = (Inr True, s')"
    and "is_fill_type (ev_event_type ev)" and "ev_fill_price ev = Some p" and "on_grid 8 p"
    and "order_row db (ev_order_id ev) = Some ord" and "on_grid 8 (ev_filled_quantity ev)"
  shows "(\<exists>f. fills (tx s') = fills db @ [f] \<and> f_order_id f = ev_order_id ev \<and>
      f_broker_event_id f = ev_event_id ev \<and> f_quantity f = ev_filled_quantity ev \<and> f_price f = p) \<and>
    ev_event_id ev \<notin> f_broker_event_id ` set (fills db) \<and>
    processed_broker_events (tx s') = processed_broker_events db @ [processed_of ev (True, None)]"
proof -
  note w = well_formed_settled [OF assms(2)]
  from assms(3,1) w assms(4,7) obtain out pos f where f:
      "trade_outcome e (db_view db) ord ev p = Inr (pos, f)"
      "leaves e (applied_view ev out (Some (pos, f)) (db_view db)) (tx s')"
    by (rule applied_fill) (use assms(5) in auto)
  have st: "store_fill e (fill_of ord ev p) = Inr f" using f(1) by (auto simp: trade_outcome_def)
  have oid: "o_id ord = ev_order_id ev" using row_of_SomeD [OF assms(7)] by simp
  have n: "numeric e (ev_filled_quantity ev) = Some (f_quantity f)" "numeric e p = Some (f_price f)"
      "f_order_id f = ev_order_id ev" "f_broker_event_id f = ev_event_id ev"
    using st oid by (auto simp: store_fill_def fill_of_def Let_def)
  have "f_quantity f = ev_filled_quantity ev" "f_price f = p"
    using numeric_on_grid(1) [OF assms(1) n(1) assms(8)] numeric_on_grid(1) [OF assms(1) n(2) assms(6)] .
  moreover have "fills (tx s') = fills db @ [f]"
    "processed_broker_events (tx s') = processed_broker_events db @ [processed_of ev (True, None)]"
    using leavesD(5,7) [OF f(2)] by simp_all
  moreover have "distinct (map f_broker_event_id (fills (tx s')))"
    using process_event_well_formed [OF assms(3,1,2)] by (simp add: well_formed_defs)
  ultimately show ?thesis using n(3,4) by auto
qed

theorem fill_is_recorded_witness:
  "\<exists>s' f. process_event sample_env sample_partial (open_session sample_db) = (Inr True, s') \<and>
    fills (tx s') = [f] \<and> f_quantity f = 4 \<and> f_price f = 3"
proof -
  obtain s' where run: "process_event sample_env sample_partial (open_session sample_db) = (Inr True, s')"
    using sample_partial_fill_applies by blast
  have "(\<exists>f. fills (tx s') = fills sample_db @ [f] \<and> f_order_id f = ev_order_id sample_partial \<and>
      f_broker_event_id f = ev_event_id sample_partial \<and> f_quantity f = ev_filled_quantity sample_partial \<and> f_price f = 3) \<and>
    ev_event_id sample_partial \<notin> f_broker_event_id ` set (fills sample_db) \<and>
    processed_broker_events (tx s') = processed_broker_events sample_db @ [processed_of sample_partial (True, None)]"
    by (rule fill_is_recorded [OF documented_sample sample_well_formed run]) simp_all
  with run show ?thesis by auto
qed

end
