(* ===== verification/Ledger_Events.thy ===== *)
theory Ledger_Events
  imports Ledger_Steps Execution_Properties
begin

text \<open>
  Processing a broker event keeps the books consistent: each of the three outcomes (a fill, a
  rejection, a cancellation) is a balanced change of the order and its account.
\<close>

section \<open>The audit trail of an outcome\<close>

definition trail_of :: "order \<Rightarrow> order_event list \<Rightarrow> order_status \<Rightarrow> bool" where
  "trail_of ord evs st \<longleftrightarrow>
     replay (Some (o_status ord)) evs = Some (Some st) \<and> (\<forall>ev\<in>set evs. e_order_id ev = o_id ord)"

lemma cancel_trail:
  "cancel_outcome e ord a reason d = Inr (ord', a', evs) \<Longrightarrow> trail_of ord evs (o_status ord')"
  by (auto simp: cancel_outcome_def trail_of_def Let_def change_allowed_def split: if_splits)

lemma conclude_trail:
  "conclude_outcome e ord a d = Inr (ord', a', evs) \<Longrightarrow> trail_of ord evs (o_status ord')"
  by (auto simp: conclude_outcome_def Let_def trail_of_def change_allowed_def split: if_splits
      dest!: cancel_trail)

lemma fill_trail:
  "fill_outcome e ord a ev p = Inr (ord', a', evs) \<Longrightarrow> trail_of ord evs (o_status ord')"
  by (auto simp: fill_outcome_def trail_of_def dest!: conclude_trail book_fill_keeps)

lemma reject_trail:
  "reject_outcome e ord a ev = Inr (ord', a', evs) \<Longrightarrow> o_status ord = ROUTED \<Longrightarrow> trail_of ord evs (o_status ord')"
  by (auto simp: reject_outcome_def trail_of_def Let_def change_allowed_def)

section \<open>Balanced outcomes\<close>

text \<open>No outcome touches the user of the account.\<close>

lemma release_user: "release_remaining_reservation a ord = Inr a' \<Longrightarrow> a_user_id a' = a_user_id a"
  by (auto simp: release_remaining_reservation_def Let_def split: if_splits)

lemma cancel_user: "cancel_outcome e ord a reason d = Inr (ord', a', evs) \<Longrightarrow> a_user_id a' = a_user_id a"
  by (auto simp: cancel_outcome_def Let_def split: if_splits dest: release_user)

lemma conclude_user: "conclude_outcome e ord a d = Inr (ord', a', evs) \<Longrightarrow> a_user_id a' = a_user_id a"
  by (auto simp: conclude_outcome_def Let_def split: if_splits dest: cancel_user)

lemma settle_user: "settle_account a ord q p = Inr a' \<Longrightarrow> a_user_id a' = a_user_id a"
  by (auto simp: settle_account_def Let_def split: if_splits)

lemma fill_user: "fill_outcome e ord a ev p = Inr (ord', a', evs) \<Longrightarrow> a_user_id a' = a_user_id a"
  by (auto simp: fill_outcome_def dest!: conclude_user settle_user)

lemma stored_user:
  assumes "store_account e a = Inr a" and "store_account e a' = Inr ra" and "a_user_id a' = a_user_id a"
  shows "a_user_id ra = a_user_id a"
  using store_accountD(5) [OF assms(1)] store_accountD(5) [OF assms(2)] assms(3) by simp

lemma working_statuses:
  "o_status ord \<in> {ROUTED, PARTIALLY_FILLED, CANCEL_PENDING} \<Longrightarrow> o_status ord \<in> OPEN_ORDER_STATUSES"
  by (auto simp: status_sets)

text \<open>What every outcome has in common: its order and account as they are stored.\<close>

lemma balancedI:
  assumes "documented e" and "store_order e ord = Inr ord" and "store_order e ord' = Inr r"
    and "store_account e a' = Inr ra" and "a_id a = o_account_id ord" and "a_id a' = a_id a"
    and "request_of ord' = request_of ord" and "trail_of ord evs (o_status ord')"
    and "on_grid 8 (a_reserved_cash a')"
    and "a_reserved_cash a' = a_reserved_cash a + commitment r - commitment ord"
    and "o_filled_quantity r = o_filled_quantity ord + (\<Sum>f\<leftarrow>fs. f_quantity f)"
    and "status_fits r" and "on_grid 8 (o_remaining_quantity r * o_price r)"
    and "\<forall>f\<in>set fs. f_order_id f = o_id ord"
    and "store_account e a = Inr a" and "a_user_id a' = a_user_id a"
  shows "balanced (Some ord) r a ra fs evs"
proof -
  have same: "request_of r = request_of ord" by (rule request_of_stored [OF assms(1,3,2,7)])
  note q = request_of_eqD [OF same] and d = store_accountD(1) [OF assms(4)]
  have "a_reserved_cash ra = a_reserved_cash a'" by (rule stored_account_exact(2) [OF assms(1,4,9)])
  moreover have "o_status r = o_status ord'" by (rule store_orderD(6) [OF assms(3)])
  ultimately show ?thesis
    using assms(5,6,8,10-14) same q(1,2) d stored_user [OF assms(15,4,16)] by (simp add: balanced_def trail_of_def)
qed

lemma cancel_balanced:
  assumes "cancel_outcome e ord a reason d = Inr (ord', a', evs)" and "documented e"
    and "store_order e ord = Inr ord" and "store_account e a = Inr a"
    and "store_order e ord' = Inr r" and "store_account e a' = Inr ra" and "a_id a = o_account_id ord"
    and "status_fits ord" and "on_grid 8 (o_remaining_quantity ord * o_price ord)"
    and "o_status ord \<in> {ROUTED, PARTIALLY_FILLED, CANCEL_PENDING}"
  shows "balanced (Some ord) r a ra [] evs"
proof (rule balancedI [OF assms(2,3,5,6,7)])
  note s = settled_order [OF assms(2,3)] and sa = settled_account [OF assms(2,4)]
  note b = order_bounds [OF s(8,6)]
  have price: "0 < o_price ord" using s(8) by (simp add: order_checks_def)
  have rel: "release_remaining_reservation a ord = Inr a'"
    and ord': "ord' = moved (ord\<lparr>o_cancelled_quantity := dadd (o_cancelled_quantity ord) (o_remaining_quantity ord),
      o_remaining_quantity := 0, o_version := o_version ord + 1\<rparr>) CANCELLED"
    using assms(1) by (auto simp: cancel_outcome_def Let_def split: if_splits)
  have less: "a_reserved_cash a < 10 ^ 16" using sa by simp
  note ex = release_exact [OF rel sa(2) less assms(9) b(1) price]
  have "dadd (o_cancelled_quantity ord) (o_remaining_quantity ord) = o_cancelled_quantity ord + o_remaining_quantity ord"
    using s(4,5) b by (intro dadd_cents) auto
  then have r: "o_cancelled_quantity r = o_cancelled_quantity ord + o_remaining_quantity ord"
      "o_remaining_quantity r = 0" "o_filled_quantity r = o_filled_quantity ord" "o_status r = CANCELLED"
    using stored_order_exact [OF assms(2,5)] s(3-5) by (simp_all add: ord' on_grid_add)
  have "commitment r = 0" using r(4) by (simp add: commitment_def status_sets)
  moreover have "commitment ord = (if o_side ord = BUY then o_remaining_quantity ord * o_price ord else 0)"
    using working_statuses [OF assms(10)] by (simp add: commitment_def)
  ultimately show "a_reserved_cash a' = a_reserved_cash a + commitment r - commitment ord" using ex(1) by simp
  show "on_grid 8 (a_reserved_cash a')" using ex(1) sa(2) assms(9) by (simp add: on_grid_diff)
  show "status_fits r" using assms(8,10) r b by (auto simp: status_fits_def)
  show "a_id a' = a_id a" using release_keeps [OF rel] .
  show "request_of ord' = request_of ord" by (simp add: ord')
  show "trail_of ord evs (o_status ord')" by (rule cancel_trail [OF assms(1)])
  show "a_user_id a' = a_user_id a" by (rule cancel_user [OF assms(1)])
qed (use assms stored_order_exact [OF assms(2,5)] settled_order(3) [OF assms(2,3)] in
    \<open>auto simp: cancel_outcome_def Let_def split: if_splits\<close>)

lemma reject_balanced:
  assumes "reject_outcome e ord a ev = Inr (ord', a', evs)" and "documented e"
    and "store_order e ord = Inr ord" and "store_account e a = Inr a"
    and "store_order e ord' = Inr r" and "store_account e a' = Inr ra" and "a_id a = o_account_id ord"
    and "status_fits ord" and "on_grid 8 (o_remaining_quantity ord * o_price ord)" and "o_status ord = ROUTED"
  shows "balanced (Some ord) r a ra [] evs"
proof (rule balancedI [OF assms(2,3,5,6,7)])
  note s = settled_order [OF assms(2,3)] and sa = settled_account [OF assms(2,4)]
  note b = order_bounds [OF s(8,6)]
  have price: "0 < o_price ord" using s(8) by (simp add: order_checks_def)
  have rel: "release_remaining_reservation a ord = Inr a'"
    and ord': "ord' = moved (ord\<lparr>o_rejection_reason := Some (or_else (ev_reason ev) ''Rejected by broker'')\<rparr>) REJECTED"
    using assms(1) by (auto simp: reject_outcome_def Let_def)
  have less: "a_reserved_cash a < 10 ^ 16" using sa by simp
  note ex = release_exact [OF rel sa(2) less assms(9) b(1) price]
  have r: "o_cancelled_quantity r = o_cancelled_quantity ord" "o_remaining_quantity r = o_remaining_quantity ord"
      "o_filled_quantity r = o_filled_quantity ord" "o_status r = REJECTED"
    using stored_order_exact [OF assms(2,5)] s(3-5) by (simp_all add: ord')
  have req: "request_of ord' = request_of ord" by (simp add: ord')
  then show "request_of ord' = request_of ord" .
  have "commitment r = 0" using r(4) by (simp add: commitment_def status_sets)
  moreover have "commitment ord = (if o_side ord = BUY then o_remaining_quantity ord * o_price ord else 0)"
    using assms(10) by (simp add: commitment_def status_sets)
  ultimately show "a_reserved_cash a' = a_reserved_cash a + commitment r - commitment ord" using ex(1) by simp
  show "on_grid 8 (a_reserved_cash a')" using ex(1) sa(2) assms(9) by (simp add: on_grid_diff)
  show "status_fits r" using assms(8,10) r by (simp add: status_fits_def)
  show "a_id a' = a_id a" using release_keeps [OF rel] .
  show "trail_of ord evs (o_status ord')" by (rule reject_trail [OF assms(1,10)])
  show "a_user_id a' = a_user_id a" by (rule release_user [OF rel])
  show "store_account e a = Inr a" by (rule assms(4))
  show "o_filled_quantity r = o_filled_quantity ord + (\<Sum>f\<leftarrow>[]. f_quantity f)" using r(3) by simp
  show "on_grid 8 (o_remaining_quantity r * o_price r)"
    using assms(9) r(2) request_of_eqD(10) [OF request_of_stored [OF assms(2,5,3) req]] by simp
qed simp

lemma fill_balanced:
  assumes "fill_outcome e ord a ev p = Inr (ord', a', evs)" and "documented e"
    and "store_order e ord = Inr ord" and "store_account e a = Inr a"
    and "store_order e ord' = Inr r" and "store_account e a' = Inr ra" and "a_id a = o_account_id ord"
    and "status_fits ord" and "on_grid 8 (o_remaining_quantity ord * o_price ord)"
    and "o_status ord \<in> {ROUTED, PARTIALLY_FILLED, CANCEL_PENDING}"
    and "on_grid 8 (ev_filled_quantity ev)" and "0 < ev_filled_quantity ev"
    and "ev_filled_quantity ev \<le> o_remaining_quantity ord" and "0 < p"
    and "on_grid 8 (ev_filled_quantity ev * p)" and "on_grid 8 (ev_filled_quantity ev * o_price ord)"
    and "f_quantity f = ev_filled_quantity ev" and "f_order_id f = o_id ord"
  shows "balanced (Some ord) r a ra [f] evs"
proof (rule balancedI [OF assms(2,3,5,6,7)])
  let ?q = "ev_filled_quantity ev"
  have q: "filled_by ?q ord ord'" "on_grid 8 (o_filled_quantity ord')" "on_grid 8 (o_cancelled_quantity ord')"
      "on_grid 8 (o_remaining_quantity ord')"
    using fill_outcome_quantities [OF assms(1,2,3,11,12,13)] by simp_all
  have "can_store (store_account e) a'" using assms(6) by (rule can_storeI)
  then have m: "settled_by ?q p ord a a'" "on_grid 8 (a_reserved_cash a')"
    using fill_outcome_money [OF assms(1-4) _ assms(11-16,9)] by simp_all
  have r: "filled_by ?q ord r" using q stored_order_exact [OF assms(2,5)] by (auto simp: filled_by_def)
  have "event_outcome e ord a (ev\<lparr>ev_event_type := PARTIAL_FILL, ev_fill_price := Some p\<rparr>) = Inr (ord', a', evs)"
    using assms(1) by (simp add: event_outcome_def fill_outcome_def fill_event_data_def is_fill_type_def)
  from request_of_outcome [OF this] show req: "request_of ord' = request_of ord" by simp
  note same = request_of_eqD [OF request_of_stored [OF assms(2,5,3) req]]
  have c: "commitment ord = (if o_side ord = BUY then o_remaining_quantity ord * o_price ord else 0)"
    using working_statuses [OF assms(10)] by (simp add: commitment_def)
  show "a_reserved_cash a' = a_reserved_cash a + commitment r - commitment ord"
  proof (cases "o_side ord")
    case BUY
    have "commitment r = (if ?q = o_remaining_quantity ord \<or> o_time_in_force ord = IOC then 0
        else (o_remaining_quantity ord - ?q) * o_price ord)"
      using r same BUY assms(10) by (auto simp: filled_by_def commitment_def status_sets split: if_splits)
    with m(1) c BUY show ?thesis by (auto simp: settled_by_def left_diff_distrib split: if_splits)
  next
    case SELL
    with m(1) c same show ?thesis by (simp add: settled_by_def commitment_def)
  qed
  show "on_grid 8 (a_reserved_cash a')" by (rule m(2))
  show "status_fits r"
    using r assms(8,10,12,13) by (auto simp: filled_by_def status_fits_def split: if_splits)
  show "on_grid 8 (o_remaining_quantity r * o_price r)"
    using r same assms(9,16) by (auto simp: filled_by_def left_diff_distrib on_grid_diff split: if_splits)
  show "o_filled_quantity r = o_filled_quantity ord + (\<Sum>f\<leftarrow>[f]. f_quantity f)"
    using r assms(17) by (simp add: filled_by_def)
  show "a_id a' = a_id a" using outcome_keys(3) [OF assms(1)] by simp
  show "trail_of ord evs (o_status ord')" by (rule fill_trail [OF assms(1)])
  show "a_user_id a' = a_user_id a" by (rule fill_user [OF assms(1)])
qed (use assms(4,18) in simp_all)

section \<open>The committed event\<close>

text \<open>
  A fill whose amounts are multiples of \<open>10 ^ -8\<close>: the quantity, the notional at the fill price, and
  the part of the reservation it releases.
\<close>

definition exact_amounts :: "database \<Rightarrow> broker_execution_event \<Rightarrow> bool" where
  "exact_amounts db ev \<longleftrightarrow>
     \<not> is_fill_type (ev_event_type ev) \<or>
     (on_grid 8 (ev_filled_quantity ev) \<and>
      (case ev_fill_price ev of None \<Rightarrow> True | Some p \<Rightarrow> on_grid 8 (ev_filled_quantity ev * p)) \<and>
      (case order_row db (ev_order_id ev) of
         None \<Rightarrow> True | Some ord \<Rightarrow> on_grid 8 (ev_filled_quantity ev * o_price ord)))"

lemma applied_rows:
  assumes "leaves e (applied_view ev out trade (db_view db)) db'" and "settled e db"
  obtains r ra where "store_order e (fst out) = Inr r" "store_account e (fst (snd out)) = Inr ra"
    "order_row db' = (order_row db)(o_id (fst out) \<mapsto> r)"
    "account_row db' = (account_row db)(a_id (fst (snd out)) \<mapsto> ra)"
    "order_events db' = order_events db @ snd (snd out)"
proof -
  obtain ord a evs where o: "out = (ord, a, evs)" by (cases out)
  from stored_out [OF assms(1)] obtain r ra where r: "store_order e ord = Inr r" "store_account e a = Inr ra"
    by (auto simp: o)
  have "order_row db' = (order_row db)(o_id ord \<mapsto> r)"
    using r(1) by (intro leaves_orders [OF assms]) (simp_all add: o)
  moreover have "account_row db' = (account_row db)(a_id a \<mapsto> ra)"
    using r(2) by (intro leaves_accounts [OF assms]) (simp_all add: o)
  ultimately show thesis using that r leavesD(6) [OF assms(1)] by (simp add: o)
qed

lemma no_trade_booked:
  assumes "leaves e (applied_view ev out None (db_view db)) db'" and "settled e db"
    and "store_order e (fst out) = Inr r" and "store_account e (fst (snd out)) = Inr ra"
  shows "booked db r ra [] (snd (snd out)) db'"
proof -
  from assms(1,2) obtain r' ra' where rows: "store_order e (fst out) = Inr r'" "store_account e (fst (snd out)) = Inr ra'"
      "order_row db' = (order_row db)(o_id (fst out) \<mapsto> r')" "account_row db' = (account_row db)(a_id (fst (snd out)) \<mapsto> ra')"
      "order_events db' = order_events db @ snd (snd out)" by (rule applied_rows)
  have "net_quantity_of db' aid symb = net_quantity_of db aid symb" for aid symb
    by (rule net_quantity_kept [OF assms(1,2)]) (simp add: event_view_def)
  moreover have "fills db' = fills db" using leavesD(5) [OF assms(1)] by (simp add: event_view_def)
  ultimately show ?thesis
    using rows assms(3,4) store_orderD(1) [OF assms(3)] store_accountD(1) [OF assms(4)] by (simp add: booked_def)
qed

lemma trade_booked:
  assumes "leaves e (applied_view ev out (Some (pos, f)) (db_view db)) db'" and "settled e db" and "documented e"
    and "store_order e (fst out) = Inr r" and "store_account e (fst (snd out)) = Inr ra"
    and "trade_outcome e (db_view db) ord ev p = Inr (pos, f)" and "request_of r = request_of ord"
    and "on_grid 8 (ev_filled_quantity ev)" and "0 < ev_filled_quantity ev" and "ev_filled_quantity ev < 10 ^ 16"
  shows "booked db r ra [f] (snd (snd out)) db'" and "f_quantity f = ev_filled_quantity ev" and "f_order_id f = o_id ord"
proof -
  let ?aid = "o_account_id ord" and ?sym = "o_symbol ord" and ?q = "ev_filled_quantity ev"
  from assms(1,2) obtain r' ra' where rows: "store_order e (fst out) = Inr r'" "store_account e (fst (snd out)) = Inr ra'"
      "order_row db' = (order_row db)(o_id (fst out) \<mapsto> r')" "account_row db' = (account_row db)(a_id (fst (snd out)) \<mapsto> ra')"
      "order_events db' = order_events db @ snd (snd out)" by (rule applied_rows)
  have st: "store_fill e (fill_of ord ev p) = Inr f"
    and bk: "book_execution (position_before (db_view db) ?aid ?sym p) (o_side ord) ?q p (mark_for (db_view db) ?sym p) = Inr pos"
    using assms(6) by (auto simp: trade_outcome_def)
  have n: "numeric e ?q = Some (f_quantity f)" "f_order_id f = o_id ord"
    using st by (auto simp: store_fill_def fill_of_def Let_def)
  show fq: "f_quantity f = ?q" by (rule numeric_on_grid(1) [OF assms(3) n(1) assms(8)])
  show "f_order_id f = o_id ord" by (rule n(2))
  have key: "p_key pos = (?aid, ?sym)"
    using book_execution_key [OF bk] position_before_key [OF session_ok_open, of db] by (simp add: db_view_def)
  note x = book_execution_net [OF bk assms(3,2,8-10)]
  have "net_quantity_of db' aid symb = net_quantity_of db aid symb +
      (if aid = ?aid \<and> symb = ?sym then \<Sum>f\<leftarrow>[f]. signed_quantity r f else 0)" for aid symb
  proof (cases "aid = ?aid \<and> symb = ?sym")
    case True
    from leavesD(3) [OF assms(1), of ?aid ?sym] obtain rp where rp: "store_position e pos = Inr rp"
        "position_row db' ?aid ?sym = Some rp" by (auto simp: key)
    have "p_net_quantity rp = p_net_quantity pos" by (rule stored_net_quantity [OF assms(3) rp(1) x(2)])
    with True x(1) rp(2) request_of_eqD(6) [OF assms(7)] show ?thesis
      by (simp add: net_quantity_of_def [of db'] signed_quantity_def fq)
  next
    case False
    then have "v_positions (applied_view ev out (Some (pos, f)) (db_view db)) (aid, symb) = position_row db aid symb"
      by (auto simp: key)
    from net_quantity_kept [OF assms(1,2) this] False show ?thesis by auto
  qed
  moreover have "fills db' = fills db @ [f]" using leavesD(5) [OF assms(1)] by simp
  ultimately show "booked db r ra [f] (snd (snd out)) db'"
    using rows assms(4,5) store_orderD(1) [OF assms(4)] store_accountD(1) [OF assms(5)] request_of_eqD(2,5) [OF assms(7)]
    by (simp add: booked_def)
qed

text \<open>An applied event.\<close>

lemma applied_event_consistent:
  assumes "consistent e db" and "documented e" and "well_formed e db'" and "valid_event ev" and "exact_amounts db ev"
    and "order_row db (ev_order_id ev) = Some ord" and "ignored ord ev = None"
    and "account_row db (o_account_id ord) = Some a" and "event_outcome e ord a ev = Inr out"
    and "event_trade e (db_view db) ord ev = Inr trade"
    and "leaves e (applied_view ev out trade (db_view db)) db'"
  shows "consistent e db'"
proof -
  note c = consistentD [OF assms(1)]
  note b = c(5) [OF assms(6), unfolded order_booked_def]
  have so: "store_order e ord = Inr ord" and sa: "store_account e a = Inr a"
    using settledD(1,2) [OF c(2)] assms(6,8) by simp_all
  have ids: "o_id ord = ev_order_id ev" "a_id a = o_account_id ord"
    using row_of_SomeD [OF assms(6)] row_of_SomeD [OF assms(8)] by simp_all
  from assms(11) c(2) obtain r ra where r: "store_order e (fst out) = Inr r" "store_account e (fst (snd out)) = Inr ra"
    by (rule applied_rows)
  obtain ord' a' evs where o: "out = (ord', a', evs)" by (cases out)
  have same: "request_of r = request_of ord"
    by (rule request_of_stored [OF assms(2) r(1) so]) (rule request_of_outcome [OF assms(9)])
  have "\<exists>fs. booked db r ra fs evs db' \<and> balanced (Some ord) r a ra fs evs"
  proof (cases "is_fill_type (ev_event_type ev)")
    case True
    let ?q = "ev_filled_quantity ev"
    from valid_event_fill [OF assms(4) True] obtain p where p: "0 < ?q" "ev_fill_price ev = Some p" "0 < p" by blast
    from assms(10) True p obtain pos f where t: "trade_outcome e (db_view db) ord ev p = Inr (pos, f)" "trade = Some (pos, f)"
      by (auto simp: event_trade_def)
    have fo: "fill_outcome e ord a ev p = Inr (ord', a', evs)" using assms(9) True p(2) by (simp add: event_outcome_def o)
    note g = ignored_status [OF True assms(7)]
    have x: "on_grid 8 ?q" "on_grid 8 (?q * p)" "on_grid 8 (?q * o_price ord)"
      using assms(5,6) True p(2) by (simp_all add: exact_amounts_def)
    have q16: "?q < 10 ^ 16" using g order_bounds(2) [OF settled_order(8,6) [OF assms(2) so]] by simp
    note tb = trade_booked [OF assms(11) [unfolded t(2)] c(2) assms(2) r t(1) same x(1) p(1) q16]
    have "balanced (Some ord) r a ra [f] evs"
      using fill_balanced [OF fo assms(2) so sa _ _ ids(2) _ _ _ x(1) p(1) _ p(3) x(2,3) tb(2,3)] r b g by (simp add: o)
    with tb(1) show ?thesis by (auto simp: o)
  next
    case False
    then have t: "trade = None" using assms(10) by (simp add: event_trade_def)
    have bk: "booked db r ra [] evs db'"
      using no_trade_booked [OF assms(11) [unfolded t] c(2) r] by (simp add: o)
    from False consider "ev_event_type ev = broker_event_type.REJECTED" | "ev_event_type ev = broker_event_type.CANCELLED"
      by (cases "ev_event_type ev") (auto simp: is_fill_type_def)
    then have "balanced (Some ord) r a ra [] evs"
    proof cases
      case 1
      then have "o_status ord = ROUTED" "reject_outcome e ord a ev = Inr (ord', a', evs)"
        using assms(7,9) False by (auto simp: ignored_def event_outcome_def o split: if_splits)
      with reject_balanced [OF this(2) assms(2) so sa _ _ ids(2)] r b show ?thesis by (simp add: o)
    next
      case 2
      then have "o_status ord \<in> {ROUTED, PARTIALLY_FILLED, CANCEL_PENDING}"
          "cancel_outcome e ord a (or_else (ev_reason ev) ''Cancelled by broker'')
             [(''broker_event_id'', JText (ev_event_id ev))] = Inr (ord', a', evs)"
        using assms(7,9) False by (auto simp: ignored_def event_outcome_def o split: if_splits)
      with cancel_balanced [OF this(2) assms(2) so sa _ _ ids(2)] r b show ?thesis by (simp add: o)
    qed
    with bk show ?thesis by blast
  qed
  then obtain fs where fs: "booked db r ra fs evs db'" "balanced (Some ord) r a ra fs evs" by blast
  have "o_id r = o_id ord" "o_account_id r = o_account_id ord" using request_of_eqD [OF same] by simp_all
  with booked_consistent [OF assms(1,3) fs(1), of a] fs(2) assms(6,8) ids(1) show ?thesis by simp
qed

lemma process_event_consistent:
  assumes "consistent e db" and "documented e" and "valid_event ev" and "exact_amounts db ev"
  shows "consistent e (tx (snd (process_event e ev (open_session db))))"
proof -
  note c = consistentD [OF assms(1)]
  obtain r s' where run: "process_event e ev (open_session db) = (r, s')" by (cases "process_event e ev (open_session db)")
  have wf: "well_formed e (tx s')" by (rule process_event_well_formed [OF run assms(2) c(1)])
  have "consistent e (tx s')"
  proof (cases r)
    case (Inl err)
    with run have "tx s' = db" by (auto simp: process_event_def dest: transaction_rollback)
    with assms(1) show ?thesis by simp
  next
    case (Inr b)
    with run have "process_event e ev (open_session db) = (Inr b, s')" by simp
    from this c(2) assms(2) show ?thesis
    proof (cases rule: process_event_cases)
      case (duplicate ord)
      show ?thesis
        using net_quantity_kept [OF duplicate(4) c(2)]
        by (intro leaves_same_consistent [OF assms(1) wf duplicate(4)]) simp_all
    next
      case (ignored ord reason)
      let ?au = "audit e ord BROKER_EVENT_IGNORED (Some (o_status ord)) (Some (o_status ord)) (ignored_event_data ev (Some reason))"
      note b = c(5) [OF ignored(1), unfolded order_booked_def]
      obtain a where a: "account_row db (o_account_id ord) = Some a" using b by auto
      have ids: "o_id ord = ev_order_id ev" "a_id a = o_account_id ord"
        using row_of_SomeD [OF ignored(1)] row_of_SomeD [OF a] by simp_all
      have "booked db ord a [] [?au] (tx s')"
        using settledD(1,2) [OF c(2)] ignored(1) a ids
        by (intro leaves_booked [OF ignored(5) c(2)]) (simp_all add: ignored_view_def fun_upd_idem)
      moreover have "balanced (Some ord) ord a a [] [?au]"
        using b ids by (simp add: balanced_def change_allowed_def)
      ultimately show ?thesis using booked_consistent [OF assms(1) wf, of ord a "[]" "[?au]" a] ignored(1) a ids(1) by simp
    next
      case (applied ord a out trade)
      show ?thesis
        by (rule applied_event_consistent [OF assms(1,2) wf assms(3,4) applied(1,3,5-7,9)])
    qed
  qed
  with run show ?thesis by simp
qed

end
