(* ===== verification/Decimal_Text.thy ===== *)
theory Decimal_Text
  imports Schemas
begin

text \<open>
  Decimal numbers as text: \<open>format(value, ".8f")\<close>, which the response schemas use, and the
  constructor \<open>Decimal(text)\<close>, which the market data client uses. Reading back what the first
  has written gives the number, when it is a multiple of \<open>10 ^ -8\<close> (\<open>read_format\<close>).

  A result of the constructor is finite or one of the special values, whose comparisons behave
  differently: comparing a NaN with \<open><=\<close> raises \<open>InvalidOperation\<close>. The sign of zero is not
  represented, and the limits of the exponent, of the order of \<open>10 ^ 18\<close>, are not modelled.
\<close>

section \<open>Digits\<close>

definition digit_char :: "nat \<Rightarrow> char" where
  "digit_char d = char_of (48 + d)"

definition is_digit :: "char \<Rightarrow> bool" where
  "is_digit c = (let n = of_char c :: nat in 48 \<le> n \<and> n \<le> 57)"

definition digit_value :: "char \<Rightarrow> nat" where
  "digit_value c = of_char c - 48"

definition digits_value :: "string \<Rightarrow> nat" where
  "digits_value s = foldl (\<lambda>n c. 10 * n + digit_value c) 0 s"

fun nat_text :: "nat \<Rightarrow> string" where
  "nat_text n = (if n < 10 then [digit_char n] else nat_text (n div 10) @ [digit_char (n mod 10)])"

declare nat_text.simps [simp del]

text \<open>The last \<open>k\<close> digits, with leading zeros.\<close>

fun padded_text :: "nat \<Rightarrow> nat \<Rightarrow> string" where
  "padded_text 0 n = []"
| "padded_text (Suc k) n = padded_text k (n div 10) @ [digit_char (n mod 10)]"

lemma digit_char [simp]:
  assumes "d < 10"
  shows "is_digit (digit_char d)" "digit_value (digit_char d) = d"
proof -
  have "of_char (char_of (48 + d) :: char) = 48 + d" using assms by simp
  then show "is_digit (digit_char d)" "digit_value (digit_char d) = d"
    using assms by (simp_all add: digit_char_def is_digit_def digit_value_def)
qed

lemma digits_value_Nil [simp]: "digits_value [] = 0"
  by (simp add: digits_value_def)

lemma digits_value_snoc [simp]: "digits_value (s @ [c]) = 10 * digits_value s + digit_value c"
  by (simp add: digits_value_def)

lemma digits_value_append: "digits_value (s @ t) = digits_value s * 10 ^ length t + digits_value t"
proof (induction t rule: rev_induct)
  case (snoc c t)
  have "digits_value (s @ t @ [c]) = 10 * digits_value (s @ t) + digit_value c"
    by (simp flip: append_assoc)
  with snoc show ?case by simp
qed simp

lemma nat_text [simp]:
  shows nat_text_value: "digits_value (nat_text n) = n" and nat_text_digits: "list_all is_digit (nat_text n)"
    and nat_text_nonempty: "nat_text n \<noteq> []"
proof (induction n rule: nat_text.induct)
  case (1 n)
  show "digits_value (nat_text n) = n" using 1 digits_value_snoc [of "[]"]
    by (subst nat_text.simps) (auto simp del: digits_value_snoc simp add: digits_value_snoc [of "nat_text (n div 10)"])
  show "list_all is_digit (nat_text n)" using 1 by (subst nat_text.simps) auto
  show "nat_text n \<noteq> []" by (subst nat_text.simps) auto
qed

lemma length_padded_text [simp]: "length (padded_text k n) = k"
  by (induction k arbitrary: n) simp_all

lemma padded_text_digits [simp]: "list_all is_digit (padded_text k n)"
  by (induction k arbitrary: n) simp_all

lemma padded_text_value [simp]: "digits_value (padded_text k n) = n mod 10 ^ k"
proof (induction k arbitrary: n)
  case (Suc k)
  have "n mod 10 ^ Suc k = 10 * (n div 10 mod 10 ^ k) + n mod 10"
    by (simp only: power_Suc mod_mult2_eq)
  with Suc show ?case by simp
qed simp

section \<open>Printing\<close>

text \<open>
  \<open>format(value, ".8f")\<close>: rounded half to even to 8 decimals, never in exponent notation, with the
  sign of the value (also where it rounds to zero).
\<close>

definition format_8f :: "rat \<Rightarrow> string" where
  "format_8f value =
     (let n = nat (round_half_even (\<bar>value\<bar> * 10 ^ 8))
      in (if value < 0 then ''-'' else []) @ nat_text (n div 10 ^ 8) @ ''.'' @ padded_text 8 n)"

section \<open>Reading\<close>

datatype decimal = Finite rat | Infinite bool \<comment> \<open>negative\<close> | NaN

definition lower_char :: "char \<Rightarrow> char" where
  "lower_char c =
     (let n = of_char c :: nat in if 65 \<le> n \<and> n \<le> 90 then char_of (n + 32) else c)"

definition lower :: "string \<Rightarrow> string" where
  "lower s = map lower_char s"

definition split_sign :: "string \<Rightarrow> bool \<times> string" where
  "split_sign s =
     (case s of [] \<Rightarrow> (False, [])
      | c # r \<Rightarrow> if c = CHR ''-'' then (True, r) else if c = CHR ''+'' then (False, r) else (False, s))"

definition signed :: "bool \<Rightarrow> 'a::uminus \<Rightarrow> 'a" where
  "signed negative x = (if negative then - x else x)"

text \<open>An exponent: nothing, or \<open>E\<close> and a signed sequence of digits.\<close>

definition read_exponent :: "string \<Rightarrow> int option" where
  "read_exponent s =
     (case s of
        [] \<Rightarrow> Some 0
      | c # r \<Rightarrow>
          (case split_sign r of (negative, ds) \<Rightarrow>
             if lower_char c = CHR ''e'' \<and> ds \<noteq> [] \<and> list_all is_digit ds
             then Some (signed negative (int (digits_value ds))) else None))"

definition read_number :: "string \<Rightarrow> rat option" where
  "read_number s =
     (let whole = takeWhile is_digit s;
          rest = dropWhile is_digit s;
          fraction = (case rest of [] \<Rightarrow> [] | c # r \<Rightarrow> if c = CHR ''.'' then takeWhile is_digit r else []);
          tail = (case rest of [] \<Rightarrow> [] | c # r \<Rightarrow> if c = CHR ''.'' then dropWhile is_digit r else rest)
      in if whole = [] \<and> fraction = [] then None
         else
           (case read_exponent tail of
              None \<Rightarrow> None
            | Some exponent \<Rightarrow>
                Some (of_nat (digits_value (whole @ fraction)) * 10 powi (exponent - int (length fraction)))))"

text \<open>A NaN: the word and digits of diagnostics.\<close>

definition nan_text :: "string \<Rightarrow> string \<Rightarrow> bool" where
  "nan_text prefix word \<longleftrightarrow>
     take (length prefix) word = prefix \<and> list_all is_digit (drop (length prefix) word)"

text \<open>
  \<open>Decimal(text)\<close>: surrounding white space and underscores are dropped; \<open>None\<close> where the
  constructor raises \<open>InvalidOperation\<close>.
\<close>

definition decimal_of_text :: "string \<Rightarrow> decimal option" where
  "decimal_of_text text =
     (case split_sign (filter (\<lambda>c. c \<noteq> CHR ''_'') (strip text)) of (negative, body) \<Rightarrow>
        let word = lower body
        in if word = ''inf'' \<or> word = ''infinity'' then Some (Infinite negative)
           else if nan_text ''nan'' word \<or> nan_text ''snan'' word then Some NaN
           else
             (case read_number body of
                None \<Rightarrow> None
              | Some x \<Rightarrow> Some (Finite (signed negative x))))"

section \<open>Reading what was printed\<close>

lemma digit_is [simp]:
  assumes "is_digit c"
  shows "\<not> is_space c" "lower_char c = c" "c \<noteq> CHR ''_''" "c \<noteq> CHR ''-''" "c \<noteq> CHR ''+''" "c \<noteq> CHR ''i''" "c \<noteq> CHR ''n''"
    "c \<noteq> CHR ''s''" "c \<noteq> CHR ''.''"
  using assms by (auto simp: is_digit_def is_space_def lower_char_def Let_def)

lemma strip_id: "s \<noteq> [] \<Longrightarrow> \<not> is_space (hd s) \<Longrightarrow> \<not> is_space (last s) \<Longrightarrow> strip s = s"
proof -
  assume a: "s \<noteq> []" "\<not> is_space (hd s)" "\<not> is_space (last s)"
  have d: "dropWhile is_space t = t" if "t \<noteq> []" "\<not> is_space (hd t)" for t
    using that by (cases t) auto
  have "dropWhile is_space (rev s) = rev s" using a by (intro d) (auto simp: hd_rev)
  with d [OF a(1,2)] show ?thesis by (simp add: strip_def)
qed

lemma list_all_hd_last: "list_all P s \<Longrightarrow> s \<noteq> [] \<Longrightarrow> P (hd s) \<and> P (last s)"
  by (simp add: list_all_iff)

lemma read_number_plain:
  assumes "list_all is_digit ds" and "list_all is_digit fs" and "ds \<noteq> []"
  shows "read_number (ds @ CHR ''.'' # fs) =
    Some (of_nat (digits_value ds * 10 ^ length fs + digits_value fs) / 10 ^ length fs)"
proof -
  have dot: "\<not> is_digit (CHR ''.'')" by (simp add: is_digit_def)
  have 1: "takeWhile is_digit (ds @ CHR ''.'' # fs) = ds" "dropWhile is_digit (ds @ CHR ''.'' # fs) = CHR ''.'' # fs"
    using assms(1) dot by (simp_all add: list_all_iff takeWhile_append2 dropWhile_append2)
  have 2: "takeWhile is_digit fs = fs" "dropWhile is_digit fs = []"
    using assms(2) by (simp_all add: list_all_iff takeWhile_eq_all_conv dropWhile_eq_Nil_conv)
  have 3: "(10::rat) powi (- int (length fs)) = 1 / 10 ^ length fs"
    by (simp add: power_int_minus power_int_of_nat divide_inverse)
  show ?thesis
    using assms(3) by (simp add: read_number_def read_exponent_def digits_value_append Let_def 1 2 3)
qed

lemma decimal_of_plain_text:
  assumes "list_all is_digit ds" and "list_all is_digit fs" and "ds \<noteq> []" and "fs \<noteq> []"
  shows "decimal_of_text ((if neg then ''-'' else []) @ ds @ ''.'' @ fs) =
    Some (Finite (signed neg (of_nat (digits_value ds * 10 ^ length fs + digits_value fs) / 10 ^ length fs)))"
proof -
  let ?b = "ds @ CHR ''.'' # fs" and ?s = "(if neg then ''-'' else []) @ ds @ CHR ''.'' # fs"
  obtain d ds' where ds: "ds = d # ds'" using assms(3) by (cases ds) auto
  with assms(1) have d: "is_digit d" by simp
  have l: "is_digit (last fs)" using list_all_hd_last [OF assms(2,4)] by simp
  have ne: "\<not> is_space (CHR ''-'')" by (simp add: is_space_def)
  have "hd ?s = (if neg then CHR ''-'' else d)" "last ?s = last fs" using assms(4) by (simp_all add: ds)
  with d l ne have 1: "strip ?s = ?s" by (intro strip_id) auto
  have 2: "filter (\<lambda>c. c \<noteq> CHR ''_'') ?s = ?s"
    using assms(1,2) by (auto simp: filter_id_conv list_all_iff)
  have 3: "split_sign ?s = (neg, ?b)"
    using d by (auto simp: split_sign_def ds)
  have "lower ?b = d # tl (lower ?b)" using d by (simp add: lower_def ds)
  then have 4: "lower ?b \<noteq> ''inf''" "lower ?b \<noteq> ''infinity''" "\<not> nan_text ''nan'' (lower ?b)" "\<not> nan_text ''snan'' (lower ?b)"
    using d by (auto simp: nan_text_def lower_def ds)
  have "decimal_of_text ?s =
      Some (Finite (signed neg (of_nat (digits_value ds * 10 ^ length fs + digits_value fs) / 10 ^ length fs)))"
    unfolding decimal_of_text_def 1 2 3 using 4 read_number_plain [OF assms(1-3)] by (simp add: Let_def)
  then show ?thesis by simp
qed

theorem read_format:
  assumes "on_grid 8 x"
  shows "decimal_of_text (format_8f x) = Some (Finite x)"
proof -
  from assms obtain n where x: "x = of_int n / 10 ^ 8" by (rule on_gridE)
  define m where "m = nat \<bar>n\<bar>"
  have "\<bar>x\<bar> * 10 ^ 8 = of_int \<bar>n\<bar>" by (simp add: x)
  then have f: "format_8f x = (if x < 0 then ''-'' else []) @ nat_text (m div 10 ^ 8) @ ''.'' @ padded_text 8 m"
    by (simp only: format_8f_def m_def Let_def round_half_even_of_int)
  have "m div 10 ^ 8 * 10 ^ 8 + m mod 10 ^ 8 = m" by (rule div_mult_mod_eq)
  then have "decimal_of_text (format_8f x) = Some (Finite (signed (x < 0) (of_nat m / 10 ^ 8)))"
    using decimal_of_plain_text [of "nat_text (m div 10 ^ 8)" "padded_text 8 m" "x < 0"]
    by (simp only: f nat_text padded_text_digits padded_text_value length_padded_text) (simp flip: length_0_conv)
  moreover have "signed (x < 0) (of_nat m / 10 ^ 8) = x"
    by (auto simp: signed_def m_def x divide_less_0_iff)
  ultimately show ?thesis by simp
qed

end
