(* ===== verification/Response_Schemas.thy ===== *)
theory Response_Schemas
  imports Decimal_Text Samples
begin

text \<open>
  The response models of \<open>app/schemas/\<close>. A model with \<open>from_attributes=True\<close> is filled by
  \<open>model_validate\<close> from the attributes of an object of the same names (\<open>*_response_of\<close>); the
  attributes the tables of this development leave out (surrogate keys, \<open>updated_at\<close>,
  most of \<open>created_at\<close>) are left out here too. In JSON the \<open>serialize_decimal\<close> fields of orders
  and fills are texts with 8 decimals (\<open>order_amounts_json\<close>, \<open>fill_amounts_json\<close>).
\<close>

section \<open>Models\<close>

record account_response =
  ar_id :: uuid
  ar_user_id :: string
  ar_currency :: string
  ar_cash_balance :: rat
  ar_reserved_cash :: rat
  ar_available_cash :: rat

definition account_response_of :: "account \<Rightarrow> account_response" where
  "account_response_of a =
     \<lparr>ar_id = a_id a, ar_user_id = a_user_id a, ar_currency = a_currency a,
      ar_cash_balance = a_cash_balance a, ar_reserved_cash = a_reserved_cash a,
      ar_available_cash = available_cash a\<rparr>"

record order_response =
  or_id :: uuid
  or_client_order_id :: string
  or_account_id :: uuid
  or_symbol :: string
  or_side :: order_side
  or_order_type :: order_type
  or_time_in_force :: time_in_force
  or_quantity :: rat
  or_price :: rat
  or_filled_quantity :: rat
  or_cancelled_quantity :: rat
  or_remaining_quantity :: rat
  or_average_fill_price :: "rat option"
  or_status :: order_status
  or_rejection_reason :: "string option"
  or_expires_at :: "timestamp option"
  or_created_at :: timestamp

definition order_response_of :: "order \<Rightarrow> order_response" where
  "order_response_of ord =
     \<lparr>or_id = o_id ord, or_client_order_id = o_client_order_id ord, or_account_id = o_account_id ord,
      or_symbol = o_symbol ord, or_side = o_side ord, or_order_type = o_order_type ord,
      or_time_in_force = o_time_in_force ord, or_quantity = o_quantity ord, or_price = o_price ord,
      or_filled_quantity = o_filled_quantity ord, or_cancelled_quantity = o_cancelled_quantity ord,
      or_remaining_quantity = o_remaining_quantity ord,
      or_average_fill_price = o_average_fill_price ord, or_status = o_status ord,
      or_rejection_reason = o_rejection_reason ord, or_expires_at = o_expires_at ord,
      or_created_at = o_created_at ord\<rparr>"

record cancel_order_response =
  co_order_id :: uuid
  co_status :: order_status
  co_message :: string

record fill_response =
  fr_order_id :: uuid
  fr_broker_event_id :: uuid
  fr_execution_id :: string
  fr_quantity :: rat
  fr_price :: rat
  fr_executed_at :: timestamp

definition fill_response_of :: "fill \<Rightarrow> fill_response" where
  "fill_response_of f =
     \<lparr>fr_order_id = f_order_id f, fr_broker_event_id = f_broker_event_id f,
      fr_execution_id = f_execution_id f, fr_quantity = f_quantity f, fr_price = f_price f,
      fr_executed_at = f_executed_at f\<rparr>"

record order_event_response =
  er_order_id :: uuid
  er_event_type :: order_event_type
  er_previous_status :: "order_status option"
  er_new_status :: "order_status option"
  er_event_data :: json_object
  er_created_at :: timestamp

definition order_event_response_of :: "order_event \<Rightarrow> order_event_response" where
  "order_event_response_of ev =
     \<lparr>er_order_id = e_order_id ev, er_event_type = e_event_type ev,
      er_previous_status = e_previous_status ev, er_new_status = e_new_status ev,
      er_event_data = e_event_data ev, er_created_at = e_created_at ev\<rparr>"

record position_response =
  pr_account_id :: uuid
  pr_symbol :: string
  pr_net_quantity :: rat
  pr_average_entry_price :: rat
  pr_realized_pnl :: rat
  pr_unrealized_pnl :: rat
  pr_last_mark_price :: "rat option"

definition position_response_of :: "position \<Rightarrow> position_response" where
  "position_response_of p =
     \<lparr>pr_account_id = p_account_id p, pr_symbol = p_symbol p, pr_net_quantity = p_net_quantity p,
      pr_average_entry_price = p_average_entry_price p, pr_realized_pnl = p_realized_pnl p,
      pr_unrealized_pnl = p_unrealized_pnl p, pr_last_mark_price = p_last_mark_price p\<rparr>"

section \<open>Amounts in JSON\<close>

definition serialize_decimal :: "rat option \<Rightarrow> string option" where
  "serialize_decimal value = (case value of None \<Rightarrow> None | Some x \<Rightarrow> Some (format_8f x))"

definition order_amounts_json :: "order_response \<Rightarrow> (string \<times> string option) list" where
  "order_amounts_json r =
     [(''quantity'', serialize_decimal (Some (or_quantity r))),
      (''price'', serialize_decimal (Some (or_price r))),
      (''filled_quantity'', serialize_decimal (Some (or_filled_quantity r))),
      (''cancelled_quantity'', serialize_decimal (Some (or_cancelled_quantity r))),
      (''remaining_quantity'', serialize_decimal (Some (or_remaining_quantity r))),
      (''average_fill_price'', serialize_decimal (or_average_fill_price r))]"

definition fill_amounts_json :: "fill_response \<Rightarrow> (string \<times> string option) list" where
  "fill_amounts_json r =
     [(''quantity'', serialize_decimal (Some (fr_quantity r))),
      (''price'', serialize_decimal (Some (fr_price r)))]"

text \<open>A client that reads the amounts of a response.\<close>

definition read_amounts :: "(string \<times> string option) list \<Rightarrow> (string \<times> decimal option) list" where
  "read_amounts = map (\<lambda>(name, text). (name, case text of None \<Rightarrow> None | Some t \<Rightarrow> decimal_of_text t))"

lemma read_serialized:
  "(case v of None \<Rightarrow> True | Some x \<Rightarrow> on_grid 8 x) \<Longrightarrow>
     (case serialize_decimal v of None \<Rightarrow> None | Some t \<Rightarrow> decimal_of_text t) = map_option Finite v"
  by (auto simp: serialize_decimal_def read_format split: option.splits)

section \<open>Properties\<close>

text \<open>
  C38. Amounts survive the JSON interface: for an order as it is stored, every quantity and price of
  the response reads back, with \<open>Decimal(text)\<close>, as exactly the stored number; a missing average
  price is \<open>null\<close>.
\<close>

theorem order_amounts_roundtrip:
  assumes "documented e" and "well_formed e db" and "order_row db oid = Some ord"
  shows "read_amounts (order_amounts_json (order_response_of ord)) =
    [(''quantity'', Some (Finite (o_quantity ord))), (''price'', Some (Finite (o_price ord))),
     (''filled_quantity'', Some (Finite (o_filled_quantity ord))),
     (''cancelled_quantity'', Some (Finite (o_cancelled_quantity ord))),
     (''remaining_quantity'', Some (Finite (o_remaining_quantity ord))),
     (''average_fill_price'', map_option Finite (o_average_fill_price ord))]"
proof -
  have so: "store_order e ord = Inr ord" using settledD(2) [OF well_formed_settled [OF assms(2)] assms(3)] .
  note d = store_orderD [OF so] and n = numeric_on_grid(2) [OF assms(1)]
  have "case o_average_fill_price ord of None \<Rightarrow> True | Some x \<Rightarrow> on_grid 8 x"
    using d(18) n by (cases "o_average_fill_price ord") auto
  from read_serialized [OF this] show ?thesis
    using n [OF d(13)] n [OF d(14)] n [OF d(15)] n [OF d(16)] n [OF d(17)]
    by (simp add: read_amounts_def order_amounts_json_def order_response_of_def read_serialized)
qed

theorem order_amounts_roundtrip_witness:
  "\<exists>json. order_amounts_json (order_response_of sample_order) = json \<and>
    read_amounts json =
      [(''quantity'', Some (Finite 10)), (''price'', Some (Finite 5)), (''filled_quantity'', Some (Finite 0)),
       (''cancelled_quantity'', Some (Finite 0)), (''remaining_quantity'', Some (Finite 10)),
       (''average_fill_price'', None)]"
  using order_amounts_roundtrip [OF documented_sample sample_well_formed, of "''O''" sample_order] by simp

end
