(* ===== verification/Error_Paths.thy ===== *)
theory Error_Paths
  imports Execution_Service Order_Service Cancellation_Service Samples
begin

text \<open>
  Which exceptions the services can raise. \<open>raises_only P r\<close> says that the outcome \<open>r\<close> is a result
  or an exception \<open>P\<close> allows; the collection \<open>raises_intros\<close> carries it through the statements of
  the model, down to the constraints of the tables, which raise driver errors only.
\<close>

named_theorems raises_intros \<open>how exceptions propagate through statements\<close>

definition raises_only :: "(oms_error \<Rightarrow> bool) \<Rightarrow> oms_error + 'a \<Rightarrow> bool" where
  "raises_only P r \<longleftrightarrow> (case r of Inl err \<Rightarrow> P err | Inr _ \<Rightarrow> True)"

fun database_error :: "oms_error \<Rightarrow> bool" where
  "database_error (IntegrityError _) = True"
| "database_error DataError = True"
| "database_error MultipleResultsFound = True"
| "database_error _ = False"

section \<open>Propagation\<close>

lemma raises_onlyD: "raises_only P r \<Longrightarrow> r = Inl err \<Longrightarrow> P err"
  by (simp add: raises_only_def)

lemma raises_only_weaken: "raises_only P r \<Longrightarrow> (\<And>err. P err \<Longrightarrow> Q err) \<Longrightarrow> raises_only Q r"
  by (cases r) (simp_all add: raises_only_def)

lemma raises_Inr [raises_intros]: "raises_only P (Inr x)"
  by (simp add: raises_only_def)

lemma raises_Inl [raises_intros]: "P err \<Longrightarrow> raises_only P (Inl err)"
  by (simp add: raises_only_def)

lemma raises_and_then [raises_intros]:
  "raises_only P r \<Longrightarrow> (\<And>x. r = Inr x \<Longrightarrow> raises_only P (f x)) \<Longrightarrow> raises_only P (and_then r f)"
  by (cases r) (simp_all add: raises_only_def)

lemma raises_if [raises_intros]:
  "(b \<Longrightarrow> raises_only P r) \<Longrightarrow> (\<not> b \<Longrightarrow> raises_only P r') \<Longrightarrow> raises_only P (if b then r else r')"
  by simp

lemma raises_option [raises_intros]:
  "(v = None \<Longrightarrow> raises_only P r) \<Longrightarrow> (\<And>x. v = Some x \<Longrightarrow> raises_only P (f x)) \<Longrightarrow>
     raises_only P (case v of None \<Rightarrow> r | Some x \<Rightarrow> f x)"
  by (cases v) simp_all

lemma raises_pair [raises_intros]:
  "(\<And>x y. p = (x, y) \<Longrightarrow> raises_only P (f x y)) \<Longrightarrow> raises_only P (case p of (x, y) \<Rightarrow> f x y)"
  by (cases p) simp

lemma raises_Let [raises_intros]: "raises_only P (f x) \<Longrightarrow> raises_only P (Let x f)"
  by simp

lemma raises_ensure [raises_intros]: "(\<not> b \<Longrightarrow> P err) \<Longrightarrow> raises_only P (ensure b err)"
  by (simp add: raises_only_def ensure_def)

lemma raises_traverse [raises_intros]:
  "(\<And>x. x \<in> set xs \<Longrightarrow> raises_only P (f x)) \<Longrightarrow> raises_only P (traverse f xs)"
  by (induction xs) (auto intro!: raises_intros)

lemma raises_select_one [raises_intros]: "P many \<Longrightarrow> raises_only P (select_one many Q rows)"
  by (auto simp: raises_only_def select_one_def split: list.splits)

section \<open>The database\<close>

lemma raises_columns [raises_intros]:
  "raises_only database_error (store_numeric e x)" "raises_only database_error (store_varchar e n t)"
  "raises_only database_error (check_constraint name b)"
  by (auto simp: store_numeric_def store_varchar_def check_constraint_def intro!: raises_intros)

lemma raises_nullable [raises_intros]:
  "(\<And>x. raises_only P (store x)) \<Longrightarrow> raises_only P (nullable store v)"
  unfolding nullable_def by (intro raises_intros) simp_all

lemma raises_store [raises_intros]:
  "raises_only database_error (store_account e a)" "raises_only database_error (store_order e ord)"
  "raises_only database_error (store_position e p)" "raises_only database_error (store_fill e f)"
  "raises_only database_error (store_processed e b)" "raises_only database_error (store_price e m)"
  unfolding store_defs by (intro raises_intros)+

lemma raises_insert [raises_intros]:
  "raises_only database_error (insert_account e a db)" "raises_only database_error (insert_order e ord db)"
  "raises_only database_error (insert_position e p db)" "raises_only database_error (insert_fill e f db)"
  "raises_only database_error (insert_event ev db)" "raises_only database_error (insert_processed e b db)"
  "raises_only database_error (insert_price e m db)"
  unfolding insert_defs by (intro raises_intros)+

lemma raises_write_back [raises_intros]:
  "(\<And>r x. raises_only P (writes r x)) \<Longrightarrow> raises_only P (write_back key writes loaded rows)"
  unfolding write_back_def by (intro raises_intros) simp_all

lemma raises_flush [raises_intros]: "raises_only database_error (flush e s)"
  unfolding flush_def write_account_def write_order_def by (intro raises_intros)

lemma raises_repositories [raises_intros]:
  "raises_only database_error (account_add e a s)" "raises_only database_error (order_add e ord s)"
  "raises_only database_error (order_add_event e ev s)" "raises_only database_error (order_add_fill e f s)"
  "raises_only database_error (position_add e p s)" "raises_only database_error (processed_add e b s)"
  unfolding account_add_def order_add_def order_add_event_def order_add_fill_def position_add_def processed_add_def
  by (intro raises_intros)+

lemma raises_lookups [raises_intros]:
  "raises_only database_error (account_get_by_id aid s)" "raises_only database_error (account_get_for_update aid s)"
  "raises_only database_error (order_get_by_id oid s)" "raises_only database_error (order_get_for_update oid s)"
  "raises_only database_error (order_get_by_idempotency_key aid key s)"
  "raises_only database_error (order_get_by_client_order_id aid client s)"
  "raises_only database_error (position_get_for_update aid symb s)"
  "raises_only database_error (processed_get_by_event_id eid s)" "raises_only database_error (price_get symb s)"
  unfolding account_get_by_id_def account_get_for_update_def select_account_def order_get_by_id_def
    order_get_for_update_def order_get_by_idempotency_key_def order_get_by_client_order_id_def select_order_def
    position_get_for_update_def processed_get_by_event_id_def price_get_def
  by (intro raises_intros database_error.simps [THEN iffD2] TrueI)+

lemma raises_append_event [raises_intros]: "raises_only database_error (append_event e ord ty p n d s)"
  unfolding append_event_def by (intro raises_intros)

text \<open>A transition the table allows raises driver errors only.\<close>

lemma raises_transition:
  "target \<in> ALLOWED_TRANSITIONS (o_status ord) \<Longrightarrow> raises_only database_error (transition e ord target ty d s)"
  unfolding transition_def ensure_transition_allowed_def by (intro raises_intros) simp

lemmas raises_database =
  raises_flush raises_repositories raises_lookups raises_append_event

lemmas raises_weak [raises_intros] =
  raises_database [THEN raises_only_weaken] raises_transition [THEN raises_only_weaken]

section \<open>Broker events\<close>

fun execution_error :: "broker_execution_event \<Rightarrow> oms_error \<Rightarrow> bool" where
  "execution_error ev (OrderNotFound oid) \<longleftrightarrow> oid = ev_order_id ev"
| "execution_error ev (AccountNotFound _) = True"
| "execution_error ev (InvalidFill _) = True"
| "execution_error ev DecimalSignal = True"
| "execution_error ev err = database_error err"

lemma database_execution_error [simp]: "database_error err \<Longrightarrow> execution_error ev err"
  by (cases err) simp_all

lemma raises_book_fill: "raises_only (execution_error ev) (book_fill ord q p)"
  unfolding book_fill_def ddiv_def by (intro raises_intros) simp_all

lemma raises_settle: "raises_only (execution_error ev) (settle_account a ord q p)"
  unfolding settle_account_def by (intro raises_intros) simp_all

lemma raises_release: "raises_only (execution_error ev) (release_remaining_reservation a ord)"
  unfolding release_remaining_reservation_def by (intro raises_intros) simp_all

lemma raises_position_update: "raises_only (execution_error ev) (apply_execution e aid symb side q p s)"
proof -
  have "raises_only (execution_error ev) (calculate_position_after_fill n a r side q p)" for n a r
    unfolding calculate_position_after_fill_def ddiv_def by (intro raises_intros) simp_all
  then show ?thesis
    unfolding apply_execution_def book_execution_def by (intro raises_intros) simp_all
qed

lemma raises_cancel_remaining:
  "CANCELLED \<in> ALLOWED_TRANSITIONS (o_status ord) \<Longrightarrow>
     raises_only (execution_error ev) (cancel_remaining e ord reason d s)"
  unfolding cancel_remaining_def by (intro raises_intros raises_release) simp_all

lemma raises_conclude_fill:
  "o_status ord \<in> {ROUTED, PARTIALLY_FILLED, CANCEL_PENDING} \<Longrightarrow>
     raises_only (execution_error ev) (conclude_fill e ord d s)"
  unfolding conclude_fill_def by (intro raises_intros raises_cancel_remaining) auto

lemma book_fill_status: "book_fill ord q p = Inr ord' \<Longrightarrow> o_status ord' = o_status ord"
  by (auto simp: book_fill_def Let_def)

lemma raises_dispatch: "raises_only (execution_error ev) (dispatch e ord ev s)"
proof -
  have "raises_only (execution_error ev) (apply_fill e ord ev s)"
    unfolding apply_fill_def
    by (intro raises_intros raises_book_fill raises_settle raises_position_update raises_conclude_fill)
      (auto dest: book_fill_status)
  moreover have "raises_only (execution_error ev) (apply_rejection e ord ev s)"
    unfolding apply_rejection_def by (intro raises_intros raises_release) auto
  moreover have "raises_only (execution_error ev) (apply_cancellation e ord ev s)"
    unfolding apply_cancellation_def by (intro raises_intros raises_cancel_remaining) auto
  ultimately show ?thesis unfolding dispatch_def by (intro raises_intros) simp_all
qed

lemma raises_process_event: "raises_only (execution_error ev) (process_event_body e ev s)"
  unfolding process_event_body_def by (intro raises_intros raises_dispatch) simp_all

section \<open>Orders\<close>

fun order_error :: "order_create \<Rightarrow> oms_error \<Rightarrow> bool" where
  "order_error payload (AccountNotFound aid) \<longleftrightarrow> aid = oc_account_id payload"
| "order_error payload (DuplicateOrder cid) \<longleftrightarrow> cid = oc_client_order_id payload"
| "order_error payload err = database_error err"

lemma database_order_error [simp]: "database_error err \<Longrightarrow> order_error payload err"
  by (cases err) simp_all

lemma raises_create_order: "raises_only (order_error payload) (create_order_body e payload s)"
proof -
  have sum: "raises_only P (case r of Inl exc \<Rightarrow> f exc | Inr u \<Rightarrow> g u)"
    if "\<And>exc. raises_only P (f exc)" "raises_only P (g ())"
    for P r and f :: "oms_error \<Rightarrow> oms_error + (order \<times> bool) \<times> session" and g
    using that by (cases r) simp_all
  have "raises_only (order_error payload) (transition e ord VALIDATED ty d s)" if "o_status ord = NEW" for ord ty d s
    by (rule raises_only_weaken [OF raises_transition]) (simp_all add: that)
  show ?thesis
    unfolding create_order_body_def
    by (intro raises_intros sum) (auto simp: new_order_def transition_def Let_def)
qed

fun cancellation_error :: "uuid \<Rightarrow> oms_error \<Rightarrow> bool" where
  "cancellation_error order_id (OrderNotFound oid) \<longleftrightarrow> oid = order_id"
| "cancellation_error order_id (InvalidCancellation _) = True"
| "cancellation_error order_id err = database_error err"

lemma database_cancellation_error [simp]: "database_error err \<Longrightarrow> cancellation_error order_id err"
  by (cases err) simp_all

lemma raises_request_cancellation:
  "raises_only (cancellation_error order_id) (request_cancellation_body e order_id reason s)"
  unfolding request_cancellation_body_def
  by (intro raises_intros) (auto simp: CANCELLABLE_ORDER_STATUSES_def)

lemma raises_mark_routing_failure:
  "raises_only (\<lambda>err. database_error err \<or> (\<exists>aid. err = AccountNotFound aid)) (mark_routing_failure_body e order_id reason s)"
  unfolding mark_routing_failure_body_def by (intro raises_intros) auto

section \<open>Whole operations\<close>

lemma raises_transaction:
  assumes "raises_only P (body s)" and "\<And>err. database_error err \<Longrightarrow> P err"
  shows "raises_only P (fst (transaction e body s))"
proof -
  have "raises_only P (and_then (body s) (\<lambda>(x, s'). and_then (flush e s') (\<lambda>s''. Inr (x, s''))))"
    by (intro raises_intros assms)
  then show ?thesis
    by (auto simp: transaction_def raises_only_def split: sum.splits)
qed

text \<open>The exceptions that leave \<open>create_order\<close>, its second transaction included.\<close>

fun placement_error :: "order_create \<Rightarrow> oms_error \<Rightarrow> bool" where
  "placement_error payload (AccountNotFound _) = True"
| "placement_error payload (DuplicateOrder cid) \<longleftrightarrow> cid = oc_client_order_id payload"
| "placement_error payload BrokerUnavailable = True"
| "placement_error payload err = database_error err"

lemma database_placement_error [simp]: "database_error err \<Longrightarrow> placement_error payload err"
  by (cases err) simp_all

lemma order_placement_error: "order_error payload err \<Longrightarrow> placement_error payload err"
  by (cases err) simp_all

lemma raises_placement: "raises_only (placement_error payload) (fst (create_order e submit meanwhile payload s))"
proof -
  have 1: "raises_only (placement_error payload) (fst (transaction e (create_order_body e payload) s))"
    by (rule raises_transaction [OF raises_only_weaken [OF raises_create_order order_placement_error]]) simp_all
  have 2: "raises_only (placement_error payload) (fst (mark_routing_failure e oid msg t))" for oid msg t
    unfolding mark_routing_failure_def
    by (rule raises_transaction [OF raises_only_weaken [OF raises_mark_routing_failure]]) auto
  obtain r t where t: "transaction e (create_order_body e payload) s = (r, t)"
    by (cases "transaction e (create_order_body e payload) s")
  show ?thesis
  proof (cases r)
    case (Inl err)
    with 1 t show ?thesis by (simp add: create_order_def raises_only_def)
  next
    case (Inr p)
    obtain ord route where p: "p = (ord, route)" by (cases p)
    have "raises_only (placement_error payload) (fst (case mark_routing_failure e (o_id ord) msg u of
        (Inl err, s) \<Rightarrow> (Inl err, s) | (Inr _, s) \<Rightarrow> (Inl BrokerUnavailable, s)))" for msg u
      using 2 [of "o_id ord" msg u]
      by (cases "mark_routing_failure e (o_id ord) msg u") (auto simp: raises_only_def split: sum.splits)
    with t Inr p show ?thesis
      by (auto simp: create_order_def intro: raises_intros split: option.split)
  qed
qed

fun request_error :: "uuid \<Rightarrow> oms_error \<Rightarrow> bool" where
  "request_error order_id (BrokerFailure _) = True"
| "request_error order_id err = cancellation_error order_id err"

lemma raises_request:
  "raises_only (request_error order_id) (fst (request_cancellation e cancel order_id reason s))"
proof -
  have w: "request_error order_id err" if "cancellation_error order_id err" for err
    using that by (cases err) simp_all
  have "raises_only (request_error order_id) (fst (transaction e (request_cancellation_body e order_id reason) s))"
    by (rule raises_transaction [OF raises_only_weaken [OF raises_request_cancellation w]]) (simp_all add: w)
  then show ?thesis
    by (auto simp: request_cancellation_def raises_only_def split: sum.splits prod.splits option.splits if_splits)
qed

text \<open>
  C23. The exceptions of the three services that move orders, on any session and whatever the
  database holds: the handler of broker events raises \<open>OrderNotFound\<close> for the order of the event,
  \<open>AccountNotFound\<close>, \<open>InvalidFill\<close>, a decimal signal or an error of the driver; \<open>create_order\<close>
  \<open>AccountNotFound\<close>, \<open>DuplicateOrder\<close> for the client's order id, \<open>BrokerUnavailable\<close> or a driver
  error; a cancellation request \<open>OrderNotFound\<close>, \<open>InvalidCancellation\<close>, the broker's exception or
  a driver error. So the guards of the services are tight: none of them ever asks for a
  transition the state machine refuses (\<open>InvalidStateTransition\<close> is never raised), and
  \<open>InsufficientBuyingPower\<close> never leaves \<open>create_order\<close>.
\<close>

theorem services_raise_only:
  "raises_only (execution_error ev) (fst (process_event e ev s)) \<and>
   raises_only (placement_error payload) (fst (create_order e submit meanwhile payload s)) \<and>
   raises_only (request_error order_id) (fst (request_cancellation e cancel order_id reason s))"
  unfolding process_event_def
  by (intro conjI raises_transaction raises_process_event raises_placement raises_request database_execution_error)

end
