(* ===== verification/Pnl_Service.thy ===== *)
theory Pnl_Service
  imports Samples
begin

text \<open>
  \<open>app/services/pnl_service.py\<close>: the profit of an account, summed over its positions. The sums
  are \<open>Decimal\<close> sums, each addition rounded to 28 digits; the column type keeps every position
  below \<open>10 ^ 16\<close>, so the sums are exact for any account with fewer than 5000 positions.
\<close>

section \<open>Operations\<close>

record pnl_summary =
  pnl_account_id :: uuid
  realized_pnl :: rat
  unrealized_pnl :: rat
  total_pnl :: rat

definition get_account_summary :: "uuid \<Rightarrow> database \<Rightarrow> pnl_summary" where
  "get_account_summary account_id db =
     (let ps = position_list_by_account account_id db;
          realized = foldl dadd 0 (map p_realized_pnl ps);
          unrealized = foldl dadd 0 (map p_unrealized_pnl ps)
      in \<lparr>pnl_account_id = account_id, realized_pnl = realized, unrealized_pnl = unrealized,
          total_pnl = dadd realized unrealized\<rparr>)"

section \<open>Lemmas\<close>

text \<open>Sorting by symbol keeps the positions of the account.\<close>

lemma set_insert_by_symbol [simp]: "set (insert_by_symbol p ps) = insert p (set ps)"
  by (induction ps) auto

lemma sum_insert_by_symbol [simp]:
  "sum_list (map f (insert_by_symbol p ps)) = f p + (sum_list (map f ps) :: rat)"
  by (induction ps) auto

lemma length_insert_by_symbol [simp]: "length (insert_by_symbol p ps) = Suc (length ps)"
  by (induction ps) auto

lemma position_list_by_account_rows:
  fixes f :: "position \<Rightarrow> rat"
  shows "set (position_list_by_account aid db) = {p \<in> set (positions db). p_account_id p = aid}"
    and "sum_list (map f (position_list_by_account aid db)) =
      sum_list (map f (filter (\<lambda>p. p_account_id p = aid) (positions db)))"
    and "length (position_list_by_account aid db) = length (filter (\<lambda>p. p_account_id p = aid) (positions db))"
proof -
  have s: "set (foldr insert_by_symbol ps []) = set ps" for ps by (induction ps) auto
  have m: "sum_list (map f (foldr insert_by_symbol ps [])) = sum_list (map f ps)" for ps by (induction ps) auto
  have l: "length (foldr insert_by_symbol ps []) = length ps" for ps by (induction ps) auto
  show "set (position_list_by_account aid db) = {p \<in> set (positions db). p_account_id p = aid}"
    "sum_list (map f (position_list_by_account aid db)) =
      sum_list (map f (filter (\<lambda>p. p_account_id p = aid) (positions db)))"
    "length (position_list_by_account aid db) = length (filter (\<lambda>p. p_account_id p = aid) (positions db))"
    unfolding position_list_by_account_def by (simp_all add: s m l)
qed

text \<open>Sums of few enough column values are exact.\<close>

lemma sum_list_bound:
  "\<forall>x\<in>set xs. \<bar>x\<bar> < 10 ^ 16 \<Longrightarrow> \<bar>sum_list xs\<bar> \<le> of_nat (length xs) * (10 ^ 16 :: rat)"
proof (induction xs)
  case (Cons x xs)
  then have "\<bar>x + sum_list xs\<bar> \<le> 10 ^ 16 + of_nat (length xs) * 10 ^ 16"
    using abs_triangle_ineq [of x "sum_list xs"] by fastforce
  then show ?case by (simp add: algebra_simps)
qed simp

lemma on_grid_sum_list: "\<forall>x\<in>set xs. on_grid 8 x \<Longrightarrow> on_grid 8 (sum_list xs)"
  by (induction xs) (auto intro: on_grid_add)

lemma decimal_sum:
  "\<forall>x\<in>set xs. on_grid 8 x \<and> \<bar>x\<bar> < 10 ^ 16 \<Longrightarrow> length xs < 10000 \<Longrightarrow> foldl dadd 0 xs = sum_list xs"
proof (induction xs rule: rev_induct)
  case (snoc x xs)
  then have i: "foldl dadd 0 xs = sum_list xs" by simp
  have "\<bar>sum_list (xs @ [x])\<bar> \<le> of_nat (length (xs @ [x])) * 10 ^ 16"
    by (rule sum_list_bound) (use snoc.prems in auto)
  also have "\<dots> < 10000 * 10 ^ 16" using snoc.prems(2) by simp
  finally have "\<bar>sum_list xs + x\<bar> < 10 ^ 20" by simp
  then show ?case using snoc.prems(1) by (simp add: i dadd_cents on_grid_sum_list)
qed simp

lemma settled_pnl:
  assumes "documented e" and "store_position e p = Inr p"
  shows "on_grid 8 (p_realized_pnl p) \<and> \<bar>p_realized_pnl p\<bar> < 10 ^ 16"
    and "on_grid 8 (p_unrealized_pnl p) \<and> \<bar>p_unrealized_pnl p\<bar> < 10 ^ 16"
  using store_positionD(6,7) [OF assms(2)] numeric_on_grid(2) [OF assms(1)] by blast+

section \<open>Properties\<close>

text \<open>
  The summary of an account is the exact sum of the realized and of the unrealized profit over
  its positions, and their total, for accounts with fewer than 5000 positions.
\<close>

theorem account_summary_exact:
  assumes "documented e" and "well_formed e db"
    and "length (filter (\<lambda>p. p_account_id p = aid) (positions db)) < 5000"
  shows "get_account_summary aid db =
    \<lparr>pnl_account_id = aid,
     realized_pnl = (\<Sum>p\<leftarrow>filter (\<lambda>p. p_account_id p = aid) (positions db). p_realized_pnl p),
     unrealized_pnl = (\<Sum>p\<leftarrow>filter (\<lambda>p. p_account_id p = aid) (positions db). p_unrealized_pnl p),
     total_pnl = (\<Sum>p\<leftarrow>filter (\<lambda>p. p_account_id p = aid) (positions db). p_realized_pnl p + p_unrealized_pnl p)\<rparr>"
proof -
  let ?l = "position_list_by_account aid db"
  have rows: "\<forall>p\<in>set ?l. store_position e p = Inr p"
    using assms(2) by (simp add: position_list_by_account_rows(1) well_formed_defs)
  have len: "length ?l < 5000" using assms(3) by (simp add: position_list_by_account_rows(3))
  have r: "foldl dadd 0 (map p_realized_pnl ?l) = (\<Sum>p\<leftarrow>?l. p_realized_pnl p)"
    and u: "foldl dadd 0 (map p_unrealized_pnl ?l) = (\<Sum>p\<leftarrow>?l. p_unrealized_pnl p)"
    by (rule decimal_sum; use rows settled_pnl [OF assms(1)] len in auto)+
  have bound: "\<bar>sum_list (map f ?l)\<bar> < 5 * 10 ^ 19" if "\<forall>p\<in>set ?l. \<bar>f p\<bar> < 10 ^ 16" for f :: "position \<Rightarrow> rat"
  proof -
    have "\<bar>sum_list (map f ?l)\<bar> \<le> of_nat (length ?l) * 10 ^ 16"
      using sum_list_bound [of "map f ?l"] that by simp
    also have "\<dots> < 5000 * 10 ^ 16" using len by simp
    finally show ?thesis by simp
  qed
  have "\<bar>(\<Sum>p\<leftarrow>?l. p_realized_pnl p) + (\<Sum>p\<leftarrow>?l. p_unrealized_pnl p)\<bar> < 10 ^ 20"
    using bound [of p_realized_pnl] bound [of p_unrealized_pnl] rows settled_pnl [OF assms(1)]
    by (simp add: abs_less_iff)
  then have "dadd (\<Sum>p\<leftarrow>?l. p_realized_pnl p) (\<Sum>p\<leftarrow>?l. p_unrealized_pnl p) =
      (\<Sum>p\<leftarrow>?l. p_realized_pnl p) + (\<Sum>p\<leftarrow>?l. p_unrealized_pnl p)"
    using rows settled_pnl [OF assms(1)] by (intro dadd_cents on_grid_sum_list) auto
  then show ?thesis
    by (simp add: get_account_summary_def Let_def r u position_list_by_account_rows(2) sum_list_addf)
qed

theorem account_summary_exact_witness:
  "total_pnl (get_account_summary ''A'' (sample_db\<lparr>positions := [sample_position]\<rparr>)) = 0"
proof -
  have "store_position sample_env sample_position = Inr sample_position"
    by (simp add: sample_store sample_position_def)
  then have "well_formed sample_env (sample_db\<lparr>positions := [sample_position]\<rparr>)"
    using sample_well_formed by (simp add: well_formed_defs)
  from account_summary_exact [OF documented_sample this, of "''A''"]
  show ?thesis by (simp add: sample_position_def)
qed

end
