(* ===== verification/Http_Api.thy ===== *)
theory Http_Api
  imports Response_Schemas Order_Properties Cancellation_Effects Error_Paths Account_Service Pnl_Service 
begin

text \<open>
  The HTTP interface: the routes of \<open>app/api/\<close> and the exception handler of \<open>app/main.py\<close>.

  A request runs on a session of its own (\<open>get_db_session\<close>), opened on the committed database and
  closed when the request is answered, so an endpoint maps the database to a reply and the
  database it leaves; reading endpoints leave it as it is. A reply is a status with a body; the
  object of the domain exception handler; 422 where the request does not pass its schema; or 500
  where an exception that is no \<open>DomainError\<close> leaves the endpoint. Decoding the path, query and
  JSON body into typed values is FastAPI's.
\<close>

section \<open>Replies\<close>

datatype 'a reply =
    Reply nat 'a
  | ErrorReply nat string string string \<comment> \<open>status, error, message, path\<close>
  | ValidationFailed
  | ServerError

fun reply_status :: "'a reply \<Rightarrow> nat" where
  "reply_status (Reply status _) = status"
| "reply_status (ErrorReply status _ _ _) = status"
| "reply_status ValidationFailed = 422"
| "reply_status ServerError = 500"

text \<open>\<open>exc.__class__.__name__\<close> of the domain errors.\<close>

fun class_name :: "oms_error \<Rightarrow> string" where
  "class_name (OrderNotFound _) = ''OrderNotFound''"
| "class_name (AccountNotFound _) = ''AccountNotFound''"
| "class_name (InvalidStateTransition _ _) = ''InvalidStateTransition''"
| "class_name InsufficientBuyingPower = ''InsufficientBuyingPower''"
| "class_name (DuplicateOrder _) = ''DuplicateOrder''"
| "class_name (DuplicateAccount _) = ''DuplicateAccount''"
| "class_name (InvalidCancellation _) = ''InvalidCancellation''"
| "class_name (InvalidFill _) = ''InvalidFill''"
| "class_name BrokerUnavailable = ''BrokerUnavailable''"
| "class_name _ = []"

fun error_status :: "oms_error \<Rightarrow> nat" where
  "error_status (OrderNotFound _) = 404"
| "error_status (AccountNotFound _) = 404"
| "error_status (DuplicateAccount _) = 409"
| "error_status (DuplicateOrder _) = 409"
| "error_status (InvalidCancellation _) = 409"
| "error_status (InvalidStateTransition _ _) = 409"
| "error_status (InvalidFill _) = 409"
| "error_status InsufficientBuyingPower = 422"
| "error_status BrokerUnavailable = 503"
| "error_status _ = 400"

definition domain_exception_handler :: "string \<Rightarrow> oms_error \<Rightarrow> 'a reply" where
  "domain_exception_handler path exc = ErrorReply (error_status exc) (class_name exc) (message exc) path"

text \<open>How the framework answers: the body of a returned value, or the handler of the exception.\<close>

definition respond :: "nat \<Rightarrow> string \<Rightarrow> ('a \<Rightarrow> 'b) \<Rightarrow> oms_error + 'a \<Rightarrow> 'b reply" where
  "respond status path body r =
     (case r of
        Inr x \<Rightarrow> Reply status (body x)
      | Inl exc \<Rightarrow> if is_domain_error exc then domain_exception_handler path exc else ServerError)"

section \<open>Accounts\<close>

definition post_account ::
  "env \<Rightarrow> string \<Rightarrow> account_create \<Rightarrow> database \<Rightarrow> account_response reply \<times> database" where
  "post_account e path raw db =
     (case validate_account_create raw of
        None \<Rightarrow> (ValidationFailed, db)
      | Some payload \<Rightarrow>
          (case create_account e payload (open_session db) of
             (r, s) \<Rightarrow> (respond 201 path account_response_of r, tx s)))"

definition get_account_by_id :: "string \<Rightarrow> uuid \<Rightarrow> database \<Rightarrow> account_response reply" where
  "get_account_by_id path account_id db =
     respond 200 path (\<lambda>(a, s). account_response_of a) (get_account account_id (open_session db))"

section \<open>Orders\<close>

definition post_order ::
  "env \<Rightarrow> (broker_order \<Rightarrow> string option) \<Rightarrow> (database \<Rightarrow> database) \<Rightarrow> string \<Rightarrow> order_create \<Rightarrow>
     database \<Rightarrow> order_response reply \<times> database" where
  "post_order e submit meanwhile path raw db =
     (case validate_order_create raw of
        None \<Rightarrow> (ValidationFailed, db)
      | Some payload \<Rightarrow>
          (case create_order e submit meanwhile payload (open_session db) of
             (r, s) \<Rightarrow> (respond 201 path order_response_of r, tx s)))"

definition get_orders ::
  "order scan \<Rightarrow> uuid option \<Rightarrow> order_status option \<Rightarrow> bool \<Rightarrow> int \<Rightarrow> int \<Rightarrow> database \<Rightarrow> order_response list reply" where
  "get_orders scan account_id status open_only limit offset db =
     (if 1 \<le> limit \<and> limit \<le> 500 \<and> 0 \<le> offset then
        Reply 200 (map order_response_of
          (list_orders scan account_id status open_only (nat limit) (nat offset) db))
      else ValidationFailed)"

definition get_order_by_id :: "string \<Rightarrow> uuid \<Rightarrow> database \<Rightarrow> order_response reply" where
  "get_order_by_id path order_id db =
     respond 200 path (\<lambda>(ord, s). order_response_of ord) (get_order order_id (open_session db))"

text \<open>\<open>request_cancellation\<close> has the default reason \<open>Client requested cancellation\<close>.\<close>

definition post_cancel ::
  "env \<Rightarrow> (uuid \<Rightarrow> string \<Rightarrow> string option) \<Rightarrow> string \<Rightarrow> uuid \<Rightarrow> database \<Rightarrow>
     cancel_order_response reply \<times> database" where
  "post_cancel e cancel path order_id db =
     (case request_cancellation e cancel order_id ''Client requested cancellation'' (open_session db) of
        (r, s) \<Rightarrow>
          (respond 202 path
             (\<lambda>ord. \<lparr>co_order_id = o_id ord, co_status = o_status ord,
                     co_message = ''Cancellation request accepted''\<rparr>) r, tx s))"

definition get_order_fills :: "fill scan \<Rightarrow> string \<Rightarrow> uuid \<Rightarrow> database \<Rightarrow> fill_response list reply" where
  "get_order_fills scan path order_id db =
     respond 200 path (map fill_response_of)
       (and_then (order_get_by_id order_id (open_session db)) (\<lambda>(found, s).
        if found = None then Inl (OrderNotFound order_id)
        else Inr (order_list_fills scan order_id (tx s))))"

definition get_order_events :: "order_event scan \<Rightarrow> string \<Rightarrow> uuid \<Rightarrow> database \<Rightarrow> order_event_response list reply" where
  "get_order_events scan path order_id db =
     respond 200 path (map order_event_response_of)
       (and_then (order_get_by_id order_id (open_session db)) (\<lambda>(found, s).
        if found = None then Inl (OrderNotFound order_id)
        else Inr (order_list_events scan order_id (tx s))))"

section \<open>Positions\<close>

definition ensure_account_exists :: "uuid \<Rightarrow> session \<Rightarrow> oms_error + session" where
  "ensure_account_exists account_id s =
     and_then (account_get_by_id account_id s) (\<lambda>(found, s).
     if found = None then Inl (AccountNotFound account_id) else Inr s)"

definition get_positions :: "string \<Rightarrow> uuid \<Rightarrow> database \<Rightarrow> position_response list reply" where
  "get_positions path account_id db =
     respond 200 path (map position_response_of)
       (and_then (ensure_account_exists account_id (open_session db)) (\<lambda>s.
        Inr (position_list_by_account account_id (tx s))))"

definition get_pnl :: "string \<Rightarrow> uuid \<Rightarrow> database \<Rightarrow> pnl_summary reply" where
  "get_pnl path account_id db =
     respond 200 path id
       (and_then (ensure_account_exists account_id (open_session db)) (\<lambda>s.
        Inr (get_account_summary account_id (tx s))))"

section \<open>Properties\<close>

text \<open>
  C32. The statuses of \<open>POST /orders\<close>, whatever the request, the broker and the database: 201, 404,
  409, 503 and 500 from the service, and 422 exactly when the request does not pass its schema.
  An order without enough buying power is not among the failures: it is answered with 201 and
  the status REJECTED.
\<close>

theorem post_order_statuses:
  "reply_status (fst (post_order e submit meanwhile path raw db)) \<in> {201, 404, 409, 422, 500, 503} \<and>
   (reply_status (fst (post_order e submit meanwhile path raw db)) = 422 \<longleftrightarrow> validate_order_create raw = None)"
proof (cases "validate_order_create raw")
  case None
  then show ?thesis by (simp add: post_order_def)
next
  case (Some payload)
  obtain r s where rs: "create_order e submit meanwhile payload (open_session db) = (r, s)"
    by (cases "create_order e submit meanwhile payload (open_session db)")
  have p: "raises_only (placement_error payload) r"
    using raises_placement [of payload e submit meanwhile "open_session db"] by (simp add: rs)
  show ?thesis
  proof (cases r)
    case (Inl err)
    with p have "placement_error payload err" by (simp add: raises_only_def)
    then show ?thesis
      by (cases err) (auto simp: post_order_def Some rs Inl respond_def domain_exception_handler_def)
  qed (simp add: post_order_def Some rs respond_def)
qed

text \<open>
  Cancelling an order that is still open: the reply is 202 with the status CANCEL_PENDING, the
  order is moved there and nothing else of it changes, one audit event with the reason is
  written, and no money moves; the reservation is kept until the broker confirms.
\<close>

theorem cancel_is_requested:
  assumes "documented e" and "well_formed e db" and "order_row db oid = Some ord"
    and "o_status ord \<in> CANCELLABLE_ORDER_STATUSES" and "cancel oid ''Client requested cancellation'' = None"
  shows "\<exists>db'. post_cancel e cancel path oid db =
      (Reply 202 \<lparr>co_order_id = oid, co_status = CANCEL_PENDING, co_message = ''Cancellation request accepted''\<rparr>, db') \<and>
    order_row db' = (order_row db)(oid \<mapsto> ord\<lparr>o_status := CANCEL_PENDING, o_version := o_version ord + 1\<rparr>) \<and>
    account_row db' = account_row db \<and> fills db' = fills db \<and> well_formed e db' \<and>
    map e_new_status (order_events db') = map e_new_status (order_events db) @ [Some CANCEL_PENDING]"
proof -
  have oid: "o_id ord = oid" using row_of_SomeD [OF assms(3)] by simp
  from assms(1-4) obtain s' where s': "request_cancellation e cancel oid ''Client requested cancellation'' (open_session db) =
      (Inr (moved ord CANCEL_PENDING), s')"
      "order_row (tx s') = (order_row db)(oid \<mapsto> moved ord CANCEL_PENDING)" "account_row (tx s') = account_row db"
      "fills (tx s') = fills db" "well_formed e (tx s')"
      "order_events (tx s') = order_events db @ [audit e ord CANCEL_REQUESTED (Some (o_status ord))
        (Some CANCEL_PENDING) [(''reason'', JText ''Client requested cancellation'')]]"
    by (rule cancel_requested [where cancel = cancel and reason = "''Client requested cancellation''"])
      (simp add: assms(5))
  then show ?thesis
    by (intro exI [of _ "tx s'"]) (simp add: post_cancel_def respond_def oid, simp add: moved_def)
qed

theorem cancel_is_requested_witness:
  "\<exists>db'. post_cancel sample_env (\<lambda>_ _. None) ''/cancel'' ''O'' sample_db =
      (Reply 202 \<lparr>co_order_id = ''O'', co_status = CANCEL_PENDING, co_message = ''Cancellation request accepted''\<rparr>, db')"
  using cancel_is_requested [OF documented_sample sample_well_formed, of "''O''" sample_order "\<lambda>_ _. None"]
  by (auto simp: CANCELLABLE_ORDER_STATUSES_def)

text \<open>
  C31. A broker that fails during a cancellation: the exception is no domain error, so the reply is
  500 and not the 503 of an unavailable broker, yet the order has been moved to CANCEL_PENDING and
  stays there; a repeated request is answered with 202 without telling the broker, whatever it
  would answer now, so the cancellation is never sent.
\<close>

theorem cancel_is_lost_when_broker_fails:
  assumes "documented e" and "well_formed e db" and "order_row db oid = Some ord"
    and "o_status ord \<in> CANCELLABLE_ORDER_STATUSES" and "cancel oid ''Client requested cancellation'' = Some msg"
  shows "\<exists>db'. post_cancel e cancel path oid db = (ServerError, db') \<and>
    map_option o_status (order_row db' oid) = Some CANCEL_PENDING \<and>
    (\<forall>cancel'. post_cancel e cancel' path oid db' =
      (Reply 202 \<lparr>co_order_id = oid, co_status = CANCEL_PENDING, co_message = ''Cancellation request accepted''\<rparr>, db'))"
proof -
  have oid: "o_id ord = oid" using row_of_SomeD [OF assms(3)] by simp
  from assms(1-4) obtain s' where s': "request_cancellation e cancel oid ''Client requested cancellation'' (open_session db) =
      (Inl (BrokerFailure msg), s')"
      "order_row (tx s') = (order_row db)(oid \<mapsto> moved ord CANCEL_PENDING)" "well_formed e (tx s')"
    by (rule cancel_requested [where cancel = cancel and reason = "''Client requested cancellation''"])
      (simp add: assms(5))
  have row: "order_row (tx s') oid = Some (moved ord CANCEL_PENDING)" using fun_cong [OF s'(2), of oid] by simp
  have "tx (set_order (moved ord CANCEL_PENDING) (open_session (tx s'))) = tx s'" by simp
  with request_cancellation_refused(3) [OF s'(3) row] row show ?thesis
    by (intro exI [of _ "tx s'"]) (simp add: post_cancel_def respond_def oid s'(1))
qed

theorem cancel_is_lost_when_broker_fails_witness:
  "\<exists>db'. post_cancel sample_env (\<lambda>_ _. Some ''down'') ''/cancel'' ''O'' sample_db = (ServerError, db') \<and>
    map_option o_status (order_row db' ''O'') = Some CANCEL_PENDING"
  using cancel_is_lost_when_broker_fails [OF documented_sample sample_well_formed, of "''O''" sample_order
      "\<lambda>_ _. Some ''down''" "''down''" "''/cancel''"]
  by (auto simp: CANCELLABLE_ORDER_STATUSES_def)

text \<open>
  A cancellation that comes too late, or for an order that is not there, is refused with 409 or
  404 and changes nothing.
\<close>

theorem cancel_is_refused:
  assumes "well_formed e db"
    and "case order_row db oid of None \<Rightarrow> True | Some ord \<Rightarrow> o_status ord \<in> TERMINAL_ORDER_STATUSES"
  shows "\<exists>error msg. post_cancel e cancel path oid db =
    (ErrorReply (if order_row db oid = None then 404 else 409) error msg path, db)"
proof (cases "order_row db oid")
  case None
  with request_cancellation_refused(1) [OF assms(1) None] show ?thesis
    by (simp add: post_cancel_def respond_def domain_exception_handler_def)
next
  case (Some ord)
  then have "o_status ord \<notin> CANCELLABLE_ORDER_STATUSES" "o_status ord \<noteq> CANCEL_PENDING"
    using assms(2) by (auto simp: status_sets)
  with request_cancellation_refused(2) [OF assms(1) Some] Some show ?thesis
    by (simp add: post_cancel_def respond_def domain_exception_handler_def)
qed

theorem cancel_is_refused_witness:
  "\<exists>error msg. post_cancel sample_env (\<lambda>_ _. None) ''/cancel'' ''none'' sample_db =
    (ErrorReply 404 error msg ''/cancel'', sample_db)"
  using cancel_is_refused [OF sample_well_formed, of "''none''" "\<lambda>_ _. None" "''/cancel''"]
  by (simp add: sample_db_def row_of_Cons)

section \<open>Paging\<close>

lemma pages_concat: "concat (map (\<lambda>i. take l (drop (i * l) xs)) [0..<k]) = take (k * l) xs"
proof (induction k)
  case (Suc k)
  then show ?case by (simp add: take_add [symmetric] add.commute)
qed simp

text \<open>The orders a listing is about.\<close>

definition listed :: "uuid option \<Rightarrow> order_status option \<Rightarrow> bool \<Rightarrow> order \<Rightarrow> bool" where
  "listed account_id status open_only ord \<longleftrightarrow>
     (account_id = None \<or> account_id = Some (o_account_id ord)) \<and>
     (status = None \<or> status = Some (o_status ord)) \<and>
     (open_only \<longrightarrow> o_status ord \<notin> TERMINAL_ORDER_STATUSES \<and> o_status ord \<noteq> NEW)"

lemma sorted_scan:
  assumes "documented_scan scan" and "distinct (map key rows)"
  shows "sort_key key (scan rows) = sort_key key rows"
proof (rule sort_key_inj_key_eq)
  show "mset (scan rows) = mset (sort_key key rows)" using assms(1) by (simp add: documented_scan_def)
  have "set (scan rows) = set rows" using assms(1) mset_eq_setD unfolding documented_scan_def by blast
  then show "inj_on key (set (scan rows))" using assms(2) by (simp add: distinct_map)
qed simp

lemma listed_query:
  "order_list_orders scan account_id status open_only l n db =
     take l (drop n (sort_key (\<lambda>r. - o_created_at r) (scan (filter (listed account_id status open_only) (orders db)))))"
  unfolding order_list_orders_def listed_def
  by (intro arg_cong2 [where f = take] arg_cong2 [where f = drop] arg_cong2 [where f = sort_key] arg_cong [where f = scan]
      filter_cong refl)
    (auto simp: status_sets split: option.splits, (case_tac "o_status x"; simp)+)

text \<open>
  C33. Paging through the orders, when no two orders that match the filters were created in the same
  microsecond and none is added meanwhile: asking for the pages of any size the interface allows,
  one after the other, until they cover the listing, returns every order that matches the filters
  exactly once, newest first, and no page is longer than was asked for, in whatever order each of the
  queries finds the rows.
\<close>

theorem order_pages_are_complete:
  assumes "1 \<le> limit" and "limit \<le> 500"
    and "length (filter (listed account_id status open_only) (orders db)) \<le> k * nat limit"
    and "distinct (map o_created_at (filter (listed account_id status open_only) (orders db)))"
    and "\<And>i. documented_scan (scan i)"
  shows "\<exists>pages. map (\<lambda>i. get_orders (scan i) account_id status open_only limit (int i * limit) db) [0..<k] =
      map (Reply 200) pages \<and>
    (\<forall>page\<in>set pages. length page \<le> nat limit) \<and>
    mset (concat pages) = mset (map order_response_of (filter (listed account_id status open_only) (orders db))) \<and>
    sorted (map (\<lambda>r. - or_created_at r) (concat pages))"
proof -
  let ?l = "nat limit" and ?rows = "filter (listed account_id status open_only) (orders db)"
  define all where "all = sort_key (\<lambda>r. - o_created_at r) ?rows"
  have "distinct (map (\<lambda>r. - o_created_at r) ?rows)" using assms(4) by (simp add: distinct_map inj_on_def)
  then have "sort_key (\<lambda>r. - o_created_at r) (scan i ?rows) = all" for i
    unfolding all_def by (rule sorted_scan [OF assms(5)])
  moreover have "nat (int i * limit) = i * ?l" for i by (simp add: nat_mult_distrib)
  ultimately have page: "get_orders (scan i) account_id status open_only limit (int i * limit) db =
      Reply 200 (map order_response_of (take ?l (drop (i * ?l) all)))" for i
    using assms(1,2) by (simp add: get_orders_def list_orders_def listed_query)
  let ?pages = "map (\<lambda>i. map order_response_of (take ?l (drop (i * ?l) all))) [0..<k]"
  have "concat ?pages = map order_response_of (take (k * ?l) all)"
    unfolding pages_concat [symmetric] map_concat by (simp add: comp_def)
  also have "take (k * ?l) all = all" using assms(3) by (simp add: all_def)
  finally have "concat ?pages = map order_response_of all" .
  moreover have "mset all = mset ?rows"
    by (simp add: all_def)
  moreover have "sorted (map (\<lambda>r. - or_created_at r) (map order_response_of all))"
    by (simp add: all_def comp_def order_response_of_def)
  ultimately show ?thesis
    by (intro exI [of _ ?pages]) (simp add: page comp_def)
qed

theorem order_pages_are_complete_witness:
  "\<exists>old new. map (\<lambda>i. get_orders (if i = 0 then id else rev) None None True 1 (int i * 1)
      (sample_db\<lparr>orders := [sample_order, sample_order\<lparr>o_id := ''P'', o_created_at := 7\<rparr>]\<rparr>)) [0..<2] =
    [Reply 200 [new], Reply 200 [old]] \<and> or_id new = ''P'' \<and> or_id old = ''O''"
proof -
  let ?new = "sample_order\<lparr>o_id := ''P'', o_created_at := 7\<rparr>"
  let ?db = "sample_db\<lparr>orders := [sample_order, ?new]\<rparr>" and ?scan = "\<lambda>i :: nat. if i = 0 then id else rev"
  have f: "filter (listed None None True) (orders ?db) = [sample_order, ?new]" by (simp add: listed_def status_sets)
  have d: "distinct (map o_created_at [sample_order, ?new])" by (simp add: sample_order_def)
  have "\<exists>pages. map (\<lambda>i. get_orders (?scan i) None None True 1 (int i * 1) ?db) [0..<2] = map (Reply 200) pages \<and>
    (\<forall>page\<in>set pages. length page \<le> nat 1) \<and>
    mset (concat pages) = mset (map order_response_of [sample_order, ?new]) \<and>
    sorted (map (\<lambda>r. - or_created_at r) (concat pages))"
    using order_pages_are_complete [where limit = 1 and k = 2 and scan = ?scan and db = ?db and account_id = None
        and status = None and open_only = True] f d
    by (simp add: documented_scan_def)
  then obtain pages where p: "map (\<lambda>i. get_orders (?scan i) None None True 1 (int i * 1) ?db) [0..<2] = map (Reply 200) pages"
      "\<forall>page\<in>set pages. length page \<le> 1" "mset (concat pages) = mset (map order_response_of [sample_order, ?new])"
      "sorted (map (\<lambda>r. - or_created_at r) (concat pages))" by auto
  have "length pages = 2" using arg_cong [OF p(1), of length] by simp
  then obtain x y where xy: "pages = [x, y]" by (auto simp: numeral_2_eq_2 length_Suc_conv)
  have len: "length x \<le> 1" "length y \<le> 1" "length x + length y = 2"
    using p(2) arg_cong [OF p(3), of size] by (simp_all add: xy)
  then obtain r s where rs: "x = [r]" "y = [s]" by (cases x; cases y) auto
  have "{#r, s#} = {#order_response_of sample_order, order_response_of ?new#}" using p(3) by (simp add: xy rs)
  moreover have "or_created_at s \<le> or_created_at r" using p(4) by (simp add: xy rs)
  ultimately have "r = order_response_of ?new \<and> s = order_response_of sample_order"
    by (auto simp: add_eq_conv_diff order_response_of_def sample_order_def)
  with p(1) show ?thesis by (intro exI [of _ s] exI [of _ r]) (simp add: xy rs order_response_of_def)
qed

end
