(* ===== verification/Clock.thy ===== *)
theory Clock
  imports Session_View
begin

text \<open>
  Transactions run one after the other: each reads the clock and draws identifiers of its own, on
  the same column types. \<open>at_time e (t, u)\<close> is the environment of a transaction at \<open>t\<close> that draws
  \<open>u\<close>; what is known of stored rows does not depend on the two.
\<close>

definition at_time :: "env \<Rightarrow> timestamp \<times> uuid \<Rightarrow> env" where
  "at_time e stamp = e\<lparr>now := fst stamp, new_uuid := snd stamp\<rparr>"

lemma at_time_columns [simp]:
  "numeric (at_time e stamp) = numeric e" "varchar (at_time e stamp) = varchar e"
  "now (at_time e stamp) = fst stamp" "new_uuid (at_time e stamp) = snd stamp"
  "documented (at_time e stamp) = documented e"
  by (simp_all add: at_time_def documented_def)

lemma at_time_self [simp]: "at_time e (now e, new_uuid e) = e"
  by (simp add: at_time_def)

lemma at_time_fit [simp]:
  "store_numeric (at_time e stamp) = store_numeric e" "store_varchar (at_time e stamp) = store_varchar e"
  by (simp_all add: fun_eq_iff store_numeric_def store_varchar_def)

lemma at_time_store [simp]:
  "store_account (at_time e stamp) = store_account e" "store_order (at_time e stamp) = store_order e"
  "store_position (at_time e stamp) = store_position e" "store_price (at_time e stamp) = store_price e"
  by (simp_all add: fun_eq_iff store_defs)

lemma at_time_well_formed [simp]:
  "settled (at_time e stamp) db = settled e db" "well_formed (at_time e stamp) db = well_formed e db"
  by (simp_all add: well_formed_defs)

end
