(* ===== verification/Workers.thy ===== *)
theory Workers
  imports Execution_Properties Cancellation_Effects Clock
begin

text \<open>
  \<open>app/broker/worker.py\<close>: the two background tasks.

  \<open>broker_event_worker\<close> takes the events from the queue one by one; \<open>worker_step\<close> is one turn of
  its loop, which waits (\<open>None\<close>) on an empty queue. An exception of the handler is logged, and
  \<open>task_done\<close> runs in any case. \<open>day_order_expiry_worker\<close> wakes up, lists the expired DAY orders
  in one transaction and requests the cancellation of each in a transaction of its own
  (\<open>expiry_scan\<close>); an exception of one request is logged and does not stop the others. Between
  the transactions of a worker other transactions may commit; a run here is a worker on its own.
\<close>

section \<open>Broker events\<close>

record event_worker =
  w_queue :: "broker_execution_event list"
  w_unfinished :: nat
  w_database :: database
  w_failures :: "(uuid \<times> oms_error) list"

definition queue_put :: "broker_execution_event \<Rightarrow> event_worker \<Rightarrow> event_worker" where
  "queue_put ev w = w\<lparr>w_queue := w_queue w @ [ev], w_unfinished := w_unfinished w + 1\<rparr>"

definition worker_step :: "env \<Rightarrow> event_worker \<Rightarrow> event_worker option" where
  "worker_step e w =
     (case w_queue w of
        [] \<Rightarrow> None
      | ev # rest \<Rightarrow>
          (case process_event e ev (open_session (w_database w)) of
             (r, s) \<Rightarrow>
               Some (w\<lparr>w_queue := rest, w_unfinished := w_unfinished w - 1, w_database := tx s,
                       w_failures := w_failures w @
                         (case r of Inl err \<Rightarrow> [(ev_event_id ev, err)] | Inr _ \<Rightarrow> [])\<rparr>)))"

text \<open>The worker's turns, one for each point in time, until it has to wait.\<close>

fun broker_event_worker :: "env \<Rightarrow> (timestamp \<times> uuid) list \<Rightarrow> event_worker \<Rightarrow> event_worker" where
  "broker_event_worker e [] w = w"
| "broker_event_worker e (stamp # stamps) w =
     (case worker_step (at_time e stamp) w of None \<Rightarrow> w | Some w \<Rightarrow> broker_event_worker e stamps w)"

section \<open>Expired orders\<close>

definition expire_order ::
  "env \<Rightarrow> (uuid \<Rightarrow> timestamp \<times> uuid) \<Rightarrow> (uuid \<Rightarrow> string \<Rightarrow> string option) \<Rightarrow> database \<Rightarrow> uuid \<Rightarrow> database" where
  "expire_order e clock cancel db order_id =
     tx (snd (request_cancellation (at_time e (clock order_id)) cancel order_id
       ''DAY order expired at session end'' (open_session db)))"

definition expiry_scan ::
  "order scan \<Rightarrow> env \<Rightarrow> (uuid \<Rightarrow> timestamp \<times> uuid) \<Rightarrow> (uuid \<Rightarrow> string \<Rightarrow> string option) \<Rightarrow> database \<Rightarrow> database" where
  "expiry_scan scan e clock cancel db =
     foldl (expire_order e clock cancel) db (order_list_expired_day_order_ids scan (now e) 100 db)"

section \<open>Lemmas\<close>

lemma worker_step_Cons:
  assumes "documented e" and "well_formed e (w_database w)" and "w_queue w = ev # rest"
    and "w_unfinished w = length (w_queue w)"
  shows "\<exists>w'. worker_step e w = Some w' \<and> w_queue w' = rest \<and> w_unfinished w' = length rest \<and>
    well_formed e (w_database w') \<and> set (w_failures w) \<subseteq> set (w_failures w') \<and>
    (\<forall>eid. processed_row (w_database w) eid \<noteq> None \<longrightarrow> processed_row (w_database w') eid \<noteq> None) \<and>
    (processed_row (w_database w') (ev_event_id ev) \<noteq> None \<or> (\<exists>err. (ev_event_id ev, err) \<in> set (w_failures w')))"
proof -
  obtain r s where run: "process_event e ev (open_session (w_database w)) = (r, s)"
    by (cases "process_event e ev (open_session (w_database w))")
  note wf = process_event_well_formed [OF run assms(1,2)]
  have keep: "processed_row (tx s) eid \<noteq> None" if "processed_row (w_database w) eid \<noteq> None" for eid
    using process_event_keeps_records [OF assms(1,2) that, of ev] by (simp add: run)
  have "processed_row (tx s) (ev_event_id ev) \<noteq> None" if "r = Inr b" for b
    using process_event_records [OF assms(1,2) run [unfolded that]] by simp
  then show ?thesis
    using wf keep assms(3,4) by (cases r) (auto simp: worker_step_def run)
qed

text \<open>What expiring one order does to it, and what a list of ids does to the orders.\<close>

definition expired_to :: "order \<Rightarrow> order" where
  "expired_to ord = (if o_status ord = CANCEL_PENDING then ord else moved ord CANCEL_PENDING)"

lemma expired_to_simps [simp]: "o_status (expired_to ord) = CANCEL_PENDING" "expired_to (expired_to ord) = expired_to ord"
  by (simp_all add: expired_to_def)

lemma open_statuses: "st \<in> OPEN_ORDER_STATUSES \<longleftrightarrow> st \<in> CANCELLABLE_ORDER_STATUSES \<or> st = CANCEL_PENDING"
  by (cases st) (simp_all add: status_sets)

lemma expire_order_effect:
  assumes "documented e" and "well_formed e db" and "order_row db oid = Some ord"
    and "o_status ord \<in> OPEN_ORDER_STATUSES"
  shows "order_row (expire_order e clock cancel db oid) = (order_row db)(oid \<mapsto> expired_to ord) \<and>
    account_row (expire_order e clock cancel db oid) = account_row db \<and>
    fills (expire_order e clock cancel db oid) = fills db \<and> well_formed e (expire_order e clock cancel db oid)"
proof (cases "o_status ord = CANCEL_PENDING")
  case True
  have "well_formed (at_time e (clock oid)) db" using assms(2) by simp
  from request_cancellation_refused(3) [OF this assms(3) True] True show ?thesis
    using assms(2,3) by (simp add: expire_order_def expired_to_def fun_upd_idem)
next
  case False
  with assms(4) have c: "o_status ord \<in> CANCELLABLE_ORDER_STATUSES" by (simp add: open_statuses)
  have "documented (at_time e (clock oid))" "well_formed (at_time e (clock oid)) db" using assms(1,2) by simp_all
  from this assms(3) c show ?thesis
    by (rule cancel_requested [where cancel = cancel and reason = "''DAY order expired at session end''"])
      (use False in \<open>simp add: expire_order_def expired_to_def\<close>)
qed

lemma expire_orders_effect:
  assumes "documented e" and "well_formed e db"
    and "\<forall>oid\<in>set ids. \<exists>ord. order_row db oid = Some ord \<and> o_status ord \<in> OPEN_ORDER_STATUSES"
  shows "order_row (foldl (expire_order e clock cancel) db ids) oid =
      (if oid \<in> set ids then map_option expired_to (order_row db oid) else order_row db oid) \<and>
    account_row (foldl (expire_order e clock cancel) db ids) = account_row db \<and>
    fills (foldl (expire_order e clock cancel) db ids) = fills db \<and>
    well_formed e (foldl (expire_order e clock cancel) db ids)"
  using assms(2,3)
proof (induction ids arbitrary: db)
  case (Cons i ids)
  let ?db = "expire_order e clock cancel db i"
  obtain ord where ord: "order_row db i = Some ord" "o_status ord \<in> OPEN_ORDER_STATUSES" using Cons.prems(2) by auto
  note f = expire_order_effect [OF assms(1) Cons.prems(1) ord, of clock cancel]
  have row: "order_row ?db j = (if j = i then Some (expired_to ord) else order_row db j)" for j
    using fun_cong [OF conjunct1 [OF f], of j] by auto
  have "\<forall>j\<in>set ids. \<exists>ord. order_row ?db j = Some ord \<and> o_status ord \<in> OPEN_ORDER_STATUSES"
    using Cons.prems(2) by (auto simp: row OPEN_ORDER_STATUSES_def)
  from Cons.IH [OF _ this] f ord show ?case by (auto simp: row)
qed simp

text \<open>The DAY orders a scan looks for.\<close>

definition expired :: "timestamp \<Rightarrow> order \<Rightarrow> bool" where
  "expired t ord \<longleftrightarrow>
     o_time_in_force ord = DAY \<and> o_status ord \<in> OPEN_ORDER_STATUSES \<and>
     (case o_expires_at ord of None \<Rightarrow> False | Some x \<Rightarrow> x \<le> t)"

lemma documented_scan_mset: "documented_scan scan \<Longrightarrow> mset (scan rows) = mset rows"
  by (simp add: documented_scan_def)

lemma listed_expired:
  assumes "documented_scan scan" and "length (filter (expired t) (orders db)) \<le> n"
  shows "set (order_list_expired_day_order_ids scan t n db) = o_id ` set (filter (expired t) (orders db))"
proof -
  note m = documented_scan_mset [OF assms(1), of "filter (expired t) (orders db)"]
  have "length (scan (filter (expired t) (orders db))) \<le> n" "set (scan (filter (expired t) (orders db))) = set (filter (expired t) (orders db))"
    using mset_eq_length [OF m] mset_eq_setD [OF m] assms(2) by simp_all
  then show ?thesis
    by (simp add: order_list_expired_day_order_ids_def expired_def [abs_def])
qed

section \<open>Properties\<close>

text \<open>
  C34. The broker event worker gets through its queue: given as many turns as there are events, it
  has taken every event, \<open>task_done\<close> has been called for each (so \<open>queue.join\<close> returns), and
  every event is accounted for: it is recorded as processed, or its failure is in the log. An
  event the handler cannot process does not keep the worker from those behind it.
\<close>

theorem worker_accounts_for_every_event:
  assumes "documented e" and "well_formed e (w_database w)" and "w_unfinished w = length (w_queue w)"
    and "length (w_queue w) \<le> length stamps" and "broker_event_worker e stamps w = w'"
  shows "w_queue w' = [] \<and> w_unfinished w' = 0 \<and> well_formed e (w_database w') \<and>
    (\<forall>ev\<in>set (w_queue w). processed_row (w_database w') (ev_event_id ev) \<noteq> None \<or>
       (\<exists>err. (ev_event_id ev, err) \<in> set (w_failures w')))"
proof -
  have "w_queue w' = [] \<and> w_unfinished w' = 0 \<and> well_formed e (w_database w') \<and>
    set (w_failures w) \<subseteq> set (w_failures w') \<and>
    (\<forall>eid. processed_row (w_database w) eid \<noteq> None \<longrightarrow> processed_row (w_database w') eid \<noteq> None) \<and>
    (\<forall>ev\<in>set (w_queue w). processed_row (w_database w') (ev_event_id ev) \<noteq> None \<or>
       (\<exists>err. (ev_event_id ev, err) \<in> set (w_failures w')))"
    using assms(2-5)
  proof (induction stamps arbitrary: w)
    case Nil
    then show ?case by simp
  next
    case (Cons stamp stamps)
    show ?case
    proof (cases "w_queue w")
      case Nil
      with Cons.prems show ?thesis by (simp add: worker_step_def)
    next
      case q: (Cons ev rest)
      have "documented (at_time e stamp)" "well_formed (at_time e stamp) (w_database w)"
        using assms(1) Cons.prems(1) by simp_all
      from worker_step_Cons [OF this q Cons.prems(2)] obtain w1 where w1:
          "worker_step (at_time e stamp) w = Some w1" "w_queue w1 = rest" "w_unfinished w1 = length rest"
          "well_formed e (w_database w1)" "set (w_failures w) \<subseteq> set (w_failures w1)"
          "\<forall>eid. processed_row (w_database w) eid \<noteq> None \<longrightarrow> processed_row (w_database w1) eid \<noteq> None"
          "processed_row (w_database w1) (ev_event_id ev) \<noteq> None \<or> (\<exists>err. (ev_event_id ev, err) \<in> set (w_failures w1))"
        by auto
      from Cons.IH [OF w1(4), unfolded w1(2)] w1 q Cons.prems show ?thesis by auto
    qed
  qed
  then show ?thesis by blast
qed

theorem worker_accounts_for_every_event_witness:
  "\<exists>w. w_queue (broker_event_worker sample_env [(1, ''u''), (2, ''v'')] w) = [] \<and>
    length (w_queue w) = 2 \<and> w_database w = sample_db"
proof -
  let ?w = "\<lparr>w_queue = [sample_partial, sample_partial], w_unfinished = 2, w_database = sample_db, w_failures = []\<rparr>"
  have "w_queue (broker_event_worker sample_env [(1, ''u''), (2, ''v'')] ?w) = []"
    using worker_accounts_for_every_event [OF documented_sample, of ?w "[(1, ''u''), (2, ''v'')]"] by simp
  then show ?thesis by (intro exI [of _ ?w]) simp
qed

text \<open>
  C35. One scan of the expiry worker, when at most 100 orders have expired: every expired DAY order
  that is still open is CANCEL_PENDING afterwards, whichever of the requests the broker fails
  on; all other orders are as they were, and no money has moved.
\<close>

theorem expiry_scan_requests_every_cancellation:
  assumes "documented e" and "well_formed e db" and "length (filter (expired (now e)) (orders db)) \<le> 100"
    and "documented_scan scan"
  shows "(\<forall>oid. order_row (expiry_scan scan e clock cancel db) oid =
      map_option (\<lambda>ord. if expired (now e) ord \<and> o_status ord \<noteq> CANCEL_PENDING
        then ord\<lparr>o_status := CANCEL_PENDING, o_version := o_version ord + 1\<rparr> else ord) (order_row db oid)) \<and>
    account_row (expiry_scan scan e clock cancel db) = account_row db \<and>
    fills (expiry_scan scan e clock cancel db) = fills db \<and> well_formed e (expiry_scan scan e clock cancel db)"
proof -
  let ?ids = "order_list_expired_day_order_ids scan (now e) 100 db"
  have k: "keys_distinct db" using assms(2) by (simp add: well_formed_def)
  note ids = listed_expired [OF assms(4,3)]
  have row: "order_row db (o_id ord) = Some ord" if "ord \<in> set (orders db)" for ord
    using order_row_distinct [OF k that] .
  have mem: "oid \<in> set ?ids \<longleftrightarrow> (\<exists>ord. order_row db oid = Some ord \<and> expired (now e) ord)" for oid
    using row by (auto simp: ids dest: row_of_SomeD)
  have "\<forall>oid\<in>set ?ids. \<exists>ord. order_row db oid = Some ord \<and> o_status ord \<in> OPEN_ORDER_STATUSES"
    by (auto simp: mem expired_def)
  note f = expire_orders_effect [OF assms(1,2) this, where clock = clock and cancel = cancel, folded expiry_scan_def]
  show ?thesis
  proof (intro conjI allI)
    fix oid
    show "order_row (expiry_scan scan e clock cancel db) oid =
      map_option (\<lambda>ord. if expired (now e) ord \<and> o_status ord \<noteq> CANCEL_PENDING
        then ord\<lparr>o_status := CANCEL_PENDING, o_version := o_version ord + 1\<rparr> else ord) (order_row db oid)"
      using f [of oid] mem [of oid] by (cases "order_row db oid") (auto simp: expired_to_def moved_def)
  qed (use f in auto)
qed

theorem expiry_scan_requests_every_cancellation_witness:
  "map_option o_status (order_row (expiry_scan id sample_env (\<lambda>_. (0, ''u'')) (\<lambda>_ _. Some ''down'')
     (sample_db\<lparr>orders := [sample_order\<lparr>o_time_in_force := DAY, o_expires_at := Some 0\<rparr>]\<rparr>)) ''O'') = Some CANCEL_PENDING"
proof -
  let ?ord = "sample_order\<lparr>o_time_in_force := DAY, o_expires_at := Some 0\<rparr>"
  let ?db = "sample_db\<lparr>orders := [?ord]\<rparr>"
  have "store_order sample_env ?ord = Inr ?ord"
    by (simp add: sample_store sample_order_def)
  then have wf: "well_formed sample_env ?db" using sample_well_formed by (simp add: well_formed_defs)
  have n: "now sample_env = 0" by (simp add: sample_env_def pg_env_def)
  have "expired 0 ?ord" by (simp add: expired_def status_sets)
  with expiry_scan_requests_every_cancellation [OF documented_sample wf, where scan = id and clock = "\<lambda>_. (0, ''u'')" and cancel = "\<lambda>_ _. Some ''down''"]
  show ?thesis by (simp add: n row_of_Cons documented_scan_def)
qed

end
