(* ===== verification/System.thy ===== *)
theory System
  imports Ledger_Events Http_Api Workers
begin

text \<open>
  The system as a whole: every way its database changes.

  An action is a request to the HTTP interface that writes, an event the broker event worker takes
  from its queue, an order the expiry worker asks to cancel, or a tick of the market data client;
  \<open>run\<close> calls the model of the code that serves it, and \<open>reachable\<close> are the databases the system
  can get to from the empty one by an \<^emph>\<open>exact serial history\<close>:

  \<^item> serial: one action after the other, each to its end, and nothing is committed between the two
    transactions of \<open>create_order\<close> (its argument \<open>meanwhile\<close> is the identity here). In the program
    the tasks take turns at every \<open>await\<close>, and a commit can fall between the two: \<open>Routing_Failure\<close>
    shows what is lost then, and the refused order's last audit event may start at a status the
    order has left already.
  \<^item> exact (\<open>admissible\<close>): the notional of a new order and the amounts of the fills are multiples of
    \<open>10 ^ -8\<close>. In general quantity times price is not, and is rounded by the columns: \<open>Rounding_Loss\<close>
    shows that the books do not survive that. Events fit their schema, the symbol of a tick has at
    most 32 characters, and a broker's refusal at most 477, so that its text fits the column of the
    reason (a longer one leaves the order ROUTED with its cash reserved).

  What the broker answers is part of the action.

  An invariant of the system is a predicate that the empty database has and that every admissible
  action preserves (\<open>system_invariant\<close>); that the books are consistent is one.
\<close>

section \<open>Actions\<close>

datatype action =
    PostAccount account_create
  | PostOrder order_create "string option"
  | PostCancel uuid "string option"
  | ExpireOrder uuid "string option"
  | DeliverEvent broker_execution_event
  | DeliverTick string rat timestamp

fun run :: "env \<Rightarrow> action \<Rightarrow> database \<Rightarrow> database" where
  "run e (PostAccount raw) db = snd (post_account e ''/accounts'' raw db)"
| "run e (PostOrder raw answer) db = snd (post_order e (\<lambda>_. answer) (\<lambda>d. d) ''/orders'' raw db)"
| "run e (PostCancel oid answer) db = snd (post_cancel e (\<lambda>_ _. answer) ''/orders/cancel'' oid db)"
| "run e (ExpireOrder oid answer) db = expire_order e (\<lambda>_. (now e, new_uuid e)) (\<lambda>_ _. answer) db oid"
| "run e (DeliverEvent ev) db = tx (snd (process_event e ev (open_session db)))"
| "run e (DeliverTick symb price observed_at) db = tx (snd (apply_tick e symb price observed_at (open_session db)))"

fun admissible :: "database \<Rightarrow> action \<Rightarrow> bool" where
  "admissible db (PostOrder raw answer) \<longleftrightarrow>
     on_grid 8 (oc_quantity raw * oc_price raw) \<and> (case answer of None \<Rightarrow> True | Some reason \<Rightarrow> length reason \<le> 477)"
| "admissible db (DeliverEvent ev) \<longleftrightarrow> valid_event ev \<and> exact_amounts db ev"
| "admissible db (DeliverTick symb price observed_at) \<longleftrightarrow> length symb \<le> 32"
| "admissible db _ \<longleftrightarrow> True"

inductive reachable :: "env \<Rightarrow> database \<Rightarrow> bool" for e where
  start: "reachable e empty_db"
| act: "reachable e db \<Longrightarrow> admissible db a \<Longrightarrow> reachable e (run (at_time e stamp) a db)"

section \<open>Invariants of the system\<close>

locale system_invariant =
  fixes I :: "env \<Rightarrow> database \<Rightarrow> bool"
  assumes start: "I e empty_db"
    and step: "I e db \<Longrightarrow> admissible db a \<Longrightarrow> I e (run (at_time e stamp) a db)"
begin

lemma reachable_holds: "reachable e db \<Longrightarrow> I e db"
proof (induction rule: reachable.induct)
  case start
  show ?case by (rule system_invariant_axioms [THEN system_invariant.start])
next
  case (act db a stamp)
  then show ?case by (intro step)
qed

end

text \<open>The books do not depend on the clock.\<close>

lemma consistent_at_time [simp]: "consistent (at_time e stamp) db = consistent e db"
  by (simp add: consistent_def)

lemma run_consistent:
  assumes "documented e" and "consistent e db" and "admissible db a"
  shows "consistent e (run e a db)"
proof (cases a)
  case (PostAccount raw)
  show ?thesis
  proof (cases "validate_account_create raw")
    case None
    with assms(2) PostAccount show ?thesis by (simp add: post_account_def)
  next
    case (Some payload)
    then have "length (ac_user_id payload) \<le> 100" by (auto simp: validate_account_create_def split: if_splits)
    from create_account_consistent [OF assms(2,1) this] Some PostAccount show ?thesis
      by (simp add: post_account_def case_prod_beta)
  qed
next
  case (PostOrder raw answer)
  show ?thesis
  proof (cases "validate_order_create raw")
    case None
    with assms(2) PostOrder show ?thesis by (simp add: post_order_def)
  next
    case (Some payload)
    then have v: "valid_request payload" "oc_quantity payload = oc_quantity raw" "oc_price payload = oc_price raw"
      by (auto simp: valid_request_def validate_order_create_def split: if_splits)
    have "consistent e (tx (snd (create_order e (\<lambda>_. answer) (\<lambda>d. d) payload (open_session db))))"
      by (rule create_order_consistent [OF assms(2,1) v(1)]) (use assms(3) PostOrder v(2,3) in auto)
    with Some PostOrder show ?thesis by (simp add: post_order_def case_prod_beta)
  qed
next
  case (PostCancel oid answer)
  show ?thesis
    using request_cancellation_consistent [OF assms(2,1), of "\<lambda>_ _. answer" oid "''Client requested cancellation''"] PostCancel
    by (simp add: post_cancel_def case_prod_beta)
next
  case (ExpireOrder oid answer)
  have "consistent (at_time e (now e, new_uuid e)) db" "documented (at_time e (now e, new_uuid e))" using assms by simp_all
  from request_cancellation_consistent [OF this] ExpireOrder show ?thesis by (simp add: expire_order_def)
next
  case (DeliverEvent ev)
  with process_event_consistent [OF assms(2,1)] assms(3) show ?thesis by simp
next
  case (DeliverTick symb price observed_at)
  with apply_tick_consistent [OF assms(2,1)] assms(3) show ?thesis by simp
qed

interpretation books: system_invariant "\<lambda>e db. documented e \<longrightarrow> consistent e db"
proof
  show "documented e \<longrightarrow> consistent e empty_db" for e by (simp add: consistent_empty)
  show "documented e \<longrightarrow> consistent e (run (at_time e stamp) a db)"
    if "documented e \<longrightarrow> consistent e db" "admissible db a" for e db a stamp
    using that run_consistent [of "at_time e stamp" db a] by simp
qed

lemma reachable_consistent: "documented e \<Longrightarrow> reachable e db \<Longrightarrow> consistent e db"
  using books.reachable_holds by blast

end
