(* ===== verification/Funded_Fills.thy ===== *)
theory Funded_Fills
  imports System Error_Paths
begin

text \<open>
  Consistent books pay for what the broker reports: where they are consistent, no broker event is
  refused for want of reserved or of free cash, as long as fills are within the limit price.
\<close>

section \<open>What an order may still cost is reserved\<close>

lemma commitment_nonneg:
  assumes "order_checks ord"
  shows "0 \<le> commitment ord"
  using assms by (simp add: commitment_def order_checks_def)

lemma sum_list_member_le:
  "x \<in> set xs \<Longrightarrow> \<forall>y\<in>set xs. 0 \<le> f y \<Longrightarrow> f x \<le> (\<Sum>y\<leftarrow>xs. f y :: rat)"
proof (induction xs)
  case (Cons z zs)
  have nn: "0 \<le> (\<Sum>y\<leftarrow>zs. f y)" using Cons.prems(2) by (intro sum_list_nonneg) auto
  show ?case
  proof (cases "x = z")
    case True
    with nn show ?thesis by simp
  next
    case False
    then have "f x \<le> (\<Sum>y\<leftarrow>zs. f y)" using Cons.prems by (intro Cons.IH) auto
    moreover have "0 \<le> f z" using Cons.prems(2) by simp
    ultimately show ?thesis by simp
  qed
qed simp

lemma committed_covers:
  assumes "consistent e db" and "documented e" and "order_row db oid = Some ord"
  shows "commitment ord \<le> committed_cash db (o_account_id ord)"
proof -
  note c = consistentD [OF assms(1)]
  let ?f = "\<lambda>r. if o_account_id r = o_account_id ord then commitment r else 0"
  have "order_checks r" if "r \<in> set (orders db)" for r
    using c(2) settled_order(8) [OF assms(2)] that by (simp add: settled_def)
  then have "\<forall>r\<in>set (orders db). 0 \<le> ?f r" by (simp add: commitment_nonneg)
  moreover have "ord \<in> set (orders db)" using row_of_SomeD [OF assms(3)] by simp
  ultimately have "?f ord \<le> (\<Sum>r\<leftarrow>orders db. ?f r)" by (intro sum_list_member_le [where f = ?f])
  then show ?thesis by (simp add: committed_cash_def)
qed

section \<open>Statements that do not refuse a fill\<close>

fun no_refusal :: "oms_error \<Rightarrow> bool" where
  "no_refusal (InvalidFill _) = False"
| "no_refusal _ = True"

lemma database_no_refusal [simp]: "database_error err \<Longrightarrow> no_refusal err"
  by (cases err) simp_all

lemma transition_no_refusal: "raises_only no_refusal (transition e ord t ty d s)"
  unfolding transition_def ensure_transition_allowed_def by (intro raises_intros) simp_all

lemma position_no_refusal: "raises_only no_refusal (apply_execution e aid symb side q p s)"
proof -
  have "raises_only no_refusal (calculate_position_after_fill n a r side q p)" for n a r
    unfolding calculate_position_after_fill_def ddiv_def by (intro raises_intros) simp_all
  then show ?thesis
    unfolding apply_execution_def book_execution_def by (intro raises_intros) simp_all
qed

lemma book_no_refusal: "raises_only no_refusal (book_fill ord q p)"
  unfolding book_fill_def ddiv_def by (intro raises_intros) simp_all

text \<open>The account a statement reads is the one the view shows.\<close>

lemma fetched_account:
  assumes "account_get_for_update aid s = Inr (Some a', s')" and "session_ok s" and "v_accounts (view s) aid = Some a"
  shows "a' = a"
  using account_get_for_update_steps [OF assms(1,2)] assms(3) by auto

lemma cancel_no_refusal:
  assumes "session_ok s" and "v_accounts (view s) (o_account_id ord) = Some a"
    and "release_remaining_reservation a ord = Inr a'" and "CANCELLED \<in> ALLOWED_TRANSITIONS (o_status ord)"
  shows "raises_only no_refusal (cancel_remaining e ord reason d s)"
  unfolding cancel_remaining_def
proof (intro raises_intros)
  fix x found s' a1
  assume "account_get_for_update (o_account_id ord) s = Inr x" "x = (found, s')" "found = Some a1"
  then have "a1 = a" using fetched_account [OF _ assms(1,2)] by simp
  with assms(3) show "raises_only no_refusal (release_remaining_reservation a1 ord)" by (simp add: raises_only_def)
qed (use assms(4) in simp_all)

lemma conclude_no_refusal:
  assumes "session_ok s" and "v_accounts (view s) (o_account_id ord) = Some a"
    and "\<exists>a'. release_remaining_reservation a ord = Inr a'"
    and "o_status ord \<in> {ROUTED, PARTIALLY_FILLED, CANCEL_PENDING}"
  shows "raises_only no_refusal (conclude_fill e ord d s)"
  unfolding conclude_fill_def
proof (intro raises_intros)
  fix s1
  assume "append_event e ord PARTIAL_FILL_RECEIVED (Some (o_status ord)) (Some (o_status ord)) d s = Inr s1"
  from steps_toD [OF append_event_steps [OF this] assms(1)] have "session_ok s1" "v_accounts (view s1) = v_accounts (view s)"
    by simp_all
  with assms(2-4) show "raises_only no_refusal (cancel_remaining e ord ''IOC remainder cancelled'' d s1)"
    by (auto intro: cancel_no_refusal)
qed (use assms(4) in auto)

section \<open>The account can pay\<close>

lemma release_funded:
  assumes "on_grid 8 (o_remaining_quantity ord * o_price ord)" and "0 \<le> o_remaining_quantity ord" and "0 < o_price ord"
    and "a_reserved_cash a < 10 ^ 16"
    and "o_side ord = BUY \<Longrightarrow> o_remaining_quantity ord * o_price ord \<le> a_reserved_cash a"
  shows "\<exists>a'. release_remaining_reservation a ord = Inr a'"
proof (cases "o_side ord = BUY")
  case True
  have "0 \<le> o_remaining_quantity ord * o_price ord" using assms(2,3) by simp
  moreover have le: "o_remaining_quantity ord * o_price ord \<le> a_reserved_cash a" using True assms(5) by simp
  ultimately have "dmul (o_remaining_quantity ord) (o_price ord) = o_remaining_quantity ord * o_price ord"
    using assms(1,4) by (intro dmul_cents) auto
  with le show ?thesis by (simp add: release_remaining_reservation_def not_less)
qed (simp add: release_remaining_reservation_def)

lemma settle_funded:
  assumes "documented e" and "store_account e a = Inr a" and "o_side ord = BUY" and "0 < q" and "0 < p"
    and "p \<le> o_price ord" and "on_grid 8 (q * p)" and "on_grid 8 (q * o_price ord)" and "q * o_price ord \<le> a_reserved_cash a"
  shows "settle_account a ord q p = Inr (a\<lparr>a_reserved_cash := a_reserved_cash a - q * o_price ord,
    a_cash_balance := a_cash_balance a - q * p, a_version := a_version a + 1\<rparr>)"
proof -
  note sa = settled_account [OF assms(1,2)]
  have le: "q * p \<le> q * o_price ord" using assms(4,6) by simp
  have pos: "0 \<le> q * p" "0 \<le> q * o_price ord" using assms(4-6) by simp_all
  have "dmul q p = q * p" "dmul q (o_price ord) = q * o_price ord"
    using assms(7-9) le pos sa by (auto intro!: dmul_cents)
  moreover have "dsub (a_reserved_cash a) (q * o_price ord) = a_reserved_cash a - q * o_price ord"
      "dsub (a_cash_balance a) (q * p) = a_cash_balance a - q * p"
    using assms(7-9) le pos sa by (auto intro!: dsub_cents)
  ultimately show ?thesis using assms(3,9) le sa by (simp add: settle_account_def)
qed

text \<open>An order with its account, as they stand in consistent books.\<close>

definition funded :: "env \<Rightarrow> order \<Rightarrow> account \<Rightarrow> bool" where
  "funded e ord a \<longleftrightarrow>
     store_order e ord = Inr ord \<and> store_account e a = Inr a \<and> commitment ord \<le> a_reserved_cash a \<and>
     on_grid 8 (o_remaining_quantity ord * o_price ord)"

lemma funded_release:
  assumes "documented e" and "funded e ord a" and "o_status ord \<in> {ROUTED, PARTIALLY_FILLED, CANCEL_PENDING}"
  shows "\<exists>a'. release_remaining_reservation a ord = Inr a'"
proof -
  note f = assms(2) [unfolded funded_def]
  have so: "store_order e ord = Inr ord" "store_account e a = Inr a" using f by simp_all
  note s = settled_order [OF assms(1) so(1)] and sa = settled_account [OF assms(1) so(2)]
  have "o_side ord = BUY \<Longrightarrow> o_remaining_quantity ord * o_price ord \<le> a_reserved_cash a"
    using f working_statuses [OF assms(3)] by (simp add: commitment_def)
  moreover have "0 < o_price ord" using s(8) by (simp add: order_checks_def)
  ultimately show ?thesis using f order_bounds(1) [OF s(8,6)] sa by (intro release_funded) auto
qed

lemma settled_then_released:
  assumes "documented e" and "funded e ord a" and "o_status ord \<in> {ROUTED, PARTIALLY_FILLED, CANCEL_PENDING}"
    and "book_fill ord q p = Inr ord1" and "on_grid 8 q" and "0 < q" and "q \<le> o_remaining_quantity ord" and "0 < p"
    and "on_grid 8 (q * p)" and "on_grid 8 (q * o_price ord)" and "o_side ord = BUY \<Longrightarrow> p \<le> o_price ord"
  shows "\<exists>a1 a2. settle_account a ord1 q p = Inr a1 \<and> release_remaining_reservation a1 ord1 = Inr a2"
proof -
  note f = assms(2) [unfolded funded_def]
  have so: "store_order e ord = Inr ord" "store_account e a = Inr a" using f by simp_all
  note s = settled_order [OF assms(1) so(1)] and sa = settled_account [OF assms(1) so(2)]
  note k = book_fill_keeps [OF assms(4)] and x = book_fill_exact [OF assms(4,1) so(1) assms(5-7)]
  show ?thesis
  proof (cases "o_side ord")
    case SELL
    with k show ?thesis by (simp add: settle_account_def release_remaining_reservation_def Let_def)
  next
    case BUY
    have price: "0 < o_price ord" using s(8) by (simp add: order_checks_def)
    have rem: "o_remaining_quantity ord * o_price ord \<le> a_reserved_cash a"
      using f BUY working_statuses [OF assms(3)] by (simp add: commitment_def)
    have "q * o_price ord \<le> o_remaining_quantity ord * o_price ord" using assms(7) price by simp
    then have qle: "q * o_price ord \<le> a_reserved_cash a" using rem by (rule order_trans)
    let ?a1 = "a\<lparr>a_reserved_cash := a_reserved_cash a - q * o_price ord,
      a_cash_balance := a_cash_balance a - q * p, a_version := a_version a + 1\<rparr>"
    have "settle_account a ord1 q p = Inr ?a1"
      using settle_funded [OF assms(1) so(2), of ord1 q p] BUY assms(6,8-11) qle k by simp
    moreover have "\<exists>a2. release_remaining_reservation ?a1 ord1 = Inr a2"
    proof (rule release_funded)
      have r: "o_remaining_quantity ord1 * o_price ord1 = o_remaining_quantity ord * o_price ord - q * o_price ord"
        using k by (simp add: x left_diff_distrib)
      show "on_grid 8 (o_remaining_quantity ord1 * o_price ord1)" using f assms(10) by (simp add: r on_grid_diff)
      show "o_remaining_quantity ord1 * o_price ord1 \<le> a_reserved_cash ?a1" using rem by (simp add: r)
      show "0 \<le> o_remaining_quantity ord1" "0 < o_price ord1" using assms(7) price k by (simp_all add: x)
      have "0 \<le> q * o_price ord" using assms(6) price by simp
      then show "a_reserved_cash ?a1 < 10 ^ 16" using sa by simp
    qed
    ultimately show ?thesis by blast
  qed
qed

section \<open>The handlers\<close>

lemma fill_no_refusal:
  assumes "session_ok s" and "v_orders (view s) (o_id ord) = Some ord" and "v_accounts (view s) (o_account_id ord) = Some a"
    and "documented e" and "funded e ord a" and "valid_event ev" and "is_fill_type (ev_event_type ev)"
    and "on_grid 8 (ev_filled_quantity ev)" and "on_grid 8 (ev_filled_quantity ev * o_price ord)"
    and "\<And>p. ev_fill_price ev = Some p \<Longrightarrow>
      on_grid 8 (ev_filled_quantity ev * p) \<and> (o_side ord = BUY \<longrightarrow> p \<le> o_price ord)"
  shows "raises_only no_refusal (apply_fill e ord ev s)"
proof -
  let ?q = "ev_filled_quantity ev"
  from valid_event_fill [OF assms(6,7)] obtain p where p: "0 < ?q" "ev_fill_price ev = Some p" "0 < p" by blast
  note g = assms(10) [OF p(2)]
  have body: "raises_only no_refusal
     (and_then (book_fill ord ?q p) (\<lambda>ord.
      and_then (order_add_fill e (fill_of ord ev p) (set_order ord s)) (\<lambda>s.
      and_then (account_get_for_update (o_account_id ord) s) (\<lambda>(found, s).
      case found of
        None \<Rightarrow> Inl (AccountNotFound (o_account_id ord))
      | Some a \<Rightarrow>
          and_then (settle_account a ord ?q p) (\<lambda>a.
          and_then (apply_execution e (o_account_id ord) (o_symbol ord) (o_side ord) ?q p (set_account a s)) (\<lambda>(_, s).
          conclude_fill e ord (fill_event_data ev p) s))))))" (is "raises_only _ ?body")
    if st: "o_status ord \<in> {ROUTED, PARTIALLY_FILLED, CANCEL_PENDING}" and le: "?q \<le> o_remaining_quantity ord"
  proof (intro raises_intros book_no_refusal position_no_refusal)
    fix ord1 s1 x found s2 a'
    assume b: "book_fill ord ?q p = Inr ord1" "order_add_fill e (fill_of ord1 ev p) (set_order ord1 s) = Inr s1"
      and 2: "account_get_for_update (o_account_id ord1) s1 = Inr x" "x = (found, s2)" "found = Some a'"
    note k = book_fill_keeps [OF b(1)]
    from booked_steps [OF b assms(1,2)] obtain f where
        "steps_to e s (\<lambda>v. v\<lparr>v_orders := (v_orders v)(o_id ord \<mapsto> ord1), v_fills := v_fills v @ [f]\<rparr>) s1" by blast
    from steps_toD [OF this assms(1)] have v1: "session_ok s1" "v_accounts (view s1) = v_accounts (view s)" by simp_all
    have get: "account_get_for_update (o_account_id ord1) s1 = Inr (Some a', s2)" using 2 by simp
    have a': "a' = a" by (rule fetched_account [OF get v1(1)]) (use assms(3) v1(2) k in simp)
    from settled_then_released [OF assms(4,5) st b(1) assms(8) p(1) le p(3) _ assms(9)] g obtain a1 a2 where
        pay: "settle_account a ord1 ?q p = Inr a1" "release_remaining_reservation a1 ord1 = Inr a2" by blast
    then show "raises_only no_refusal (settle_account a' ord1 ?q p)" by (simp add: a' raises_only_def)
    note acc = fetch_and_set_account [OF get v1(1)]
    have "a_id a1 = o_account_id ord1" using settle_account_keeps [OF pay(1)] acc(2) a' by simp
    note st2 = steps_toD [OF acc(5) [OF this] v1(1)]
    fix a3 y pos s4
    assume 3: "settle_account a' ord1 ?q p = Inr a3"
      "apply_execution e (o_account_id ord1) (o_symbol ord1) (o_side ord1) ?q p (set_account a3 s2) = Inr y" "y = (pos, s4)"
    then have a3: "a3 = a1" using pay(1) a' by simp
    have ap: "apply_execution e (o_account_id ord1) (o_symbol ord1) (o_side ord1) ?q p (set_account a1 s2) = Inr (pos, s4)"
      using 3 a3 by simp
    from apply_execution_steps [OF ap conjunct1 [OF conjunct2 [OF st2]]]
    have "session_ok s4 \<and> v_accounts (view s4) = v_accounts (view (set_account a1 s2))"
      using steps_toD [OF _ conjunct1 [OF conjunct2 [OF st2]]] by auto
    then show "raises_only no_refusal (conclude_fill e ord1 (fill_event_data ev p) s4)"
      using st2 pay(2) st k by (intro conclude_no_refusal [of s4 ord1 a1]) auto
  qed simp_all
  show ?thesis
    using p(1) body by (auto simp: apply_fill_def Let_def p(2) raises_only_def not_less)
qed

lemma rejection_no_refusal:
  assumes "session_ok s" and "v_accounts (view s) (o_account_id ord) = Some a" and "documented e" and "funded e ord a"
  shows "raises_only no_refusal (apply_rejection e ord ev s)"
  unfolding apply_rejection_def
proof (intro raises_intros)
  fix x found s' a1
  assume st: "\<not> o_status ord \<noteq> ROUTED"
    and "account_get_for_update (o_account_id ord) s = Inr x" "x = (found, s')" "found = Some a1"
  then have "a1 = a" using fetched_account [OF _ assms(1,2)] by simp
  with funded_release [OF assms(3,4)] st show "raises_only no_refusal (release_remaining_reservation a1 ord)"
    by (auto simp: raises_only_def)
qed simp_all

lemma cancellation_no_refusal:
  assumes "session_ok s" and "v_accounts (view s) (o_account_id ord) = Some a" and "documented e" and "funded e ord a"
  shows "raises_only no_refusal (apply_cancellation e ord ev s)"
  unfolding apply_cancellation_def
proof (intro raises_intros)
  assume "\<not> o_status ord \<notin> {ROUTED, PARTIALLY_FILLED, CANCEL_PENDING}"
  then have st: "o_status ord \<in> {ROUTED, PARTIALLY_FILLED, CANCEL_PENDING}" by simp
  then have ok: "CANCELLED \<in> ALLOWED_TRANSITIONS (o_status ord)" by auto
  from funded_release [OF assms(3,4) st] obtain a' where "release_remaining_reservation a ord = Inr a'" ..
  from cancel_no_refusal [OF assms(1,2) this ok]
  show "raises_only no_refusal (cancel_remaining e ord (or_else (ev_reason ev) ''Cancelled by broker'')
      [(''broker_event_id'', JText (ev_event_id ev))] s)" .
qed

text \<open>Fills of BUY orders are no dearer than the limit price.\<close>

definition within_limit :: "database \<Rightarrow> broker_execution_event \<Rightarrow> bool" where
  "within_limit db ev \<longleftrightarrow>
     (case order_row db (ev_order_id ev) of
        None \<Rightarrow> True
      | Some ord \<Rightarrow>
          \<not> is_fill_type (ev_event_type ev) \<or> o_side ord = SELL \<or> (case ev_fill_price ev of None \<Rightarrow> True | Some p \<Rightarrow> p \<le> o_price ord))"

lemma dispatch_no_refusal:
  assumes "consistent e db" and "documented e" and "valid_event ev" and "exact_amounts db ev" and "within_limit db ev"
    and "session_ok s" and "view s = db_view db" and "order_row db (ev_order_id ev) = Some ord"
  shows "raises_only no_refusal (dispatch e ord ev s)"
proof -
  note c = consistentD [OF assms(1)]
  note b = c(5) [OF assms(8), unfolded order_booked_def]
  obtain a where a: "account_row db (o_account_id ord) = Some a" using b by auto
  have oid: "o_id ord = ev_order_id ev" using row_of_SomeD [OF assms(8)] by simp
  have v: "v_orders (view s) (o_id ord) = Some ord" "v_accounts (view s) (o_account_id ord) = Some a"
    using assms(7,8) a oid by simp_all
  have f: "funded e ord a"
    using settledD(1,2) [OF c(2)] a assms(8) c(6) [OF a] committed_covers [OF assms(1,2,8)] b by (simp add: funded_def)
  have "raises_only no_refusal (apply_fill e ord ev s)" if "is_fill_type (ev_event_type ev)"
    by (rule fill_no_refusal [OF assms(6) v assms(2) f assms(3) that])
      (use assms(4,5,8) that in \<open>auto simp: exact_amounts_def within_limit_def\<close>)
  then show ?thesis
    using rejection_no_refusal [OF assms(6) v(2) assms(2) f] cancellation_no_refusal [OF assms(6) v(2) assms(2) f]
    by (auto simp: dispatch_def is_fill_type_def intro!: raises_intros)
qed

lemma event_no_refusal:
  assumes "consistent e db" and "documented e" and "valid_event ev" and "exact_amounts db ev" and "within_limit db ev"
  shows "raises_only no_refusal (fst (process_event e ev (open_session db)))"
proof -
  have "raises_only no_refusal (process_event_body e ev (open_session db))"
    unfolding process_event_body_def
  proof (intro raises_intros)
    fix x found s1 ord processed
    assume g: "order_get_for_update (ev_order_id ev) (open_session db) = Inr x" "x = (found, s1)" "found = Some ord"
    then have "order_get_for_update (ev_order_id ev) (open_session db) = Inr (Some ord, s1)" by simp
    from order_get_for_update_steps [OF this session_ok_open, of e]
    have st: "steps_to e (open_session db) (\<lambda>v. v) s1" "order_row db (ev_order_id ev) = Some ord"
      by (simp_all add: view_open)
    from steps_toD [OF st(1) session_ok_open] have "session_ok s1" "view s1 = db_view db"
      by (simp_all add: db_view_def)
    from dispatch_no_refusal [OF assms this st(2)] show "raises_only no_refusal (dispatch e ord ev s1)" .
  qed simp_all
  then show ?thesis unfolding process_event_def by (rule raises_transaction) simp
qed

end
