(* ===== verification/System_Properties.thy ===== *)
theory System_Properties
  imports Funded_Fills
begin

text \<open>
  The properties of the system as a whole: what holds in every database it can reach, by the
  invariant of \<open>System\<close>.
\<close>

section \<open>A small run of the system\<close>

text \<open>
  For the witnesses: an account with 100 in cash is opened, a BUY order for 10 at limit 5 is placed
  and accepted by the broker, and 4 of it are filled at 3.
\<close>

definition sample_start :: database where
  "sample_start = run (at_time sample_env (0, ''A''))
     (PostAccount \<lparr>ac_user_id = ''user'', ac_initial_cash_balance = 100, ac_currency = ''INR''\<rparr>) empty_db"

definition sample_placed :: database where
  "sample_placed = run (at_time sample_env (0, ''O'')) (PostOrder sample_request None) sample_start"

definition sample_filled :: database where
  "sample_filled = run (at_time sample_env (0, ''NEW-ID'')) (DeliverEvent sample_partial) sample_placed"

lemma sample_time: "at_time sample_env (0, ''NEW-ID'') = sample_env"
  by (simp add: at_time_def sample_env_def pg_env_def)

lemma sample_start_rows:
  "sample_start = empty_db\<lparr>accounts := [sample_account\<lparr>a_reserved_cash := 0, a_version := 1\<rparr>]\<rparr>"
proof -
  let ?e = "at_time sample_env (0, ''A'')"
  let ?p = "\<lparr>ac_user_id = ''user'', ac_initial_cash_balance = 100, ac_currency = ''INR''\<rparr>"
  have "upper ''INR'' = ''INR''" by code_simp
  then have v: "validate_account_create ?p = Some ?p" by (simp add: validate_account_create_def)
  have "\<exists>s'. create_account ?e ?p (open_session empty_db) = (Inr (new_account ?e ?p), s') \<and>
    tx s' = empty_db\<lparr>accounts := accounts empty_db @ [new_account ?e ?p]\<rparr> \<and> well_formed ?e (tx s')"
    by (rule create_account_new_user [OF _ _ v]) (simp_all, simp_all add: empty_db_def)
  then show ?thesis
    using v by (auto simp: sample_start_def post_account_def) (simp add: empty_db_def new_account_def sample_account_def)
qed

lemma sample_request_valid: "validate_order_create sample_request = Some sample_request"
proof -
  have "normalize_symbol ''INFY'' = ''INFY''" by code_simp
  then show ?thesis by (simp add: validate_order_create_def)
qed

lemma reachable_start: "reachable sample_env sample_start"
  unfolding sample_start_def by (intro reachable.intros) simp

lemma reachable_placed: "reachable sample_env sample_placed"
  unfolding sample_placed_def by (intro reachable.act reachable_start) simp

lemma sample_placing:
  obtains s1 where "transaction (at_time sample_env (0, ''O'')) (create_order_body (at_time sample_env (0, ''O'')) sample_request)
      (open_session sample_start) = (Inr (sample_order, True), s1)" "sample_placed = tx s1"
    "leaves (at_time sample_env (0, ''O''))
      (routed_view (at_time sample_env (0, ''O'')) sample_request (sample_account\<lparr>a_reserved_cash := 0, a_version := 1\<rparr>)
        (db_view sample_start)) (tx s1)"
    "order_row (tx s1) = (order_row sample_start)(''O'' \<mapsto> sample_order)"
    "account_row (tx s1) = (account_row sample_start)(''A'' \<mapsto> sample_account)"
proof -
  let ?e = "at_time sample_env (0, ''O'')" and ?a = "sample_account\<lparr>a_reserved_cash := 0, a_version := 1\<rparr>"
  have wf: "well_formed ?e sample_start"
    using consistentD(1) [OF reachable_consistent [OF documented_sample reachable_start]] by simp
  have d: "documented ?e" by simp
  have v: "valid_request sample_request" using sample_request_valid by (auto simp: valid_request_def)
  have rows: "account_row sample_start (oc_account_id sample_request) = Some ?a" "order_row sample_start (new_uuid ?e) = None"
      "new_request sample_request sample_start"
    by (simp_all add: sample_start_rows row_of_Cons) (simp_all add: empty_db_def new_request_def)
  have g: "on_grid 8 (notional_of sample_request)" by (simp add: notional_of_def)
  have le: "required_buying_power (oc_side sample_request) (oc_quantity sample_request) (oc_price sample_request)
      \<le> available_cash ?a"
    by (simp add: required_buying_power_def available_cash_def decimal_defs)
  from new_request_transaction [OF d wf v rows(1,3,2) g] le obtain s1 where
    t: "transaction ?e (create_order_body ?e sample_request) (open_session sample_start) = (Inr (routed_order ?e sample_request, True), s1)"
    by auto
  note rt = routed_transaction [OF d wf v rows(1) g t]
  have "routed_order ?e sample_request = sample_order"
    by (simp add: routed_order_def new_order_def moved_def sample_order_def)
  moreover have "reserved_for sample_request ?a = sample_account"
    by (simp add: reserved_for_def required_buying_power_def decimal_defs sample_account_def)
  moreover have "sample_placed = tx s1"
    using t by (simp add: sample_placed_def post_order_def sample_request_valid create_order_def)
  ultimately show thesis using that t rt(5,7,8) by simp
qed

lemma sample_placed_rows:
  "order_row sample_placed ''O'' = Some sample_order" "account_row sample_placed ''A'' = Some sample_account"
  "fills sample_placed = []" "processed_broker_events sample_placed = []"
  "position_row sample_placed aid symb = None" "price_row sample_placed symb = None"
proof -
  obtain s1 where "transaction (at_time sample_env (0, ''O'')) (create_order_body (at_time sample_env (0, ''O'')) sample_request)
      (open_session sample_start) = (Inr (sample_order, True), s1)"
    and rt: "sample_placed = tx s1" "leaves (at_time sample_env (0, ''O''))
      (routed_view (at_time sample_env (0, ''O'')) sample_request (sample_account\<lparr>a_reserved_cash := 0, a_version := 1\<rparr>)
        (db_view sample_start)) (tx s1)"
      "order_row (tx s1) = (order_row sample_start)(''O'' \<mapsto> sample_order)"
      "account_row (tx s1) = (account_row sample_start)(''A'' \<mapsto> sample_account)"
    by (rule sample_placing)
  show "order_row sample_placed ''O'' = Some sample_order" "account_row sample_placed ''A'' = Some sample_account"
    using fun_cong [OF rt(3), of "''O''"] fun_cong [OF rt(4), of "''A''"] by (simp_all add: rt(1))
  show "fills sample_placed = []" "processed_broker_events sample_placed = []"
    using leavesD(5,7) [OF rt(2)] by (simp_all add: rt(1) routed_view_def sample_start_rows empty_db_def)
  show "position_row sample_placed aid symb = None" "price_row sample_placed symb = None"
    using leavesD(3) [OF rt(2), of aid symb] leavesD(4) [OF rt(2), of symb]
    by (simp_all add: rt(1) routed_view_def sample_start_rows empty_db_def)
qed

lemma sample_placed_trade:
  "trade_outcome sample_env (db_view sample_placed) sample_order sample_partial 3 =
     Inr (sample_position, fill_of sample_order sample_partial 3)"
  using sample_trade_outcome by (simp add: trade_outcome_def position_before_def mark_for_def sample_placed_rows)

lemma sample_placed_fills:
  "\<exists>s'. process_event sample_env sample_partial (open_session sample_placed) = (Inr True, s')"
proof (rule process_event_applies [where ord = sample_order and a = sample_account])
  show "well_formed sample_env sample_placed"
    by (rule consistentD(1) [OF reachable_consistent [OF documented_sample reachable_placed]])
  show "event_fits sample_env (db_view sample_placed) sample_order sample_account sample_partial
      (moved sample_booked PARTIALLY_FILLED, sample_charged,
       [audit sample_env sample_booked PARTIAL_FILL_RECEIVED (Some ROUTED) (Some PARTIALLY_FILLED)
         (fill_event_data sample_partial 3)]) (Some (sample_position, fill_of sample_order sample_partial 3))"
    by (simp add: event_fits_def fill_fits_def sample_book sample_settle mark_for_def sample_placed_rows)
qed (simp_all add: sample_placed_rows ignored_def event_outcome_def sample_fill_outcome event_trade_def sample_placed_trade)

lemma reachable_filled: "reachable sample_env sample_filled"
  unfolding sample_filled_def
  by (intro reachable.act reachable_placed)
    (simp add: valid_event_def validate_fill_payload_def exact_amounts_def sample_placed_rows)

text \<open>What the fill leaves: the row in fills, and the order and the account as booked and charged.\<close>

lemma sample_filled_rows:
  "fills sample_filled = [fill_of sample_order sample_partial 3]"
  "\<exists>ord. order_row sample_filled ''O'' = Some ord" "\<exists>a. account_row sample_filled ''A'' = Some a"
proof -
  have wf: "well_formed sample_env sample_placed"
    by (rule consistentD(1) [OF reachable_consistent [OF documented_sample reachable_placed]])
  obtain s' where s': "process_event sample_env sample_partial (open_session sample_placed) = (Inr True, s')"
    using sample_placed_fills by blast
  have f: "sample_filled = tx s'" by (simp add: sample_filled_def sample_time s')
  from s' well_formed_settled [OF wf] documented_sample
  have "fills (tx s') = [fill_of sample_order sample_partial 3] \<and> (\<exists>ord. order_row (tx s') ''O'' = Some ord) \<and>
    (\<exists>a. account_row (tx s') ''A'' = Some a)"
  proof (cases rule: process_event_cases)
    case (applied ord a out trade)
    then have o: "ord = sample_order" "a = sample_account" by (simp_all add: sample_placed_rows)
    from applied(6,7) o have x: "trade = Some (sample_position, fill_of sample_order sample_partial 3)"
        "out = (moved sample_booked PARTIALLY_FILLED, sample_charged,
          [audit sample_env sample_booked PARTIAL_FILL_RECEIVED (Some ROUTED) (Some PARTIALLY_FILLED)
            (fill_event_data sample_partial 3)])"
      by (simp_all add: event_outcome_def sample_fill_outcome event_trade_def sample_placed_trade)
    have k: "o_id sample_booked = ''O''" "a_id sample_charged = ''A''" by (simp_all add: sample_booked_def sample_charged_def)
    show ?thesis
      using stored_out [OF applied(9)] leavesD(5) [OF applied(9)] by (auto simp: x k sample_placed_rows)
  qed simp_all
  then show "fills sample_filled = [fill_of sample_order sample_partial 3]"
    "\<exists>ord. order_row sample_filled ''O'' = Some ord" "\<exists>a. account_row sample_filled ''A'' = Some a"
    by (simp_all add: f)
qed

section \<open>Properties\<close>
text \<open>
  C1. The money is there, after every exact serial history (\<open>reachable\<close>: one transaction after the
  other, nothing committed between the two of \<open>create_order\<close>, notionals of new orders and amounts
  of fills multiples of \<open>10 ^ -8\<close>, refusals of the broker at most 477 characters long): the reserved
  cash of an account is exactly what its open BUY orders may still cost (the sum of remaining
  quantity times limit price), and the account holds that much: no order is accepted that the
  account could not pay, and no reservation is left behind by orders that have been filled,
  cancelled or rejected. Without the conditions it is false (\<open>Rounding_Loss\<close>, \<open>Routing_Failure\<close>).
\<close>

theorem reserved_cash_is_backed:
  assumes "documented e" and "reachable e db" and "account_row db aid = Some a"
  shows "a_reserved_cash a = committed_cash db aid \<and> 0 \<le> committed_cash db aid \<and>
    committed_cash db aid \<le> a_cash_balance a"
proof -
  note c = consistentD [OF reachable_consistent [OF assms(1,2)]]
  show ?thesis
    using c(6) [OF assms(3)] settled_account(4,5) [OF assms(1) settledD(1) [OF c(2) assms(3)]] by simp
qed

theorem reserved_cash_is_backed_witness:
  "committed_cash sample_placed ''A'' = 50 \<and> a_cash_balance sample_account = 100"
  using reserved_cash_is_backed [OF documented_sample reachable_placed sample_placed_rows(2)] by simp

text \<open>
  C3. Orders, positions and fills agree. In every database the system can reach, the filled quantity
  of an order is the sum of its rows in fills, its filled, cancelled and remaining quantities add up
  to what was ordered, and the net quantity of a position is the signed sum (bought minus sold) of
  the fills of the account in the symbol.
\<close>

theorem fills_add_up:
  assumes "documented e" and "reachable e db"
  shows "(\<forall>ord\<in>set (orders db). o_filled_quantity ord = filled_total db (o_id ord) \<and>
      o_filled_quantity ord + o_cancelled_quantity ord + o_remaining_quantity ord = o_quantity ord) \<and>
    (\<forall>aid symb. net_quantity_of db aid symb = traded_total db aid symb)"
proof -
  have con: "consistent e db" by (rule reachable_consistent [OF assms])
  have "order_checks ord" if "ord \<in> set (orders db)" for ord
    using consistentD(2) [OF con] settled_order(8) [OF assms(1)] that by (simp add: settled_def)
  then show ?thesis using con by (simp add: consistent_def order_booked_def order_checks_def)
qed

theorem fills_add_up_witness:
  "\<exists>ord. order_row sample_filled ''O'' = Some ord \<and> o_filled_quantity ord = 4"
proof -
  obtain ord where ord: "order_row sample_filled ''O'' = Some ord" using sample_filled_rows(2) by blast
  have "filled_total sample_filled ''O'' = 4" by (simp add: filled_total_def sample_filled_rows fill_of_def)
  with fills_add_up [OF documented_sample reachable_filled] row_of_SomeD [OF ord] have "o_filled_quantity ord = 4"
    by auto
  with ord show ?thesis by blast
qed

text \<open>
  C4. The audit trail tells the story of an order, after every exact serial history (\<open>reachable\<close>; in
  particular nothing is committed between the two transactions of \<open>create_order\<close>): replaying the
  events of an order from its creation, where each event must start at the status the one before
  has led to and may change it only as the state machine allows, ends in the status the order has;
  and that status agrees with the order's quantities.
\<close>

theorem audit_trail_replays:
  assumes "documented e" and "reachable e db" and "order_row db oid = Some ord"
  shows "replay None (history db oid) = Some (Some (o_status ord)) \<and> status_fits ord"
  using consistentD(5) [OF reachable_consistent [OF assms(1,2)] assms(3)] row_of_SomeD [OF assms(3)]
  by (auto simp: order_booked_def)

theorem audit_trail_replays_witness:
  "replay None (history sample_placed ''O'') = Some (Some ROUTED)"
  using audit_trail_replays [OF documented_sample reachable_placed sample_placed_rows(1)] by simp

text \<open>
  C6. At most once. In every database the system can reach, no two orders of an account share an
  idempotency key or a client order id, however often requests were repeated, and no two accounts
  share a user.
\<close>

theorem client_keys_identify:
  assumes "documented e" and "reachable e db"
  shows "(\<forall>r\<in>set (orders db). \<forall>r'\<in>set (orders db). o_account_id r = o_account_id r' \<and>
      (o_idempotency_key r = o_idempotency_key r' \<or> o_client_order_id r = o_client_order_id r') \<longrightarrow> r = r') \<and>
    (\<forall>a\<in>set (accounts db). \<forall>a'\<in>set (accounts db). a_user_id a = a_user_id a' \<longrightarrow> a = a')"
  using consistentD(4) [OF reachable_consistent [OF assms]]
  unfolding keys_unique_def distinct_map inj_on_def request_keys_def client_keys_def by blast

theorem client_keys_identify_witness:
  "orders sample_filled \<noteq> [] \<and> \<not> (\<exists>r\<in>set (orders sample_filled). \<exists>r'\<in>set (orders sample_filled).
     o_account_id r = o_account_id r' \<and> o_idempotency_key r = o_idempotency_key r' \<and> r \<noteq> r')"
proof
  show "orders sample_filled \<noteq> []" using sample_filled_rows(2) by (auto simp: row_of_def)
  show "\<not> (\<exists>r\<in>set (orders sample_filled). \<exists>r'\<in>set (orders sample_filled).
     o_account_id r = o_account_id r' \<and> o_idempotency_key r = o_idempotency_key r' \<and> r \<noteq> r')"
    using client_keys_identify [OF documented_sample reachable_filled] by blast
qed

text \<open>
  C5. The broker is always paid, after every exact serial history (\<open>reachable\<close>): a valid broker event is
  never refused with \<open>InvalidFill\<close>, provided its amounts are exact (quantity, quantity times fill
  price and quantity times limit price multiples of \<open>10 ^ -8\<close>) and a fill of a BUY order is no dearer
  than its limit price: the reservation covers what it releases, the cash covers what it costs, and
  so it is for rejections, cancellations and the remainder of IOC orders. (Events with other
  amounts may be refused: \<open>Rounding_Loss\<close>.)
\<close>

theorem events_are_paid:
  assumes "documented e" and "reachable e db" and "valid_event ev" and "exact_amounts db ev" and "within_limit db ev"
  shows "fst (process_event (at_time e stamp) ev (open_session db)) \<noteq> Inl (InvalidFill msg)"
proof
  assume *: "fst (process_event (at_time e stamp) ev (open_session db)) = Inl (InvalidFill msg)"
  have "consistent (at_time e stamp) db" "documented (at_time e stamp)"
    using reachable_consistent [OF assms(1,2)] assms(1) by simp_all
  from raises_onlyD [OF event_no_refusal [OF this assms(3-5)] *] show False by simp
qed

theorem events_are_paid_witness:
  "fst (process_event (at_time sample_env (0, ''X'')) (sample_event FULL_FILL 10 5) (open_session sample_placed)) \<noteq>
     Inl (InvalidFill ''Reserved cash is inconsistent with the order'')"
  by (rule events_are_paid [OF documented_sample reachable_placed])
    (simp_all add: valid_event_def validate_fill_payload_def exact_amounts_def within_limit_def sample_placed_rows)

end
