(* ===== verification/Rounding_Loss.thy ===== *)
theory Rounding_Loss
  imports System_Properties
begin

text \<open>
  Why the invariant of the system asks for exact amounts: \<open>create_order\<close> reserves quantity times
  price as it is stored, with 8 decimals, and the execution service compares the stored amount with
  the product as it is computed, with up to 16. Where the column has rounded down, the order it was
  reserved for cannot be filled.
\<close>

section \<open>Lemmas\<close>

lemma product_exact:
  assumes "on_grid 8 x" and "on_grid 8 y" and "0 \<le> x * y" and "x * y < 10 ^ 11"
  shows "prec28 (x * y) = x * y"
proof (rule prec28_on_grid)
  show "on_grid 16 (x * y)" using on_grid_mult [OF assms(1,2)] by simp
  show "\<bar>x * y\<bar> * 10 ^ 16 < 10 ^ 28" using assms(3,4) by simp
qed

text \<open>A full fill needs the whole product of the order to be reserved.\<close>

lemma full_fill_needs_product:
  assumes "event_outcome e ord a ev = Inr out" and "ev_event_type ev = FULL_FILL" and "o_side ord = BUY"
    and "ev_filled_quantity ev = q"
  shows "dmul q (o_price ord) \<le> a_reserved_cash a"
proof -
  from assms(1,2) obtain p where "fill_outcome e ord a ev p = Inr out"
    by (auto simp: event_outcome_def is_fill_type_def split: option.splits)
  then obtain ord1 a1 where o: "book_fill ord q p = Inr ord1" "settle_account a ord1 q p = Inr a1"
    by (auto simp: fill_outcome_def assms(4))
  with book_fill_keeps [OF o(1)] assms(3) show ?thesis
    by (auto simp: settle_account_def Let_def not_less split: if_splits)
qed

text \<open>So a full fill the reservation does not cover changes nothing.\<close>

lemma full_fill_refused:
  assumes "documented e" and "well_formed e db" and "order_row db oid = Some ord" and "o_side ord = BUY"
    and "account_row db (o_account_id ord) = Some a" and "ev_order_id ev = oid" and "ev_event_type ev = FULL_FILL"
    and "a_reserved_cash a < dmul (ev_filled_quantity ev) (o_price ord)"
  shows "fst (process_event e ev (open_session db)) \<noteq> Inr True \<and>
    order_row (tx (snd (process_event e ev (open_session db)))) oid = Some ord"
proof -
  note w = well_formed_settled [OF assms(2)]
  obtain b s where run: "process_event e ev (open_session db) = (b, s)" by (cases "process_event e ev (open_session db)")
  have "b \<noteq> Inr True \<and> order_row (tx s) oid = Some ord"
  proof (cases b)
    case (Inl err)
    with run have "tx s = db" by (auto simp: process_event_def dest: transaction_rollback)
    with Inl assms(3) show ?thesis by simp
  next
    case (Inr applied)
    with run have "process_event e ev (open_session db) = (Inr applied, s)" by simp
    from this w assms(1) show ?thesis
    proof (cases rule: process_event_cases)
      case (duplicate ord')
      with leaves_unchanged(2) [OF duplicate(4) w, of oid] assms(3) Inr show ?thesis by simp
    next
      case (ignored ord' reason)
      with leaves_unchanged(2) [OF ignored(5) w, of oid] assms(3) Inr show ?thesis by simp
    next
      case (applied ord' a' out trade)
      then have "ord' = ord" "a' = a" using assms(3,5,6) by simp_all
      with full_fill_needs_product [OF applied(6) assms(7)] assms(4,8) show ?thesis by simp
    qed
  qed
  with run show ?thesis by simp
qed

lemma new_order_accepted:
  assumes "create_order e submit (\<lambda>d. d) payload (open_session db) = (Inr ord, s1)" and "o_status ord = ROUTED"
    and "documented e" and "well_formed e db" and "valid_request payload" and "new_request payload db"
    and "account_row db (oc_account_id payload) = Some a"
  shows "ord = routed_order e payload \<and> store_order e ord = Inr ord \<and> well_formed e (tx s1) \<and>
    leaves e (routed_view e payload a (db_view db)) (tx s1)"
proof -
  obtain r t where t: "transaction e (create_order_body e payload) (open_session db) = (r, t)"
    by (cases "transaction e (create_order_body e payload) (open_session db)")
  with assms(1) obtain ord1 route where r: "r = Inr (ord1, route)"
    by (cases r) (auto simp: create_order_def)
  have o: "ord1 = ord" "t = s1"
    using assms(1) t r by (auto simp: create_order_def split: if_splits option.splits sum.splits prod.splits)
  from t r o have run: "transaction e (create_order_body e payload) (open_session db) = (Inr (ord, route), s1)" by simp
  note wf = create_order_transaction_well_formed [OF run assms(3,4)]
  from run assms(3-5) show ?thesis
  proof (cases rule: create_order_transaction_cases)
    case (existing b)
    with assms(6) show ?thesis by (auto simp: new_request_def order_matches_request_def)
  next
    case (rejected b)
    with assms(2) show ?thesis by simp
  next
    case (routed b)
    with assms(7) wf show ?thesis by simp
  qed
qed

text \<open>What a partial fill within an exact reservation leaves: the cost of the rest, as it is stored.\<close>

lemma partial_fill_leaves:
  assumes "process_event e ev (open_session db) = (Inr True, s1)" and "documented e" and "well_formed e db"
    and "order_row db oid = Some ord" and "o_side ord = BUY" and "account_row db (o_account_id ord) = Some a"
    and "a_reserved_cash a = o_remaining_quantity ord * o_price ord" and "a_reserved_cash a < 10 ^ 11"
    and "o_time_in_force ord \<noteq> IOC" and "ev_order_id ev = oid" and "ev_event_type ev = PARTIAL_FILL"
    and "on_grid 8 (ev_filled_quantity ev)" and "ev_filled_quantity ev < o_remaining_quantity ord"
    and "rest = o_remaining_quantity ord - ev_filled_quantity ev"
  obtains r ra where "order_row (tx s1) oid = Some r" "request_of r = request_of ord" "o_remaining_quantity r = rest"
    "account_row (tx s1) (o_account_id r) = Some ra" "numeric e (rest * o_price ord) = Some (a_reserved_cash ra)"
    "dmul rest (o_price ord) = rest * o_price ord"
proof -
  let ?q = "ev_filled_quantity ev" and ?p = "o_price ord"
  note w = well_formed_settled [OF assms(3)]
  have so: "store_order e ord = Inr ord" by (rule settledD(2) [OF w assms(4)])
  note s = settled_order [OF assms(2) so]
  have pos: "0 < ?p" using s(8) by (simp add: order_checks_def)
  from assms(1) w assms(2) show thesis
  proof (cases rule: process_event_cases)
    case (applied ord' a' out trade)
    then have same: "ord' = ord" "a' = a" using assms(4,6,10) by simp_all
    have q: "0 < ?q" using applied(8) assms(11) by (simp add: is_fill_type_def)
    from applied(6) assms(11) same obtain p where fo: "fill_outcome e ord a ev p = Inr out"
      by (auto simp: event_outcome_def is_fill_type_def split: option.splits)
    then obtain o1 a1 where o: "book_fill ord ?q p = Inr o1" "settle_account a o1 ?q p = Inr a1"
        "conclude_outcome e o1 a1 (fill_event_data ev p) = Inr out"
      by (auto simp: fill_outcome_def)
    have le: "?q \<le> o_remaining_quantity ord" using assms(13) by simp
    note x = book_fill_exact [OF o(1) assms(2) so assms(12) q le] and k = book_fill_keeps [OF o(1)]
    have rem: "o_remaining_quantity o1 = rest" "0 < rest" using x assms(13,14) by simp_all
    have out: "fst (snd out) = a1" "o_remaining_quantity (fst out) = rest"
      using o(3) rem k assms(9) by (auto simp: conclude_outcome_def Let_def moved_def split: if_splits)
    have grid: "on_grid 8 rest" using assms(12,14) s(5) by (simp add: on_grid_diff)
    have prod: "dmul x ?p = x * ?p" if "on_grid 8 x" "0 < x" "x \<le> o_remaining_quantity ord" for x
    proof -
      have "x * ?p \<le> a_reserved_cash a" using mult_right_mono [OF that(3), of ?p] pos assms(7) by simp
      then have "x * ?p < 10 ^ 11" using assms(8) by linarith
      then show ?thesis using product_exact [OF that(1) s(2)] that(2) pos by (simp add: dmul_def)
    qed
    have m: "dmul ?q ?p = ?q * ?p" "dmul rest ?p = rest * ?p"
      using prod [OF assms(12) q le] prod [OF grid rem(2)] q assms(14) by simp_all
    then have "prec28 (rest * ?p) = rest * ?p" by (simp add: dmul_def)
    moreover have "a_reserved_cash a - ?q * ?p = rest * ?p" by (simp add: assms(7,14) left_diff_distrib)
    ultimately have "a_reserved_cash a1 = rest * ?p"
      using o(2) k assms(5) m by (auto simp: settle_account_def Let_def dsub_def split: if_splits)
    moreover from applied(9) w obtain r ra where r: "store_order e (fst out) = Inr r" "store_account e (fst (snd out)) = Inr ra"
        "order_row (tx s1) = (order_row db)(o_id (fst out) \<mapsto> r)"
        "account_row (tx s1) = (account_row db)(a_id (fst (snd out)) \<mapsto> ra)" by (rule applied_rows)
    ultimately have res: "numeric e (rest * ?p) = Some (a_reserved_cash ra)"
      using store_accountD(4) [OF r(2)] by (simp add: out(1))
    have ro: "request_of (fst out) = request_of ord" using request_of_outcome [OF applied(6)] same by simp
    have rq: "request_of r = request_of ord" by (rule request_of_stored [OF assms(2) r(1) so ro])
    have "a_id a1 = o_account_id ord"
      using o(2) row_of_SomeD [OF assms(6)] by (auto simp: settle_account_def Let_def split: if_splits)
    then show thesis
      using that [of r ra] rq res m(2) request_of_eqD(2) [OF rq] request_of_eqD(1) [OF ro] row_of_SomeD [OF assms(4)]
        stored_order_exact(3) [OF assms(2) r(1)] grid out fun_cong [OF r(3), of oid] fun_cong [OF r(4), of "o_account_id ord"]
      by simp
  qed simp_all
qed

section \<open>Property\<close>

text \<open>
  C24. A rounded reservation strands its order. When nothing is reserved on the account and the column
  rounds the notional of a new BUY order down (3e-8 at 0.4 is stored as 1e-8 instead of 1.2e-8), the
  order is routed with the rounded amount reserved, and its full fill, at whatever price and time it
  comes, is not applied in any database in which the order is as it was routed and the account has
  no more reserved than that amount, whatever else has happened: the order stays open and unfilled.
  (Where another order of the account has cash reserved, that cash makes up for what is missing.)
\<close>

theorem rounded_reservation_strands_fill:
  assumes "documented e" and "well_formed e db" and "valid_request payload" and "oc_side payload = BUY"
    and "account_row db (oc_account_id payload) = Some a" and "a_reserved_cash a = 0" and "new_request payload db"
    and "oc_quantity payload * oc_price payload < 10 ^ 11"
    and "numeric e (oc_quantity payload * oc_price payload) = Some stored" and "stored < oc_quantity payload * oc_price payload"
    and "create_order e submit (\<lambda>d. d) payload (open_session db) = (Inr ord, s1)" and "o_status ord = ROUTED"
  shows "order_row (tx s1) (o_id ord) = Some ord \<and>
    map_option a_reserved_cash (account_row (tx s1) (o_account_id ord)) = Some stored \<and>
    (\<forall>db' a' ev stamp. well_formed e db' \<and> order_row db' (o_id ord) = Some ord \<and>
       account_row db' (o_account_id ord) = Some a' \<and> a_reserved_cash a' \<le> stored \<and>
       ev_order_id ev = o_id ord \<and> ev_event_type ev = FULL_FILL \<and> ev_filled_quantity ev = oc_quantity payload \<longrightarrow>
       fst (process_event (at_time e stamp) ev (open_session db')) \<noteq> Inr True \<and>
       order_row (tx (snd (process_event (at_time e stamp) ev (open_session db')))) (o_id ord) = Some ord)"
proof -
  let ?p = "oc_quantity payload * oc_price payload"
  from new_order_accepted [OF assms(11,12,1-3,7,5)] have new: "ord = routed_order e payload"
      "store_order e ord = Inr ord" "well_formed e (tx s1)" "leaves e (routed_view e payload a (db_view db)) (tx s1)"
    by blast+
  note v = valid_requestD [OF assms(3)]
  have "0 \<le> ?p" using v(4,5) by simp
  with assms(8) v(6,7) have ex: "prec28 ?p = ?p" by (intro product_exact)
  have row: "order_row (tx s1) (o_id ord) = Some ord"
    using leavesD(2) [OF new(4), of "new_uuid e"] new(1,2) by (auto simp: routed_view_def)
  have "a_reserved_cash (reserved_for payload a) = ?p"
    using assms(4,6) ex by (simp add: reserved_for_def required_buying_power_def dmul_def dadd_def)
  moreover have ka: "a_id a = oc_account_id payload" using row_of_SomeD [OF assms(5)] by simp
  moreover from leavesD(1) [OF new(4), of "a_id a"] obtain r where r: "store_account e (reserved_for payload a) = Inr r"
      "account_row (tx s1) (a_id a) = Some r" by (auto simp: routed_view_def)
  ultimately have res: "map_option a_reserved_cash (account_row (tx s1) (o_account_id ord)) = Some stored"
    using store_accountD(4) [OF r(1)] assms(9) by (simp add: new(1))
  have less: "stored < dmul (oc_quantity payload) (o_price ord)" and side: "o_side ord = BUY"
    using ex assms(4,10) by (simp_all add: new(1) dmul_def)
  show ?thesis
  proof (intro conjI row res allI impI, goal_cases)
    case (1 db' a' ev stamp)
    then show ?case
      using full_fill_refused [of "at_time e stamp" db' "o_id ord" ord a' ev] assms(1) side less by simp
  next
    case (2 db' a' ev stamp)
    then show ?case
      using full_fill_refused [of "at_time e stamp" db' "o_id ord" ord a' ev] assms(1) side less by simp
  qed
qed

text \<open>
  C25. The rest of a partial fill can be stranded. The reservation of a BUY order (not IOC) covers it
  exactly, and nothing else is reserved on the account; a partial fill is applied, and what it
  leaves reserved is rounded down when it is stored, because the rest times the limit price has more
  than 8 decimals. Then the full fill of the rest, at whatever price and time it comes, is not applied
  in any database in which the order is as the partial fill left it and the account has no more
  reserved than the rounded amount: the rest stays open. The simulated broker fills parts like that.
\<close>

theorem partial_fill_strands_rest:
  assumes "documented e" and "well_formed e db" and "order_row db oid = Some ord" and "o_side ord = BUY"
    and "account_row db (o_account_id ord) = Some a" and "a_reserved_cash a = o_remaining_quantity ord * o_price ord"
    and "a_reserved_cash a < 10 ^ 11" and "o_time_in_force ord \<noteq> IOC"
    and "ev_order_id ev = oid" and "ev_event_type ev = PARTIAL_FILL" and "on_grid 8 (ev_filled_quantity ev)"
    and "ev_filled_quantity ev < o_remaining_quantity ord" and "rest = o_remaining_quantity ord - ev_filled_quantity ev"
    and "process_event (at_time e stamp) ev (open_session db) = (Inr True, s1)"
    and "numeric e (rest * o_price ord) = Some stored" and "stored < rest * o_price ord"
  shows "\<exists>r. order_row (tx s1) oid = Some r \<and> o_remaining_quantity r = rest \<and>
    map_option a_reserved_cash (account_row (tx s1) (o_account_id ord)) = Some stored \<and>
    (\<forall>db' a' ev' stamp'. well_formed e db' \<and> order_row db' oid = Some r \<and>
       account_row db' (o_account_id ord) = Some a' \<and> a_reserved_cash a' \<le> stored \<and>
       ev_order_id ev' = oid \<and> ev_event_type ev' = FULL_FILL \<and> ev_filled_quantity ev' = rest \<longrightarrow>
       fst (process_event (at_time e stamp') ev' (open_session db')) \<noteq> Inr True \<and>
       order_row (tx (snd (process_event (at_time e stamp') ev' (open_session db')))) oid = Some r)"
proof -
  have e: "documented (at_time e stamp)" "well_formed (at_time e stamp) db" using assms(1,2) by simp_all
  from partial_fill_leaves [OF assms(14) e assms(3-13)] obtain r ra where r: "order_row (tx s1) oid = Some r"
      "request_of r = request_of ord" "o_remaining_quantity r = rest" "account_row (tx s1) (o_account_id r) = Some ra"
      "numeric (at_time e stamp) (rest * o_price ord) = Some (a_reserved_cash ra)"
      "dmul rest (o_price ord) = rest * o_price ord" .
  note rq = request_of_eqD [OF r(2)]
  have less: "stored < dmul rest (o_price r)" using r(6) assms(16) rq(10) by simp
  have refused: "fst (process_event (at_time e stamp') ev' (open_session db')) \<noteq> Inr True \<and>
      order_row (tx (snd (process_event (at_time e stamp') ev' (open_session db')))) oid = Some r"
    if "well_formed e db'" "order_row db' oid = Some r" "account_row db' (o_account_id ord) = Some a'"
      "a_reserved_cash a' \<le> stored" "ev_order_id ev' = oid" "ev_event_type ev' = FULL_FILL" "ev_filled_quantity ev' = rest"
    for db' a' ev' stamp'
    using full_fill_refused [of "at_time e stamp'" db' oid r a' ev'] that assms(1,4) less rq(2,6) by simp
  show ?thesis
    using r(1,3,4,5) assms(15) rq(2) refused by (intro exI [of _ r]) simp
qed

text \<open>The request of the witness: 3e-8 at 0.4.\<close>

definition tiny_request :: order_create where
  "tiny_request = sample_request\<lparr>oc_quantity := 3 / 10 ^ 8, oc_price := 2 / 5\<rparr>"

lemma tiny_request_fields [simp]:
  "oc_quantity tiny_request = 3 / 10 ^ 8" "oc_price tiny_request = 2 / 5" "oc_side tiny_request = BUY"
  "oc_account_id tiny_request = ''A''" "oc_client_order_id tiny_request = ''client-1''"
  "oc_idempotency_key tiny_request = ''key-0001''"
  by (simp_all add: tiny_request_def)

lemma tiny_valid: "valid_request tiny_request"
proof -
  have "normalize_symbol ''INFY'' = ''INFY''" by code_simp
  moreover have "on_grid 8 (3 / 10 ^ 8 :: rat)" "on_grid 8 (2 / 5 :: rat)"
    using on_gridI [of "3 / 10 ^ 8" 3 8] on_gridI [of "2 / 5" 40000000 8] by simp_all
  ultimately have "validate_order_create tiny_request = Some tiny_request"
    by (simp add: validate_order_create_def) (simp add: tiny_request_def)
  then show ?thesis by (auto simp: valid_request_def)
qed

lemma tiny_stored: "pg_numeric (3 / 10 ^ 8 * (2 / 5)) = Some (1 / 10 ^ 8)"
proof -
  have "round_half_away (3 / 10 ^ 8 * (2 / 5) * 10 ^ 8) = 1" by (simp add: round_half_away_def floor_eq_iff)
  then show ?thesis by (simp add: pg_numeric_def)
qed

lemma tiny_order_accepted:
  "\<exists>s1. create_order (at_time sample_env (0, ''O'')) (\<lambda>_. None) (\<lambda>d. d) tiny_request (open_session sample_start) =
     (Inr (routed_order (at_time sample_env (0, ''O'')) tiny_request), s1)"
proof -
  let ?e = "at_time sample_env (0, ''O'')" and ?a = "sample_account\<lparr>a_reserved_cash := 0, a_version := 1\<rparr>"
  have d: "documented ?e" by simp
  have wf: "well_formed ?e sample_start"
    using consistentD(1) [OF reachable_consistent [OF documented_sample reachable_start]] by simp
  have rows: "account_row sample_start (oc_account_id tiny_request) = Some ?a" "new_request tiny_request sample_start"
      "order_row sample_start (new_uuid ?e) = None"
    by (simp_all add: sample_start_rows row_of_Cons) (simp_all add: empty_db_def new_request_def)
  define x :: rat where "x = 3 / 10 ^ 8 * (2 / 5)"
  have px: "prec28 x = x"
    unfolding x_def using valid_requestD(6,7) [OF tiny_valid] by (intro product_exact) simp_all
  then have "dmul (oc_quantity tiny_request) (oc_price tiny_request) = x" by (simp add: dmul_def x_def)
  then have req: "required_buying_power (oc_side tiny_request) (oc_quantity tiny_request) (oc_price tiny_request) = x"
    by (simp add: required_buying_power_def)
  have "reserved_for tiny_request ?a = sample_account\<lparr>a_reserved_cash := x, a_version := 2\<rparr>"
    using req px by (simp add: reserved_for_def dadd_def)
  moreover have "pg_numeric x = Some (1 / 10 ^ 8)" using tiny_stored by (simp add: x_def)
  ultimately have "store_account ?e (reserved_for tiny_request ?a) =
      Inr (sample_account\<lparr>a_reserved_cash := 1 / 10 ^ 8, a_version := 2\<rparr>)"
    by (simp add: store_account_eq_Inr) (simp add: pg_varchar_def account_checks_def sample_account_def,
        rule exI [of _ "1 / 10 ^ 8"], simp)
  then have fits: "can_store (store_account ?e) (reserved_for tiny_request ?a)" by (rule can_storeI)
  have le: "required_buying_power (oc_side tiny_request) (oc_quantity tiny_request) (oc_price tiny_request) \<le> available_cash ?a"
    unfolding req by (simp add: available_cash_def decimal_defs x_def)
  have new: "can_store (store_order ?e) (new_order ?e tiny_request)"
    by (rule can_store_new_order [OF d tiny_valid]) simp_all
  have "\<exists>s'. ready ?e s' \<and> create_order_body ?e tiny_request (open_session sample_start) =
      Inr ((routed_order ?e tiny_request, True), s')"
    using create_order_body_returns [OF d wf rows new _ _ fits] le by (simp add: pg_varchar_def)
  then obtain s' where s': "ready ?e s'" "create_order_body ?e tiny_request (open_session sample_start) =
      Inr ((routed_order ?e tiny_request, True), s')" by blast
  from flush_ready [OF s'(1)] obtain s1 where "flush ?e s' = Inr s1" by (auto simp: succeeds_def)
  with s'(2) show ?thesis by (simp add: create_order_def transaction_def)
qed

theorem rounded_reservation_strands_fill_witness:
  "\<exists>s1. create_order (at_time sample_env (0, ''O'')) (\<lambda>_. None) (\<lambda>d. d) tiny_request (open_session sample_start) =
      (Inr (routed_order (at_time sample_env (0, ''O'')) tiny_request), s1) \<and>
    fst (process_event (at_time sample_env (1, ''X'')) (sample_event FULL_FILL (3 / 10 ^ 8) (2 / 5)) (open_session (tx s1))) \<noteq> Inr True"
proof -
  let ?e = "at_time sample_env (0, ''O'')" and ?ev = "sample_event FULL_FILL (3 / 10 ^ 8) (2 / 5)"
  obtain s1 where s1: "create_order ?e (\<lambda>_. None) (\<lambda>d. d) tiny_request (open_session sample_start) =
      (Inr (routed_order ?e tiny_request), s1)" using tiny_order_accepted by blast
  have wf: "well_formed ?e sample_start"
    using consistentD(1) [OF reachable_consistent [OF documented_sample reachable_start]] by simp
  have rows: "account_row sample_start (oc_account_id tiny_request) = Some (sample_account\<lparr>a_reserved_cash := 0, a_version := 1\<rparr>)"
      "new_request tiny_request sample_start"
    by (simp_all add: sample_start_rows row_of_Cons) (simp_all add: empty_db_def new_request_def)
  note strands = rounded_reservation_strands_fill [where e = ?e and stored = "1 / 10 ^ 8",
      OF _ wf tiny_valid _ rows(1) _ rows(2) _ _ _ s1]
  have "order_row (tx s1) ''O'' = Some (routed_order ?e tiny_request) \<and>
    (\<exists>a'. account_row (tx s1) (o_account_id (routed_order ?e tiny_request)) = Some a' \<and> a_reserved_cash a' \<le> 1 / 10 ^ 8)"
    using strands tiny_stored by auto
  moreover have "well_formed ?e (tx s1)"
    using new_order_accepted [OF s1 _ _ wf tiny_valid rows(2,1)] by simp
  ultimately have "fst (process_event (at_time ?e (1, ''X'')) ?ev (open_session (tx s1))) \<noteq> Inr True"
    using strands tiny_stored by auto
  moreover have "at_time ?e (1, ''X'') = at_time sample_env (1, ''X'')" by (simp add: at_time_def)
  ultimately show ?thesis using s1 by auto
qed

text \<open>
  The database and the events of the witness: an order for 10 at 0.4, of which 4.00000002 are filled,
  so that 2.399999992 should stay reserved and 2.39999999 do.
\<close>

definition part_order :: order where
  "part_order = sample_order\<lparr>o_price := 2 / 5\<rparr>"

definition part_account :: account where
  "part_account = sample_account\<lparr>a_reserved_cash := 4\<rparr>"

definition part_db :: database where
  "part_db = sample_db\<lparr>accounts := [part_account], orders := [part_order]\<rparr>"

abbreviation part_event :: broker_execution_event where
  "part_event \<equiv> sample_event PARTIAL_FILL (200000001 / 50000000) (2 / 5)"

definition part_booked :: order where
  "part_booked = part_order\<lparr>o_average_fill_price := Some (2 / 5), o_filled_quantity := 200000001 / 50000000,
     o_remaining_quantity := 299999999 / 50000000, o_version := 4\<rparr>"

definition part_charged :: account where
  "part_charged = part_account\<lparr>a_reserved_cash := 299999999 / 125000000,
     a_cash_balance := 12299999999 / 125000000, a_version := 3\<rparr>"

definition part_position :: position where
  "part_position =
     \<lparr>p_account_id = ''A'', p_symbol = ''INFY'', p_net_quantity = 200000001 / 50000000,
      p_average_entry_price = 2 / 5, p_realized_pnl = 0, p_unrealized_pnl = 0, p_last_mark_price = Some (2 / 5)\<rparr>"

lemma part_fields [simp]:
  "o_id part_order = ''O''" "o_account_id part_order = ''A''" "o_symbol part_order = ''INFY''"
  "o_status part_order = ROUTED" "o_remaining_quantity part_order = 10" "o_price part_order = 2 / 5"
  "o_side part_order = BUY" "o_time_in_force part_order = GTC"
  "a_id part_account = ''A''" "a_reserved_cash part_account = 4"
  by (simp_all add: part_order_def part_account_def)

lemma part_rows [simp]:
  "order_row part_db ''O'' = Some part_order" "account_row part_db ''A'' = Some part_account"
  "processed_row part_db k = None" "positions part_db = []" "market_prices part_db = []"
  "fills part_db = []" "order_events part_db = []" "processed_broker_events part_db = []"
  "orders part_db = [part_order]" "accounts part_db = [part_account]"
  "row_of o_id ''O'' [part_order] = Some part_order" "row_of a_id ''A'' [part_account] = Some part_account"
  by (simp_all add: part_db_def row_of_Cons)

lemma part_products [simp]:
  "prec28 (200000001 / 125000000) = 200000001 / 125000000"
  "prec28 (299999999 / 125000000) = 299999999 / 125000000"
  "prec28 (12299999999 / 125000000) = 12299999999 / 125000000"
  by (rule prec28_on_grid [of 9], rule on_grid_fraction, simp, simp)+

lemma part_grid [simp]:
  "on_grid 8 (200000001 / 50000000)" "on_grid 8 (299999999 / 50000000)" "on_grid 8 (2 / 5)"
  by (rule on_grid_fraction, simp)+

lemma part_stored [simp]:
  "pg_numeric (299999999 / 125000000) = Some (239999999 / 100000000)"
  "pg_numeric (12299999999 / 125000000) = Some (9839999999 / 100000000)"
proof -
  have "round_half_away (299999999 / 125000000 * 10 ^ 8) = 239999999"
      "round_half_away (12299999999 / 125000000 * 10 ^ 8) = 9839999999"
    by (simp_all add: round_half_away_def floor_eq_iff)
  then show "pg_numeric (299999999 / 125000000) = Some (239999999 / 100000000)"
      "pg_numeric (12299999999 / 125000000) = Some (9839999999 / 100000000)"
    by (simp_all add: pg_numeric_def)
qed

lemma part_well_formed [simp]: "well_formed sample_env part_db"
  by (simp add: well_formed_defs sample_store part_order_def part_account_def)

lemma part_book: "book_fill part_order (200000001 / 50000000) (2 / 5) = Inr part_booked"
  by (simp add: book_fill_def decimal_defs part_booked_def part_order_def)

lemma part_settle: "settle_account part_account part_booked (200000001 / 50000000) (2 / 5) = Inr part_charged"
  by (simp add: settle_account_def decimal_defs part_charged_def part_booked_def part_account_def part_order_def)

lemma part_fill_outcome:
  "fill_outcome sample_env part_order part_account part_event (2 / 5) =
     Inr (moved part_booked PARTIALLY_FILLED, part_charged,
          [audit sample_env part_booked PARTIAL_FILL_RECEIVED (Some ROUTED) (Some PARTIALLY_FILLED)
             (fill_event_data part_event (2 / 5))])"
  by (simp add: fill_outcome_def part_book part_settle conclude_outcome_def)
    (simp add: part_booked_def part_order_def)

lemma part_book_execution:
  "book_execution (new_position ''A'' ''INFY'' (2 / 5)) BUY (200000001 / 50000000) (2 / 5) (2 / 5) = Inr part_position"
  by (simp add: book_execution_def new_position_def calculate_position_after_fill_def signed_fill_def Let_def
      decimal_defs calculate_unrealized_pnl_def part_position_def)

lemma part_trade_outcome:
  "trade_outcome sample_env (db_view part_db) part_order part_event (2 / 5) =
     Inr (part_position, fill_of part_order part_event (2 / 5))"
  by (simp add: trade_outcome_def position_before_def mark_for_def part_order_def part_book_execution)
    (simp add: sample_store fill_of_def or_else_def)

lemma part_storable [simp]:
  "can_store (store_order sample_env) part_booked" "can_store (store_account sample_env) part_charged"
  "can_store (store_position sample_env) part_position"
  "can_store (store_position sample_env) (new_position ''A'' ''INFY'' (2 / 5))"
  by (simp_all add: sample_store part_booked_def part_charged_def part_position_def new_position_def
      part_order_def part_account_def del: eq_divide_eq_numeral1 divide_eq_eq_numeral1)

lemma part_fill_applies:
  "\<exists>s'. process_event sample_env part_event (open_session part_db) = (Inr True, s')"
proof (rule process_event_applies [where ord = part_order and a = part_account])
  show "event_outcome sample_env part_order part_account part_event =
      Inr (moved part_booked PARTIALLY_FILLED, part_charged,
          [audit sample_env part_booked PARTIAL_FILL_RECEIVED (Some ROUTED) (Some PARTIALLY_FILLED)
             (fill_event_data part_event (2 / 5))])"
    by (simp add: event_outcome_def part_fill_outcome)
  show "event_trade sample_env (db_view part_db) part_order part_event =
      Inr (Some (part_position, fill_of part_order part_event (2 / 5)))"
    by (simp add: event_trade_def part_trade_outcome)
qed (simp_all add: ignored_def event_fits_def fill_fits_def part_book part_settle mark_for_def
    del: eq_divide_eq_numeral1 divide_eq_eq_numeral1)

theorem partial_fill_strands_rest_witness:
  "\<exists>s r. process_event sample_env part_event (open_session part_db) = (Inr True, s) \<and>
     order_row (tx s) ''O'' = Some r \<and> o_remaining_quantity r = 299999999 / 50000000 \<and>
     fst (process_event (at_time sample_env (1, ''X'')) (sample_event FULL_FILL (299999999 / 50000000) (2 / 5))
       (open_session (tx s))) \<noteq> Inr True"
proof -
  obtain s where s: "process_event sample_env part_event (open_session part_db) = (Inr True, s)"
    using part_fill_applies by blast
  then have "process_event (at_time sample_env (0, ''NEW-ID'')) part_event (open_session part_db) = (Inr True, s)"
    by (simp add: sample_time)
  note strands = partial_fill_strands_rest [OF documented_sample part_well_formed part_rows(1), where ev = part_event and
      a = part_account and rest = "299999999 / 50000000" and stored = "239999999 / 100000000", OF _ _ _ _ _ _ _ _ _ _ this]
  have wf: "well_formed sample_env (tx s)"
    by (rule process_event_well_formed [OF s documented_sample part_well_formed])
  have "o_remaining_quantity part_order - ev_filled_quantity part_event = 299999999 / 50000000"
    "numeric sample_env (299999999 / 50000000 * o_price part_order) = Some (239999999 / 100000000)" by simp_all
  then obtain r where r: "order_row (tx s) ''O'' = Some r" "o_remaining_quantity r = 299999999 / 50000000"
      "map_option a_reserved_cash (account_row (tx s) ''A'') = Some (239999999 / 100000000)"
      and later: "\<And>db' a' ev' stamp'. well_formed sample_env db' \<Longrightarrow> order_row db' ''O'' = Some r \<Longrightarrow>
        account_row db' ''A'' = Some a' \<Longrightarrow> a_reserved_cash a' \<le> 239999999 / 100000000 \<Longrightarrow> ev_order_id ev' = ''O'' \<Longrightarrow>
        ev_event_type ev' = FULL_FILL \<Longrightarrow> ev_filled_quantity ev' = 299999999 / 50000000 \<Longrightarrow>
        fst (process_event (at_time sample_env stamp') ev' (open_session db')) \<noteq> Inr True"
    using strands by (simp del: eq_divide_eq_numeral1 divide_eq_eq_numeral1 split_paired_All) blast
  from r(3) obtain a' where a': "account_row (tx s) ''A'' = Some a'" "a_reserved_cash a' = 239999999 / 100000000" by blast
  have "fst (process_event (at_time sample_env (1, ''X'')) (sample_event FULL_FILL (299999999 / 50000000) (2 / 5))
      (open_session (tx s))) \<noteq> Inr True"
    by (rule later [OF wf r(1) a'(1)]) (simp_all add: a'(2))
  with s r(1,2) show ?thesis by blast
qed

end
