(* ===== verification/Order_Frames.thy ===== *)
theory Order_Frames
  imports System
begin

text \<open>
  What an action of the system leaves alone: every order that was there is still there, with the
  attributes of its request, and exactly as it was unless the action is about it; and, unless it
  is an event of the broker, no money moves.
\<close>

definition orders_kept :: "env \<Rightarrow> uuid set \<Rightarrow> database \<Rightarrow> database \<Rightarrow> bool" where
  "orders_kept e K db db' \<longleftrightarrow>
     well_formed e db' \<and>
     (\<forall>oid ord. order_row db oid = Some ord \<longrightarrow>
        (\<exists>ord'. order_row db' oid = Some ord' \<and> request_of ord' = request_of ord \<and> (oid \<notin> K \<longrightarrow> ord' = ord)))"

lemma orders_kept_refl: "well_formed e db \<Longrightarrow> orders_kept e K db db"
  by (simp add: orders_kept_def)

lemma orders_keptI:
  assumes "well_formed e db'" and "order_row db' = order_row db"
  shows "orders_kept e K db db'"
  using assms(1) fun_cong [OF assms(2)] by (simp add: orders_kept_def)

lemma orders_kept_update:
  assumes "well_formed e db'" and "order_row db' = (order_row db)(k \<mapsto> r)"
    and "order_row db k = Some ord" and "request_of r = request_of ord"
  shows "orders_kept e {k} db db'"
  using assms(1,3,4) fun_cong [OF assms(2)] by (auto simp: orders_kept_def)

lemma orders_keptD:
  assumes "orders_kept e K db db'" and "order_row db oid = Some ord"
  shows "well_formed e db'"
    and "\<exists>ord'. order_row db' oid = Some ord' \<and> request_of ord' = request_of ord"
    and "oid \<notin> K \<Longrightarrow> order_row db' oid = Some ord"
  using assms unfolding orders_kept_def by blast+

text \<open>No fill is booked, no event of the broker is recorded, and every account keeps its cash.\<close>

definition money_kept :: "database \<Rightarrow> database \<Rightarrow> bool" where
  "money_kept db db' \<longleftrightarrow>
     fills db' = fills db \<and> processed_broker_events db' = processed_broker_events db \<and>
     (\<forall>aid a. account_row db aid = Some a \<longrightarrow>
        (\<exists>a'. account_row db' aid = Some a' \<and> a_cash_balance a' = a_cash_balance a))"

lemma money_kept_refl [simp]: "money_kept db db"
  by (simp add: money_kept_def)

lemma money_keptI:
  assumes "fills db' = fills db" and "processed_broker_events db' = processed_broker_events db"
    and "\<And>aid. account_row db aid \<noteq> None \<Longrightarrow> account_row db' aid = account_row db aid"
  shows "money_kept db db'"
  using assms by (simp add: money_kept_def)

lemma money_kept_same:
  "fills db' = fills db \<Longrightarrow> processed_broker_events db' = processed_broker_events db \<Longrightarrow>
     account_row db' = account_row db \<Longrightarrow> money_kept db db'"
  using fun_cong [of "account_row db'" "account_row db"] by (simp add: money_kept_def)

lemma money_kept_update:
  assumes "fills db' = fills db" and "account_row db' = (account_row db)(k \<mapsto> r)"
    and "account_row db k = Some a" and "a_cash_balance r = a_cash_balance a"
    and "processed_broker_events db' = processed_broker_events db"
  shows "money_kept db db'"
  using assms(1,3-5) fun_cong [OF assms(2)] by (simp add: money_kept_def)

section \<open>The services\<close>

lemma account_keeps_orders:
  assumes "documented e" and "well_formed e db"
  shows "orders_kept e K db (tx (snd (create_account e payload (open_session db)))) \<and>
    money_kept db (tx (snd (create_account e payload (open_session db))))"
proof -
  obtain r s' where t: "transaction e (create_account_body e payload) (open_session db) = (r, s')"
    by (cases "transaction e (create_account_body e payload) (open_session db)")
  have tx: "tx (snd (create_account e payload (open_session db))) = tx s'"
    by (simp add: create_account_def t split: sum.split oms_error.split)
  let ?f = "\<lambda>v. v\<lparr>v_accounts := (v_accounts v)(new_uuid e \<mapsto> new_account e payload)\<rparr>"
  have st: "steps_to e (open_session db) ?f s1" if "create_account_body e payload (open_session db) = Inr (a, s1)" for a s1
    using create_account_body_steps [OF that] by simp
  have wf: "well_formed e (tx s')"
    using t session_ok_open assms(1) by (rule transaction_well_formed) (use assms(2) st in auto)
  have "order_row (tx s') = order_row db \<and> money_kept db (tx s')"
  proof (cases r)
    case (Inl err)
    with t have "tx s' = db" by (auto dest: transaction_rollback)
    then show ?thesis by simp
  next
    case (Inr a)
    with t have run: "transaction e (create_account_body e payload) (open_session db) = (Inr a, s')" by simp
    from transaction_leaves [OF run well_formed_settled [OF assms(2)] st]
    have l: "leaves e (?f (db_view db)) (tx s')" .
    from run obtain s1 where "create_account_body e payload (open_session db) = Inr (a, s1)"
      by (auto simp: transaction_Inr)
    from create_account_body_steps [OF this] have fresh: "account_row db (new_uuid e) = None" by simp
    have "account_row (tx s') aid = account_row db aid" if "account_row db aid \<noteq> None" for aid
      using leaves_unchanged(1) [OF l well_formed_settled [OF assms(2)], of aid] that fresh by (cases "aid = new_uuid e") auto
    then have "money_kept db (tx s')" using leavesD(5,7) [OF l] by (intro money_keptI) simp_all
    with leaves_unchanged(2) [OF l well_formed_settled [OF assms(2)]] show ?thesis by (simp add: fun_eq_iff)
  qed
  with wf show ?thesis unfolding tx by (simp add: orders_keptI)
qed

lemma tick_keeps_orders:
  assumes "documented e" and "well_formed e db" and "length symb \<le> 32"
  shows "orders_kept e K db (tx (snd (apply_tick e symb price observed_at (open_session db)))) \<and>
    money_kept db (tx (snd (apply_tick e symb price observed_at (open_session db))))"
proof -
  obtain r s' where t: "apply_tick e symb price observed_at (open_session db) = (r, s')"
    by (cases "apply_tick e symb price observed_at (open_session db)")
  have "well_formed e (tx s')"
    using t [unfolded apply_tick_def] session_ok_open assms(1)
    by (rule transaction_well_formed) (use assms(2) apply_tick_body_steps [OF _ assms] in auto)
  moreover have "order_row (tx s') = order_row db \<and> money_kept db (tx s')"
  proof (cases r)
    case (Inl err)
    with t have "tx s' = db" by (auto simp: apply_tick_def dest: transaction_rollback)
    then show ?thesis by simp
  next
    case (Inr u)
    with t have l: "leaves e (tick_view (upper symb) price observed_at (db_view db)) (tx s')"
      by (intro apply_tick_leaves [OF _ assms]) simp
    note u = leaves_unchanged [OF l well_formed_settled [OF assms(2)]]
    have "money_kept db (tx s')"
      using u(1) leavesD(5,7) [OF l]
      by (intro money_keptI) (simp_all add: tick_view_def marks_view_def price_view_def)
    with u(2) show ?thesis by (simp add: tick_view_def marks_view_def price_view_def fun_eq_iff)
  qed
  ultimately show ?thesis unfolding t snd_conv by (simp add: orders_keptI)
qed

lemma placing_keeps_orders:
  assumes "documented e" and "well_formed e db" and "valid_request payload"
  shows "orders_kept e K db (tx (snd (transaction e (create_order_body e payload) (open_session db)))) \<and>
    money_kept db (tx (snd (transaction e (create_order_body e payload) (open_session db))))"
proof -
  obtain r s' where t: "transaction e (create_order_body e payload) (open_session db) = (r, s')"
    by (cases "transaction e (create_order_body e payload) (open_session db)")
  note wf = create_order_transaction_well_formed [OF t assms(1,2)] and w = well_formed_settled [OF assms(2)]
  have "(\<forall>oid ord. order_row db oid = Some ord \<longrightarrow> order_row (tx s') oid = Some ord) \<and> money_kept db (tx s')"
  proof (cases r)
    case (Inl err)
    with t have "tx s' = db" by (auto dest: transaction_rollback)
    then show ?thesis by simp
  next
    case (Inr x)
    then obtain o1 route where "transaction e (create_order_body e payload) (open_session db) = (Inr (o1, route), s')"
      using t by (cases x) simp
    from this assms show ?thesis
    proof (cases rule: create_order_transaction_cases)
      case (existing a)
      from leaves_unchanged [OF existing(6) w] leavesD(5,7) [OF existing(6)] show ?thesis by (simp add: money_keptI)
    next
      case (rejected a)
      have "order_row (tx s') oid = Some ord" if "order_row db oid = Some ord" for oid ord
        using that rejected(4) leaves_unchanged(2) [OF rejected(8) w, of oid]
        by (cases "oid = new_uuid e") (simp_all add: rejected_view_def)
      moreover have "money_kept db (tx s')"
        using leaves_unchanged(1) [OF rejected(8) w] leavesD(5,7) [OF rejected(8)]
        by (intro money_keptI) (simp_all add: rejected_view_def)
      ultimately show ?thesis by blast
    next
      case (routed a)
      have "order_row (tx s') oid = Some ord" if "order_row db oid = Some ord" for oid ord
        using that routed(4) leaves_unchanged(2) [OF routed(8) w, of oid]
        by (cases "oid = new_uuid e") (simp_all add: routed_view_def)
      moreover have "money_kept db (tx s')"
      proof -
        let ?R = "reserved_for payload a" and ?aid = "oc_account_id payload"
        have k: "a_id a = ?aid" using row_of_SomeD [OF routed(1)] by simp
        from leavesD(1) [OF routed(8), of ?aid] k obtain ra where ra: "store_account e ?R = Inr ra"
          by (auto simp: routed_view_def)
        have rows: "account_row (tx s') = (account_row db)(?aid \<mapsto> ra)"
          by (rule leaves_accounts [OF routed(8) w _ ra]) (simp add: routed_view_def k)
        have "on_grid 8 (a_cash_balance a)" using settled_account(1) [OF assms(1) settledD(1) [OF w routed(1)]] .
        then have "a_cash_balance ra = a_cash_balance a"
          using stored_account_exact(1) [OF assms(1) ra] by (simp add: reserved_for_def)
        then show ?thesis
          using leavesD(5,7) [OF routed(8)] by (intro money_kept_update [OF _ rows routed(1)]) (simp_all add: routed_view_def)
      qed
      ultimately show ?thesis by blast
    qed
  qed
  with wf show ?thesis by (simp add: t orders_kept_def)
qed

lemma cancelling_keeps_orders:
  assumes "documented e" and "well_formed e db"
  shows "orders_kept e {oid} db (tx (snd (request_cancellation e cancel oid reason (open_session db)))) \<and>
    money_kept db (tx (snd (request_cancellation e cancel oid reason (open_session db))))"
proof -
  let ?run = "request_cancellation e cancel oid reason (open_session db)"
  consider (refused) "tx (snd (request_cancellation e cancel oid reason (open_session db))) = db"
    | (accepted) ord where "order_row db oid = Some ord" "o_status ord \<in> CANCELLABLE_ORDER_STATUSES"
    using request_cancellation_refused [OF assms(2)] by (cases "order_row db oid") fastforce+
  then show ?thesis
  proof cases
    case refused
    with assms(2) show ?thesis by (simp add: orders_kept_refl)
  next
    case (accepted ord)
    from request_cancellation_accepted [OF assms accepted, of cancel reason]
    have "leaves e (cancel_requested_view e ord reason (db_view db)) (tx (snd ?run))" by auto
    from leavesD(7) [OF this] have "processed_broker_events (tx (snd ?run)) = processed_broker_events db" by simp
    moreover from assms accepted obtain s' where s': "snd ?run = s'"
        "order_row (tx s') = (order_row db)(oid \<mapsto> moved ord CANCEL_PENDING)" "well_formed e (tx s')"
        "account_row (tx s') = account_row db" "fills (tx s') = fills db"
      by (rule cancel_requested [where cancel = cancel and reason = reason]) simp
    ultimately have "money_kept db (tx (snd ?run))" by (simp add: money_kept_same)
    with s' show ?thesis
      using orders_kept_update [OF s'(3,2) accepted(1)] by (simp add: moved_def)
  qed
qed

lemma event_keeps_orders:
  assumes "documented e" and "well_formed e db"
  shows "orders_kept e {ev_order_id ev} db (tx (snd (process_event e ev (open_session db))))"
proof -
  obtain r s' where run: "process_event e ev (open_session db) = (r, s')" by (cases "process_event e ev (open_session db)")
  note wf = process_event_well_formed [OF run assms] and w = well_formed_settled [OF assms(2)]
  show ?thesis
  proof (cases r)
    case (Inl err)
    with run have "tx s' = db" by (auto simp: process_event_def dest: transaction_rollback)
    with run assms(2) show ?thesis by (simp add: orders_kept_refl)
  next
    case (Inr b)
    with run have "process_event e ev (open_session db) = (Inr b, s')" by simp
    from this w assms(1) show ?thesis
    proof (cases rule: process_event_cases)
      case (duplicate ord)
      from leaves_unchanged(2) [OF duplicate(4) w] wf run show ?thesis by (auto intro!: orders_keptI simp: fun_eq_iff)
    next
      case (ignored ord reason)
      from leaves_unchanged(2) [OF ignored(5) w] wf run show ?thesis by (auto intro!: orders_keptI simp: fun_eq_iff)
    next
      case (applied ord a out trade)
      from applied(9) w obtain r' ra where r': "store_order e (fst out) = Inr r'"
          "order_row (tx s') = (order_row db)(o_id (fst out) \<mapsto> r')" by (rule applied_rows)
      have so: "store_order e ord = Inr ord" using settledD(2) [OF w applied(1)] .
      have rq: "request_of (fst out) = request_of ord" by (rule request_of_outcome [OF applied(6)])
      then have "o_id (fst out) = ev_order_id ev"
        using request_of_eqD(1) [OF rq] row_of_SomeD [OF applied(1)] by simp
      moreover have "request_of r' = request_of ord" by (rule request_of_stored [OF assms(1) r'(1) so rq])
      ultimately show ?thesis
        using orders_kept_update [OF wf _ applied(1), of r'] r'(2) run by simp
    qed
  qed
qed

end
