(* ===== verification/Fake_Broker.thy ===== *)
theory Fake_Broker
  imports Samples Order_Service Execution_Refinement
begin

text \<open>
  \<open>app/broker/fake.py\<close>: the simulated broker.

  \<open>submit_order\<close> and \<open>cancel_order\<close> start a task and return, so they never raise; the task sleeps
  and puts events into the queue. \<open>simulate_order\<close> and \<open>simulate_cancellation\<close> are the events a
  task puts, in order; between two puts other tasks run, so the queue holds an interleaving of
  such lists. What the task draws from \<open>random\<close>, \<open>uuid4\<close> and the clock is the record \<open>draws\<close>:
  the outcome that \<open>choices\<close> picks, the ratio \<open>Decimal(str(uniform(0.25, 0.75)))\<close>, and whether
  \<open>random() < 0.65\<close>. An event that pydantic refuses ends the task (\<open>None\<close> in \<open>put\<close>).
\<close>

section \<open>Operations\<close>

record draws =
  d_outcome :: broker_event_type
  d_ratio :: rat
  d_completes :: bool
  d_event_ids :: "uuid \<times> uuid"
  d_execution_ids :: "string \<times> string"
  d_timestamps :: "timestamp \<times> timestamp"

definition QUANTITY_STEP :: rat where
  "QUANTITY_STEP = 1 / 10 ^ 8"

text \<open>
  \<open>quantize(QUANTITY_STEP, rounding=ROUND_DOWN)\<close>: the multiple of the step towards zero;
  \<open>InvalidOperation\<close> where it has more than 28 digits.
\<close>

definition quantize_down :: "rat \<Rightarrow> oms_error + rat" where
  "quantize_down x =
     (let n = (if 0 \<le> x then \<lfloor>x * 10 ^ 8\<rfloor> else - \<lfloor>- x * 10 ^ 8\<rfloor>)
      in if 10 ^ 28 \<le> \<bar>n\<bar> then Inl DecimalSignal else Inr (of_int n / 10 ^ 8))"

definition partial_quantity :: "rat \<Rightarrow> rat \<Rightarrow> oms_error + rat" where
  "partial_quantity remaining ratio =
     and_then (quantize_down (dmul remaining ratio)) (\<lambda>quantity.
     if quantity \<le> 0 then Inr remaining
     else if remaining \<le> quantity then Inr (max (dsub remaining QUANTITY_STEP) QUANTITY_STEP)
     else Inr quantity)"

definition full_fill_event ::
  "uuid \<Rightarrow> string \<Rightarrow> timestamp \<Rightarrow> broker_order \<Rightarrow> rat \<Rightarrow> broker_execution_event" where
  "full_fill_event event_id execution_id t ord quantity =
     \<lparr>ev_event_id = event_id, ev_event_type = FULL_FILL, ev_order_id = bo_order_id ord,
      ev_timestamp = t, ev_filled_quantity = quantity, ev_fill_price = Some (bo_price ord),
      ev_execution_id = Some (''SIM-'' @ execution_id), ev_reason = None\<rparr>"

text \<open>\<open>queue.put\<close> of a new event: nothing more happens in the task when the event is invalid.\<close>

definition put ::
  "broker_execution_event \<Rightarrow> broker_execution_event list \<Rightarrow> broker_execution_event list" where
  "put ev rest = (case validate_fill_payload ev of None \<Rightarrow> [] | Some ev \<Rightarrow> ev # rest)"

definition simulate_order :: "draws \<Rightarrow> broker_order \<Rightarrow> broker_execution_event list" where
  "simulate_order d ord =
     (if d_outcome d = broker_event_type.REJECTED then
        put \<lparr>ev_event_id = fst (d_event_ids d), ev_event_type = broker_event_type.REJECTED,
             ev_order_id = bo_order_id ord, ev_timestamp = fst (d_timestamps d), ev_filled_quantity = 0,
             ev_fill_price = None, ev_execution_id = None,
             ev_reason = Some ''Rejected by simulated broker''\<rparr> []
      else if d_outcome d = FULL_FILL then
        put (full_fill_event (fst (d_event_ids d)) (fst (d_execution_ids d)) (fst (d_timestamps d)) ord
               (bo_remaining_quantity ord)) []
      else
        (case partial_quantity (bo_remaining_quantity ord) (d_ratio d) of
           Inl _ \<Rightarrow> []
         | Inr partial \<Rightarrow>
             put \<lparr>ev_event_id = fst (d_event_ids d), ev_event_type = PARTIAL_FILL,
                  ev_order_id = bo_order_id ord, ev_timestamp = fst (d_timestamps d),
                  ev_filled_quantity = partial, ev_fill_price = Some (bo_price ord),
                  ev_execution_id = Some (''SIM-'' @ fst (d_execution_ids d)), ev_reason = None\<rparr>
               (if bo_time_in_force ord = IOC then []
                else
                  (let remaining = dsub (bo_remaining_quantity ord) partial in
                   if 0 < remaining \<and> d_completes d then
                     put (full_fill_event (snd (d_event_ids d)) (snd (d_execution_ids d))
                            (snd (d_timestamps d)) ord remaining) []
                   else []))))"

definition simulate_cancellation ::
  "draws \<Rightarrow> uuid \<Rightarrow> string \<Rightarrow> broker_execution_event list" where
  "simulate_cancellation d order_id reason =
     put \<lparr>ev_event_id = fst (d_event_ids d), ev_event_type = broker_event_type.CANCELLED,
          ev_order_id = order_id, ev_timestamp = fst (d_timestamps d), ev_filled_quantity = 0,
          ev_fill_price = None, ev_execution_id = None, ev_reason = Some reason\<rparr> []"

text \<open>Starting the task cannot fail: the broker parameters of the services for this adapter.\<close>

definition submit_order :: "broker_order \<Rightarrow> string option" where
  "submit_order ord = None"

definition cancel_order :: "uuid \<Rightarrow> string \<Rightarrow> string option" where
  "cancel_order order_id reason = None"

section \<open>Lemmas\<close>

text \<open>The ranges that \<open>uniform\<close> and \<open>choices\<close> document.\<close>

definition documented_draws :: "draws \<Rightarrow> bool" where
  "documented_draws d \<longleftrightarrow>
     1 / 4 \<le> d_ratio d \<and> d_ratio d \<le> 3 / 4 \<and> d_outcome d \<noteq> broker_event_type.CANCELLED"

lemma dmul_ratio:
  assumes "0 < x" and "x < 10 ^ 16" and "1 / 4 \<le> r" and "r \<le> 3 / 4"
  shows "x / 5 < dmul x r" "dmul x r < x"
proof -
  have r: "x / 4 \<le> x * r" "x * r \<le> x * (3 / 4)" using assms by (simp_all add: mult_left_mono)
  then have "0 \<le> x * r" using assms(1) by simp
  then have "\<bar>dmul x r - x * r\<bar> \<le> x * r * (5 / 10 ^ 28)"
    using prec28_rel_error [of "x * r"] by (simp add: dmul_def)
  also have "\<dots> \<le> x * (3 / 4) * (5 / 10 ^ 28)" using r(2) by (rule mult_right_mono) simp
  also have "\<dots> \<le> x / 100" using assms(1) by simp
  finally have "\<bar>dmul x r - x * r\<bar> \<le> x / 100" .
  with r assms(1) show "x / 5 < dmul x r" "dmul x r < x" by linarith+
qed

section \<open>Properties\<close>

text \<open>
  C37. The size of a simulated partial fill: for every open quantity on the grid and every ratio
  \<open>uniform(0.25, 0.75)\<close> can give, it is positive, a multiple of \<open>10 ^ -8\<close> and at most the open
  quantity, and less than it from \<open>5 * 10 ^ -8\<close> on; quantizing never raises.
\<close>

theorem partial_quantity_bounds:
  assumes "0 < x" and "x < 10 ^ 16" and "on_grid 8 x" and "1 / 4 \<le> r" and "r \<le> 3 / 4"
  shows "\<exists>q. partial_quantity x r = Inr q \<and> 0 < q \<and> q \<le> x \<and> on_grid 8 q \<and>
    (5 / 10 ^ 8 \<le> x \<longrightarrow> q < x)"
proof -
  note m = dmul_ratio [OF assms(1,2,4,5)]
  define n where "n = \<lfloor>dmul x r * 10 ^ 8\<rfloor>"
  define q where "q = (of_int n / 10 ^ 8 :: rat)"
  have pos: "0 \<le> dmul x r" using m(1) assms(1) by linarith
  then have n0: "0 \<le> n" by (simp add: n_def)
  have q: "q \<le> dmul x r" by (simp add: q_def n_def divide_le_eq)
  have "q < 10 ^ 16" using q m(2) assms(2) by linarith
  then have "of_int n < (of_int (10 ^ 24) :: rat)" by (simp add: q_def divide_less_eq)
  then have "n < 10 ^ 24" by (rule of_int_less_iff [THEN iffD1])
  then have "\<not> 10 ^ 28 \<le> \<bar>n\<bar>" using n0 by simp
  then have quant: "quantize_down (dmul x r) = Inr q"
    using pos by (simp add: quantize_down_def Let_def q_def n_def)
  have grid: "on_grid 8 q" by (rule on_gridI) (simp add: q_def)
  have less: "q < x" using q m(2) by linarith
  have big: "0 < q" if "5 / 10 ^ 8 \<le> x"
  proof -
    have "1 \<le> dmul x r * 10 ^ 8" using m(1) that by simp
    then have "1 \<le> n" by (simp add: n_def le_floor_iff)
    then show ?thesis by (simp add: q_def)
  qed
  show ?thesis
    using quant grid less big assms(1,3) by (auto simp: partial_quantity_def)
qed

theorem partial_quantity_bounds_witness:
  "\<exists>q. partial_quantity 10 (1 / 2) = Inr q \<and> 0 < q \<and> q < 10"
  using partial_quantity_bounds [of 10 "1 / 2"] by auto

text \<open>The events of one simulation: their number, shape and total quantity.\<close>

lemma simulate_order_cases:
  assumes "documented_draws d" and "0 < bo_remaining_quantity b" and "bo_remaining_quantity b < 10 ^ 16"
    and "on_grid 8 (bo_remaining_quantity b)" and "0 < bo_price b"
  obtains (rejected) ev where "simulate_order d b = [ev]" "ev_event_type ev = broker_event_type.REJECTED"
      "ev_order_id ev = bo_order_id b" "ev_filled_quantity ev = 0" "valid_event ev"
  | (filled) ev where "simulate_order d b = [ev]" "ev_event_type ev = FULL_FILL" "ev_order_id ev = bo_order_id b"
      "ev_filled_quantity ev = bo_remaining_quantity b" "ev_fill_price ev = Some (bo_price b)" "valid_event ev"
  | (partial) ev rest where "simulate_order d b = ev # rest" "ev_event_type ev = PARTIAL_FILL"
      "ev_order_id ev = bo_order_id b" "ev_fill_price ev = Some (bo_price b)" "valid_event ev"
      "0 < ev_filled_quantity ev" "ev_filled_quantity ev \<le> bo_remaining_quantity b" "on_grid 8 (ev_filled_quantity ev)"
      "rest = [] \<or> (\<exists>ev'. rest = [ev'] \<and> ev_event_type ev' = FULL_FILL \<and> ev_order_id ev' = bo_order_id b \<and>
        ev_fill_price ev' = Some (bo_price b) \<and> valid_event ev' \<and> bo_time_in_force b \<noteq> IOC \<and>
        ev_filled_quantity ev' = bo_remaining_quantity b - ev_filled_quantity ev \<and>
        ev_filled_quantity ev < bo_remaining_quantity b)"
proof -
  let ?r = "bo_remaining_quantity b"
  have full: "validate_fill_payload (full_fill_event i x t b q) = Some (full_fill_event i x t b q)" if "0 < q" for i x t q
    using that assms(5) by (simp add: validate_fill_payload_def full_fill_event_def is_fill_type_def)
  consider (R) "d_outcome d = broker_event_type.REJECTED" | (F) "d_outcome d = FULL_FILL" | (P) "d_outcome d = PARTIAL_FILL"
    using assms(1) by (cases "d_outcome d") (auto simp: documented_draws_def)
  then show thesis
  proof cases
    case R
    define ev where "ev = \<lparr>ev_event_id = fst (d_event_ids d), ev_event_type = broker_event_type.REJECTED,
      ev_order_id = bo_order_id b, ev_timestamp = fst (d_timestamps d), ev_filled_quantity = 0,
      ev_fill_price = None, ev_execution_id = None, ev_reason = Some ''Rejected by simulated broker''\<rparr>"
    have v: "validate_fill_payload ev = Some ev" by (simp add: validate_fill_payload_def ev_def is_fill_type_def)
    have "simulate_order d b = [ev]" using R v by (simp add: simulate_order_def put_def flip: ev_def)
    then show ?thesis by (rule rejected) (use v in \<open>simp_all add: ev_def valid_event_def\<close>)
  next
    case F
    then have "simulate_order d b =
        [full_fill_event (fst (d_event_ids d)) (fst (d_execution_ids d)) (fst (d_timestamps d)) b ?r]"
      using full [OF assms(2)] by (simp add: simulate_order_def put_def)
    moreover have "valid_event (full_fill_event i x t b ?r)" for i x t
      using full [OF assms(2)] by (simp add: valid_event_def)
    ultimately show ?thesis by (intro filled) (simp_all, simp_all add: full_fill_event_def)
  next
    case P
    obtain q where q: "partial_quantity ?r (d_ratio d) = Inr q" "0 < q" "q \<le> ?r" "on_grid 8 q"
      using partial_quantity_bounds [OF assms(2-4), of "d_ratio d"] assms(1) by (auto simp: documented_draws_def)
    have d: "dsub ?r q = ?r - q" using assms(3,4) q by (intro dsub_cents) auto
    define ev where "ev = \<lparr>ev_event_id = fst (d_event_ids d), ev_event_type = PARTIAL_FILL,
      ev_order_id = bo_order_id b, ev_timestamp = fst (d_timestamps d), ev_filled_quantity = q,
      ev_fill_price = Some (bo_price b), ev_execution_id = Some (''SIM-'' @ fst (d_execution_ids d)), ev_reason = None\<rparr>"
    define rest where "rest = (if bo_time_in_force b = IOC \<or> \<not> (0 < ?r - q \<and> d_completes d) then []
      else [full_fill_event (snd (d_event_ids d)) (snd (d_execution_ids d)) (snd (d_timestamps d)) b (?r - q)])"
    have v: "validate_fill_payload ev = Some ev"
      using q assms(5) by (simp add: validate_fill_payload_def ev_def is_fill_type_def)
    have "simulate_order d b = ev # rest"
      using P q v [unfolded ev_def] full [of "?r - q"]
      by (simp add: simulate_order_def put_def d dsub_def [of ?r ?r] Let_def rest_def ev_def)
    then show ?thesis
    proof (rule partial)
      show "rest = [] \<or> (\<exists>ev'. rest = [ev'] \<and> ev_event_type ev' = FULL_FILL \<and> ev_order_id ev' = bo_order_id b \<and>
        ev_fill_price ev' = Some (bo_price b) \<and> valid_event ev' \<and> bo_time_in_force b \<noteq> IOC \<and>
        ev_filled_quantity ev' = ?r - ev_filled_quantity ev \<and> ev_filled_quantity ev < ?r)"
        using full [of "?r - q"] by (auto simp: rest_def ev_def valid_event_def) (auto simp: full_fill_event_def)
    qed (use q v in \<open>simp_all add: ev_def valid_event_def\<close>)
  qed
qed

text \<open>
  What the simulated broker sends for an order it is given: one or two valid events for that order,
  their fills at its limit price and together for no more than its open quantity, and none that
  \<open>ignored\<close> finds a reason against. What the handler makes of them is shown in \<open>Simulated_Trading\<close>.
\<close>

lemma simulated_events_are_applicable:
  assumes "documented_draws d" and "documented e" and "store_order e ord = Inr ord" and "o_status ord = ROUTED"
    and "0 < o_remaining_quantity ord" and "simulate_order d (broker_order_of ord) = evs"
  shows "1 \<le> length evs \<and> length evs \<le> 2 \<and>
    (\<Sum>ev\<leftarrow>evs. ev_filled_quantity ev) \<le> o_remaining_quantity ord \<and>
    (\<forall>ev\<in>set evs. valid_event ev \<and> ev_order_id ev = o_id ord \<and>
       (is_fill_type (ev_event_type ev) \<longrightarrow> ev_fill_price ev = Some (o_price ord))) \<and>
    ignored ord (hd evs) = None \<and>
    (\<forall>ord'. filled_by (ev_filled_quantity (hd evs)) ord ord' \<longrightarrow>
       (\<forall>ev\<in>set (tl evs). ignored ord' ev = None \<and> o_remaining_quantity ord' = ev_filled_quantity ev))"
proof -
  let ?b = "broker_order_of ord"
  note s = settled_order [OF assms(2,3)]
  note lt = order_bounds(2) [OF s(8,6)]
  have p: "0 < o_price ord" using s(8) by (simp add: order_checks_def)
  have b: "bo_remaining_quantity ?b = o_remaining_quantity ord" "bo_price ?b = o_price ord"
    "bo_order_id ?b = o_id ord" "bo_time_in_force ?b = o_time_in_force ord"
    by (simp_all add: broker_order_of_def)
  have "0 < bo_remaining_quantity ?b" "bo_remaining_quantity ?b < 10 ^ 16" "on_grid 8 (bo_remaining_quantity ?b)"
    "0 < bo_price ?b" using assms(5) lt s(5) p by (simp_all add: b)
  with assms(1) show ?thesis
  proof (cases rule: simulate_order_cases)
    case (rejected ev)
    then show ?thesis using assms(4,5,6) by (simp add: b ignored_def is_fill_type_def)
  next
    case (filled ev)
    then show ?thesis using assms(4,6) by (simp add: b ignored_def is_fill_type_def)
  next
    case (partial ev rest)
    then show ?thesis using assms(4,6)
      by (auto simp: b ignored_def is_fill_type_def filled_by_def)
  qed
qed

end
