(* ===== verification/Application.thy ===== *)
theory Application
  imports Order_Frames Fake_Broker Funded_Fills
begin

text \<open>
  The running application: \<open>lifespan\<close> of \<open>app/main.py\<close> with the simulated broker of
  \<open>app/broker/fake.py\<close>.

  The broker keeps the set of its running tasks. A task is represented by the events it will still
  put: it sleeps before each, so other tasks, the requests and the worker run in between
  (\<open>app_run\<close> takes one such step), and it is discarded when it is done. The queue and the tasks live
  in memory: stopping the application cancels the tasks and drops the queue, and starting it
  again begins with neither; nothing is read back from the database.

  A service passes an order on to the broker when \<open>should_route\<close> (\<open>should_notify_broker\<close>) is set;
  \<open>submitted\<close> and \<open>notified\<close> say when that is, and \<open>create_order_submits\<close>,
  \<open>request_cancellation_notifies\<close> that the broker is asked about nothing else.
\<close>

section \<open>The tasks of the simulated broker\<close>

type_synonym broker_task = "broker_execution_event list"

definition start_task :: "broker_task \<Rightarrow> broker_task list \<Rightarrow> broker_task list" where
  "start_task task tasks = tasks @ [task]"

definition on_task_done :: "nat \<Rightarrow> broker_task list \<Rightarrow> broker_task list" where
  "on_task_done i tasks = take i tasks @ drop (Suc i) tasks"

definition start_order_task :: "draws \<Rightarrow> broker_order \<Rightarrow> broker_task list \<Rightarrow> broker_task list" where
  "start_order_task d ord tasks = start_task (simulate_order d ord) tasks"

definition start_cancellation_task :: "draws \<Rightarrow> uuid \<Rightarrow> string \<Rightarrow> broker_task list \<Rightarrow> broker_task list" where
  "start_cancellation_task d order_id reason tasks = start_task (simulate_cancellation d order_id reason) tasks"

text \<open>The \<open>i\<close>-th task wakes up: it puts its next event, and is done when that was the last one.\<close>

definition wake_task :: "nat \<Rightarrow> broker_task list \<Rightarrow> broker_execution_event option \<times> broker_task list" where
  "wake_task i tasks =
     (case tasks ! i of
        [] \<Rightarrow> (None, on_task_done i tasks)
      | ev # rest \<Rightarrow> (Some ev, if rest = [] then on_task_done i tasks else tasks[i := rest]))"

definition close :: "broker_task list \<Rightarrow> broker_task list" where
  "close tasks = []"

section \<open>The application\<close>

record application =
  app_worker :: event_worker
  app_tasks :: "broker_task list"

abbreviation app_database :: "application \<Rightarrow> database" where
  "app_database app \<equiv> w_database (app_worker app)"

definition lifespan_start :: "database \<Rightarrow> application" where
  "lifespan_start db =
     \<lparr>app_worker = \<lparr>w_queue = [], w_unfinished = 0, w_database = db, w_failures = []\<rparr>, app_tasks = []\<rparr>"

definition lifespan_stop :: "application \<Rightarrow> database" where
  "lifespan_stop app = app_database (app\<lparr>app_tasks := close (app_tasks app)\<rparr>)"

definition submitted :: "env \<Rightarrow> order_create \<Rightarrow> database \<Rightarrow> broker_order option" where
  "submitted e payload db =
     (case transaction e (create_order_body e payload) (open_session db) of
        (Inr (ord, should_route), _) \<Rightarrow> if should_route then Some (broker_order_of ord) else None
      | _ \<Rightarrow> None)"

definition notified :: "env \<Rightarrow> uuid \<Rightarrow> string \<Rightarrow> database \<Rightarrow> uuid option" where
  "notified e order_id reason db =
     (case transaction e (request_cancellation_body e order_id reason) (open_session db) of
        (Inr (ord, should_notify_broker), _) \<Rightarrow> if should_notify_broker then Some (o_id ord) else None
      | _ \<Rightarrow> None)"

datatype app_step =
    OpenAccount account_create
  | PlaceOrder order_create draws
  | CancelOrder uuid draws
  | ExpireDayOrder uuid draws
  | MarketTick string rat timestamp
  | BrokerTask nat
  | WorkerTurn
  | Restart

definition with_database :: "database \<Rightarrow> application \<Rightarrow> application" where
  "with_database db app = app\<lparr>app_worker := (app_worker app)\<lparr>w_database := db\<rparr>\<rparr>"

definition with_task :: "(broker_task list \<Rightarrow> broker_task list) option \<Rightarrow> application \<Rightarrow> application" where
  "with_task start app = (case start of None \<Rightarrow> app | Some f \<Rightarrow> app\<lparr>app_tasks := f (app_tasks app)\<rparr>)"

fun app_run :: "env \<Rightarrow> app_step \<Rightarrow> application \<Rightarrow> application" where
  "app_run e (OpenAccount raw) app = with_database (run e (PostAccount raw) (app_database app)) app"
| "app_run e (PlaceOrder raw d) app =
     with_task
       (case validate_order_create raw of
          None \<Rightarrow> None
        | Some payload \<Rightarrow> map_option (start_order_task d) (submitted e payload (app_database app)))
       (with_database (run e (PostOrder raw None) (app_database app)) app)"
| "app_run e (CancelOrder order_id d) app =
     with_task
       (map_option (\<lambda>oid. start_cancellation_task d oid ''Client requested cancellation'')
          (notified e order_id ''Client requested cancellation'' (app_database app)))
       (with_database (run e (PostCancel order_id None) (app_database app)) app)"
| "app_run e (ExpireDayOrder order_id d) app =
     with_task
       (map_option (\<lambda>oid. start_cancellation_task d oid ''DAY order expired at session end'')
          (notified e order_id ''DAY order expired at session end'' (app_database app)))
       (with_database (run e (ExpireOrder order_id None) (app_database app)) app)"
| "app_run e (MarketTick symb price observed_at) app =
     with_database (run e (DeliverTick symb price observed_at) (app_database app)) app"
| "app_run e (BrokerTask i) app =
     (if i < length (app_tasks app) then
        (case wake_task i (app_tasks app) of
           (event, tasks) \<Rightarrow>
             app\<lparr>app_worker :=
                   (case event of None \<Rightarrow> app_worker app | Some ev \<Rightarrow> queue_put ev (app_worker app)),
                 app_tasks := tasks\<rparr>)
      else app)"
| "app_run e WorkerTurn app =
     (case worker_step e (app_worker app) of None \<Rightarrow> app | Some w \<Rightarrow> app\<lparr>app_worker := w\<rparr>)"
| "app_run e Restart app = lifespan_start (lifespan_stop app)"

text \<open>What the broker still has to report: the queue, and what the tasks will put.\<close>

definition pending :: "application \<Rightarrow> broker_execution_event list" where
  "pending app = w_queue (app_worker app) @ concat (app_tasks app)"

section \<open>When the broker is asked\<close>

lemma create_order_submits:
  assumes "\<And>b. submitted e payload db = Some b \<Longrightarrow> submit b = submit' b"
  shows "create_order e submit meanwhile payload (open_session db) = create_order e submit' meanwhile payload (open_session db)"
  using assms by (auto simp: create_order_def submitted_def split: prod.splits sum.splits)

lemma request_cancellation_notifies:
  assumes "\<And>oid. notified e order_id reason db = Some oid \<Longrightarrow> cancel oid reason = cancel' oid reason"
  shows "request_cancellation e cancel order_id reason (open_session db) =
    request_cancellation e cancel' order_id reason (open_session db)"
  using assms by (auto simp: request_cancellation_def notified_def split: prod.splits sum.splits)

lemma submitted_new:
  assumes "submitted e payload db = Some b" and "documented e" and "well_formed e db" and "valid_request payload"
  shows "order_row db (new_uuid e) = None" and "b = broker_order_of (routed_order e payload)"
    and "order_row (tx (snd (transaction e (create_order_body e payload) (open_session db)))) (new_uuid e) =
      Some (routed_order e payload)"
    and "store_order e (routed_order e payload) = Inr (routed_order e payload)"
proof -
  from assms(1) obtain ord s1 where t:
      "transaction e (create_order_body e payload) (open_session db) = (Inr (ord, True), s1)" "b = broker_order_of ord"
    by (auto simp: submitted_def split: prod.splits sum.splits if_splits)
  from t(1) assms(2-4) have "order_row db (new_uuid e) = None \<and> ord = routed_order e payload \<and>
      store_order e ord = Inr ord \<and> order_row (tx s1) (new_uuid e) = Some (routed_order e payload)"
  proof (cases rule: create_order_transaction_cases)
    case (routed a)
    with leavesD(2) [OF routed(8), of "new_uuid e"] show ?thesis by (auto simp: routed_view_def)
  qed simp_all
  with t show "order_row db (new_uuid e) = None" "b = broker_order_of (routed_order e payload)"
      "order_row (tx (snd (transaction e (create_order_body e payload) (open_session db)))) (new_uuid e) =
        Some (routed_order e payload)"
      "store_order e (routed_order e payload) = Inr (routed_order e payload)"
    by auto
qed

lemma notified_order:
  assumes "notified e order_id reason db = Some oid" and "documented e" and "well_formed e db"
  shows "oid = order_id \<and> order_row db order_id \<noteq> None"
proof -
  have n: "fst (request_cancellation e (\<lambda>i _. Some i) order_id reason (open_session db)) = Inl (BrokerFailure oid)"
    using assms(1) by (auto simp: request_cancellation_def notified_def split: prod.splits sum.splits if_splits)
  note refused = request_cancellation_refused [OF assms(3), where oid = order_id and cancel = "\<lambda>i _. Some i" and reason = reason]
  show ?thesis
  proof (cases "order_row db order_id")
    case None
    with refused(1) n show ?thesis by simp
  next
    case (Some ord)
    with refused(2,3) n have "o_status ord \<in> CANCELLABLE_ORDER_STATUSES" by fastforce
    with assms(2,3) Some have "fst (request_cancellation e (\<lambda>i _. Some i) order_id reason (open_session db)) =
        Inl (BrokerFailure order_id)"
      by (rule cancel_requested [where cancel = "\<lambda>i _. Some i" and reason = reason]) simp
    with n Some show ?thesis by simp
  qed
qed

end
