(* ===== verification/Simulated_Trading.thy ===== *)
theory Simulated_Trading
  imports Application
begin

text \<open>
  The simulated broker and the broker event worker together: the events of a simulation, taken from
  the queue one after the other, carry an order from \<open>ROUTED\<close> to the status the draws decide on, and
  no event of the broker is refused for want of cash.
\<close>

section \<open>Events that fit their order\<close>

text \<open>
  A valid event for an order of the database, at its limit price if it is a fill; and one whose
  amount in addition is a multiple of \<open>10 ^ -8\<close>.
\<close>

definition supplied :: "database \<Rightarrow> broker_execution_event \<Rightarrow> bool" where
  "supplied db ev \<longleftrightarrow>
     valid_event ev \<and>
     (\<exists>ord. order_row db (ev_order_id ev) = Some ord \<and>
        (is_fill_type (ev_event_type ev) \<longrightarrow>
           ev_fill_price ev = Some (o_price ord) \<and> on_grid 8 (ev_filled_quantity ev)))"

definition exact_fill :: "broker_execution_event \<Rightarrow> bool" where
  "exact_fill ev \<longleftrightarrow>
     \<not> is_fill_type (ev_event_type ev) \<or>
     (case ev_fill_price ev of None \<Rightarrow> True | Some p \<Rightarrow> on_grid 8 (ev_filled_quantity ev * p))"

lemma supplied_kept: "orders_kept e K db db' \<Longrightarrow> supplied db ev \<Longrightarrow> supplied db' ev"
proof -
  assume k: "orders_kept e K db db'" and s: "supplied db ev"
  from s obtain ord where ord: "order_row db (ev_order_id ev) = Some ord" by (auto simp: supplied_def)
  from orders_keptD(2) [OF k ord] obtain ord' where
      ord': "order_row db' (ev_order_id ev) = Some ord'" "request_of ord' = request_of ord" by blast
  with s ord show ?thesis using request_of_eqD(10) [OF ord'(2)] by (auto simp: supplied_def)
qed

lemma supplied_amounts: "supplied db ev \<Longrightarrow> exact_fill ev \<Longrightarrow> valid_event ev \<and> exact_amounts db ev \<and> within_limit db ev"
  by (auto simp: supplied_def exact_fill_def exact_amounts_def within_limit_def valid_event_def validate_fill_payload_def)

text \<open>What the simulations put.\<close>

lemma simulate_order_supplied:
  assumes "documented_draws d" and "documented e" and "store_order e ord = Inr ord" and "0 < o_remaining_quantity ord"
    and "order_row db (o_id ord) = Some ord" and "ev \<in> set (simulate_order d (broker_order_of ord))"
  shows "supplied db ev \<and> ev_order_id ev = o_id ord"
proof -
  let ?b = "broker_order_of ord"
  note s = settled_order [OF assms(2,3)]
  have b: "bo_remaining_quantity ?b = o_remaining_quantity ord" "bo_price ?b = o_price ord" "bo_order_id ?b = o_id ord"
    by (simp_all add: broker_order_of_def)
  have "0 < bo_remaining_quantity ?b" "bo_remaining_quantity ?b < 10 ^ 16" "on_grid 8 (bo_remaining_quantity ?b)"
    "0 < bo_price ?b"
    using assms(4) order_bounds(2) [OF s(8,6)] s(5,8) by (simp_all add: b order_checks_def)
  with assms(1) show ?thesis
  proof (cases rule: simulate_order_cases)
    case (rejected ev')
    then show ?thesis using assms(5,6) by (simp add: supplied_def b is_fill_type_def)
  next
    case (filled ev')
    then show ?thesis using assms(5,6) s(5) by (simp add: supplied_def b)
  next
    case (partial ev' rest)
    then show ?thesis using assms(5,6) s(5) by (auto simp: supplied_def b on_grid_diff)
  qed
qed

lemma simulate_order_ids: "ev \<in> set (simulate_order d b) \<Longrightarrow> ev_order_id ev = bo_order_id b"
  by (auto simp: simulate_order_def put_def full_fill_event_def validate_fill_payload_def Let_def
      split: if_splits sum.splits option.splits)

lemma simulate_cancellation_event:
  "ev \<in> set (simulate_cancellation d oid reason) \<Longrightarrow>
     ev_order_id ev = oid \<and> valid_event ev \<and> \<not> is_fill_type (ev_event_type ev)"
  by (auto simp: simulate_cancellation_def put_def validate_fill_payload_def is_fill_type_def valid_event_def)

text \<open>
  The contract of a \<open>BrokerAdapter\<close> (\<open>broker/base.py\<close>) as the rest of the application relies on it: the
  reports an adapter makes for an order that was submitted, or for a cancellation that was
  requested, are valid events for that order, and its fills are at the limit price. Whatever adapter
  keeps it, the reports fit the database the request leaves.
\<close>

locale broker_adapter =
  fixes order_events :: "draws \<Rightarrow> broker_order \<Rightarrow> broker_execution_event list"
    and cancellation_events :: "draws \<Rightarrow> uuid \<Rightarrow> string \<Rightarrow> broker_execution_event list"
  assumes order_event_supplied:
      "documented_draws d \<Longrightarrow> documented e \<Longrightarrow> store_order e ord = Inr ord \<Longrightarrow> 0 < o_remaining_quantity ord \<Longrightarrow>
       order_row db (o_id ord) = Some ord \<Longrightarrow> ev \<in> set (order_events d (broker_order_of ord)) \<Longrightarrow>
       supplied db ev \<and> ev_order_id ev = o_id ord"
    and cancellation_event_valid:
      "ev \<in> set (cancellation_events d oid reason) \<Longrightarrow>
       ev_order_id ev = oid \<and> valid_event ev \<and> \<not> is_fill_type (ev_event_type ev)"
begin

lemma submitted_supplied:
  assumes "submitted e payload db = Some b" and "documented e" and "well_formed e db" and "valid_request payload"
    and "documented_draws d" and "ev \<in> set (order_events d b)"
  shows "supplied (tx (snd (transaction e (create_order_body e payload) (open_session db)))) ev"
proof -
  note n = submitted_new [OF assms(1-4)]
  let ?ord = "routed_order e payload"
  have "o_id ?ord = new_uuid e" using row_of_SomeD [OF n(3)] by simp
  moreover have "0 < o_remaining_quantity ?ord"
    using settled_order(8) [OF assms(2) n(4)] by (simp add: routed_order_def order_checks_def)
  moreover have "ev \<in> set (order_events d (broker_order_of ?ord))" using assms(6) n(2) by simp
  ultimately show ?thesis
    using order_event_supplied [of d e ?ord _ ev] assms(2,5) n(3,4) by auto
qed

lemma notified_supplied:
  assumes "notified e oid reason db = Some i" and "documented e" and "well_formed e db"
    and "orders_kept e' K db db'" and "ev \<in> set (cancellation_events d i reason)"
  shows "supplied db' ev"
  using notified_order [OF assms(1-3)] cancellation_event_valid [OF assms(5)] orders_keptD(2) [OF assms(4)]
  by (auto simp: supplied_def)

end

interpretation simulated: broker_adapter simulate_order simulate_cancellation
  by unfold_locales (rule simulate_order_supplied simulate_cancellation_event; assumption)+

section \<open>The worker\<close>

text \<open>One turn: the books stay consistent, and what fails does not fail for want of cash.\<close>

definition paid_failure :: "uuid \<times> oms_error \<Rightarrow> bool" where
  "paid_failure failure \<longleftrightarrow> no_refusal (snd failure)"

lemma worker_turn:
  assumes "worker_step e w = Some w'" and "w_queue w = ev # rest" and "documented e"
    and "consistent e (w_database w)" and "supplied (w_database w) ev" and "exact_fill ev"
  shows "w_queue w' = rest \<and> consistent e (w_database w') \<and>
    orders_kept e {ev_order_id ev} (w_database w) (w_database w') \<and>
    (list_all paid_failure (w_failures w) \<longrightarrow> list_all paid_failure (w_failures w'))"
proof -
  let ?p = "process_event e ev (open_session (w_database w))"
  have w': "w' = w\<lparr>w_queue := rest, w_unfinished := w_unfinished w - 1, w_database := tx (snd ?p),
      w_failures := w_failures w @ (case fst ?p of Inl err \<Rightarrow> [(ev_event_id ev, err)] | Inr _ \<Rightarrow> [])\<rparr>"
    using assms(1,2) by (simp add: worker_step_def case_prod_beta)
  note am = supplied_amounts [OF assms(5,6)]
  have "raises_only no_refusal (fst ?p)"
    by (rule event_no_refusal) (use am assms(3,4) in simp_all)
  then have "list_all paid_failure (case fst ?p of Inl err \<Rightarrow> [(ev_event_id ev, err)] | Inr _ \<Rightarrow> [])"
    by (auto simp: paid_failure_def dest: raises_onlyD split: sum.split)
  moreover have "consistent e (tx (snd ?p))" using process_event_consistent [OF assms(4,3)] am by blast
  moreover have "orders_kept e {ev_order_id ev} (w_database w) (tx (snd ?p))"
    by (rule event_keeps_orders [OF assms(3) consistentD(1) [OF assms(4)]])
  ultimately show ?thesis by (simp add: w')
qed

lemma worker_pays:
  "consistent e (w_database w) \<Longrightarrow> documented e \<Longrightarrow>
     \<forall>ev\<in>set (w_queue w). supplied (w_database w) ev \<and> exact_fill ev \<Longrightarrow> list_all paid_failure (w_failures w) \<Longrightarrow>
     consistent e (w_database (broker_event_worker e stamps w)) \<and>
     list_all paid_failure (w_failures (broker_event_worker e stamps w))"
proof (induction stamps arbitrary: w)
  case (Cons stamp stamps)
  let ?e = "at_time e stamp"
  show ?case
  proof (cases "worker_step ?e w")
    case None
    with Cons.prems show ?thesis by simp
  next
    case (Some w')
    then obtain ev rest where q: "w_queue w = ev # rest" by (auto simp: worker_step_def split: list.splits)
    have "documented ?e" "consistent ?e (w_database w)" using Cons.prems by simp_all
    from worker_turn [OF Some q this] Cons.prems(3,4) q
    have t: "w_queue w' = rest" "consistent e (w_database w')" "list_all paid_failure (w_failures w')"
        "orders_kept ?e {ev_order_id ev} (w_database w) (w_database w')"
      by simp_all
    have "\<forall>ev\<in>set (w_queue w'). supplied (w_database w') ev \<and> exact_fill ev"
      using Cons.prems(3) q t(1) supplied_kept [OF t(4)] by simp
    from Cons.IH [OF t(2) Cons.prems(2) this t(3)] Some show ?thesis by simp
  qed
qed simp

section \<open>One event of a simulation\<close>

lemma simulated_event_applied:
  assumes "process_event e ev (open_session db) = (Inr b, s')" and "documented e" and "consistent e db"
    and "order_row db oid = Some ord" and "ev_order_id ev = oid" and "supplied db ev" and "exact_fill ev"
    and "processed_row db (ev_event_id ev) = None" and "ignored ord ev = None"
    and "account_row db (o_account_id ord) = Some a"
  obtains r a' where "order_row (tx s') oid = Some r" "request_of r = request_of ord"
    "account_row (tx s') (o_account_id ord) = Some a'" "consistent e (tx s')"
    "a_reserved_cash a' = a_reserved_cash a + commitment r - commitment ord"
    "is_fill_type (ev_event_type ev) \<Longrightarrow> filled_by (ev_filled_quantity ev) ord r \<and>
       a_cash_balance a' = a_cash_balance a +
         (if o_side ord = BUY then - (ev_filled_quantity ev * o_price ord) else ev_filled_quantity ev * o_price ord)"
    "ev_event_type ev = broker_event_type.REJECTED \<Longrightarrow> o_status r = REJECTED \<and>
       o_filled_quantity r = o_filled_quantity ord \<and> a_cash_balance a' = a_cash_balance a"
    "processed_broker_events (tx s') = processed_broker_events db @ [processed_of ev (True, None)]"
proof -
  note c = consistentD [OF assms(3)] and am = supplied_amounts [OF assms(6,7)]
  from assms(1) c(2) assms(2) show thesis
  proof (cases rule: process_event_cases)
    case (duplicate ord')
    with assms(8) show thesis by simp
  next
    case (ignored ord' reason)
    with assms(4,5,9) show thesis by simp
  next
    case (applied ord' a0 out trade)
    have same: "ord' = ord" "a0 = a" using applied(1,5) assms(4,5,10) by simp_all
    have so: "store_order e ord = Inr ord" and sa: "store_account e a = Inr a"
      using settledD(1,2) [OF c(2)] assms(4,10) by simp_all
    have ids: "o_id ord = oid" "a_id a = o_account_id ord"
      using row_of_SomeD [OF assms(4)] row_of_SomeD [OF assms(10)] by simp_all
    from applied(9) c(2) obtain r ra where r: "store_order e (fst out) = Inr r" "store_account e (fst (snd out)) = Inr ra"
        "order_row (tx s') = (order_row db)(o_id (fst out) \<mapsto> r)"
        "account_row (tx s') = (account_row db)(a_id (fst (snd out)) \<mapsto> ra)" by (rule applied_rows)
    have oc: "event_outcome e ord a ev = Inr out" using applied(6) same by simp
    have rq: "request_of (fst out) = request_of ord" by (rule request_of_outcome [OF oc])
    have req: "request_of r = request_of ord" by (rule request_of_stored [OF assms(2) r(1) so rq])
    obtain o1 a1 evs where out: "out = (o1, a1, evs)" by (cases out)
    have "a_id (fst (snd out)) = a_id a"
      using oc [unfolded event_outcome_def] by (auto split: if_splits option.splits dest!: outcome_keys(1,3,4))
    then have ka: "a_id a1 = a_id a" by (simp add: out)
    have wf: "consistent e (tx s')"
      using process_event_consistent [OF assms(3,2)] am assms(1) by (metis snd_conv)
    have rows: "order_row (tx s') = (order_row db)(oid \<mapsto> r)" "account_row (tx s') (o_account_id ord) = Some ra"
      using r(3) request_of_eqD(1) [OF rq] ids fun_cong [OF r(4), of "o_account_id ord"] ka by (simp_all add: out)
    have reserved: "a_reserved_cash ra = a_reserved_cash a + commitment r - commitment ord"
    proof -
      have "o_id r = oid" using request_of_eqD(1) [OF req] ids by simp
      with rows(1) have "order_row (tx s') = (order_row db)(o_id r \<mapsto> r)" by simp
      from committed_cash_booked [OF c(3) consistentD(3) [OF wf] this, of "o_account_id ord"] req
      have "committed_cash (tx s') (o_account_id ord) = committed_cash db (o_account_id ord) + commitment r - commitment ord"
        using assms(4) \<open>o_id r = oid\<close> request_of_eqD(2) [OF req] by simp
      with c(6) [OF assms(10)] consistentD(6) [OF wf rows(2)] show ?thesis by simp
    qed
    note sac = settled_account [OF assms(2) sa]
    have fill: "filled_by (ev_filled_quantity ev) ord r \<and> a_cash_balance ra = a_cash_balance a +
        (if o_side ord = BUY then - (ev_filled_quantity ev * o_price ord) else ev_filled_quantity ev * o_price ord)"
      if f: "is_fill_type (ev_event_type ev)"
    proof -
      let ?q = "ev_filled_quantity ev" and ?p = "o_price ord"
      have x: "ev_fill_price ev = Some ?p" "on_grid 8 ?q" "on_grid 8 (?q * ?p)"
        using assms(4-7) f by (auto simp: supplied_def exact_fill_def)
      have q: "0 < ?q" "0 < ?p" using applied(8) f settled_order(8) [OF assms(2) so] by (simp_all add: order_checks_def)
      note g = ignored_status [OF f assms(9)]
      have fo: "fill_outcome e ord a ev ?p = Inr out" using oc f x(1) by (simp add: event_outcome_def)
      have rest: "on_grid 8 (o_remaining_quantity ord * ?p)"
        using c(5) [OF assms(4)] by (simp add: order_booked_def)
      have le: "?q \<le> o_remaining_quantity ord" using g by simp
      have "can_store (store_account e) (fst (snd out))" using r(2) by (rule can_storeI)
      note m = fill_outcome_money [OF fo assms(2) so sa this x(2) q(1) le q(2) x(3) x(3) rest]
      note qs = fill_outcome_quantities [OF fo assms(2) so x(2) q(1) le]
      have "filled_by ?q ord r" using qs stored_order_exact [OF assms(2) r(1)] by (auto simp: filled_by_def)
      moreover have "a_cash_balance ra = a_cash_balance (fst (snd out))"
        using m stored_account_exact(1) [OF assms(2) r(2)] by simp
      ultimately show ?thesis using m by (auto simp: settled_by_def)
    qed
    have rejection: "o_status r = REJECTED \<and> o_filled_quantity r = o_filled_quantity ord \<and> a_cash_balance ra = a_cash_balance a"
      if f: "ev_event_type ev = broker_event_type.REJECTED"
    proof -
      have "reject_outcome e ord a ev = Inr out" using oc f by (simp add: event_outcome_def is_fill_type_def)
      then have "o_status o1 = REJECTED" "o_filled_quantity o1 = o_filled_quantity ord" "a_cash_balance a1 = a_cash_balance a"
        by (auto simp: out reject_outcome_def release_remaining_reservation_def Let_def moved_def split: if_splits)
      then show ?thesis
        using stored_order_exact [OF assms(2) r(1)] stored_account_exact(1) [OF assms(2) r(2)] sac(1)
          settled_order(3) [OF assms(2) so] by (simp add: out)
    qed
    have "processed_broker_events (tx s') = processed_broker_events db @ [processed_of ev (True, None)]"
      using leavesD(7) [OF applied(9)] by simp
    moreover have "order_row (tx s') oid = Some r" using fun_cong [OF rows(1), of oid] by simp
    ultimately show thesis using that rows(2) req wf reserved fill rejection by blast
  qed
qed

section \<open>A whole simulation\<close>

definition worker_on :: "broker_execution_event list \<Rightarrow> database \<Rightarrow> event_worker" where
  "worker_on evs db = \<lparr>w_queue = evs, w_unfinished = length evs, w_database = db, w_failures = []\<rparr>"

lemma worker_step_failures: "worker_step e w = Some w' \<Longrightarrow> w_failures w' = [] \<Longrightarrow> w_failures w = []"
  by (auto simp: worker_step_def split: list.splits prod.splits)

lemma worker_failures: "w_failures (broker_event_worker e stamps w) = [] \<Longrightarrow> w_failures w = []"
proof (induction stamps arbitrary: w)
  case (Cons stamp stamps)
  then show ?case
    by (cases "worker_step (at_time e stamp) w") (auto dest: worker_step_failures)
qed simp

text \<open>A run without a failure, unfolded by one event.\<close>

lemma worker_Cons:
  assumes "w_failures (broker_event_worker e (stamp # stamps) (worker_on (ev # evs) db)) = []"
  obtains b s' where "process_event (at_time e stamp) ev (open_session db) = (Inr b, s')"
    "broker_event_worker e (stamp # stamps) (worker_on (ev # evs) db) = broker_event_worker e stamps (worker_on evs (tx s'))"
proof -
  obtain r s' where p: "process_event (at_time e stamp) ev (open_session db) = (r, s')"
    by (cases "process_event (at_time e stamp) ev (open_session db)")
  let ?w = "\<lparr>w_queue = evs, w_unfinished = length evs, w_database = tx s',
    w_failures = (case r of Inl err \<Rightarrow> [(ev_event_id ev, err)] | Inr _ \<Rightarrow> [])\<rparr>"
  have w: "broker_event_worker e (stamp # stamps) (worker_on (ev # evs) db) = broker_event_worker e stamps ?w"
    by (simp add: worker_on_def worker_step_def p)
  with assms have "w_failures ?w = []" using worker_failures by metis
  then obtain b where "r = Inr b" by (cases r) simp_all
  with that p w show thesis by (simp add: worker_on_def)
qed

lemma simulated_turn:
  assumes "w_failures (broker_event_worker e (stamp # stamps) (worker_on (ev # evs) db)) = []"
    and "documented e" and "consistent e db" and "order_row db oid = Some ord" and "supplied db ev \<and> ev_order_id ev = oid"
    and "exact_fill ev" and "processed_row db (ev_event_id ev) = None" and "ignored ord ev = None"
    and "account_row db (o_account_id ord) = Some a"
  obtains db' r a' where
    "broker_event_worker e (stamp # stamps) (worker_on (ev # evs) db) = broker_event_worker e stamps (worker_on evs db')"
    "order_row db' oid = Some r" "request_of r = request_of ord" "account_row db' (o_account_id ord) = Some a'"
    "consistent e db'" "a_reserved_cash a' = a_reserved_cash a + commitment r - commitment ord"
    "is_fill_type (ev_event_type ev) \<Longrightarrow> filled_by (ev_filled_quantity ev) ord r \<and>
       a_cash_balance a' = a_cash_balance a +
         (if o_side ord = BUY then - (ev_filled_quantity ev * o_price ord) else ev_filled_quantity ev * o_price ord)"
    "ev_event_type ev = broker_event_type.REJECTED \<Longrightarrow> o_status r = REJECTED \<and>
       o_filled_quantity r = o_filled_quantity ord \<and> a_cash_balance a' = a_cash_balance a"
    "processed_broker_events db' = processed_broker_events db @ [processed_of ev (True, None)]"
    "\<And>ev'. supplied db ev' \<Longrightarrow> supplied db' ev'"
proof -
  let ?e = "at_time e stamp"
  have e: "documented ?e" "consistent ?e db" using assms(2,3) by simp_all
  from assms(1) obtain b s' where p: "process_event ?e ev (open_session db) = (Inr b, s')"
      "broker_event_worker e (stamp # stamps) (worker_on (ev # evs) db) = broker_event_worker e stamps (worker_on evs (tx s'))"
    by (rule worker_Cons)
  have "orders_kept ?e {ev_order_id ev} db (tx s')"
    using event_keeps_orders [OF e(1) consistentD(1) [OF e(2)], of ev] p(1) by simp
  then have kept: "supplied db ev' \<Longrightarrow> supplied (tx s') ev'" for ev' by (rule supplied_kept)
  from p(1) e assms(4-9) show thesis
  proof (elim simulated_event_applied [of ?e ev db b s' oid ord a])
    fix r a'
    assume "order_row (tx s') oid = Some r" "request_of r = request_of ord" "account_row (tx s') (o_account_id ord) = Some a'"
      "consistent ?e (tx s')" "a_reserved_cash a' = a_reserved_cash a + commitment r - commitment ord"
      "processed_broker_events (tx s') = processed_broker_events db @ [processed_of ev (True, None)]"
      and fill: "is_fill_type (ev_event_type ev) \<Longrightarrow> filled_by (ev_filled_quantity ev) ord r \<and>
        a_cash_balance a' = a_cash_balance a +
          (if o_side ord = BUY then - (ev_filled_quantity ev * o_price ord) else ev_filled_quantity ev * o_price ord)"
      and rejection: "ev_event_type ev = broker_event_type.REJECTED \<Longrightarrow> o_status r = REJECTED \<and>
        o_filled_quantity r = o_filled_quantity ord \<and> a_cash_balance a' = a_cash_balance a"
    then show thesis using p(2) kept by (intro that [of "tx s'" r a']) simp_all
  qed simp_all
qed

text \<open>
  What a simulation makes of a routed order: \<open>q\<close> is the quantity it fills, \<open>rejected\<close> whether the
  broker rejects the order.
\<close>

definition executed :: "bool \<Rightarrow> rat \<Rightarrow> order \<Rightarrow> account \<Rightarrow> order \<Rightarrow> account \<Rightarrow> bool" where
  "executed rejected q ord a ord' a' \<longleftrightarrow>
     request_of ord' = request_of ord \<and> o_filled_quantity ord' = o_filled_quantity ord + q \<and>
     o_status ord' =
       (if rejected then REJECTED else if q = o_remaining_quantity ord then FILLED
        else if o_time_in_force ord = IOC then CANCELLED else PARTIALLY_FILLED) \<and>
     a_cash_balance a' = a_cash_balance a + (if o_side ord = BUY then - (q * o_price ord) else q * o_price ord) \<and>
     a_reserved_cash a' = a_reserved_cash a + commitment ord' - commitment ord"

lemma one_event_executes:
  assumes "w_failures (broker_event_worker e stamps (worker_on [ev] db)) = []" and "length stamps = 1"
    and "documented e" and "consistent e db" and "order_row db oid = Some ord" and "o_status ord = ROUTED"
    and "account_row db (o_account_id ord) = Some a" and "supplied db ev \<and> ev_order_id ev = oid"
    and "exact_fill ev" and "processed_row db (ev_event_id ev) = None"
    and "ev_event_type ev = broker_event_type.REJECTED \<and> ev_filled_quantity ev = 0 \<or>
      is_fill_type (ev_event_type ev) \<and> ignored ord ev = None"
  shows "\<exists>db' ord' a'. broker_event_worker e stamps (worker_on [ev] db) = worker_on [] db' \<and>
    order_row db' oid = Some ord' \<and> account_row db' (o_account_id ord) = Some a' \<and>
    executed (ev_event_type ev = broker_event_type.REJECTED) (ev_filled_quantity ev) ord a ord' a'"
proof -
  from assms(2) obtain stamp where st: "stamps = [stamp]" by (cases stamps) auto
  have ig: "ignored ord ev = None" using assms(6,11) by (auto simp: ignored_def is_fill_type_def)
  from assms(1) [unfolded st] assms(3-5,8,9,10) ig assms(7) show ?thesis
  proof (rule simulated_turn)
    fix db' r a'
    assume r: "broker_event_worker e [stamp] (worker_on [ev] db) = broker_event_worker e [] (worker_on [] db')"
      "order_row db' oid = Some r" "request_of r = request_of ord" "account_row db' (o_account_id ord) = Some a'"
      "a_reserved_cash a' = a_reserved_cash a + commitment r - commitment ord"
      and fill: "is_fill_type (ev_event_type ev) \<Longrightarrow> filled_by (ev_filled_quantity ev) ord r \<and>
        a_cash_balance a' = a_cash_balance a +
          (if o_side ord = BUY then - (ev_filled_quantity ev * o_price ord) else ev_filled_quantity ev * o_price ord)"
      and rejection: "ev_event_type ev = broker_event_type.REJECTED \<Longrightarrow> o_status r = REJECTED \<and>
        o_filled_quantity r = o_filled_quantity ord \<and> a_cash_balance a' = a_cash_balance a"
    have "executed (ev_event_type ev = broker_event_type.REJECTED) (ev_filled_quantity ev) ord a r a'"
      using assms(11) r(3,5) fill rejection assms(6) by (auto simp: executed_def filled_by_def is_fill_type_def)
    with r show ?thesis
      by (intro exI [of _ db'] exI [of _ r] exI [of _ a']) (simp add: st)
  qed
qed

lemma two_events_execute:
  assumes "w_failures (broker_event_worker e stamps (worker_on [ev, ev'] db)) = []" and "length stamps = 2"
    and "documented e" and "consistent e db" and "order_row db oid = Some ord" and "o_status ord = ROUTED"
    and "account_row db (o_account_id ord) = Some a" and "\<forall>x\<in>{ev, ev'}. supplied db x \<and> ev_order_id x = oid"
    and "\<forall>x\<in>{ev, ev'}. exact_fill x \<and> processed_row db (ev_event_id x) = None" and "ev_event_id ev \<noteq> ev_event_id ev'"
    and "ev_event_type ev = PARTIAL_FILL" and "ev_event_type ev' = FULL_FILL" and "o_time_in_force ord \<noteq> IOC"
    and "ev_filled_quantity ev < o_remaining_quantity ord"
    and "ev_filled_quantity ev' = o_remaining_quantity ord - ev_filled_quantity ev"
  shows "\<exists>db' ord' a'. broker_event_worker e stamps (worker_on [ev, ev'] db) = worker_on [] db' \<and>
    order_row db' oid = Some ord' \<and> account_row db' (o_account_id ord) = Some a' \<and>
    executed False (o_remaining_quantity ord) ord a ord' a'"
proof -
  from assms(2) obtain t1 t2 where st: "stamps = [t1, t2]" by (cases stamps; cases "tl stamps") auto
  have ig: "ignored ord ev = None" using assms(6,11,14) by (simp add: ignored_def is_fill_type_def)
  have x: "supplied db ev \<and> ev_order_id ev = oid" "exact_fill ev" "processed_row db (ev_event_id ev) = None" using assms(8,9) by simp_all
  from assms(1) [unfolded st] assms(3-5) x ig assms(7) show ?thesis
  proof (rule simulated_turn)
    fix db1 r a1
    assume r: "broker_event_worker e [t1, t2] (worker_on [ev, ev'] db) = broker_event_worker e [t2] (worker_on [ev'] db1)"
      "order_row db1 oid = Some r" "request_of r = request_of ord" "account_row db1 (o_account_id ord) = Some a1"
      "consistent e db1" "a_reserved_cash a1 = a_reserved_cash a + commitment r - commitment ord"
      "processed_broker_events db1 = processed_broker_events db @ [processed_of ev (True, None)]"
      and fill: "is_fill_type (ev_event_type ev) \<Longrightarrow> filled_by (ev_filled_quantity ev) ord r \<and>
        a_cash_balance a1 = a_cash_balance a +
          (if o_side ord = BUY then - (ev_filled_quantity ev * o_price ord) else ev_filled_quantity ev * o_price ord)"
      and kept: "\<And>ev'. supplied db ev' \<Longrightarrow> supplied db1 ev'"
    note f = fill [unfolded assms(11) is_fill_type_def, simplified] and q = request_of_eqD [OF r(3)]
    have r': "o_status r = PARTIALLY_FILLED" "o_remaining_quantity r = ev_filled_quantity ev'"
        "o_filled_quantity r = o_filled_quantity ord + ev_filled_quantity ev"
      using f assms(6,13-15) by (auto simp: filled_by_def)
    have y: "supplied db1 ev' \<and> ev_order_id ev' = oid" "exact_fill ev'" using kept assms(8,9) by simp_all
    have "processed_row db1 (ev_event_id ev') = None"
      using assms(9,10) by (auto simp: r(7) row_of_None_iff processed_of_def)
    moreover have "ignored r ev' = None" using r'(1,2) assms(12) by (simp add: ignored_def is_fill_type_def)
    moreover have "account_row db1 (o_account_id r) = Some a1" using r(4) q(2) by simp
    moreover have "w_failures (broker_event_worker e [t2] (worker_on [ev'] db1)) = []" using assms(1) by (simp only: st r(1))
    ultimately show ?thesis
      using assms(3) r(5,2) y
    proof (elim simulated_turn [of e t2 "[]" ev' "[]" db1 oid r a1])
      fix db2 r2 a2
      assume r2: "broker_event_worker e [t2] (worker_on [ev'] db1) = broker_event_worker e [] (worker_on [] db2)"
        "order_row db2 oid = Some r2" "request_of r2 = request_of r" "account_row db2 (o_account_id r) = Some a2"
        "a_reserved_cash a2 = a_reserved_cash a1 + commitment r2 - commitment r"
        and fill2: "is_fill_type (ev_event_type ev') \<Longrightarrow> filled_by (ev_filled_quantity ev') r r2 \<and>
          a_cash_balance a2 = a_cash_balance a1 +
            (if o_side r = BUY then - (ev_filled_quantity ev' * o_price r) else ev_filled_quantity ev' * o_price r)"
      note f2 = fill2 [unfolded assms(12) is_fill_type_def, simplified]
      have "o_remaining_quantity ord * o_price ord =
          ev_filled_quantity ev * o_price ord + ev_filled_quantity ev' * o_price ord"
        by (simp add: assms(15) left_diff_distrib)
      then have "a_cash_balance a2 = a_cash_balance a +
          (if o_side ord = BUY then - (o_remaining_quantity ord * o_price ord) else o_remaining_quantity ord * o_price ord)"
        using f f2 q(6,10) by simp
      moreover have "o_status r2 = FILLED" "o_filled_quantity r2 = o_filled_quantity ord + o_remaining_quantity ord"
        using f2 r'(2,3) assms(15) by (simp_all add: filled_by_def)
      ultimately have "executed False (o_remaining_quantity ord) ord a r2 a2"
        using r2(3,5) r(3,6) by (simp add: executed_def)
      with r(1) r2 q(2) show ?thesis
        by (intro exI [of _ db2] exI [of _ r2] exI [of _ a2]) (simp add: st del: broker_event_worker.simps(2))
    qed simp_all
  qed
qed

text \<open>Every simulation that is processed without a failure.\<close>

lemma simulation_executes:
  assumes "documented e" and "consistent e db" and "order_row db oid = Some ord" and "o_status ord = ROUTED"
    and "account_row db (o_account_id ord) = Some a" and "documented_draws d"
    and "evs = simulate_order d (broker_order_of ord)" and "distinct (map ev_event_id evs)"
    and "\<forall>ev\<in>set evs. processed_row db (ev_event_id ev) = None \<and> exact_fill ev" and "length stamps = length evs"
    and "w_failures (broker_event_worker e stamps (worker_on evs db)) = []"
  shows "\<exists>db' ord' a'. broker_event_worker e stamps (worker_on evs db) = worker_on [] db' \<and>
    order_row db' oid = Some ord' \<and> account_row db' (o_account_id ord) = Some a' \<and>
    executed (ev_event_type (hd evs) = broker_event_type.REJECTED) (\<Sum>ev\<leftarrow>evs. ev_filled_quantity ev) ord a ord' a'"
proof -
  let ?b = "broker_order_of ord"
  note c = consistentD [OF assms(2)]
  have so: "store_order e ord = Inr ord" by (rule settledD(2) [OF c(2) assms(3)])
  note s = settled_order [OF assms(1) so]
  have rem: "0 < o_remaining_quantity ord"
    using c(5) [OF assms(3)] assms(4) by (auto simp: order_booked_def status_fits_def)
  have sup: "supplied db ev \<and> ev_order_id ev = oid" if "ev \<in> set evs" for ev
    using simulate_order_supplied [OF assms(6,1) so rem, of db ev] assms(3,7) that row_of_SomeD [OF assms(3)] by simp
  have b: "bo_remaining_quantity ?b = o_remaining_quantity ord" "bo_price ?b = o_price ord"
    "bo_time_in_force ?b = o_time_in_force ord"
    by (simp_all add: broker_order_of_def)
  note one = one_event_executes [OF _ _ assms(1-5)] and two = two_events_execute [OF _ _ assms(1-5)]
  have "0 < bo_remaining_quantity ?b" "bo_remaining_quantity ?b < 10 ^ 16" "on_grid 8 (bo_remaining_quantity ?b)"
    "0 < bo_price ?b"
    using rem order_bounds(2) [OF s(8,6)] s(5,8) by (simp_all add: b order_checks_def)
  with assms(6) show ?thesis
  proof (cases rule: simulate_order_cases)
    case (rejected ev)
    then have evs: "evs = [ev]" using assms(7) by simp
    show ?thesis
      using one [of stamps ev] sup assms(9-11) rejected(2-) unfolding evs by simp
  next
    case (filled ev)
    then have evs: "evs = [ev]" and "ignored ord ev = None"
      using assms(4,7) b by (simp_all add: ignored_def is_fill_type_def)
    then show ?thesis
      using one [of stamps ev] sup assms(9-11) filled(2-) unfolding evs by simp
  next
    case (partial ev rest)
    then have evs: "evs = ev # rest" using assms(7) by simp
    from partial(9) show ?thesis
    proof (elim disjE exE conjE)
      assume r: "rest = []"
      have "ignored ord ev = None" using partial assms(4) b by (simp add: ignored_def is_fill_type_def)
      then show ?thesis
        using one [of stamps ev] sup assms(9-11) partial(2-) unfolding evs r by simp
    next
      fix ev' assume t: "rest = [ev']" "ev_event_type ev' = FULL_FILL" "bo_time_in_force ?b \<noteq> IOC"
        "ev_filled_quantity ev' = bo_remaining_quantity ?b - ev_filled_quantity ev"
        "ev_filled_quantity ev < bo_remaining_quantity ?b"
      then show ?thesis
        using two [of stamps ev ev'] sup assms(8-11) partial(2) b unfolding evs t(1) by simp
    qed
  qed
qed

section \<open>No event of a simulation is ignored\<close>

text \<open>The handler returns False for an event it has recorded before or ignores, and for no other.\<close>

lemma taken_event:
  assumes "documented e" and "well_formed e db" and "order_row db (ev_order_id ev) = Some ord"
    and "processed_row db (ev_event_id ev) = None" and "ignored ord ev = None"
  shows "fst (process_event e ev (open_session db)) \<noteq> Inr False"
proof
  assume "fst (process_event e ev (open_session db)) = Inr False"
  then obtain s' where "process_event e ev (open_session db) = (Inr False, s')"
    by (cases "process_event e ev (open_session db)") simp
  from this well_formed_settled [OF assms(2)] assms(1) show False
    by (cases rule: process_event_cases) (use assms(3-5) in simp_all)
qed

text \<open>What an applied fill makes of the order it is for, in any database.\<close>

lemma applied_fill_books:
  assumes "process_event e ev (open_session db) = (Inr True, s')" and "documented e" and "well_formed e db"
    and "order_row db oid = Some ord" and "ev_order_id ev = oid" and "is_fill_type (ev_event_type ev)"
    and "on_grid 8 (ev_filled_quantity ev)"
  obtains r where "order_row (tx s') oid = Some r" "filled_by (ev_filled_quantity ev) ord r"
    "processed_broker_events (tx s') = processed_broker_events db @ [processed_of ev (True, None)]"
proof -
  note w = well_formed_settled [OF assms(3)]
  from assms(1) w assms(2) show thesis
  proof (cases rule: process_event_cases)
    case (applied ord' a out trade)
    have same: "ord' = ord" using applied(1) assms(4,5) by simp
    have so: "store_order e ord = Inr ord" by (rule settledD(2) [OF w assms(4)])
    from applied(6) assms(6) same obtain p where fo: "fill_outcome e ord a ev p = Inr out"
      by (auto simp: event_outcome_def split: option.splits)
    have q: "0 < ev_filled_quantity ev" "ev_filled_quantity ev \<le> o_remaining_quantity ord"
      using applied(3,8) assms(6) ignored_status [OF assms(6)] same by auto
    note qs = fill_outcome_quantities [OF fo assms(2) so assms(7) q]
    from applied(9) w obtain r ra where r: "store_order e (fst out) = Inr r" "store_account e (fst (snd out)) = Inr ra"
        "order_row (tx s') = (order_row db)(o_id (fst out) \<mapsto> r)"
        "account_row (tx s') = (account_row db)(a_id (fst (snd out)) \<mapsto> ra)" by (rule applied_rows)
    have "o_id (fst out) = oid"
      using request_of_eqD(1) [OF request_of_outcome [OF applied(6)]] same row_of_SomeD [OF assms(4)] by simp
    then have row: "order_row (tx s') oid = Some r" using fun_cong [OF r(3), of oid] by simp
    have booked: "filled_by (ev_filled_quantity ev) ord r"
      using qs stored_order_exact [OF assms(2) r(1)] by (auto simp: filled_by_def)
    have "processed_broker_events (tx s') = processed_broker_events db @ [processed_of ev (True, None)]"
      using leavesD(7) [OF applied(9)] by (simp add: applied_view_def)
    from that [OF row booked this] show thesis .
  qed simp_all
qed

text \<open>
  C36. The simulated broker sends for a routed order one or two valid events, their fills at its limit
  price and together for no more than its open quantity, and the execution service ignores none of
  them: delivered to a database in which the order is still as it was routed, the first is applied
  or fails, and never returns False; and once it has been applied, the same holds for the second
  in every database in which the order is as the first has left it, whatever else has changed.
  (The identifiers of the events must be new.)
\<close>

theorem simulated_events_are_taken:
  assumes "documented e" and "well_formed e db" and "order_row db oid = Some ord" and "o_status ord = ROUTED"
    and "0 < o_remaining_quantity ord" and "documented_draws d" and "evs = simulate_order d (broker_order_of ord)"
    and "processed_row db (ev_event_id (hd evs)) = None"
    and "process_event (at_time e stamp) (hd evs) (open_session db) = (result, s1)"
  shows "1 \<le> length evs \<and> length evs \<le> 2 \<and>
    (\<Sum>ev\<leftarrow>evs. ev_filled_quantity ev) \<le> o_remaining_quantity ord \<and>
    (\<forall>ev\<in>set evs. valid_event ev \<and> ev_order_id ev = oid \<and>
       (is_fill_type (ev_event_type ev) \<longrightarrow> ev_fill_price ev = Some (o_price ord))) \<and>
    result \<noteq> Inr False \<and>
    (result = Inr True \<longrightarrow>
      (\<forall>ev\<in>set (tl evs). \<forall>db' stamp'. well_formed e db' \<and> order_row db' oid = order_row (tx s1) oid \<and>
         processed_row db' (ev_event_id ev) = None \<longrightarrow>
         fst (process_event (at_time e stamp') ev (open_session db')) \<noteq> Inr False))"
proof -
  let ?b = "broker_order_of ord" and ?e = "at_time e stamp"
  have e: "documented ?e" "well_formed ?e db" using assms(1,2) by simp_all
  have so: "store_order e ord = Inr ord" by (rule settledD(2) [OF well_formed_settled [OF assms(2)] assms(3)])
  note s = settled_order [OF assms(1) so] and id = row_of_SomeD [OF assms(3)]
  have b: "bo_remaining_quantity ?b = o_remaining_quantity ord" "bo_price ?b = o_price ord"
    "bo_order_id ?b = oid" "bo_time_in_force ?b = o_time_in_force ord"
    using id by (simp_all add: broker_order_of_def)
  note sent = simulated_events_are_applicable [OF assms(6,1) so assms(4,5) assms(7) [symmetric]]
  have hd: "hd evs \<in> set evs" "ev_order_id (hd evs) = oid" "ignored ord (hd evs) = None"
    using sent id by (cases evs; simp)+
  have first: "result \<noteq> Inr False"
    using taken_event [OF e _ assms(8) hd(3)] assms(3,9) hd(2) by simp
  have second: "fst (process_event (at_time e stamp') ev (open_session db')) \<noteq> Inr False"
    if "result = Inr True" "ev \<in> set (tl evs)" "well_formed e db'" "order_row db' oid = order_row (tx s1) oid"
      "processed_row db' (ev_event_id ev) = None" for ev db' stamp'
  proof -
    have "0 < bo_remaining_quantity ?b" "bo_remaining_quantity ?b < 10 ^ 16" "on_grid 8 (bo_remaining_quantity ?b)"
      "0 < bo_price ?b" using assms(5) order_bounds(2) [OF s(8,6)] s(5,8) by (simp_all add: b order_checks_def)
    with assms(6) have "is_fill_type (ev_event_type (hd evs)) \<and> on_grid 8 (ev_filled_quantity (hd evs))"
    proof (cases rule: simulate_order_cases)
      case (partial ev' rest)
      then show ?thesis by (simp add: assms(7) is_fill_type_def)
    qed (use that(2) in \<open>simp_all add: assms(7)\<close>)
    with applied_fill_books [OF assms(9) [unfolded that(1)] e assms(3) hd(2)] obtain r where
      r: "order_row (tx s1) oid = Some r" "filled_by (ev_filled_quantity (hd evs)) ord r" by blast
    have "ev \<in> set evs" using that(2) by (cases evs) simp_all
    then have "ev_order_id ev = oid" "ignored r ev = None" using sent r(2) that(2) id by auto
    with taken_event [of "at_time e stamp'" db' ev r] that(3-5) r(1) assms(1) show ?thesis by simp
  qed
  show ?thesis using sent id first second by auto
qed

theorem simulated_events_are_taken_witness:
  "\<exists>ev ev'. simulate_order \<lparr>d_outcome = PARTIAL_FILL, d_ratio = 1 / 2, d_completes = True,
      d_event_ids = (''E1'', ''E2''), d_execution_ids = (''X1'', ''X2''), d_timestamps = (1, 2)\<rparr>
      (broker_order_of sample_order) = [ev, ev'] \<and>
    fst (process_event (at_time sample_env (1, ''X'')) ev (open_session sample_db)) \<noteq> Inr False"
proof -
  let ?d = "\<lparr>d_outcome = PARTIAL_FILL, d_ratio = 1 / 2, d_completes = True,
      d_event_ids = (''E1'', ''E2''), d_execution_ids = (''X1'', ''X2''), d_timestamps = (1, 2)\<rparr>"
  let ?evs = "simulate_order ?d (broker_order_of sample_order)"
  have d: "documented_draws ?d" by (simp add: documented_draws_def)
  obtain result s1 where run: "process_event (at_time sample_env (1, ''X'')) (hd ?evs) (open_session sample_db) = (result, s1)"
    by (cases "process_event (at_time sample_env (1, ''X'')) (hd ?evs) (open_session sample_db)")
  have "partial_quantity 10 (1 / 2) = Inr 5"
    by (simp add: partial_quantity_def quantize_down_def decimal_defs QUANTITY_STEP_def)
  then obtain ev ev' where evs: "?evs = [ev, ev']"
    by (simp add: simulate_order_def broker_order_of_def put_def validate_fill_payload_def full_fill_event_def
        is_fill_type_def Let_def decimal_defs)
  have "result \<noteq> Inr False"
    using simulated_events_are_taken [OF documented_sample sample_well_formed _ _ _ d refl _ run, of "''O''"] by simp
  then have "?evs = [ev, ev'] \<and> fst (process_event (at_time sample_env (1, ''X'')) ev (open_session sample_db)) \<noteq> Inr False"
    using run by (simp add: evs)
  then show ?thesis by blast
qed

end
