(* ===== verification/Application_Properties.thy ===== *)
theory Application_Properties
  imports Simulated_Trading System_Properties
begin

text \<open>
  The properties of the application with the simulated broker: what it can reach, what its worker
  is spared, what it makes of a routed order, and what a restart leaves behind.
\<close>

section \<open>Steps\<close>

text \<open>The orders a step may change, the requests placed since then included.\<close>

fun concerned :: "app_step \<Rightarrow> application \<Rightarrow> uuid set" where
  "concerned (CancelOrder oid d) app = {oid}"
| "concerned (ExpireDayOrder oid d) app = {oid}"
| "concerned WorkerTurn app = ev_order_id ` set (take 1 (w_queue (app_worker app)))"
| "concerned _ app = {}"

fun fitting_step :: "app_step \<Rightarrow> bool" where
  "fitting_step (MarketTick symb price observed_at) \<longleftrightarrow> length symb \<le> 32"
| "fitting_step _ \<longleftrightarrow> True"

lemma submitting_database:
  "tx (snd (create_order e (\<lambda>_. None) meanwhile payload s)) = tx (snd (transaction e (create_order_body e payload) s))"
  by (simp add: create_order_def split: prod.splits sum.splits)

lemma app_database_simps [simp]:
  "app_database (with_database db app) = db"
  "app_worker (with_task start app) = app_worker app"
  "app_database (lifespan_start db) = db"
  by (simp_all add: with_database_def with_task_def lifespan_start_def split: option.split)

lemma worker_step_cases:
  assumes "w_queue w = ev # rest"
  shows "\<exists>w'. worker_step e w = Some w' \<and> w_queue w' = rest \<and>
    w_database w' = tx (snd (process_event e ev (open_session (w_database w))))"
  using assms by (auto simp: worker_step_def split: prod.split)

lemma worker_step_waits: "w_queue w = [] \<Longrightarrow> worker_step e w = None"
  by (simp add: worker_step_def)

lemma app_run_frame:
  assumes "documented e" and "well_formed e (app_database app)" and "fitting_step st"
  shows "orders_kept e (concerned st app) (app_database app) (app_database (app_run e st app)) \<and>
    (st \<noteq> WorkerTurn \<longrightarrow> money_kept (app_database app) (app_database (app_run e st app)))"
proof (cases st)
  case (OpenAccount raw)
  then show ?thesis
    using account_keeps_orders [OF assms(1,2)] orders_kept_refl [OF assms(2)]
    by (auto simp: post_account_def case_prod_beta split: option.split)
next
  case (PlaceOrder raw d)
  have "valid_request payload" if "validate_order_create raw = Some payload" for payload
    using that by (auto simp: valid_request_def)
  with PlaceOrder show ?thesis
    using placing_keeps_orders [OF assms(1,2)] orders_kept_refl [OF assms(2)]
    by (auto simp: post_order_def case_prod_beta submitting_database split: option.split)
next
  case (CancelOrder oid d)
  then show ?thesis
    using cancelling_keeps_orders [OF assms(1,2)] by (simp add: post_cancel_def case_prod_beta)
next
  case (ExpireDayOrder oid d)
  let ?e = "at_time e (now e, new_uuid e)"
  have same: "?e = e" by (simp add: at_time_def)
  show ?thesis
    using cancelling_keeps_orders [OF assms(1,2)] ExpireDayOrder by (simp add: expire_order_def same)
next
  case (MarketTick symb price observed_at)
  then show ?thesis using tick_keeps_orders [OF assms(1,2)] assms(3) by simp
next
  case (BrokerTask i)
  then show ?thesis
    using orders_kept_refl [OF assms(2)] by (auto simp: queue_put_def split: prod.split option.split)
next
  case WorkerTurn
  show ?thesis
  proof (cases "w_queue (app_worker app)")
    case Nil
    with WorkerTurn show ?thesis using orders_kept_refl [OF assms(2)] by (simp add: worker_step_waits)
  next
    case (Cons ev rest)
    from worker_step_cases [OF this, of e] event_keeps_orders [OF assms(1,2), of ev] WorkerTurn Cons show ?thesis by auto
  qed
next
  case Restart
  then show ?thesis using orders_kept_refl [OF assms(2)] by (simp add: lifespan_stop_def)
qed

lemmas app_run_keeps_orders = app_run_frame [THEN conjunct1]

text \<open>The reports a step adds to the pending ones.\<close>

fun announced :: "env \<Rightarrow> app_step \<Rightarrow> database \<Rightarrow> broker_execution_event list" where
  "announced e (PlaceOrder raw d) db =
     (case validate_order_create raw of
        None \<Rightarrow> []
      | Some payload \<Rightarrow> (case submitted e payload db of None \<Rightarrow> [] | Some b \<Rightarrow> simulate_order d b))"
| "announced e (CancelOrder oid d) db =
     (case notified e oid ''Client requested cancellation'' db of
        None \<Rightarrow> [] | Some i \<Rightarrow> simulate_cancellation d i ''Client requested cancellation'')"
| "announced e (ExpireDayOrder oid d) db =
     (case notified e oid ''DAY order expired at session end'' db of
        None \<Rightarrow> [] | Some i \<Rightarrow> simulate_cancellation d i ''DAY order expired at session end'')"
| "announced e _ db = []"

lemma pending_with_database [simp]: "pending (with_database db app) = pending app"
  by (simp add: pending_def with_database_def)

lemma pending_with_task:
  "pending (with_task (map_option (\<lambda>x. start_task (f x)) request) app) =
     pending app @ (case request of None \<Rightarrow> [] | Some x \<Rightarrow> f x)"
  "pending (with_task None app) = pending app"
  by (simp_all add: pending_def with_task_def start_task_def split: option.split)

lemma on_task_done_set: "set (concat (on_task_done i tasks)) \<subseteq> set (concat tasks)"
  by (auto simp: on_task_done_def dest: in_set_takeD in_set_dropD)

lemma wake_task_set:
  assumes "i < length tasks" and "wake_task i tasks = (event, tasks')"
  shows "set_option event \<union> set (concat tasks') \<subseteq> set (concat tasks)"
proof (cases "tasks ! i")
  case Nil
  with assms(2) on_task_done_set [of i tasks] show ?thesis by (auto simp: wake_task_def)
next
  case (Cons ev rest)
  have "tasks ! i \<in> set tasks" using assms(1) by simp
  then have "set (tasks ! i) \<subseteq> set (concat tasks)" by auto
  then have 1: "insert ev (set rest) \<subseteq> set (concat tasks)" by (simp add: Cons)
  have "set (concat (tasks[i := rest])) \<subseteq> set (concat tasks)"
    using 1 set_update_subset_insert [of tasks i rest] by auto
  with assms(2) Cons 1 on_task_done_set [of i tasks] show ?thesis by (auto simp: wake_task_def split: if_splits)
qed

lemma app_run_pending:
  "set (pending (app_run e st app)) \<subseteq> set (pending app) \<union> set (announced e st (app_database app))"
proof (cases st)
  case (BrokerTask i)
  show ?thesis
  proof (cases "i < length (app_tasks app)")
    case True
    obtain event tasks where w: "wake_task i (app_tasks app) = (event, tasks)" by (cases "wake_task i (app_tasks app)")
    from wake_task_set [OF True w] w True BrokerTask show ?thesis
      by (auto simp: pending_def queue_put_def split: option.splits)
  qed (simp add: BrokerTask)
next
  case WorkerTurn
  show ?thesis
  proof (cases "w_queue (app_worker app)")
    case Nil
    with WorkerTurn show ?thesis by (simp add: worker_step_waits)
  next
    case (Cons ev rest)
    from worker_step_cases [OF this, of e] WorkerTurn Cons show ?thesis by (auto simp: pending_def)
  qed
next
  case Restart
  then show ?thesis by (simp add: pending_def lifespan_start_def)
qed (auto simp: pending_with_task start_order_task_def [abs_def] start_cancellation_task_def [abs_def]
    split: option.split)

section \<open>What the application can reach\<close>

text \<open>
  The runs the invariants hold in. They are narrower than what the application can do: a new order has
  a notional that is a multiple of \<open>10 ^ -8\<close>, and the worker has its turn only when the notional of
  the next fill is one. The code has no such restriction; \<open>Rounding_Loss\<close> shows that without it
  events are refused and the books no longer balance. Each request is one step here, so nothing
  is committed between the two transactions of \<open>create_order\<close>.
\<close>

fun app_admissible :: "app_step \<Rightarrow> application \<Rightarrow> bool" where
  "app_admissible (PlaceOrder raw d) app \<longleftrightarrow> on_grid 8 (oc_quantity raw * oc_price raw) \<and> documented_draws d"
| "app_admissible (MarketTick symb price observed_at) app \<longleftrightarrow> length symb \<le> 32"
| "app_admissible WorkerTurn app \<longleftrightarrow> list_all exact_fill (take 1 (w_queue (app_worker app)))"
| "app_admissible _ app \<longleftrightarrow> True"

inductive app_reachable :: "env \<Rightarrow> application \<Rightarrow> bool" for e where
  start: "app_reachable e (lifespan_start empty_db)"
| step: "app_reachable e app \<Longrightarrow> app_admissible st app \<Longrightarrow> app_reachable e (app_run (at_time e stamp) st app)"

lemma announced_supplied:
  assumes "documented e" and "well_formed e (app_database app)" and "app_admissible st app"
    and "ev \<in> set (announced e st (app_database app))"
  shows "supplied (app_database (app_run e st app)) ev"
proof (cases st)
  case (PlaceOrder raw d)
  then obtain payload b where p: "validate_order_create raw = Some payload"
      "submitted e payload (app_database app) = Some b" "ev \<in> set (simulate_order d b)"
    using assms(4) by (auto dest!: sym [of "Some _"] split: option.splits)
  then have v: "valid_request payload" by (auto simp: valid_request_def)
  have "app_database (app_run e st app) =
      tx (snd (transaction e (create_order_body e payload) (open_session (app_database app))))"
    by (simp add: PlaceOrder post_order_def p(1) case_prod_beta submitting_database)
  with simulated.submitted_supplied [OF p(2) assms(1,2) v _ p(3)] assms(3) PlaceOrder show ?thesis by simp
next
  case (CancelOrder oid d)
  then obtain i where i: "notified e oid ''Client requested cancellation'' (app_database app) = Some i"
      "ev \<in> set (simulate_cancellation d i ''Client requested cancellation'')"
    using assms(4) by (auto dest!: sym [of "Some _"] split: option.splits)
  show ?thesis
    using app_run_keeps_orders [OF assms(1,2), of st] CancelOrder
    by (intro simulated.notified_supplied [OF i(1) assms(1,2) _ i(2)]) simp
next
  case (ExpireDayOrder oid d)
  then obtain i where i: "notified e oid ''DAY order expired at session end'' (app_database app) = Some i"
      "ev \<in> set (simulate_cancellation d i ''DAY order expired at session end'')"
    using assms(4) by (auto dest!: sym [of "Some _"] split: option.splits)
  show ?thesis
    using app_run_keeps_orders [OF assms(1,2), of st] ExpireDayOrder
    by (intro simulated.notified_supplied [OF i(1) assms(1,2) _ i(2)]) simp
qed (use assms(4) in simp_all)

text \<open>Every step on the database is an action of the system.\<close>

lemma app_run_reachable:
  assumes "reachable e (app_database app)" and "app_admissible st app"
    and "list_all (supplied (app_database app)) (w_queue (app_worker app))"
  shows "reachable e (app_database (app_run (at_time e stamp) st app))"
proof (cases st)
  case (BrokerTask i)
  with assms(1) show ?thesis by (auto simp: queue_put_def split: prod.split option.split)
next
  case WorkerTurn
  show ?thesis
  proof (cases "w_queue (app_worker app)")
    case Nil
    with WorkerTurn assms(1) show ?thesis by (simp add: worker_step_waits)
  next
    case (Cons ev rest)
    with assms(2,3) WorkerTurn supplied_amounts [of "app_database app" ev]
    have "admissible (app_database app) (DeliverEvent ev)" by simp
    from reachable.act [OF assms(1) this, of stamp] worker_step_cases [OF Cons, of "at_time e stamp"] WorkerTurn
    show ?thesis by auto
  qed
next
  case Restart
  with assms(1) show ?thesis by (simp add: lifespan_stop_def)
qed (use assms reachable.act [OF assms(1), of _ stamp] in \<open>auto simp del: run.simps simp: run.simps(1-6) [symmetric]\<close>)

lemma app_run_failures:
  assumes "app_admissible st app" and "documented e" and "consistent e (app_database app)"
    and "list_all (supplied (app_database app)) (w_queue (app_worker app))"
    and "list_all paid_failure (w_failures (app_worker app))"
  shows "list_all paid_failure (w_failures (app_worker (app_run e st app)))"
proof (cases st)
  case WorkerTurn
  show ?thesis
  proof (cases "w_queue (app_worker app)")
    case Nil
    with WorkerTurn assms(5) show ?thesis by (simp add: worker_step_waits)
  next
    case (Cons ev rest)
    from worker_step_cases [OF this, of e] obtain w' where w': "worker_step e (app_worker app) = Some w'" by blast
    from worker_turn [OF w' Cons assms(2,3)] w' WorkerTurn Cons assms show ?thesis by simp
  qed
next
  case (BrokerTask i)
  with assms(5) show ?thesis by (auto simp: queue_put_def split: prod.split option.split)
qed (use assms(5) in \<open>simp_all add: with_database_def lifespan_start_def\<close>)

text \<open>An invariant of the application, and the one that its properties rest on.\<close>

locale application_invariant =
  fixes J :: "env \<Rightarrow> application \<Rightarrow> bool"
  assumes start: "J e (lifespan_start empty_db)"
    and step: "J e app \<Longrightarrow> app_admissible st app \<Longrightarrow> J e (app_run (at_time e stamp) st app)"
begin

lemma app_reachable_holds: "app_reachable e app \<Longrightarrow> J e app"
proof (induction rule: app_reachable.induct)
  case start
  show ?case by (rule application_invariant_axioms [THEN application_invariant.start])
next
  case (step app st stamp)
  then show ?case by (intro application_invariant_axioms [THEN application_invariant.step])
qed

end

definition trading :: "env \<Rightarrow> application \<Rightarrow> bool" where
  "trading e app \<longleftrightarrow>
     reachable e (app_database app) \<and> (\<forall>ev\<in>set (pending app). supplied (app_database app) ev) \<and>
     list_all paid_failure (w_failures (app_worker app))"

lemma trading_step:
  assumes "documented e" and "trading e app" and "app_admissible st app"
  shows "trading e (app_run (at_time e stamp) st app)"
proof -
  let ?e = "at_time e stamp"
  have sup: "\<forall>ev\<in>set (pending app). supplied (app_database app) ev" and r: "reachable e (app_database app)"
      and f: "list_all paid_failure (w_failures (app_worker app))"
    using assms(2) by (simp_all add: trading_def)
  then have q: "list_all (supplied (app_database app)) (w_queue (app_worker app))"
    by (simp add: pending_def list_all_iff)
  have e: "documented ?e" "consistent ?e (app_database app)"
    using assms(1) reachable_consistent [OF assms(1) r] by simp_all
  have "fitting_step st" using assms(3) by (cases st) simp_all
  note k = app_run_keeps_orders [OF e(1) consistentD(1) [OF e(2)] this]
  have "supplied (app_database (app_run ?e st app)) ev" if "ev \<in> set (pending (app_run ?e st app))" for ev
    using that app_run_pending [of ?e st app] announced_supplied [OF e(1) consistentD(1) [OF e(2)] assms(3)]
      supplied_kept [OF k] sup by blast
  with app_run_reachable [OF r assms(3) q, of stamp] app_run_failures [OF assms(3) e q f]
  show ?thesis by (simp add: trading_def)
qed

interpretation live: application_invariant "\<lambda>e app. documented e \<longrightarrow> trading e app"
proof
  show "documented e \<longrightarrow> trading e (lifespan_start empty_db)" for e
    using reachable.start by (simp add: trading_def lifespan_start_def pending_def)
  show "documented e \<longrightarrow> trading e (app_run (at_time e stamp) st app)"
    if "documented e \<longrightarrow> trading e app" "app_admissible st app" for e app st stamp
    using that trading_step by blast
qed

lemma app_reachable_trading: "documented e \<Longrightarrow> app_reachable e app \<Longrightarrow> trading e app"
  using live.app_reachable_holds by blast

section \<open>A small run\<close>

text \<open>For the witnesses: an account is opened, and an order is placed that the broker will reject.\<close>

definition sample_draws :: draws where
  "sample_draws =
     \<lparr>d_outcome = broker_event_type.REJECTED, d_ratio = 1 / 2, d_completes = True, d_event_ids = (''E1'', ''E2''),
      d_execution_ids = (''X1'', ''X2''), d_timestamps = (0, 0)\<rparr>"

definition sample_app :: application where
  "sample_app =
     app_run (at_time sample_env (0, ''O'')) (PlaceOrder sample_request sample_draws)
       (app_run (at_time sample_env (0, ''A''))
         (OpenAccount \<lparr>ac_user_id = ''user'', ac_initial_cash_balance = 100, ac_currency = ''INR''\<rparr>)
         (lifespan_start empty_db))"

lemma sample_app_reachable: "app_reachable sample_env sample_app"
  unfolding sample_app_def
  by (intro app_reachable.intros) (simp_all add: documented_draws_def sample_draws_def)

lemma sample_app_database: "app_database sample_app = sample_placed"
  by (simp add: sample_app_def sample_placed_def sample_start_def)

text \<open>An order for 10 at 5 that the broker fills.\<close>

definition fill_draws :: draws where
  "fill_draws = sample_draws\<lparr>d_outcome := FULL_FILL\<rparr>"

definition full_event :: broker_execution_event where
  "full_event = full_fill_event ''E1'' ''X1'' 0 (broker_order_of sample_order) 10"

definition filling_app :: application where
  "filling_app =
     app_run (at_time sample_env (0, ''O'')) (PlaceOrder sample_request fill_draws)
       (app_run (at_time sample_env (0, ''A''))
         (OpenAccount \<lparr>ac_user_id = ''user'', ac_initial_cash_balance = 100, ac_currency = ''INR''\<rparr>)
         (lifespan_start empty_db))"

definition full_booked :: order where
  "full_booked = sample_order\<lparr>o_average_fill_price := Some 5, o_filled_quantity := 10,
     o_remaining_quantity := 0, o_version := 4\<rparr>"

definition full_charged :: account where
  "full_charged = sample_account\<lparr>a_reserved_cash := 0, a_cash_balance := 50, a_version := 3\<rparr>"

definition full_position :: position where
  "full_position =
     \<lparr>p_account_id = ''A'', p_symbol = ''INFY'', p_net_quantity = 10, p_average_entry_price = 5,
      p_realized_pnl = 0, p_unrealized_pnl = 0, p_last_mark_price = Some 5\<rparr>"

lemma full_event_fields [simp]:
  "ev_event_id full_event = ''E1''" "ev_event_type full_event = FULL_FILL" "ev_order_id full_event = ''O''"
  "ev_filled_quantity full_event = 10" "ev_fill_price full_event = Some 5" "ev_timestamp full_event = 0"
  "ev_execution_id full_event = Some ''SIM-X1''"
  by (simp_all add: full_event_def full_fill_event_def broker_order_of_def)

lemma full_book: "book_fill sample_order 10 5 = Inr full_booked"
  by (simp add: book_fill_def decimal_defs full_booked_def)

lemma full_settle: "settle_account sample_account full_booked 10 5 = Inr full_charged"
  by (simp add: settle_account_def decimal_defs full_charged_def full_booked_def)

lemma full_fill_outcome:
  "fill_outcome sample_env sample_order sample_account full_event 5 =
     Inr (moved full_booked FILLED, full_charged,
          [audit sample_env full_booked FULL_FILL_RECEIVED (Some ROUTED) (Some FILLED) (fill_event_data full_event 5)])"
  by (simp add: fill_outcome_def full_book full_settle conclude_outcome_def) (simp add: full_booked_def)

lemma full_book_execution: "book_execution (new_position ''A'' ''INFY'' 5) BUY 10 5 5 = Inr full_position"
  by (simp add: book_execution_def new_position_def calculate_position_after_fill_def signed_fill_def Let_def
      decimal_defs calculate_unrealized_pnl_def full_position_def)

lemma full_trade_outcome:
  "trade_outcome sample_env (db_view sample_placed) sample_order full_event 5 =
     Inr (full_position, fill_of sample_order full_event 5)"
  by (simp add: trade_outcome_def position_before_def mark_for_def full_book_execution sample_placed_rows)
    (simp add: sample_store fill_of_def or_else_def)

lemma full_storable [simp]:
  "can_store (store_order sample_env) full_booked" "can_store (store_account sample_env) full_charged"
  "can_store (store_position sample_env) full_position"
  "can_store (store_position sample_env) (new_position ''A'' ''INFY'' 5)"
  by (simp_all add: sample_store full_booked_def full_charged_def full_position_def new_position_def)

lemma full_fill_applies: "\<exists>s'. process_event sample_env full_event (open_session sample_placed) = (Inr True, s')"
proof (rule process_event_applies [where ord = sample_order and a = sample_account])
  show "well_formed sample_env sample_placed"
    by (rule consistentD(1) [OF reachable_consistent [OF documented_sample reachable_placed]])
  show "event_fits sample_env (db_view sample_placed) sample_order sample_account full_event
      (moved full_booked FILLED, full_charged,
       [audit sample_env full_booked FULL_FILL_RECEIVED (Some ROUTED) (Some FILLED) (fill_event_data full_event 5)])
      (Some (full_position, fill_of sample_order full_event 5))"
    by (simp add: event_fits_def fill_fits_def full_book full_settle mark_for_def sample_placed_rows)
qed (simp_all add: sample_placed_rows ignored_def event_outcome_def full_fill_outcome event_trade_def full_trade_outcome)

lemma full_simulation: "simulate_order fill_draws (broker_order_of sample_order) = [full_event]"
  by (simp add: simulate_order_def fill_draws_def sample_draws_def put_def validate_fill_payload_def full_event_def
      full_fill_event_def broker_order_of_def is_fill_type_def)

lemma filling_app_state:
  "app_worker filling_app = \<lparr>w_queue = [], w_unfinished = 0, w_database = sample_placed, w_failures = []\<rparr>"
  "app_tasks filling_app = [[full_event]]"
proof -
  let ?e = "at_time sample_env (0, ''O'')"
  obtain s1 where "transaction ?e (create_order_body ?e sample_request) (open_session sample_start) = (Inr (sample_order, True), s1)"
    by (rule sample_placing)
  then have "submitted ?e sample_request sample_start = Some (broker_order_of sample_order)" by (simp add: submitted_def)
  moreover note full_simulation
  moreover have "w_database (app_worker (app_run (at_time sample_env (0, ''A''))
         (OpenAccount \<lparr>ac_user_id = ''user'', ac_initial_cash_balance = 100, ac_currency = ''INR''\<rparr>)
         (lifespan_start empty_db))) = sample_start" by (simp add: sample_start_def)
  ultimately show "app_worker filling_app = \<lparr>w_queue = [], w_unfinished = 0, w_database = sample_placed, w_failures = []\<rparr>"
    "app_tasks filling_app = [[full_event]]"
    by (simp_all add: filling_app_def sample_request_valid with_task_def start_order_task_def start_task_def sample_placed_def)
      (simp_all add: with_database_def lifespan_start_def)
qed

lemma filling_app_reachable: "app_reachable sample_env filling_app"
proof -
  have "app_reachable sample_env (app_run (at_time sample_env (0, ''A''))
      (OpenAccount \<lparr>ac_user_id = ''user'', ac_initial_cash_balance = 100, ac_currency = ''INR''\<rparr>)
      (lifespan_start empty_db))"
    by (intro app_reachable.intros) simp
  then show ?thesis
    unfolding filling_app_def
    by (intro app_reachable.intros) (simp_all add: documented_draws_def fill_draws_def sample_draws_def)
qed

text \<open>What the fill leaves in the database.\<close>

lemma full_fill_rows:
  assumes "process_event sample_env full_event (open_session sample_placed) = (Inr True, s')"
  shows "fills (tx s') = [fill_of sample_order full_event 5]"
    and "\<exists>r. order_row (tx s') ''O'' = Some r \<and> request_of r = request_of sample_order"
proof -
  have wf: "well_formed sample_env sample_placed"
    by (rule consistentD(1) [OF reachable_consistent [OF documented_sample reachable_placed]])
  from event_keeps_orders [OF documented_sample wf, of full_event] sample_placed_rows(1) assms
  show "\<exists>r. order_row (tx s') ''O'' = Some r \<and> request_of r = request_of sample_order"
    by (auto dest!: orders_keptD(2))
  from assms well_formed_settled [OF wf] documented_sample
  show "fills (tx s') = [fill_of sample_order full_event 5]"
  proof (cases rule: process_event_cases)
    case (applied ord a out trade)
    then have "trade = Some (full_position, fill_of sample_order full_event 5)"
      by (simp add: sample_placed_rows event_trade_def full_trade_outcome)
    with leavesD(5) [OF applied(9)] show ?thesis by (simp add: sample_placed_rows)
  qed simp_all
qed

section \<open>Properties\<close>

text \<open>
  C7. The application with the simulated broker keeps the books, in whatever order requests, ticks,
  tasks of the broker, turns of the event worker and restarts come, one transaction after the
  other, as long as amounts are exact: the notional of every order that is placed, and of every fill
  the worker takes, is a multiple of \<open>10 ^ -8\<close>. Then the books are consistent; every event that is
  queued or still to come is valid and about an order of the database, a fill at the limit price
  of that order; and no event the worker has failed on was refused for want of cash or
  reservation. (With other amounts events are refused, also events of the simulated broker:
  \<open>Rounding_Loss\<close>.)
\<close>

theorem application_keeps_books:
  assumes "documented e" and "app_reachable e app"
  shows "consistent e (app_database app) \<and> list_all (supplied (app_database app)) (pending app) \<and>
    list_all paid_failure (w_failures (app_worker app))"
  using app_reachable_trading [OF assms] reachable_consistent [OF assms(1)] by (simp add: trading_def list_all_iff)

theorem application_keeps_books_witness:
  "consistent sample_env sample_placed \<and> list_all (supplied sample_placed) (pending sample_app)"
  using application_keeps_books [OF documented_sample sample_app_reachable] by (simp add: sample_app_database)



section \<open>Restarts\<close>

fun app_runs :: "env \<Rightarrow> (app_step \<times> timestamp \<times> uuid) list \<Rightarrow> application \<Rightarrow> application" where
  "app_runs e [] app = app"
| "app_runs e ((st, stamp) # steps) app = app_runs e steps (app_run (at_time e stamp) st app)"

text \<open>Steps that do not ask to cancel the order.\<close>

fun unrelated :: "uuid \<Rightarrow> app_step \<Rightarrow> bool" where
  "unrelated oid (CancelOrder oid' d) \<longleftrightarrow> oid' \<noteq> oid"
| "unrelated oid (ExpireDayOrder oid' d) \<longleftrightarrow> oid' \<noteq> oid"
| "unrelated oid st \<longleftrightarrow> fitting_step st"

lemma announced_unrelated:
  assumes "documented e" and "well_formed e db" and "order_row db oid = Some ord" and "unrelated oid st"
    and "ev \<in> set (announced e st db)"
  shows "ev_order_id ev \<noteq> oid"
proof (cases st)
  case (PlaceOrder raw d)
  then obtain payload b where p: "validate_order_create raw = Some payload"
      "submitted e payload db = Some b" "ev \<in> set (simulate_order d b)"
    using assms(5) by (auto dest!: sym [of "Some _"] split: option.splits)
  then have v: "valid_request payload" by (auto simp: valid_request_def)
  note n = submitted_new [OF p(2) assms(1,2) v]
  have "o_id (routed_order e payload) = new_uuid e" using row_of_SomeD [OF n(3)] by simp
  then have "ev_order_id ev = new_uuid e"
    using simulate_order_ids [OF p(3)] n(2) by (simp add: broker_order_of_def)
  then show ?thesis using n(1) assms(3) by auto
next
  case (CancelOrder oid' d)
  then obtain i where "notified e oid' ''Client requested cancellation'' db = Some i"
      "ev \<in> set (simulate_cancellation d i ''Client requested cancellation'')"
    using assms(5) by (auto dest!: sym [of "Some _"] split: option.splits)
  with CancelOrder assms(1,2,4) show ?thesis by (auto dest!: notified_order simulate_cancellation_event)
next
  case (ExpireDayOrder oid' d)
  then obtain i where "notified e oid' ''DAY order expired at session end'' db = Some i"
      "ev \<in> set (simulate_cancellation d i ''DAY order expired at session end'')"
    using assms(5) by (auto dest!: sym [of "Some _"] split: option.splits)
  with ExpireDayOrder assms(1,2,4) show ?thesis by (auto dest!: notified_order simulate_cancellation_event)
qed (use assms(5) in simp_all)

lemma unrelated_steps:
  assumes "documented e"
  shows "well_formed e (app_database app) \<Longrightarrow> order_row (app_database app) oid = Some ord \<Longrightarrow>
    \<forall>ev\<in>set (pending app). ev_order_id ev \<noteq> oid \<Longrightarrow> list_all (unrelated oid \<circ> fst) steps \<Longrightarrow>
    order_row (app_database (app_runs e steps app)) oid = Some ord \<and>
    (\<forall>ev\<in>set (pending (app_runs e steps app)). ev_order_id ev \<noteq> oid)"
proof (induction steps arbitrary: app)
  case (Cons x steps)
  obtain st stamp where x: "x = (st, stamp)" by (cases x)
  let ?e = "at_time e stamp" and ?app = "app_run (at_time e stamp) st app"
  have u: "unrelated oid st" and f: "fitting_step st" using Cons.prems(4) by (cases st; simp add: x)+
  have e: "documented ?e" "well_formed ?e (app_database app)" using assms Cons.prems(1) by simp_all
  have "oid \<notin> concerned st app"
    using u Cons.prems(3) by (cases st; cases "w_queue (app_worker app)") (auto simp: pending_def)
  note k = orders_keptD [OF app_run_keeps_orders [OF e f] Cons.prems(2)]
  have "well_formed e (app_database ?app)" using k(1) by simp
  moreover have "order_row (app_database ?app) oid = Some ord" by (rule k(3)) fact
  moreover have "\<forall>ev\<in>set (pending ?app). ev_order_id ev \<noteq> oid"
    using app_run_pending [of ?e st app] announced_unrelated [OF e Cons.prems(2) u] Cons.prems(3) by blast
  ultimately show ?case using Cons.IH Cons.prems(4) by (simp add: x)
qed simp

text \<open>
  C26. A restart loses what the broker had still to report. After the application has been stopped and
  started, nothing ever reports on an order that was there before: whatever steps follow, an order
  that is not cancelled through the interface and does not expire stays exactly as it is, a routed
  order routed and its reservation with it. (Nothing reads the orders back when the application
  starts, and the simulated broker keeps its tasks and its queue in memory.)
\<close>

theorem restart_strands_orders:
  assumes "documented e" and "app_reachable e app" and "order_row (app_database app) oid = Some ord"
    and "list_all (unrelated oid \<circ> fst) steps"
  shows "order_row (app_database (app_runs e ((Restart, stamp) # steps) app)) oid = Some ord"
proof -
  have "well_formed e (app_database app)"
    using app_reachable_trading [OF assms(1,2)] reachable_consistent [OF assms(1)] consistentD(1)
    unfolding trading_def by blast
  moreover have "app_database (lifespan_start (lifespan_stop app)) = app_database app"
      "pending (lifespan_start (lifespan_stop app)) = []"
    by (simp_all add: lifespan_stop_def, simp add: lifespan_start_def pending_def)
  ultimately show ?thesis
    using unrelated_steps [OF assms(1) _ _ _ assms(4), of "lifespan_start (lifespan_stop app)" ord] assms(3) by simp
qed

theorem restart_strands_orders_witness:
  "order_row (app_database (app_runs sample_env [(Restart, 0, ''R''), (WorkerTurn, 1, ''X''), (BrokerTask 0, 2, ''Y'')]
     sample_app)) ''O'' = Some sample_order"
  by (rule restart_strands_orders [OF documented_sample sample_app_reachable])
    (simp_all add: sample_app_database sample_placed_rows)

end
