(* ===== verification/Cash_Flow.thy ===== *)
theory Cash_Flow
  imports Application_Properties
begin

text \<open>
  Where the money goes: the cash of an account changes by what its fills have cost and earned, and
  by nothing else.
\<close>

section \<open>What fills cost and earn\<close>

definition proceeds :: "order \<Rightarrow> fill \<Rightarrow> rat" where
  "proceeds ord f = (if o_side ord = BUY then - (f_quantity f * f_price f) else f_quantity f * f_price f)"

definition proceeds_of :: "(uuid \<rightharpoonup> order) \<Rightarrow> uuid \<Rightarrow> fill \<Rightarrow> rat" where
  "proceeds_of rows aid f =
     (case rows (f_order_id f) of
        None \<Rightarrow> 0
      | Some ord \<Rightarrow> if o_account_id ord = aid then proceeds ord f else 0)"

text \<open>
  \<open>db'\<close> has more fills than \<open>db\<close>, and the cash of every account that was there has moved by what the
  new ones of them cost and earn.
\<close>

definition cash_follows :: "database \<Rightarrow> database \<Rightarrow> bool" where
  "cash_follows db db' \<longleftrightarrow>
     (\<exists>fs. fills db' = fills db @ fs \<and>
        (\<forall>aid a. account_row db aid = Some a \<longrightarrow>
           (\<exists>a'. account_row db' aid = Some a' \<and>
              a_cash_balance a' = a_cash_balance a + (\<Sum>f\<leftarrow>fs. proceeds_of (order_row db') aid f))))"

lemma cash_follows_same:
  assumes "fills db' = fills db" and "\<And>aid. account_row db aid \<noteq> None \<Longrightarrow> account_row db' aid = account_row db aid"
  shows "cash_follows db db'"
  unfolding cash_follows_def by (intro exI [of _ "[]"]) (simp add: assms)

lemma money_kept_cash: "money_kept db db' \<Longrightarrow> cash_follows db db'"
  unfolding cash_follows_def money_kept_def by (intro exI [of _ "[]"]) auto

text \<open>An order that is kept has the same proceeds.\<close>

lemma proceeds_of_kept:
  assumes "orders_kept e K db db'" and "order_row db (f_order_id f) \<noteq> None"
  shows "proceeds_of (order_row db') aid f = proceeds_of (order_row db) aid f"
proof -
  from assms(2) obtain ord where ord: "order_row db (f_order_id f) = Some ord" by blast
  from orders_keptD(2) [OF assms(1) ord] obtain ord' where
      "order_row db' (f_order_id f) = Some ord'" "request_of ord' = request_of ord" by blast
  with ord request_of_eqD(2,6) [OF this(2)] show ?thesis by (simp add: proceeds_of_def proceeds_def)
qed

lemma cash_follows_trans:
  assumes "cash_follows db db1" and "cash_follows db1 db2" and "orders_kept e' K db1 db2" and "consistent e db1"
  shows "cash_follows db db2"
proof -
  from assms(1) obtain fs where fs: "fills db1 = fills db @ fs"
      "\<And>aid a. account_row db aid = Some a \<Longrightarrow> \<exists>a'. account_row db1 aid = Some a' \<and>
        a_cash_balance a' = a_cash_balance a + (\<Sum>f\<leftarrow>fs. proceeds_of (order_row db1) aid f)"
    unfolding cash_follows_def by blast
  from assms(2) obtain fs' where fs': "fills db2 = fills db1 @ fs'"
      "\<And>aid a. account_row db1 aid = Some a \<Longrightarrow> \<exists>a'. account_row db2 aid = Some a' \<and>
        a_cash_balance a' = a_cash_balance a + (\<Sum>f\<leftarrow>fs'. proceeds_of (order_row db2) aid f)"
    unfolding cash_follows_def by blast
  have "(\<Sum>f\<leftarrow>fs. proceeds_of (order_row db2) aid f) = (\<Sum>f\<leftarrow>fs. proceeds_of (order_row db1) aid f)" for aid
    using consistentD(8) [OF assms(4)] fs(1)
    by (intro arg_cong [where f = sum_list] map_cong refl proceeds_of_kept [OF assms(3)]) simp_all
  then have "\<exists>a'. account_row db2 aid = Some a' \<and>
      a_cash_balance a' = a_cash_balance a + (\<Sum>f\<leftarrow>fs @ fs'. proceeds_of (order_row db2) aid f)"
    if "account_row db aid = Some a" for aid a
    using fs(2) [OF that] fs'(2) [of aid] by fastforce
  with fs(1) fs'(1) show ?thesis unfolding cash_follows_def by (intro exI [of _ "fs @ fs'"]) simp
qed

section \<open>A broker event\<close>

text \<open>One order and its account change, and the fill that says by how much is recorded.\<close>

lemma cash_follows_update:
  assumes "fills db' = fills db @ fs" and "order_row db' oid = Some r" and "o_account_id r = aid"
    and "account_row db' = (account_row db)(aid \<mapsto> ra)" and "account_row db aid = Some a"
    and "\<forall>f\<in>set fs. f_order_id f = oid"
    and "a_cash_balance ra = a_cash_balance a + (\<Sum>f\<leftarrow>fs. proceeds r f)"
  shows "cash_follows db db'"
proof -
  have "(\<Sum>f\<leftarrow>fs. proceeds_of (order_row db') k f) = (if k = aid then \<Sum>f\<leftarrow>fs. proceeds r f else 0)" for k
    using assms(2,3,6) by (induction fs) (auto simp: proceeds_of_def)
  with assms(1,5,7) fun_cong [OF assms(4)] show ?thesis
    unfolding cash_follows_def by (intro exI [of _ fs]) auto
qed

text \<open>Rejections and cancellations release what is reserved, and leave the cash.\<close>

lemma release_cash: "release_remaining_reservation a ord = Inr a' \<Longrightarrow> a_cash_balance a' = a_cash_balance a"
  by (auto simp: release_remaining_reservation_def Let_def split: if_splits)

lemma closing_cash:
  assumes "event_outcome e ord a ev = Inr out" and "\<not> is_fill_type (ev_event_type ev)"
  shows "a_cash_balance (fst (snd out)) = a_cash_balance a"
  using assms release_cash
  by (auto simp: event_outcome_def reject_outcome_def cancel_outcome_def Let_def split: if_splits)

lemma fill_of_stored:
  assumes "store_fill e (fill_of ord ev p) = Inr f" and "documented e" and "on_grid 8 (ev_filled_quantity ev)" and "on_grid 8 p"
  shows "f_quantity f = ev_filled_quantity ev \<and> f_price f = p \<and> f_order_id f = o_id ord"
  using assms numeric_on_grid(1) [OF assms(2)]
  by (auto simp: store_fill_def fill_of_def Let_def)

lemma event_cash_follows:
  assumes "process_event e ev (open_session db) = (Inr b, s')" and "documented e" and "consistent e db"
    and "valid_event ev" and "exact_amounts db ev"
    and "\<And>p. is_fill_type (ev_event_type ev) \<Longrightarrow> ev_fill_price ev = Some p \<Longrightarrow> on_grid 8 p"
  shows "cash_follows db (tx s')"
proof -
  note c = consistentD [OF assms(3)]
  from assms(1) c(2) assms(2) show ?thesis
  proof (cases rule: process_event_cases)
    case (duplicate ord)
    from leaves_unchanged(1) [OF duplicate(4) c(2)] leavesD(5) [OF duplicate(4)] show ?thesis
      by (intro cash_follows_same) simp_all
  next
    case (ignored ord reason)
    from leaves_unchanged(1) [OF ignored(5) c(2)] leavesD(5) [OF ignored(5)] show ?thesis
      by (intro cash_follows_same) (simp_all add: ignored_view_def)
  next
    case (applied ord a out trade)
    have so: "store_order e ord = Inr ord" and sa: "store_account e a = Inr a"
      using settledD(1,2) [OF c(2)] applied(1,5) by simp_all
    have ids: "o_id ord = ev_order_id ev" "a_id a = o_account_id ord"
      using row_of_SomeD [OF applied(1)] row_of_SomeD [OF applied(5)] by simp_all
    from applied(9) c(2) obtain r ra where r: "store_order e (fst out) = Inr r" "store_account e (fst (snd out)) = Inr ra"
        "order_row (tx s') = (order_row db)(o_id (fst out) \<mapsto> r)"
        "account_row (tx s') = (account_row db)(a_id (fst (snd out)) \<mapsto> ra)" by (rule applied_rows)
    have rq: "request_of (fst out) = request_of ord" by (rule request_of_outcome [OF applied(6)])
    note req = request_of_eqD [OF request_of_stored [OF assms(2) r(1) so rq]]
    have "a_id (fst (snd out)) = a_id a"
      using applied(6) [unfolded event_outcome_def] by (cases out) (auto split: if_splits option.splits dest!: outcome_keys(1,3,4))
    then have rows: "order_row (tx s') (ev_order_id ev) = Some r"
        "account_row (tx s') = (account_row db)(o_account_id ord \<mapsto> ra)"
      using fun_cong [OF r(3), of "ev_order_id ev"] r(4) request_of_eqD(1) [OF rq] ids by simp_all
    have "\<exists>fs. fills (tx s') = fills db @ fs \<and> (\<forall>f\<in>set fs. f_order_id f = ev_order_id ev) \<and>
      a_cash_balance ra = a_cash_balance a + (\<Sum>f\<leftarrow>fs. proceeds r f)"
    proof (cases "is_fill_type (ev_event_type ev)")
      case True
      let ?q = "ev_filled_quantity ev"
      from valid_event_fill [OF assms(4) True] obtain p where p: "0 < ?q" "ev_fill_price ev = Some p" "0 < p" by blast
      from applied(7) True p obtain pos f where t: "trade = Some (pos, f)" "store_fill e (fill_of ord ev p) = Inr f"
        by (auto simp: event_trade_def trade_outcome_def)
      have x: "on_grid 8 ?q" "on_grid 8 (?q * p)" "on_grid 8 (?q * o_price ord)" "on_grid 8 p"
        using assms(5,6) applied(1) True p(2) by (simp_all add: exact_amounts_def)
      have f: "f_quantity f = ?q" "f_price f = p" "f_order_id f = o_id ord"
        using fill_of_stored [OF t(2) assms(2) x(1,4)] by simp_all
      have fo: "fill_outcome e ord a ev p = Inr out" using applied(6) True p(2) by (simp add: event_outcome_def)
      have le: "?q \<le> o_remaining_quantity ord" using ignored_status [OF True applied(3)] by simp
      have rest: "on_grid 8 (o_remaining_quantity ord * o_price ord)" using c(5) [OF applied(1)] by (simp add: order_booked_def)
      have "can_store (store_account e) (fst (snd out))" using r(2) by (rule can_storeI)
      note m = fill_outcome_money [OF fo assms(2) so sa this x(1) p(1) le p(3) x(2,3) rest]
      have "a_cash_balance ra = a_cash_balance (fst (snd out))"
        using m stored_account_exact(1) [OF assms(2) r(2)] by simp
      then show ?thesis
        using m f req(6) ids leavesD(5) [OF applied(9)] t(1)
        by (intro exI [of _ "[f]"]) (auto simp: settled_by_def proceeds_def)
    next
      case False
      then have "trade = None" using applied(7) by (simp add: event_trade_def)
      moreover have "a_cash_balance ra = a_cash_balance a"
        using stored_account_exact(1) [OF assms(2) r(2)] closing_cash [OF applied(6) False]
          settled_account(1) [OF assms(2) sa] by simp
      ultimately show ?thesis using leavesD(5) [OF applied(9)] by (intro exI [of _ "[]"]) simp
    qed
    then obtain fs where fs: "fills (tx s') = fills db @ fs" "\<forall>f\<in>set fs. f_order_id f = ev_order_id ev"
        "a_cash_balance ra = a_cash_balance a + (\<Sum>f\<leftarrow>fs. proceeds r f)" by blast
    show ?thesis
      using cash_follows_update [OF fs(1) rows(1) req(2) rows(2) applied(5) fs(2,3)] .
  qed
qed

section \<open>Runs of the application\<close>

fun admissible_run :: "env \<Rightarrow> (app_step \<times> timestamp \<times> uuid) list \<Rightarrow> application \<Rightarrow> bool" where
  "admissible_run e [] app \<longleftrightarrow> True"
| "admissible_run e ((st, stamp) # steps) app \<longleftrightarrow>
     app_admissible st app \<and> admissible_run e steps (app_run (at_time e stamp) st app)"

lemma app_runs_reachable:
  "app_reachable e app \<Longrightarrow> admissible_run e steps app \<Longrightarrow> app_reachable e (app_runs e steps app)"
proof (induction steps arbitrary: app)
  case (Cons x steps)
  obtain st stamp where x: "x = (st, stamp)" by (cases x)
  from Cons.prems have "app_reachable e (app_run (at_time e stamp) st app)"
    by (intro app_reachable.step) (simp_all add: x)
  with Cons x show ?case by simp
qed simp

lemma app_runs_append: "app_runs e (steps @ [(st, stamp)]) app = app_run (at_time e stamp) st (app_runs e steps app)"
  by (induction steps arbitrary: app) auto

lemma admissible_run_append:
  "admissible_run e (steps @ [(st, stamp)]) app \<longleftrightarrow>
     admissible_run e steps app \<and> app_admissible st (app_runs e steps app)"
  by (induction steps arbitrary: app) auto

lemma app_step_cash:
  assumes "documented e" and "app_reachable e app" and "app_admissible st app"
  shows "cash_follows (app_database app) (app_database (app_run (at_time e stamp) st app))"
proof -
  let ?e = "at_time e stamp"
  note t = app_reachable_trading [OF assms(1,2), unfolded trading_def]
  have e: "documented ?e" "consistent ?e (app_database app)"
    using assms(1) reachable_consistent [OF assms(1)] t by simp_all
  have "fitting_step st" using assms(3) by (cases st) simp_all
  note frame = app_run_frame [OF e(1) consistentD(1) [OF e(2)] this, THEN conjunct2]
  show ?thesis
  proof (cases "st = WorkerTurn \<and> w_queue (app_worker app) \<noteq> []")
    case False
    then show ?thesis
      using frame money_kept_cash worker_step_waits [of "app_worker app" ?e] by (cases "st = WorkerTurn") auto
  next
    case True
    then obtain ev rest where q: "w_queue (app_worker app) = ev # rest" by (cases "w_queue (app_worker app)") auto
    have sup: "supplied (app_database app) ev" and ex: "exact_fill ev"
      using t q True assms(3) by (simp_all add: pending_def)
    note am = supplied_amounts [OF sup ex]
    from worker_step_cases [OF q, of ?e] True have db: "app_database (app_run ?e st app) =
        tx (snd (process_event ?e ev (open_session (app_database app))))" by auto
    obtain r s' where run: "process_event ?e ev (open_session (app_database app)) = (r, s')"
      by (cases "process_event ?e ev (open_session (app_database app))")
    have "cash_follows (app_database app) (tx s')"
    proof (cases r)
      case (Inl err)
      with run have "tx s' = app_database app" by (auto simp: process_event_def dest: transaction_rollback)
      then show ?thesis by (simp add: money_kept_cash)
    next
      case (Inr b)
      have "on_grid 8 p" if "is_fill_type (ev_event_type ev)" "ev_fill_price ev = Some p" for p
      proof -
        from sup that obtain ord where ord: "order_row (app_database app) (ev_order_id ev) = Some ord" "p = o_price ord"
          by (auto simp: supplied_def)
        show ?thesis
          using settled_order(2) [OF e(1) settledD(2) [OF consistentD(2) [OF e(2)] ord(1)]] ord(2) by simp
      qed
      then show ?thesis
        using event_cash_follows [OF run [unfolded Inr] e] am by simp
    qed
    then show ?thesis by (simp add: db run)
  qed
qed

lemma app_runs_cash:
  assumes "documented e" and "app_reachable e app"
  shows "admissible_run e steps app \<Longrightarrow> cash_follows (app_database app) (app_database (app_runs e steps app))"
proof (induction steps rule: rev_induct)
  case Nil
  then show ?case by (simp add: money_kept_cash)
next
  case (snoc x steps)
  obtain st stamp where x: "x = (st, stamp)" by (cases x)
  let ?mid = "app_runs e steps app" and ?e = "at_time e stamp"
  have adm: "admissible_run e steps app" "app_admissible st ?mid"
    using snoc.prems by (simp_all add: x admissible_run_append)
  have r: "app_reachable e ?mid" by (rule app_runs_reachable [OF assms(2) adm(1)])
  have con: "consistent e (app_database ?mid)"
    using app_reachable_trading [OF assms(1) r] reachable_consistent [OF assms(1)] by (simp add: trading_def)
  have "fitting_step st" using adm(2) by (cases st) simp_all
  then have "orders_kept ?e (concerned st ?mid) (app_database ?mid) (app_database (app_run ?e st ?mid))"
    using assms(1) consistentD(1) [OF con] by (intro app_run_keeps_orders) simp_all
  from cash_follows_trans [OF snoc.IH [OF adm(1)] app_step_cash [OF assms(1) r adm(2), of stamp] this con]
  show ?case by (simp add: x app_runs_append)
qed

section \<open>Property\<close>

text \<open>
  C2. Money is neither made nor lost, as long as amounts are exact. From any point of a run of the
  application on (orders, cancellations, expiries, ticks, tasks of the broker, turns of the worker
  and restarts, in any order, one transaction after the other), in which the notionals of new orders
  and of the fills the worker takes are multiples of \<open>10 ^ -8\<close>: fills are only ever added, every
  account stays, and its cash changes by exactly what the new fills of its orders have cost or
  earned at their prices. (Other notionals are rounded by the column of the cash.)
\<close>

theorem cash_follows_fills:
  assumes "documented e" and "app_reachable e app" and "admissible_run e steps app"
    and "account_row (app_database app) aid = Some a"
  shows "\<exists>fs a'. fills (app_database (app_runs e steps app)) = fills (app_database app) @ fs \<and>
    account_row (app_database (app_runs e steps app)) aid = Some a' \<and>
    a_cash_balance a' = a_cash_balance a +
      (\<Sum>f\<leftarrow>fs. proceeds_of (order_row (app_database (app_runs e steps app))) aid f)"
  using app_runs_cash [OF assms(1,2,3)] assms(4) unfolding cash_follows_def by blast

theorem cash_follows_fills_witness:
  "\<exists>a. account_row (app_database (app_runs sample_env [(BrokerTask 0, 1, ''Q''), (WorkerTurn, 0, ''NEW-ID'')] filling_app)) ''A'' =
     Some a \<and> a_cash_balance a = 50"
proof -
  let ?steps = "[(BrokerTask 0, 1, ''Q''), (WorkerTurn, 0, ''NEW-ID'')] :: (app_step \<times> timestamp \<times> uuid) list"
  obtain s' where s': "process_event sample_env full_event (open_session sample_placed) = (Inr True, s')"
    using full_fill_applies by blast
  have db: "app_database (app_runs sample_env ?steps filling_app) = tx s'"
    by (simp add: filling_app_state wake_task_def on_task_done_def queue_put_def worker_step_def sample_time s')
  have adm: "admissible_run sample_env ?steps filling_app"
    by (simp add: filling_app_state wake_task_def on_task_done_def queue_put_def exact_fill_def)
  have row: "account_row (app_database filling_app) ''A'' = Some sample_account"
    by (simp add: filling_app_state sample_placed_rows)
  note cash = cash_follows_fills [OF documented_sample filling_app_reachable adm row, unfolded db]
  obtain r where r: "order_row (tx s') ''O'' = Some r" "request_of r = request_of sample_order"
    using full_fill_rows(2) [OF s'] by blast
  have "o_id sample_order = ''O''" "o_account_id sample_order = ''A''" "o_side sample_order = BUY"
      "a_cash_balance sample_account = 100" "fills (app_database filling_app) = []"
    by (simp_all add: sample_order_def sample_account_def filling_app_state sample_placed_rows)
  with cash full_fill_rows(1) [OF s'] request_of_eqD(2,6) [OF r(2)] r(1) show ?thesis
    unfolding db by (auto simp: proceeds_of_def proceeds_def fill_of_def)
qed

end
