(* ===== verification/Cancellation_Completion.thy ===== *)
theory Cancellation_Completion
  imports Cash_Flow
begin

text \<open>
  A cancellation from the request to its end: the order is moved to CANCEL_PENDING, a task of the
  simulated broker confirms, and the event worker cancels the order and releases what it reserved.
\<close>

section \<open>What a confirmed cancellation makes of an order and its account\<close>

definition called_off :: "order \<Rightarrow> order" where
  "called_off ord =
     moved (ord\<lparr>o_cancelled_quantity := o_cancelled_quantity ord + o_remaining_quantity ord,
                o_remaining_quantity := 0, o_version := o_version ord + 1\<rparr>) CANCELLED"

definition released_from :: "order \<Rightarrow> account \<Rightarrow> account" where
  "released_from ord a =
     (if o_side ord \<noteq> BUY \<or> o_remaining_quantity ord \<le> 0 then a
      else a\<lparr>a_reserved_cash := a_reserved_cash a - o_remaining_quantity ord * o_price ord,
             a_version := a_version a + 1\<rparr>)"

lemma called_off_keys [simp]: "o_id (called_off ord) = o_id ord" "o_account_id (called_off ord) = o_account_id ord"
  by (simp_all add: called_off_def moved_def)

lemma called_off_status: "o_status (called_off ord) = CANCELLED"
  by (simp add: called_off_def moved_def)

lemma released_from_keys [simp]:
  "a_id (released_from ord a) = a_id a" "a_cash_balance (released_from ord a) = a_cash_balance a"
  by (simp_all add: released_from_def)

lemma documented_numeric: "documented e \<Longrightarrow> on_grid 8 x \<Longrightarrow> \<bar>x\<bar> < 10 ^ 16 \<Longrightarrow> numeric e x = Some x"
  by (rule column_types.num_exact) (simp_all add: documented_def)

lemma store_called_off:
  assumes "documented e" and "store_order e ord = Inr ord"
  shows "store_order e (called_off ord) = Inr (called_off ord)"
proof -
  note d = store_orderD [OF assms(2)] and s = settled_order [OF assms]
  have "numeric e (o_cancelled_quantity ord + o_remaining_quantity ord) = Some (o_cancelled_quantity ord + o_remaining_quantity ord)"
    using s by (intro documented_numeric [OF assms(1)]) (auto simp: on_grid_add order_checks_def)
  moreover have "numeric e 0 = Some 0" by (intro documented_numeric [OF assms(1)]) simp_all
  moreover have "order_checks (called_off ord)" using s(8) by (simp add: order_checks_def called_off_def moved_def)
  ultimately show ?thesis
    using d by (intro store_orderI) (simp_all add: called_off_def moved_def)
qed

lemma funded_calls_off:
  assumes "documented e" and "funded e ord a" and "o_status ord \<in> {ROUTED, PARTIALLY_FILLED, CANCEL_PENDING}"
  shows "release_remaining_reservation a ord = Inr (released_from ord a)"
    and "store_account e (released_from ord a) = Inr (released_from ord a)"
    and "cancel_outcome e ord a reason data =
      Inr (called_off ord, released_from ord a,
        [audit e ord ORDER_CANCELLED (Some (o_status ord)) (Some CANCELLED)
          (data @ [(''cancelled_quantity'', JDecimal (o_remaining_quantity ord)), (''reason'', JText reason)])])"
proof -
  have so: "store_order e ord = Inr ord" and sa: "store_account e a = Inr a"
    and g: "on_grid 8 (o_remaining_quantity ord * o_price ord)" and c: "commitment ord \<le> a_reserved_cash a"
    using assms(2) by (simp_all add: funded_def)
  note s = settled_order [OF assms(1) so] and m = settled_account [OF assms(1) sa] and d = store_accountD [OF sa]
  let ?x = "o_remaining_quantity ord * o_price ord"
  have "release_remaining_reservation a ord = Inr (released_from ord a) \<and>
    store_account e (released_from ord a) = Inr (released_from ord a)"
  proof (cases "o_side ord \<noteq> BUY \<or> o_remaining_quantity ord \<le> 0")
    case True
    then show ?thesis using sa by (simp add: release_remaining_reservation_def released_from_def)
  next
    case False
    then have le: "?x \<le> a_reserved_cash a" and pos: "0 \<le> ?x"
      using c s(8) working_statuses [OF assms(3)] by (simp_all add: commitment_def order_checks_def)
    have x: "dmul (o_remaining_quantity ord) (o_price ord) = ?x" "dsub (a_reserved_cash a) ?x = a_reserved_cash a - ?x"
      using g le pos m by (auto intro!: dmul_cents dsub_cents)
    have "numeric e (a_reserved_cash a - ?x) = Some (a_reserved_cash a - ?x)"
      using g le pos m by (intro documented_numeric [OF assms(1)]) (auto simp: on_grid_diff)
    then have "store_account e (released_from ord a) = Inr (released_from ord a)"
      using False d m le pos by (simp add: store_account_eq_Inr released_from_def account_checks_def)
    then show ?thesis using False le by (simp add: release_remaining_reservation_def released_from_def x not_less)
  qed
  then show r: "release_remaining_reservation a ord = Inr (released_from ord a)"
    and "store_account e (released_from ord a) = Inr (released_from ord a)" by blast+
  have "dadd (o_cancelled_quantity ord) (o_remaining_quantity ord) = o_cancelled_quantity ord + o_remaining_quantity ord"
    using s by (intro dadd_cents) (auto simp: order_checks_def)
  then show "cancel_outcome e ord a reason data =
      Inr (called_off ord, released_from ord a,
        [audit e ord ORDER_CANCELLED (Some (o_status ord)) (Some CANCELLED)
          (data @ [(''cancelled_quantity'', JDecimal (o_remaining_quantity ord)), (''reason'', JText reason)])])"
    using assms(3) by (auto simp: cancel_outcome_def r called_off_def Let_def)
qed

section \<open>The event that confirms\<close>

lemma consistent_funded:
  assumes "documented e" and "consistent e db" and "order_row db oid = Some ord" and "account_row db (o_account_id ord) = Some a"
  shows "funded e ord a"
proof -
  note c = consistentD [OF assms(2)]
  have "commitment ord \<le> a_reserved_cash a"
    using committed_covers [OF assms(2,1,3)] c(6) [OF assms(4)] by simp
  moreover have "on_grid 8 (o_remaining_quantity ord * o_price ord)"
    using c(5) [OF assms(3)] by (simp add: order_booked_def)
  ultimately show ?thesis using settledD(1,2) [OF c(2)] assms(3,4) by (simp add: funded_def)
qed

lemma confirmation_calls_off:
  assumes "documented e" and "consistent e db" and "order_row db (ev_order_id ev) = Some ord"
    and "account_row db (o_account_id ord) = Some a" and "o_status ord \<in> {ROUTED, PARTIALLY_FILLED, CANCEL_PENDING}"
    and "ev_event_type ev = broker_event_type.CANCELLED" and "processed_row db (ev_event_id ev) = None"
  obtains s' where "process_event e ev (open_session db) = (Inr True, s')"
    and "order_row (tx s') = (order_row db)(ev_order_id ev \<mapsto> called_off ord)"
    and "account_row (tx s') = (account_row db)(o_account_id ord \<mapsto> released_from ord a)"
    and "fills (tx s') = fills db"
proof -
  note c = consistentD [OF assms(2)] and f = consistent_funded [OF assms(1-4)]
  note off = funded_calls_off [OF assms(1) f assms(5)]
  have so: "store_order e (called_off ord) = Inr (called_off ord)"
    using f store_called_off [OF assms(1)] by (simp add: funded_def)
  have ids: "o_id ord = ev_order_id ev" "a_id a = o_account_id ord"
    using row_of_SomeD [OF assms(3)] row_of_SomeD [OF assms(4)] by simp_all
  obtain evs where oc: "event_outcome e ord a ev = Inr (called_off ord, released_from ord a, evs)"
    using off(3) assms(6) by (simp add: event_outcome_def is_fill_type_def)
  have i: "ignored ord ev = None" using assms(5,6) by (auto simp: ignored_def is_fill_type_def)
  have t: "event_trade e (db_view db) ord ev = Inr None" using assms(6) by (simp add: event_trade_def is_fill_type_def)
  have "\<exists>s'. process_event e ev (open_session db) = (Inr True, s')"
    by (rule process_event_applies [OF assms(1) c(1) assms(3,7) i _ assms(4) oc t])
      (use assms(6) so off(2) in \<open>simp_all add: is_fill_type_def event_fits_def can_store_def\<close>)
  then obtain s' where s': "process_event e ev (open_session db) = (Inr True, s')" by blast
  from s' c(2) assms(1) have l: "leaves e (applied_view ev (called_off ord, released_from ord a, evs) None (db_view db)) (tx s')"
  proof (cases rule: process_event_cases)
    case (applied ord' a0 out trade)
    then show ?thesis using assms(3,4) oc t by simp
  qed simp_all
  let ?out = "(called_off ord, released_from ord a, evs)"
  from l c(2) obtain r ra where r: "store_order e (fst ?out) = Inr r" "store_account e (fst (snd ?out)) = Inr ra"
      "order_row (tx s') = (order_row db)(o_id (fst ?out) \<mapsto> r)"
      "account_row (tx s') = (account_row db)(a_id (fst (snd ?out)) \<mapsto> ra)" by (rule applied_rows)
  then have "r = called_off ord" "ra = released_from ord a" using so off(2) by simp_all
  with r(3,4) have "order_row (tx s') = (order_row db)(ev_order_id ev \<mapsto> called_off ord)"
    "account_row (tx s') = (account_row db)(o_account_id ord \<mapsto> released_from ord a)"
    by (simp_all add: ids)
  with that [OF s'] leavesD(5) [OF l] show thesis by simp
qed

section \<open>The request\<close>

lemma cancellation_notified:
  assumes "documented e" and "well_formed e db" and "order_row db oid = Some ord"
    and "o_status ord \<in> CANCELLABLE_ORDER_STATUSES"
  shows "notified e oid reason db = Some oid"
proof -
  obtain t where t: "request_cancellation e (\<lambda>_ _. None) oid reason (open_session db) = (Inr (moved ord CANCEL_PENDING), t)"
    using cancel_requested [OF assms, where cancel = "\<lambda>_ _. None" and reason = reason] by auto
  obtain t' where t': "request_cancellation e (\<lambda>i _. Some i) oid reason (open_session db) = (Inl (BrokerFailure oid), t')"
    using cancel_requested [OF assms, where cancel = "\<lambda>i _. Some i" and reason = reason] by auto
  from t t' show ?thesis
    by (auto simp: request_cancellation_def notified_def split: prod.splits sum.splits if_splits)
qed

lemma cancellation_view:
  assumes "documented e" and "well_formed e db" and "order_row db oid = Some ord"
    and "o_status ord \<in> CANCELLABLE_ORDER_STATUSES"
  shows "order_row (tx (snd (request_cancellation e cancel oid reason (open_session db)))) =
      (order_row db)(oid \<mapsto> moved ord CANCEL_PENDING)"
    and "account_row (tx (snd (request_cancellation e cancel oid reason (open_session db)))) = account_row db"
    and "fills (tx (snd (request_cancellation e cancel oid reason (open_session db)))) = fills db"
    and "processed_broker_events (tx (snd (request_cancellation e cancel oid reason (open_session db)))) =
      processed_broker_events db"
proof -
  obtain s' where "request_cancellation e cancel oid reason (open_session db) =
      (case cancel oid reason of None \<Rightarrow> Inr (moved ord CANCEL_PENDING) | Some msg \<Rightarrow> Inl (BrokerFailure msg), s')"
    "order_row (tx s') = (order_row db)(oid \<mapsto> moved ord CANCEL_PENDING)" "account_row (tx s') = account_row db"
    "fills (tx s') = fills db" by (rule cancel_requested [OF assms])
  then show "order_row (tx (snd (request_cancellation e cancel oid reason (open_session db)))) =
      (order_row db)(oid \<mapsto> moved ord CANCEL_PENDING)"
    "account_row (tx (snd (request_cancellation e cancel oid reason (open_session db)))) = account_row db"
    "fills (tx (snd (request_cancellation e cancel oid reason (open_session db)))) = fills db" by simp_all
  from request_cancellation_accepted [OF assms, of cancel reason] leavesD(7)
  show "processed_broker_events (tx (snd (request_cancellation e cancel oid reason (open_session db)))) =
      processed_broker_events db"
    by (fastforce simp: cancel_requested_view_def)
qed

text \<open>The two ways to ask for a cancellation, and the reasons they give.\<close>

fun cancels :: "uuid \<Rightarrow> draws \<Rightarrow> app_step \<Rightarrow> bool" where
  "cancels oid d (CancelOrder i d') \<longleftrightarrow> i = oid \<and> d' = d"
| "cancels oid d (ExpireDayOrder i d') \<longleftrightarrow> i = oid \<and> d' = d"
| "cancels oid d _ \<longleftrightarrow> False"

lemma cancels_step:
  assumes "documented e" and "well_formed e (app_database app)" and "order_row (app_database app) oid = Some ord"
    and "o_status ord \<in> CANCELLABLE_ORDER_STATUSES" and "cancels oid d st"
  obtains reason db where "app_run e st app = with_database db (app\<lparr>app_tasks := app_tasks app @ [simulate_cancellation d oid reason]\<rparr>)"
    and "order_row db = (order_row (app_database app))(oid \<mapsto> moved ord CANCEL_PENDING)"
    and "account_row db = account_row (app_database app)" and "fills db = fills (app_database app)"
    and "processed_broker_events db = processed_broker_events (app_database app)"
proof -
  note n = cancellation_notified [OF assms(1-4)] and v = cancellation_view [OF assms(1-4)]
  show thesis
  proof (cases st)
    case (CancelOrder i d')
    then show thesis
      using assms(5) n that [where reason = "''Client requested cancellation''", OF _ v [where cancel = "\<lambda>_ _. None" and reason = "''Client requested cancellation''"]]
      by (simp add: with_task_def start_cancellation_task_def start_task_def with_database_def post_cancel_def case_prod_beta)
  next
    case (ExpireDayOrder i d')
    then show thesis
      using assms(5) n that [where reason = "''DAY order expired at session end''", OF _ v [where cancel = "\<lambda>_ _. None" and reason = "''DAY order expired at session end''"]]
      by (simp add: with_task_def start_cancellation_task_def start_task_def with_database_def expire_order_def)
  qed (use assms(5) in simp_all)
qed

section \<open>Whatever happens in between\<close>

text \<open>The identifiers a step draws for the events of the broker.\<close>

fun step_ids :: "app_step \<Rightarrow> uuid set" where
  "step_ids (PlaceOrder raw d) = {fst (d_event_ids d), snd (d_event_ids d)}"
| "step_ids (CancelOrder oid d) = {fst (d_event_ids d)}"
| "step_ids (ExpireDayOrder oid d) = {fst (d_event_ids d)}"
| "step_ids _ = {}"

lemma simulated_ids:
  "ev \<in> set (simulate_order d b) \<Longrightarrow> ev_event_id ev \<in> {fst (d_event_ids d), snd (d_event_ids d)}"
  "ev \<in> set (simulate_cancellation d oid reason) \<Longrightarrow> ev_event_id ev = fst (d_event_ids d)"
  by (auto simp: simulate_order_def simulate_cancellation_def put_def full_fill_event_def validate_fill_payload_def Let_def
      split: if_splits sum.splits option.splits)

lemma announced_ids: "ev \<in> set (announced e st db) \<Longrightarrow> ev_event_id ev \<in> step_ids st"
  by (cases st) (auto dest: simulated_ids split: option.splits)

text \<open>No report is lost: only the worker takes one, the next of the queue.\<close>

lemma wake_task_keeps:
  assumes "i < length tasks" and "wake_task i tasks = (event, tasks')"
  shows "set (concat tasks) \<subseteq> set_option event \<union> set (concat tasks')"
proof -
  have parts: "set tasks = insert (tasks ! i) (set (take i tasks) \<union> set (drop (Suc i) tasks))"
    using id_take_nth_drop [OF assms(1)] by (metis Un_insert_right list.simps(15) set_append)
  show ?thesis
  proof (cases "tasks ! i")
    case Nil
    with assms(2) show ?thesis by (auto simp: wake_task_def on_task_done_def parts)
  next
    case (Cons ev rest)
    have "set (tasks[i := rest]) = insert rest (set (take i tasks) \<union> set (drop (Suc i) tasks))"
      using assms(1) by (simp add: upd_conv_take_nth_drop)
    with assms(2) Cons show ?thesis by (auto simp: wake_task_def on_task_done_def parts split: if_splits)
  qed
qed

lemma pending_kept:
  assumes "st \<noteq> WorkerTurn" and "st \<noteq> Restart"
  shows "set (pending app) \<subseteq> set (pending (app_run e st app))"
proof (cases st)
  case (BrokerTask i)
  show ?thesis
  proof (cases "i < length (app_tasks app)")
    case True
    obtain event tasks where w: "wake_task i (app_tasks app) = (event, tasks)" by (cases "wake_task i (app_tasks app)")
    from wake_task_keeps [OF True w] w True BrokerTask show ?thesis
      by (auto simp: pending_def queue_put_def split: option.splits)
  qed (simp add: BrokerTask)
qed (use assms in \<open>auto simp: pending_with_task start_order_task_def [abs_def] start_cancellation_task_def [abs_def]
      split: option.split\<close>)

text \<open>An event is recorded under its own identifier.\<close>

lemma event_records:
  assumes "documented e" and "well_formed e db" and "processed_row db k = None" and "k \<noteq> ev_event_id ev"
  shows "processed_row (tx (snd (process_event e ev (open_session db)))) k = None"
proof -
  obtain r s' where run: "process_event e ev (open_session db) = (r, s')" by (cases "process_event e ev (open_session db)")
  have "processed_row (tx s') k = None"
  proof (cases r)
    case (Inl err)
    with run have "tx s' = db" by (auto simp: process_event_def dest: transaction_rollback)
    with assms(3) show ?thesis by simp
  next
    case (Inr b)
    with run have "process_event e ev (open_session db) = (Inr b, s')" by simp
    from this well_formed_settled [OF assms(2)] assms(1) show ?thesis
    proof (cases rule: process_event_cases)
      case (duplicate ord)
      with leavesD(7) [OF duplicate(4)] assms(3) show ?thesis by simp
    next
      case (ignored ord reason)
      with leavesD(7) [OF ignored(5)] assms(3,4) show ?thesis
        by (auto simp: ignored_view_def row_of_None_iff processed_of_def)
    next
      case (applied ord a out trade)
      with leavesD(7) [OF applied(9)] assms(3,4) show ?thesis
        by (auto simp: applied_view_def row_of_None_iff processed_of_def)
    qed
  qed
  with run show ?thesis by simp
qed

text \<open>A request leaves an order alone that is being cancelled or at its end.\<close>

lemma request_on_closed:
  assumes "well_formed e db" and "order_row db oid = Some ord" and "o_status ord \<notin> CANCELLABLE_ORDER_STATUSES"
  shows "tx (snd (request_cancellation e cancel oid reason (open_session db))) = db"
  using request_cancellation_refused(2,3) [OF assms(1,2), of cancel reason] assms(3)
  by (cases "o_status ord = CANCEL_PENDING") simp_all

lemma closed_order_kept:
  assumes "documented e" and "well_formed e (app_database app)" and "fitting_step st" and "st \<noteq> WorkerTurn"
    and "order_row (app_database app) oid = Some ord" and "o_status ord \<notin> CANCELLABLE_ORDER_STATUSES"
  shows "order_row (app_database (app_run e st app)) oid = Some ord"
proof (cases "oid \<in> concerned st app")
  case False
  then show ?thesis by (rule orders_keptD(3) [OF app_run_keeps_orders [OF assms(1-3)] assms(5)])
next
  case True
  note same = request_on_closed [OF assms(2,5,6)]
  show ?thesis
  proof (cases st)
    case (CancelOrder i d)
    then show ?thesis using True same assms(5) by (simp add: post_cancel_def case_prod_beta)
  next
    case (ExpireDayOrder i d)
    have "at_time e (now e, new_uuid e) = e" by (simp add: at_time_def)
    then show ?thesis using True ExpireDayOrder same assms(5) by (simp add: expire_order_def)
  qed (use True assms(4) in simp_all)
qed

text \<open>What an event makes of an order that has ended, and of one that is being cancelled.\<close>

lemma event_on_closed:
  assumes "documented e" and "well_formed e db" and "order_row db (ev_order_id ev) = Some ord" and "ignored ord ev \<noteq> None"
  shows "order_row (tx (snd (process_event e ev (open_session db)))) (ev_order_id ev) = Some ord"
proof -
  note w = well_formed_settled [OF assms(2)]
  obtain res s' where run: "process_event e ev (open_session db) = (res, s')" by (cases "process_event e ev (open_session db)")
  have "order_row (tx s') (ev_order_id ev) = Some ord"
  proof (cases res)
    case (Inl err)
    with run have "tx s' = db" by (auto simp: process_event_def dest: transaction_rollback)
    with assms(3) show ?thesis by simp
  next
    case (Inr b)
    with run have "process_event e ev (open_session db) = (Inr b, s')" by simp
    from this w assms(1) show ?thesis
    proof (cases rule: process_event_cases)
      case (duplicate ord')
      with leaves_unchanged(2) [OF duplicate(4) w, of "ev_order_id ev"] assms(3) show ?thesis by simp
    next
      case (ignored ord' reason)
      with leaves_unchanged(2) [OF ignored(5) w, of "ev_order_id ev"] assms(3) show ?thesis by simp
    next
      case (applied ord' a out trade)
      with assms(3,4) show ?thesis by simp
    qed
  qed
  with run show ?thesis by simp
qed

lemma event_on_pending:
  assumes "documented e" and "consistent e db" and "order_row db (ev_order_id ev) = Some ord"
    and "o_status ord = CANCEL_PENDING" and "supplied db ev"
  shows "\<exists>r. order_row (tx (snd (process_event e ev (open_session db)))) (ev_order_id ev) = Some r \<and>
    o_status r \<in> {FILLED, CANCELLED, CANCEL_PENDING}"
proof -
  note c = consistentD [OF assms(2)]
  obtain res s' where run: "process_event e ev (open_session db) = (res, s')" by (cases "process_event e ev (open_session db)")
  have "\<exists>r. order_row (tx s') (ev_order_id ev) = Some r \<and> o_status r \<in> {FILLED, CANCELLED, CANCEL_PENDING}"
  proof (cases res)
    case (Inl err)
    with run have "tx s' = db" by (auto simp: process_event_def dest: transaction_rollback)
    with assms(3,4) show ?thesis by simp
  next
    case (Inr b)
    with run have run: "process_event e ev (open_session db) = (Inr b, s')" by simp
    from this c(2) assms(1) show ?thesis
    proof (cases rule: process_event_cases)
      case (duplicate ord')
      with leaves_unchanged(2) [OF duplicate(4) c(2), of "ev_order_id ev"] assms(3,4) show ?thesis by simp
    next
      case (ignored ord' reason)
      with leaves_unchanged(2) [OF ignored(5) c(2), of "ev_order_id ev"] assms(3,4) show ?thesis by simp
    next
      case (applied ord' a out trade)
      then have same: "ord' = ord" using assms(3) by simp
      show ?thesis
      proof (cases "is_fill_type (ev_event_type ev)")
        case True
        then have "on_grid 8 (ev_filled_quantity ev)" using assms(5) by (auto simp: supplied_def)
        with applied_fill_books [OF run [unfolded eqTrueI [OF applied(4)]] assms(1) c(1) assms(3) refl True]
        obtain r where "order_row (tx s') (ev_order_id ev) = Some r" "filled_by (ev_filled_quantity ev) ord r" by blast
        then show ?thesis using assms(4) by (auto simp: filled_by_def split: if_splits)
      next
        case False
        with applied(3) assms(4) same have t: "ev_event_type ev = broker_event_type.CANCELLED"
          by (cases "ev_event_type ev") (auto simp: ignored_def)
        have "account_row db (o_account_id ord) = Some a" "o_status ord \<in> {ROUTED, PARTIALLY_FILLED, CANCEL_PENDING}"
          using applied(5) same assms(4) by simp_all
        from confirmation_calls_off [OF assms(1-3) this t applied(2)] obtain s'' where
            "process_event e ev (open_session db) = (Inr True, s'')"
            "order_row (tx s'') = (order_row db)(ev_order_id ev \<mapsto> called_off ord)" by blast
        with fun_cong [OF this(2), of "ev_order_id ev"] run show ?thesis by (simp add: called_off_status)
      qed
    qed
  qed
  with run show ?thesis by simp
qed

text \<open>
  A confirmation \<open>ev\<close> is awaited until the worker takes it: it is queued or still to come, no other
  event has its identifier, and none has been recorded under it. An order that waits for it is
  CANCEL_PENDING, until it has ended as FILLED or CANCELLED.
\<close>

definition awaited :: "broker_execution_event \<Rightarrow> application \<Rightarrow> bool" where
  "awaited ev app \<longleftrightarrow>
     ev \<in> set (pending app) \<and> processed_row (app_database app) (ev_event_id ev) = None \<and>
     (\<forall>ev'\<in>set (pending app). ev_event_id ev' = ev_event_id ev \<longrightarrow> ev' = ev)"

definition settling :: "broker_execution_event \<Rightarrow> application \<Rightarrow> bool" where
  "settling ev app \<longleftrightarrow>
     (\<exists>ord. order_row (app_database app) (ev_order_id ev) = Some ord \<and>
        (o_status ord \<in> {FILLED, CANCELLED} \<or> o_status ord = CANCEL_PENDING \<and> awaited ev app))"

lemma awaited_kept:
  assumes "documented e" and "well_formed e (app_database app)" and "fitting_step st"
    and "st \<noteq> WorkerTurn" and "st \<noteq> Restart" and "ev_event_id ev \<notin> step_ids st" and "awaited ev app"
  shows "awaited ev (app_run e st app)"
  using pending_kept [OF assms(4,5), of app e] app_run_pending [of e st app] announced_ids [of _ e st "app_database app"]
    app_run_frame [OF assms(1-3)] assms(4,6,7)
  unfolding awaited_def money_kept_def by fastforce

lemma worker_turn_on:
  assumes "w_queue (app_worker app) = x # rest"
  shows "w_queue (app_worker (app_run e WorkerTurn app)) = rest"
    and "app_database (app_run e WorkerTurn app) = tx (snd (process_event e x (open_session (app_database app))))"
    and "app_tasks (app_run e WorkerTurn app) = app_tasks app"
    and "pending app = x # pending (app_run e WorkerTurn app)"
  using worker_step_cases [OF assms, of e] assms by (auto simp: pending_def)

lemma event_keeps_ended:
  assumes "documented e" and "well_formed e db" and "order_row db oid = Some ord" and "o_status ord \<in> {FILLED, CANCELLED}"
  shows "order_row (tx (snd (process_event e x (open_session db)))) oid = Some ord"
proof (cases "ev_order_id x = oid")
  case False
  then show ?thesis by (intro orders_keptD(3) [OF event_keeps_orders [OF assms(1,2)] assms(3)]) simp
next
  case True
  have "ignored ord x \<noteq> None" using assms(4) by (cases "ev_event_type x") (auto simp: ignored_def is_fill_type_def)
  with event_on_closed [OF assms(1,2) _ this] assms(3) True show ?thesis by simp
qed

text \<open>While the confirmation waits, another event leaves it waiting; the confirmation itself ends the order.\<close>

lemma settling_other:
  assumes "documented e" and "consistent e (app_database app)" and "w_queue (app_worker app) = x # rest"
    and "supplied (app_database app) x" and "order_row (app_database app) (ev_order_id ev) = Some ord"
    and "o_status ord = CANCEL_PENDING" and "awaited ev app" and "ev_event_id x \<noteq> ev_event_id ev"
  shows "settling ev (app_run e WorkerTurn app)"
proof -
  let ?db = "app_database app" and ?app = "app_run e WorkerTurn app" and ?oid = "ev_order_id ev"
  note wf = consistentD(1) [OF assms(2)] and run = worker_turn_on [OF assms(3), of e]
  have "processed_row (app_database ?app) (ev_event_id ev) = None"
    unfolding run(2) by (rule event_records [OF assms(1) wf]) (use assms(7,8) in \<open>simp_all add: awaited_def\<close>)
  with assms(7,8) run(4) have w: "awaited ev ?app" by (auto simp: awaited_def)
  have "\<exists>r. order_row (app_database ?app) ?oid = Some r \<and> o_status r \<in> {FILLED, CANCELLED, CANCEL_PENDING}"
  proof (cases "ev_order_id x = ?oid")
    case True
    then show ?thesis using event_on_pending [OF assms(1,2) _ assms(6,4)] assms(5) unfolding run(2) by simp
  next
    case False
    have "order_row (app_database ?app) ?oid = Some ord"
      unfolding run(2) by (rule orders_keptD(3) [OF event_keeps_orders [OF assms(1) wf] assms(5)]) (use False in simp)
    with assms(6) show ?thesis by simp
  qed
  with w show ?thesis by (auto simp: settling_def)
qed

lemma settling_confirmed:
  assumes "documented e" and "consistent e (app_database app)" and "w_queue (app_worker app) = ev # rest"
    and "order_row (app_database app) (ev_order_id ev) = Some ord" and "o_status ord = CANCEL_PENDING"
    and "processed_row (app_database app) (ev_event_id ev) = None" and "ev_event_type ev = broker_event_type.CANCELLED"
  shows "settling ev (app_run e WorkerTurn app)"
proof -
  let ?db = "app_database app" and ?oid = "ev_order_id ev"
  obtain a where a: "account_row ?db (o_account_id ord) = Some a"
    using consistentD(5) [OF assms(2,4)] by (auto simp: order_booked_def)
  have "o_status ord \<in> {ROUTED, PARTIALLY_FILLED, CANCEL_PENDING}" using assms(5) by simp
  from confirmation_calls_off [OF assms(1,2,4) a this assms(7,6)] obtain s' where
      "process_event e ev (open_session ?db) = (Inr True, s')"
      "order_row (tx s') = (order_row ?db)(?oid \<mapsto> called_off ord)" by blast
  with fun_cong [OF this(2), of ?oid] show ?thesis
    unfolding settling_def worker_turn_on(2) [OF assms(3)] by (simp add: called_off_status)
qed

lemma settling_worker:
  assumes "documented e" and "consistent e (app_database app)" and "list_all (supplied (app_database app)) (w_queue (app_worker app))"
    and "settling ev app" and "ev_event_type ev = broker_event_type.CANCELLED"
  shows "settling ev (app_run e WorkerTurn app)"
proof (cases "w_queue (app_worker app)")
  case Nil
  with assms(4) show ?thesis by (simp add: worker_step_waits)
next
  case (Cons x rest)
  from assms(4) obtain ord where ord: "order_row (app_database app) (ev_order_id ev) = Some ord"
      "o_status ord \<in> {FILLED, CANCELLED} \<or> o_status ord = CANCEL_PENDING \<and> awaited ev app"
    by (auto simp: settling_def)
  from ord(2) show ?thesis
  proof (elim disjE conjE)
    assume "o_status ord \<in> {FILLED, CANCELLED}"
    with event_keeps_ended [OF assms(1) consistentD(1) [OF assms(2)] ord(1) this, of x] show ?thesis
      unfolding settling_def worker_turn_on(2) [OF Cons] by blast
  next
    assume w: "o_status ord = CANCEL_PENDING" "awaited ev app"
    have x: "x \<in> set (pending app)" "supplied (app_database app) x" using Cons assms(3) by (simp_all add: pending_def)
    show ?thesis
    proof (cases "ev_event_id x = ev_event_id ev")
      case True
      with w(2) x(1) have "x = ev" "processed_row (app_database app) (ev_event_id ev) = None" by (auto simp: awaited_def)
      with settling_confirmed [OF assms(1,2) _ ord(1) w(1) _ assms(5)] Cons show ?thesis by simp
    next
      case False
      show ?thesis by (rule settling_other [OF assms(1,2) Cons x(2) ord(1) w False])
    qed
  qed
qed

text \<open>A schedule without a restart, whose events have other identifiers.\<close>

definition undisturbed :: "uuid \<Rightarrow> (app_step \<times> timestamp \<times> uuid) list \<Rightarrow> bool" where
  "undisturbed k steps \<longleftrightarrow> (\<forall>st\<in>fst ` set steps. st \<noteq> Restart \<and> k \<notin> step_ids st)"

lemma settling_step:
  assumes "documented e" and "app_reachable e app" and "app_admissible st app" and "st \<noteq> Restart"
    and "ev_event_id ev \<notin> step_ids st" and "ev_event_type ev = broker_event_type.CANCELLED" and "settling ev app"
  shows "settling ev (app_run (at_time e stamp) st app)"
proof -
  let ?e = "at_time e stamp"
  note t = app_reachable_trading [OF assms(1,2), unfolded trading_def]
  have e: "documented ?e" "consistent ?e (app_database app)"
    using assms(1) reachable_consistent [OF assms(1)] t by simp_all
  note wf = consistentD(1) [OF e(2)]
  have f: "fitting_step st" using assms(3) by (cases st) simp_all
  show ?thesis
  proof (cases "st = WorkerTurn")
    case True
    have "list_all (supplied (app_database app)) (w_queue (app_worker app))"
      using t by (simp add: list_all_iff pending_def)
    from settling_worker [OF e this assms(7,6)] True show ?thesis by simp
  next
    case False
    from assms(7) obtain ord where ord: "order_row (app_database app) (ev_order_id ev) = Some ord"
        "o_status ord \<in> {FILLED, CANCELLED} \<or> o_status ord = CANCEL_PENDING \<and> awaited ev app"
      by (auto simp: settling_def)
    then have "o_status ord \<notin> CANCELLABLE_ORDER_STATUSES" by (auto simp: status_sets)
    note row = closed_order_kept [OF e(1) wf f False ord(1) this]
    from ord(2) row awaited_kept [OF e(1) wf f False assms(4,5)] show ?thesis by (auto simp: settling_def)
  qed
qed

lemma settling_runs:
  assumes "documented e" and "ev_event_type ev = broker_event_type.CANCELLED"
  shows "app_reachable e app \<Longrightarrow> admissible_run e steps app \<Longrightarrow> undisturbed (ev_event_id ev) steps \<Longrightarrow>
    settling ev app \<Longrightarrow> settling ev (app_runs e steps app)"
proof (induction steps arbitrary: app)
  case (Cons x steps)
  obtain st stamp where x: "x = (st, stamp)" by (cases x)
  have st: "app_admissible st app" "st \<noteq> Restart" "ev_event_id ev \<notin> step_ids st" "undisturbed (ev_event_id ev) steps"
    "admissible_run e steps (app_run (at_time e stamp) st app)"
    using Cons.prems(2,3) by (auto simp: x undisturbed_def)
  have "app_reachable e (app_run (at_time e stamp) st app)" using Cons.prems(1) st(1) by (rule app_reachable.step)
  from Cons.IH [OF this st(5,4) settling_step [OF assms(1) Cons.prems(1) st(1-3) assms(2) Cons.prems(4)]] show ?case
    by (simp add: x)
qed simp

lemma runs_keep_requests:
  assumes "documented e"
  shows "app_reachable e app \<Longrightarrow> admissible_run e steps app \<Longrightarrow> order_row (app_database app) oid = Some ord \<Longrightarrow>
    \<exists>r. order_row (app_database (app_runs e steps app)) oid = Some r \<and> request_of r = request_of ord"
proof (induction steps arbitrary: app ord)
  case (Cons x steps)
  obtain st stamp where x: "x = (st, stamp)" by (cases x)
  let ?app = "app_run (at_time e stamp) st app"
  have st: "app_admissible st app" "admissible_run e steps ?app" using Cons.prems(2) by (simp_all add: x)
  then have f: "fitting_step st" by (cases st) simp_all
  have con: "consistent e (app_database app)"
    using app_reachable_trading [OF assms Cons.prems(1)] reachable_consistent [OF assms] by (simp add: trading_def)
  have "documented (at_time e stamp)" "well_formed (at_time e stamp) (app_database app)"
    using assms consistentD(1) [OF con] by simp_all
  from orders_keptD(2) [OF app_run_keeps_orders [OF this f] Cons.prems(3)] obtain ord' where
      ord': "order_row (app_database ?app) oid = Some ord'" "request_of ord' = request_of ord" by blast
  have "app_reachable e ?app" using Cons.prems(1) st(1) by (rule app_reachable.step)
  from Cons.IH [OF this st(2) ord'(1)] ord'(2) show ?case by (simp add: x)
qed simp

text \<open>An open order does not become FILLED without a new fill.\<close>

lemma filled_needs_fills:
  assumes "documented e" and "consistent e db" and "consistent e db'"
    and "order_row db oid = Some ord" and "order_row db' oid = Some r" and "request_of r = request_of ord"
    and "o_status ord \<in> OPEN_ORDER_STATUSES" and "filled_total db' oid = filled_total db oid"
  shows "o_status r \<noteq> FILLED"
proof
  assume "o_status r = FILLED"
  note b = consistentD(5) [OF assms(2,4)] and b' = consistentD(5) [OF assms(3,5)]
  have "order_checks ord" "order_checks r"
    using settled_order(8) [OF assms(1)] settledD(2) [OF consistentD(2)] assms(2-5) by blast+
  moreover have "o_filled_quantity r = o_filled_quantity ord"
    using b b' assms(8) row_of_SomeD [OF assms(4)] row_of_SomeD [OF assms(5)] by (simp add: order_booked_def)
  moreover have "0 < o_remaining_quantity ord" "o_cancelled_quantity ord = 0"
    using b assms(7) by (auto simp: order_booked_def status_fits_def status_sets)
  moreover have "o_remaining_quantity r = 0" "o_cancelled_quantity r = 0"
    using b' \<open>o_status r = FILLED\<close> by (simp_all add: order_booked_def status_fits_def)
  ultimately show False using request_of_eqD(9) [OF assms(6)] by (simp add: order_checks_def)
qed

section \<open>Properties\<close>

text \<open>
  When the worker is idle and the task of the broker and the turn of the worker come next, the
  cancellation completes at once: the order is CANCELLED with its whole open quantity cancelled and
  what it has filled untouched, the account has back exactly what was reserved for the rest, its
  cash and the fills are as before, no failure is logged, and the queue is empty again.
\<close>

lemma prompt_cancellation:
  assumes "documented e" and "app_reachable e app" and "order_row (app_database app) oid = Some ord"
    and "o_status ord \<in> CANCELLABLE_ORDER_STATUSES" and "account_row (app_database app) (o_account_id ord) = Some a"
    and "w_queue (app_worker app) = []" and "processed_row (app_database app) (fst (d_event_ids d)) = None"
    and "cancels oid d st"
    and "app' = app_runs e [(st, stamp), (BrokerTask (length (app_tasks app)), stamp1), (WorkerTurn, stamp2)] app"
  shows "\<exists>ord' a'. order_row (app_database app') = (order_row (app_database app))(oid \<mapsto> ord') \<and>
    o_status ord' = CANCELLED \<and> o_remaining_quantity ord' = 0 \<and> o_filled_quantity ord' = o_filled_quantity ord \<and>
    o_cancelled_quantity ord' = o_cancelled_quantity ord + o_remaining_quantity ord \<and>
    account_row (app_database app') = (account_row (app_database app))(o_account_id ord \<mapsto> a') \<and>
    a_cash_balance a' = a_cash_balance a \<and> a_reserved_cash a' = a_reserved_cash a - commitment ord \<and>
    fills (app_database app') = fills (app_database app) \<and>
    w_failures (app_worker app') = w_failures (app_worker app) \<and> w_queue (app_worker app') = []"
proof -
  let ?db = "app_database app" and ?e1 = "at_time e stamp" and ?e3 = "at_time e stamp2"
  have con: "consistent e ?db"
    using app_reachable_trading [OF assms(1,2)] reachable_consistent [OF assms(1)] by (simp add: trading_def)
  have e1: "documented ?e1" "well_formed ?e1 ?db" using assms(1) consistentD(1) [OF con] by simp_all
  obtain reason db where
      step: "app_run ?e1 st app = with_database db (app\<lparr>app_tasks := app_tasks app @ [simulate_cancellation d oid reason]\<rparr>)"
    and db: "order_row db = (order_row ?db)(oid \<mapsto> moved ord CANCEL_PENDING)" "account_row db = account_row ?db"
      "fills db = fills ?db" "processed_broker_events db = processed_broker_events ?db"
    by (rule cancels_step [OF e1 assms(3,4,8)])
  have "app_admissible st app" using assms(8) by (cases st) simp_all
  then have "app_reachable e (app_run ?e1 st app)" by (intro app_reachable.step [OF assms(2)])
  from app_reachable_trading [OF assms(1) this] reachable_consistent [OF assms(1)]
  have con1: "consistent ?e3 db" by (simp add: trading_def step with_database_def)
  obtain ev where ev: "simulate_cancellation d oid reason = [ev]" "ev_event_type ev = broker_event_type.CANCELLED"
      "ev_order_id ev = oid" "ev_event_id ev = fst (d_event_ids d)"
    by (simp add: simulate_cancellation_def put_def validate_fill_payload_def is_fill_type_def)
  let ?pending = "moved ord CANCEL_PENDING"
  have rows: "order_row db (ev_order_id ev) = Some ?pending" "account_row db (o_account_id ?pending) = Some a"
      "processed_row db (ev_event_id ev) = None" "o_status ?pending \<in> {ROUTED, PARTIALLY_FILLED, CANCEL_PENDING}"
    using assms(5,7) fun_cong [OF db(1), of oid] fun_cong [OF db(2), of "o_account_id ord"] by (simp_all add: db(4) ev moved_def)
  have "documented ?e3" using assms(1) by simp
  from confirmation_calls_off [OF this con1 rows(1,2,4) ev(2) rows(3)] obtain s' where
    s': "process_event ?e3 ev (open_session db) = (Inr True, s')"
      "order_row (tx s') = (order_row db)(oid \<mapsto> called_off ?pending)"
      "account_row (tx s') = (account_row db)(o_account_id ord \<mapsto> released_from ?pending a)" "fills (tx s') = fills db"
    by (auto simp: ev(3) moved_def)
  have app': "app_worker app' = \<lparr>w_queue = [], w_unfinished = w_unfinished (app_worker app), w_database = tx s',
      w_failures = w_failures (app_worker app)\<rparr>"
    using s'(1) assms(6)
    by (simp add: assms(9) step with_database_def wake_task_def ev(1) on_task_done_def queue_put_def worker_step_def)
  have opened: "o_status ord \<in> OPEN_ORDER_STATUSES" using assms(4) by (auto simp: status_sets)
  have "0 \<le> o_remaining_quantity ord"
    using settled_order(8) [OF assms(1) settledD(2) [OF consistentD(2) [OF con] assms(3)]] by (simp add: order_checks_def)
  then have "a_reserved_cash (released_from ?pending a) = a_reserved_cash a - commitment ord"
    using opened by (auto simp: released_from_def commitment_def moved_def)
  then show ?thesis
    by (intro exI [of _ "called_off ?pending"] exI [of _ "released_from ?pending a"])
      (simp add: app' s' db, simp add: called_off_def moved_def)
qed

text \<open>
  C9. A cancellation completes, whatever happens in between. On a history with exact amounts, an order
  that can be cancelled is asked to be, by a client or at its expiry; then any steps follow, of
  clients, ticks, broker tasks and the worker, in any order, with exact amounts and without a
  restart, none of which reuses the identifier drawn for the confirmation. As long as the
  confirmation is queued or still to come, the order is CANCEL_PENDING or has ended already; as soon
  as the worker has taken it, the order has ended, FILLED (by a fill that was on its way) or
  CANCELLED, with nothing open; and it has ended as CANCELLED if it has no new fill.
\<close>

theorem cancellation_completes:
  assumes "documented e" and "app_reachable e app" and "order_row (app_database app) oid = Some ord"
    and "o_status ord \<in> CANCELLABLE_ORDER_STATUSES" and "cancels oid d st"
    and "processed_row (app_database app) (fst (d_event_ids d)) = None"
    and "\<forall>ev\<in>set (pending app). ev_event_id ev \<noteq> fst (d_event_ids d)"
    and "admissible_run e ((st, stamp) # steps) app" and "undisturbed (fst (d_event_ids d)) steps"
    and "app' = app_runs e ((st, stamp) # steps) app"
  shows "\<exists>r. order_row (app_database app') oid = Some r \<and> o_status r \<in> {CANCEL_PENDING, FILLED, CANCELLED} \<and>
    ((\<forall>ev\<in>set (pending app'). ev_event_id ev \<noteq> fst (d_event_ids d)) \<longrightarrow>
       o_status r \<in> {FILLED, CANCELLED} \<and> o_remaining_quantity r = 0) \<and>
    (filled_total (app_database app') oid = filled_total (app_database app) oid \<longrightarrow> o_status r \<noteq> FILLED)"
proof -
  let ?db = "app_database app" and ?e = "at_time e stamp" and ?app1 = "app_run (at_time e stamp) st app"
  have con: "consistent e ?db"
    using app_reachable_trading [OF assms(1,2)] reachable_consistent [OF assms(1)] by (simp add: trading_def)
  have e1: "documented ?e" "well_formed ?e ?db" using assms(1) consistentD(1) [OF con] by simp_all
  obtain reason db where
      step: "?app1 = with_database db (app\<lparr>app_tasks := app_tasks app @ [simulate_cancellation d oid reason]\<rparr>)"
    and db: "order_row db = (order_row ?db)(oid \<mapsto> moved ord CANCEL_PENDING)"
      "processed_broker_events db = processed_broker_events ?db"
    by (rule cancels_step [OF e1 assms(3-5)])
  obtain ev where ev: "simulate_cancellation d oid reason = [ev]" "ev_event_type ev = broker_event_type.CANCELLED"
      "ev_order_id ev = oid" "ev_event_id ev = fst (d_event_ids d)"
    by (simp add: simulate_cancellation_def put_def validate_fill_payload_def is_fill_type_def)
  have p: "pending ?app1 = pending app @ [ev]" by (simp add: step pending_def with_database_def ev(1))
  have "settling ev ?app1"
    using assms(6,7) p fun_cong [OF db(1), of oid]
    by (auto simp: settling_def awaited_def step with_database_def db(2) ev moved_def)
  moreover have adm: "app_admissible st app" "admissible_run e steps ?app1" using assms(8) by simp_all
  moreover have r1: "app_reachable e ?app1" using assms(2) adm(1) by (rule app_reachable.step)
  ultimately have "settling ev app'"
    using settling_runs [OF assms(1) ev(2) r1 adm(2)] assms(9) by (simp add: assms(10) ev(4))
  then obtain r where r: "order_row (app_database app') oid = Some r"
      "o_status r \<in> {FILLED, CANCELLED} \<or> o_status r = CANCEL_PENDING \<and> awaited ev app'"
    by (auto simp: settling_def ev(3))
  have con': "consistent e (app_database app')"
    using app_reachable_trading [OF assms(1) app_runs_reachable [OF assms(2,8)]] reachable_consistent [OF assms(1)]
    by (simp add: trading_def assms(10))
  have rq: "request_of r = request_of ord"
    using runs_keep_requests [OF assms(1,2,8,3)] r(1) by (simp add: assms(10))
  have "o_remaining_quantity r = 0" if "o_status r \<in> {FILLED, CANCELLED}"
    using consistentD(5) [OF con' r(1)] that by (auto simp: order_booked_def status_fits_def)
  moreover have "o_status r \<noteq> FILLED" if "filled_total (app_database app') oid = filled_total ?db oid"
    by (rule filled_needs_fills [OF assms(1) con con' assms(3) r(1) rq _ that]) (use assms(4) in \<open>auto simp: status_sets\<close>)
  moreover have "o_status r \<in> {FILLED, CANCELLED}" if "\<forall>ev\<in>set (pending app'). ev_event_id ev \<noteq> fst (d_event_ids d)"
    using r(2) that ev(4) by (auto simp: awaited_def)
  ultimately show ?thesis using r by blast
qed

text \<open>The witness: the order is cancelled while a fill is on its way, and the worker takes both.\<close>

theorem cancellation_completes_witness:
  "\<exists>r. order_row (app_database (app_runs sample_env
       [(CancelOrder ''O'' (sample_draws\<lparr>d_event_ids := (''C1'', ''C2'')\<rparr>), 1, ''C''), (BrokerTask 0, 2, ''B''),
        (BrokerTask 0, 3, ''B''), (WorkerTurn, 4, ''W''), (WorkerTurn, 5, ''W'')] filling_app)) ''O'' = Some r \<and>
     o_status r \<in> {FILLED, CANCELLED} \<and> o_remaining_quantity r = 0"
proof -
  let ?d = "sample_draws\<lparr>d_event_ids := (''C1'', ''C2'')\<rparr>"
  let ?steps = "[(BrokerTask 0, 2, ''B''), (BrokerTask 0, 3, ''B''), (WorkerTurn, 4, ''W''), (WorkerTurn, 5, ''W'')] ::
    (app_step \<times> timestamp \<times> uuid) list"
  let ?st = "CancelOrder ''O'' ?d" and ?e = "at_time sample_env (1, ''C'')"
  have row: "order_row (app_database filling_app) ''O'' = Some sample_order"
    by (simp add: filling_app_state sample_placed_rows)
  have can: "o_status sample_order \<in> CANCELLABLE_ORDER_STATUSES" by (simp add: status_sets)
  have wf: "well_formed ?e (app_database filling_app)"
    using consistentD(1) [OF reachable_consistent [OF documented_sample reachable_placed]] by (simp add: filling_app_state)
  obtain reason db where step: "app_run ?e ?st filling_app =
      with_database db (filling_app\<lparr>app_tasks := app_tasks filling_app @ [simulate_cancellation ?d ''O'' reason]\<rparr>)"
    by (rule cancels_step [OF _ wf row can, of ?d ?st]) simp_all
  obtain ev where ev: "simulate_cancellation ?d ''O'' reason = [ev]" "\<not> is_fill_type (ev_event_type ev)"
    by (simp add: simulate_cancellation_def put_def validate_fill_payload_def is_fill_type_def)
  have adm: "admissible_run sample_env ((?st, 1, ''C'') # ?steps) filling_app"
    by (simp add: step filling_app_state ev with_database_def wake_task_def on_task_done_def queue_put_def worker_step_def
        case_prod_beta exact_fill_def del: app_run.simps(3))
  have empty: "pending (app_runs sample_env ((?st, 1, ''C'') # ?steps) filling_app) = []"
    by (simp add: step filling_app_state ev with_database_def wake_task_def on_task_done_def queue_put_def worker_step_def
        case_prod_beta pending_def del: app_run.simps(3))
  have cancels: "cancels ''O'' ?d ?st" by simp
  have processed: "processed_row (app_database filling_app) (fst (d_event_ids ?d)) = None"
    by (simp add: filling_app_state sample_placed_rows)
  have fresh: "\<forall>ev\<in>set (pending filling_app). ev_event_id ev \<noteq> fst (d_event_ids ?d)"
    by (simp add: filling_app_state pending_def)
  have calm: "undisturbed (fst (d_event_ids ?d)) ?steps" by (simp add: undisturbed_def)
  have "\<exists>r. order_row (app_database (app_runs sample_env ((?st, 1, ''C'') # ?steps) filling_app)) ''O'' = Some r \<and>
    o_status r \<in> {CANCEL_PENDING, FILLED, CANCELLED} \<and>
    ((\<forall>ev\<in>set (pending (app_runs sample_env ((?st, 1, ''C'') # ?steps) filling_app)). ev_event_id ev \<noteq> fst (d_event_ids ?d)) \<longrightarrow>
       o_status r \<in> {FILLED, CANCELLED} \<and> o_remaining_quantity r = 0) \<and>
    (filled_total (app_database (app_runs sample_env ((?st, 1, ''C'') # ?steps) filling_app)) ''O'' =
       filled_total (app_database filling_app) ''O'' \<longrightarrow> o_status r \<noteq> FILLED)"
    by (rule cancellation_completes [OF documented_sample filling_app_reachable row can cancels processed fresh adm calm refl])
  then show ?thesis unfolding empty by (auto simp del: app_runs.simps)
qed

end
