(* ===== verification/Doubles.thy ===== *)
theory Doubles
  imports Decimals "HOL-Library.Log_Nat"
begin

text \<open>
  Python's \<open>float\<close>: IEEE 754 doubles as the rational numbers they denote. \<open>double x\<close> is the double
  nearest to \<open>x\<close>. The lemmas: integers up to \<open>2 ^ 53\<close> are doubles (\<open>double_of_int\<close>), and the error
  is half a unit in the last place (\<open>double_near\<close>).
\<close>

definition binary_exponent :: "rat \<Rightarrow> int" where
  "binary_exponent x =
     (let (n, d) = quotient_of \<bar>x\<bar>;
          b = bitlen n - bitlen d
      in if 2 powi b \<le> \<bar>x\<bar> then b else b - 1)"

text \<open>
  53 bits from the leading one, rounded half to even, and no finer than \<open>2 ^ -1074\<close>; \<open>None\<close> is
  \<open>OverflowError\<close>.
\<close>

definition ulp :: "rat \<Rightarrow> rat" where
  "ulp x = 2 powi (max (binary_exponent x - 52) (- 1074))"

definition double :: "rat \<Rightarrow> rat option" where
  "double x =
     (if x = 0 then Some 0
      else let y = of_int (round_half_even (x / ulp x)) * ulp x
           in if 2 ^ 1024 \<le> \<bar>y\<bar> then None else Some y)"

section \<open>The exponent\<close>

lemma bitlen_rat_bounds:
  assumes "0 < n"
  shows "(2::rat) powi (bitlen n - 1) \<le> of_int n" "of_int n < (2::rat) powi bitlen n"
proof -
  have b: "2 ^ nat (bitlen n - 1) \<le> n" "n < 2 ^ nat (bitlen n)" using bitlen_bounds [OF assms] by auto
  have p: "0 < bitlen n" using assms bitlen_eq_zero_iff [of n] bitlen_nonneg [of n] by linarith
  have "of_int (2 ^ nat (bitlen n - 1)) \<le> (of_int n :: rat)" using b(1) by (rule of_int_le_iff [THEN iffD2])
  with p show "(2::rat) powi (bitlen n - 1) \<le> of_int n" by (simp add: power_int_def)
  have "of_int n < (of_int (2 ^ nat (bitlen n)) :: rat)" using b(2) by (rule of_int_less_iff [THEN iffD2])
  with p show "of_int n < (2::rat) powi bitlen n" by (simp add: power_int_def)
qed

lemma binary_exponent_bounds:
  assumes "x \<noteq> 0"
  shows "2 powi binary_exponent x \<le> \<bar>x\<bar>" "\<bar>x\<bar> < 2 powi (binary_exponent x + 1)"
proof -
  obtain n d where q: "quotient_of \<bar>x\<bar> = (n, d)" by (cases "quotient_of \<bar>x\<bar>")
  from q have d: "0 < d" by (rule quotient_of_denom_pos)
  from q have x: "\<bar>x\<bar> = of_int n / of_int d" by (rule quotient_of_div)
  from assms have "0 < \<bar>x\<bar>" by simp
  with x d have n: "0 < n" by (simp add: zero_less_divide_iff)
  note nb = bitlen_rat_bounds [OF n] and db = bitlen_rat_bounds [OF d]
  have dpos: "0 < (of_int d :: rat)" using d by simp
  have "(2::rat) powi (bitlen n - bitlen d - 1) * of_int d \<le> 2 powi (bitlen n - bitlen d - 1) * 2 powi bitlen d"
    using db(2) by (intro mult_left_mono) simp_all
  also have "\<dots> = 2 powi (bitlen n - 1)" by (simp flip: power_int_add)
  finally have lo: "2 powi (bitlen n - bitlen d - 1) \<le> \<bar>x\<bar>"
    using nb(1) dpos by (simp add: x le_divide_eq)
  have "(of_int n :: rat) < 2 powi bitlen n" by (rule nb)
  also have "\<dots> = 2 powi (bitlen n - bitlen d + 1) * 2 powi (bitlen d - 1)" by (simp flip: power_int_add)
  also have "\<dots> \<le> 2 powi (bitlen n - bitlen d + 1) * of_int d"
    using db(1) by (intro mult_left_mono) simp_all
  finally have hi: "\<bar>x\<bar> < 2 powi (bitlen n - bitlen d + 1)"
    using dpos by (simp add: x divide_less_eq)
  show "2 powi binary_exponent x \<le> \<bar>x\<bar>" "\<bar>x\<bar> < 2 powi (binary_exponent x + 1)"
    using lo hi by (simp_all add: binary_exponent_def q Let_def)
qed

lemma binary_exponent_less:
  assumes "x \<noteq> 0" and "\<bar>x\<bar> < 2 powi k"
  shows "binary_exponent x < k"
proof (rule ccontr)
  assume "\<not> binary_exponent x < k"
  then have "(2::rat) powi k \<le> 2 powi binary_exponent x" by (intro power_int_increasing) simp_all
  with binary_exponent_bounds(1) [OF assms(1)] assms(2) show False by simp
qed

section \<open>Rounding\<close>

lemma ulp_pos [simp]: "0 < ulp x"
  by (simp add: ulp_def)

lemma ulp_le:
  assumes "x \<noteq> 0" and "\<bar>x\<bar> < 2 powi k" and "- 1021 \<le> k"
  shows "ulp x \<le> 2 powi (k - 53)"
  unfolding ulp_def using binary_exponent_less [OF assms(1,2)] assms(3)
  by (intro power_int_increasing) simp_all

lemma rounded_near: "\<bar>of_int (round_half_even (x / ulp x)) * ulp x - x\<bar> \<le> ulp x / 2"
proof -
  have "of_int (round_half_even (x / ulp x)) * ulp x - x = (of_int (round_half_even (x / ulp x)) - x / ulp x) * ulp x"
    using less_imp_neq [OF ulp_pos, of x] by (simp add: left_diff_distrib)
  then have "\<bar>of_int (round_half_even (x / ulp x)) * ulp x - x\<bar> =
      \<bar>of_int (round_half_even (x / ulp x)) - x / ulp x\<bar> * ulp x"
    by (simp add: abs_mult abs_of_pos)
  also have "\<dots> \<le> 1 / 2 * ulp x"
    using round_half_even_error [of "x / ulp x"] less_imp_le [OF ulp_pos, of x]
    by (intro mult_right_mono) simp_all
  finally show ?thesis by simp
qed

text \<open>Numbers of ordinary size.\<close>

lemma double_near:
  assumes "\<bar>x\<bar> < 2 powi k" and "- 1021 \<le> k" and "k \<le> 1000"
  shows "\<exists>y. double x = Some y \<and> \<bar>y - x\<bar> \<le> 2 powi (k - 54)"
proof (cases "x = 0")
  case True
  then show ?thesis by (simp add: double_def)
next
  case False
  let ?y = "of_int (round_half_even (x / ulp x)) * ulp x"
  have h: "(2::rat) powi (k - 53) / 2 = 2 powi (k - 54)"
    using power_int_diff [of "2::rat" "k - 53" 1] by simp
  have near: "\<bar>?y - x\<bar> \<le> 2 powi (k - 54)"
    using rounded_near [of x] ulp_le [OF False assms(1,2)] h by simp
  have "(2::rat) powi (k - 54) \<le> 2 powi 1000" "(2::rat) powi k \<le> 2 powi 1000"
    using assms(3) by (intro power_int_increasing; simp)+
  moreover have "(2::rat) powi 1000 + 2 powi 1000 < 2 ^ 1024" by simp
  ultimately have "\<not> 2 ^ 1024 \<le> \<bar>?y\<bar>" using near assms(1) by linarith
  with near False show ?thesis by (simp add: double_def)
qed

lemma double_of_int:
  assumes "\<bar>n\<bar> < 2 ^ 53"
  shows "double (of_int n) = Some (of_int n)"
proof (cases "n = 0")
  case True
  then show ?thesis by (simp add: double_def)
next
  case False
  have "of_int \<bar>n\<bar> < (of_int (2 ^ 53) :: rat)" using assms by (rule of_int_less_iff [THEN iffD2])
  then have b: "\<bar>of_int n :: rat\<bar> < 2 ^ 53" by simp
  then have "\<bar>of_int n :: rat\<bar> < 2 powi 53" by simp
  then have e: "binary_exponent (of_int n) < 53" by (rule binary_exponent_less [rotated]) (simp add: False)
  define k where "k = nat (- max (binary_exponent (of_int n) - 52) (- 1074))"
  have "ulp (of_int n) = 2 powi (- int k)" using e by (simp add: ulp_def k_def)
  then have u: "ulp (of_int n) = 1 / 2 ^ k" by (simp add: power_int_minus divide_inverse)
  have "of_int n / ulp (of_int n) = of_int (n * 2 ^ k)" by (simp add: u)
  then have "of_int (round_half_even (of_int n / ulp (of_int n))) * ulp (of_int n) = of_int n"
    by (simp only: round_half_even_of_int) (simp add: u)
  with b show ?thesis by (simp add: double_def False)
qed

end
