(* ===== verification/Market_Data_Client.thy ===== *)
theory Market_Data_Client
  imports Decimal_Text Market_Data_Service Doubles
begin

text \<open>
  \<open>app/market_data/websocket_client.py\<close>: the market data feed.

  A message is parsed into JSON and searched for quotes (\<open>extract_ticks\<close>); every tick is applied
  in a transaction of its own (\<open>serve_message\<close>); an exception ends the connection, and with it
  what is left of the message and of the messages that would have followed on it, and the client
  connects anew (\<open>serve_connection\<close>, \<open>run_feed\<close>). What \<open>json.loads\<close> makes of a raw message
  is the argument of \<open>extract_ticks\<close>: a value, or an exception that \<open>_extract_ticks\<close> catches or does
  not. The texts Python prints for finite floats and for the items of a list or dictionary,
  \<open>datetime.fromisoformat\<close> and the clock are parameters (\<open>feed_env\<close>). Floats are the rational numbers
  they denote, rounded as IEEE doubles are (\<open>double\<close>), or one of the special values; the sign of
  zero is not represented.
\<close>

section \<open>Python values\<close>

datatype pyfloat = Float rat | Inf bool \<comment> \<open>negative\<close> | Not_a_number

datatype json_value =
    VNull | VBool bool | VInt int | VFloat pyfloat | VText string
  | VList "json_value list" | VObject "(string \<times> json_value) list"

datatype loaded =
    Payload json_value
  | NotJson \<comment> \<open>\<open>JSONDecodeError\<close> or \<open>TypeError\<close>\<close>
  | LoadsRaises \<comment> \<open>another exception, such as \<open>UnicodeDecodeError\<close> on a binary frame\<close>

record feed_env =
  float_text :: "rat \<Rightarrow> string"
  items_text :: "json_value \<Rightarrow> string"
  fromisoformat :: "string \<Rightarrow> (timestamp \<times> timestamp option) option" \<comment> \<open>wall clock, offset from UTC\<close>
  utcnow :: timestamp

fun truthy :: "json_value \<Rightarrow> bool" where
  "truthy VNull = False"
| "truthy (VBool b) = b"
| "truthy (VInt n) = (n \<noteq> 0)"
| "truthy (VFloat x) = (x \<noteq> Float 0)"
| "truthy (VText s) = (s \<noteq> [])"
| "truthy (VList xs) = (xs \<noteq> [])"
| "truthy (VObject fs) = (fs \<noteq> [])"

text \<open>\<open>a or b\<close>, and \<open>record.get(k)\<close>.\<close>

definition py_or :: "json_value \<Rightarrow> json_value \<Rightarrow> json_value" where
  "py_or a b = (if truthy a then a else b)"

definition dict_get :: "(string \<times> json_value) list \<Rightarrow> string \<Rightarrow> json_value" where
  "dict_get fs k = (case map_of fs k of None \<Rightarrow> VNull | Some v \<Rightarrow> v)"

definition int_text :: "int \<Rightarrow> string" where
  "int_text n = (if n < 0 then ''-'' @ nat_text (nat (- n)) else nat_text (nat n))"

fun py_str :: "feed_env \<Rightarrow> json_value \<Rightarrow> string" where
  "py_str fe VNull = ''None''"
| "py_str fe (VBool b) = (if b then ''True'' else ''False'')"
| "py_str fe (VInt n) = int_text n"
| "py_str fe (VFloat (Float x)) = float_text fe x"
| "py_str fe (VFloat (Inf negative)) = (if negative then ''-inf'' else ''inf'')"
| "py_str fe (VFloat Not_a_number) = ''nan''"
| "py_str fe (VText s) = s"
| "py_str fe (VList xs) = ''['' @ items_text fe (VList xs) @ '']''"
| "py_str fe (VObject fs) = ''{'' @ items_text fe (VObject fs) @ ''}''"

section \<open>Messages to ticks\<close>

datatype feed_error =
    InvalidOperation \<comment> \<open>\<open>price <= 0\<close> on a NaN\<close>
  | TimestampError \<comment> \<open>\<open>OverflowError\<close> or \<open>ValueError\<close> of a timestamp\<close>
  | LoadsError
  | TickError "oms_error option" \<comment> \<open>applying a tick raised\<close>

record tick =
  t_symbol :: string
  t_price :: decimal
  t_observed_at :: timestamp

text \<open>
  \<open>datetime.fromtimestamp(t, tz=UTC)\<close>: the fraction in microseconds, rounded half to even, and a
  year from 1 to 9999.
\<close>

definition fromtimestamp :: "rat \<Rightarrow> feed_error + timestamp" where
  "fromtimestamp t =
     (let whole = (if 0 \<le> t then \<lfloor>t\<rfloor> else - \<lfloor>- t\<rfloor>)
      in case double ((t - of_int whole) * 10 ^ 6) of
           None \<Rightarrow> Inl TimestampError
         | Some fraction \<Rightarrow>
             (let micro = whole * 10 ^ 6 + round_half_even fraction
              in if - 62135596800 * 10 ^ 6 \<le> micro \<and> micro < 253402300800 * 10 ^ 6 then Inr micro
                 else Inl TimestampError))"

definition from_number :: "rat \<Rightarrow> feed_error + timestamp" where
  "from_number x =
     (case double x of
        None \<Rightarrow> Inl TimestampError
      | Some t \<Rightarrow>
          if 10000000000 < t then
            (case double (t / 1000) of None \<Rightarrow> Inl TimestampError | Some t \<Rightarrow> fromtimestamp t)
          else fromtimestamp t)"

definition replace_Z :: "string \<Rightarrow> string" where
  "replace_Z s = concat (map (\<lambda>c. if c = CHR ''Z'' then ''+00:00'' else [c]) s)"

fun parse_timestamp :: "feed_env \<Rightarrow> json_value \<Rightarrow> feed_error + timestamp" where
  "parse_timestamp fe (VBool b) = from_number (if b then 1 else 0)"
| "parse_timestamp fe (VInt n) = from_number (of_int n)"
| "parse_timestamp fe (VFloat (Float x)) = from_number x"
| "parse_timestamp fe (VFloat x) = Inl TimestampError"
| "parse_timestamp fe (VText s) =
     (case fromisoformat fe (replace_Z s) of
        None \<Rightarrow> Inr (utcnow fe)
      | Some (wall, None) \<Rightarrow> Inr wall
      | Some (wall, Some offset) \<Rightarrow> Inr (wall - offset))"
| "parse_timestamp fe v = Inr (utcnow fe)"

text \<open>\<open>price <= 0\<close>\<close>

fun at_most_zero :: "decimal \<Rightarrow> feed_error + bool" where
  "at_most_zero (Finite p) = Inr (p \<le> 0)"
| "at_most_zero (Infinite negative) = Inr negative"
| "at_most_zero NaN = Inl InvalidOperation"

definition raw_symbol :: "(string \<times> json_value) list \<Rightarrow> json_value" where
  "raw_symbol record = py_or (dict_get record ''symbol'') (dict_get record ''s'')"

definition raw_price :: "(string \<times> json_value) list \<Rightarrow> json_value" where
  "raw_price record =
     py_or (py_or (py_or (dict_get record ''price'') (dict_get record ''ltp''))
       (dict_get record ''last_price'')) (dict_get record ''p'')"

definition raw_timestamp :: "(string \<times> json_value) list \<Rightarrow> json_value" where
  "raw_timestamp record = py_or (dict_get record ''timestamp'') (dict_get record ''time'')"

definition extract_record :: "feed_env \<Rightarrow> json_value \<Rightarrow> feed_error + tick option" where
  "extract_record fe record =
     (case record of
        VObject fs \<Rightarrow>
          if \<not> truthy (raw_symbol fs) \<or> raw_price fs = VNull then Inr None
          else
            (case decimal_of_text (py_str fe (raw_price fs)) of
               None \<Rightarrow> Inr None
             | Some price \<Rightarrow>
                 and_then (at_most_zero price) (\<lambda>skip.
                 if skip then Inr None
                 else
                   and_then (parse_timestamp fe (raw_timestamp fs)) (\<lambda>observed_at.
                   Inr (Some \<lparr>t_symbol = upper (py_str fe (raw_symbol fs)), t_price = price,
                              t_observed_at = observed_at\<rparr>))))
      | _ \<Rightarrow> Inr None)"

fun extract_records :: "feed_env \<Rightarrow> json_value list \<Rightarrow> tick list \<Rightarrow> feed_error + tick list" where
  "extract_records fe [] ticks = Inr ticks"
| "extract_records fe (r # rs) ticks =
     and_then (extract_record fe r) (\<lambda>t.
     extract_records fe rs (case t of None \<Rightarrow> ticks | Some t \<Rightarrow> ticks @ [t]))"

definition records_of :: "json_value \<Rightarrow> json_value list" where
  "records_of payload = (case payload of VList rs \<Rightarrow> rs | _ \<Rightarrow> [payload])"

fun extract_ticks :: "feed_env \<Rightarrow> loaded \<Rightarrow> feed_error + tick list" where
  "extract_ticks fe NotJson = Inr []"
| "extract_ticks fe LoadsRaises = Inl LoadsError"
| "extract_ticks fe (Payload payload) = extract_records fe (records_of payload) []"

section \<open>The connection\<close>

text \<open>
  One tick: a transaction of \<open>apply_tick\<close> on a session of its own. A column \<open>NUMERIC(24, 8)\<close> cannot
  hold an infinite number, so the driver raises.
\<close>

definition serve_tick :: "env \<Rightarrow> tick \<Rightarrow> database \<Rightarrow> feed_error option \<times> database" where
  "serve_tick e t db =
     (case t_price t of
        Finite price \<Rightarrow>
          (case apply_tick e (t_symbol t) price (t_observed_at t) (open_session db) of
             (Inl err, s) \<Rightarrow> (Some (TickError (Some err)), tx s)
           | (Inr _, s) \<Rightarrow> (None, tx s))
      | _ \<Rightarrow> (Some (TickError None), db))"

fun serve_ticks :: "env \<Rightarrow> tick list \<Rightarrow> database \<Rightarrow> feed_error option \<times> database" where
  "serve_ticks e [] db = (None, db)"
| "serve_ticks e (t # ts) db =
     (case serve_tick e t db of (None, db) \<Rightarrow> serve_ticks e ts db | (Some err, db) \<Rightarrow> (Some err, db))"

definition serve_message :: "env \<Rightarrow> feed_env \<Rightarrow> loaded \<Rightarrow> database \<Rightarrow> feed_error option \<times> database" where
  "serve_message e fe raw_message db =
     (case extract_ticks fe raw_message of Inl err \<Rightarrow> (Some err, db) | Inr ticks \<Rightarrow> serve_ticks e ticks db)"

text \<open>
  The messages of one connection, each with the state of the clock when it is served; the result
  says which exception ended the connection (the client then sleeps before it connects again).
\<close>

fun serve_connection ::
  "env \<Rightarrow> (feed_env \<times> loaded) list \<Rightarrow> database \<Rightarrow> feed_error option \<times> database" where
  "serve_connection e [] db = (None, db)"
| "serve_connection e ((fe, raw_message) # rest) db =
     (case serve_message e fe raw_message db of
        (None, db) \<Rightarrow> serve_connection e rest db
      | (Some err, db) \<Rightarrow> (Some err, db))"

text \<open>The loop of \<open>run\<close> over the connections it makes; \<open>None\<close> is one that could not be made.\<close>

fun run_connections :: "env \<Rightarrow> (feed_env \<times> loaded) list option list \<Rightarrow> database \<Rightarrow> database" where
  "run_connections e [] db = db"
| "run_connections e (None # rest) db = run_connections e rest db"
| "run_connections e (Some messages # rest) db =
     run_connections e rest (snd (serve_connection e messages db))"

definition run_feed ::
  "env \<Rightarrow> string option \<Rightarrow> (feed_env \<times> loaded) list option list \<Rightarrow> database \<Rightarrow> database" where
  "run_feed e market_data_url connections db =
     (case market_data_url of
        None \<Rightarrow> db
      | Some url \<Rightarrow> if url = [] then db else run_connections e connections db)"

text \<open>\<open>_subscribe\<close>: what is sent when a connection is made.\<close>

definition subscribe :: "string list \<Rightarrow> json_value option" where
  "subscribe symbols =
     (if symbols = [] then None
      else Some (VObject [(''action'', VText ''subscribe''), (''symbols'', VList (map VText symbols))]))"

end
