(* ===== verification/Settings.thy ===== *)
theory Settings
  imports Market_Data_Client
begin

text \<open>
  \<open>app/config.py\<close>: the settings, their defaults and constraints, and the lists that may be written
  as comma separated text. Where the values come from (the environment, the file \<open>.env\<close>, their
  parsing into the types of the fields) is the business of \<open>pydantic_settings\<close>; the settings here
  are what it has parsed.
\<close>

section \<open>Lists as text\<close>

text \<open>\<open>value.split(",")\<close>\<close>

fun split_on :: "char \<Rightarrow> string \<Rightarrow> string list" where
  "split_on c [] = [[]]"
| "split_on c (x # s) =
     (if x = c then [] # split_on c s else (x # hd (split_on c s)) # tl (split_on c s))"

datatype csv_value = CsvText string | CsvList "string list"

fun split_csv :: "csv_value \<Rightarrow> string list" where
  "split_csv (CsvList items) = items"
| "split_csv (CsvText s) = filter (\<lambda>item. item \<noteq> []) (map strip (split_on CHR '','' s))"

section \<open>The settings\<close>

record settings =
  app_name :: string
  app_version :: string
  environment :: string
  log_level :: string
  database_url :: string
  broker_min_delay_seconds :: pyfloat
  broker_max_delay_seconds :: pyfloat
  broker_random_seed :: int
  s_day_order_expiry_seconds :: int
  day_order_scan_interval_seconds :: pyfloat
  market_data_enabled :: bool
  market_data_url :: "string option"
  market_data_symbols :: "string list"
  market_data_reconnect_seconds :: pyfloat
  cors_origins :: "string list"

text \<open>The defaults; 0.2 and 0.8 are the doubles next to these decimals.\<close>

definition default_settings :: "string \<Rightarrow> settings" where
  "default_settings url =
     \<lparr>app_name = ''Order Management System'', app_version = ''1.0.0'', environment = ''development'',
      log_level = ''INFO'', database_url = url, broker_min_delay_seconds = Float (3602879701896397 / 2 ^ 54),
      broker_max_delay_seconds = Float (3602879701896397 / 2 ^ 52), broker_random_seed = 42, s_day_order_expiry_seconds = 300,
      day_order_scan_interval_seconds = Float 1, market_data_enabled = False, market_data_url = None,
      market_data_symbols = [], market_data_reconnect_seconds = Float 5,
      cors_origins = [''http://localhost:3000'']\<rparr>"

text \<open>\<open>Field(ge=0)\<close> and \<open>Field(gt=0)\<close> on floats.\<close>

fun ge_0 :: "pyfloat \<Rightarrow> bool" where
  "ge_0 (Float x) = (0 \<le> x)"
| "ge_0 (Inf negative) = (\<not> negative)"
| "ge_0 Not_a_number = False"

fun gt_0 :: "pyfloat \<Rightarrow> bool" where
  "gt_0 (Float x) = (0 < x)"
| "gt_0 (Inf negative) = (\<not> negative)"
| "gt_0 Not_a_number = False"

definition validate_settings :: "settings \<Rightarrow> settings option" where
  "validate_settings st =
     (if ge_0 (broker_min_delay_seconds st) \<and> ge_0 (broker_max_delay_seconds st) \<and>
         0 < s_day_order_expiry_seconds st \<and> gt_0 (day_order_scan_interval_seconds st) \<and>
         gt_0 (market_data_reconnect_seconds st)
      then Some st else None)"

section \<open>Lemmas\<close>

lemma split_on_nonempty [simp]: "split_on c s \<noteq> []"
  by (cases s) auto

lemma split_on_no_separator: "c \<notin> set s \<Longrightarrow> split_on c s = [s]"
  by (induction s) auto

lemma split_on_item: "c \<notin> set s \<Longrightarrow> split_on c (s @ c # t) = s # split_on c t"
  by (induction s) auto

lemma split_on_pieces: "piece \<in> set (split_on c s) \<Longrightarrow> c \<notin> set piece"
proof (induction s arbitrary: piece)
  case (Cons x s)
  then show ?case by (cases "split_on c s") (auto split: if_splits)
qed simp

lemma set_strip: "set (strip s) \<subseteq> set s"
  unfolding strip_def by (auto dest!: set_dropWhileD)

text \<open>What a comma separated text yields is clean, and a clean list survives being written and read.\<close>

definition clean_item :: "string \<Rightarrow> bool" where
  "clean_item item \<longleftrightarrow> item \<noteq> [] \<and> CHR '','' \<notin> set item \<and> \<not> is_space (hd item) \<and> \<not> is_space (last item)"

fun join_csv :: "string list \<Rightarrow> string" where
  "join_csv [] = []"
| "join_csv [item] = item"
| "join_csv (item # items) = item @ CHR '','' # join_csv items"

lemma strip_clean: "clean_item item \<Longrightarrow> strip item = item"
proof -
  assume "clean_item item"
  then have i: "item \<noteq> []" "\<not> is_space (hd item)" "\<not> is_space (last item)" by (simp_all add: clean_item_def)
  have "dropWhile is_space item = item" using i(1,2) by (cases item) auto
  moreover have "dropWhile is_space (rev item) = rev item"
    using i(1,3) by (cases item rule: rev_cases) auto
  ultimately show ?thesis by (simp add: strip_def)
qed

lemma split_csv_clean: "list_all clean_item (split_csv (CsvText s))"
proof -
  have "clean_item (strip piece)" if "piece \<in> set (split_on CHR '','' s)" "strip piece \<noteq> []" for piece
    using that strip_ends [OF that(2)] split_on_pieces [OF that(1)] set_strip [of piece] by (auto simp: clean_item_def)
  then show ?thesis by (auto simp: list_all_iff)
qed

lemma split_csv_reads_join: "list_all clean_item items \<Longrightarrow> split_csv (CsvText (join_csv items)) = items"
proof (induction items rule: join_csv.induct)
  case 1
  then show ?case by (simp add: strip_def)
next
  case (2 item)
  then have "CHR '','' \<notin> set item" "item \<noteq> []" by (simp_all add: clean_item_def)
  with 2 show ?case by (simp add: split_on_no_separator strip_clean)
next
  case (3 item item' items)
  then have "CHR '','' \<notin> set item" "item \<noteq> []" by (simp_all add: clean_item_def)
  with 3 show ?case by (simp add: split_on_item strip_clean)
qed

lemma default_settings_valid: "validate_settings (default_settings url) = Some (default_settings url)"
  by (simp add: validate_settings_def default_settings_def)

end
