(* ===== verification/Http_Routes.thy ===== *)
theory Http_Routes
  imports System_Properties Application Settings
begin

text \<open>
  The routing of \<open>app/main.py\<close>, \<open>app/api/router.py\<close> and the decorators of \<open>app/api/\<close>: which function
  answers which method and path.

  Routes are kept in the order in which the code registers them, with the full path template; the
  first route that has the method and whose template matches the path answers. Matching a template
  is Starlette's: it is the parameter \<open>match\<close>, and \<open>documented_match\<close> is what its documentation says
  of templates like the ones here. What FastAPI makes of the path parameters (\<open>parse_uuid\<close>), the
  body and the query is part of the request; a request no route answers gets a reply of the
  framework (404, 405 or a redirect), which is not modelled.
\<close>

section \<open>The route table\<close>

datatype endpoint =
    Create_Account | Get_Account
  | Create_Order | List_Orders | Get_Order | Cancel_Order | List_Order_Fills | List_Order_Events
  | List_Positions | Get_Pnl_Summary
  | Health_Check

record route =
  rt_method :: string
  rt_path :: string
  rt_status :: nat
  rt_endpoint :: endpoint

record api_router =
  ar_prefix :: string
  ar_routes :: "route list"

definition APIRouter :: "string \<Rightarrow> api_router" where
  "APIRouter prefix = \<lparr>ar_prefix = prefix, ar_routes = []\<rparr>"

text \<open>The decorators \<open>router.get\<close> and \<open>router.post\<close>, and \<open>include_router\<close>: each puts the prefix in front.\<close>

definition add_route :: "string \<Rightarrow> string \<Rightarrow> nat \<Rightarrow> endpoint \<Rightarrow> api_router \<Rightarrow> api_router" where
  "add_route http_method path status f router =
     router\<lparr>ar_routes := ar_routes router @
       [\<lparr>rt_method = http_method, rt_path = ar_prefix router @ path, rt_status = status, rt_endpoint = f\<rparr>]\<rparr>"

definition include_router :: "api_router \<Rightarrow> api_router \<Rightarrow> api_router" where
  "include_router child router =
     router\<lparr>ar_routes := ar_routes router @ map (rt_path_update (\<lambda>path. ar_prefix router @ path)) (ar_routes child)\<rparr>"

definition accounts_router :: api_router where
  "accounts_router =
     add_route ''GET'' ''/{account_id}'' 200 Get_Account (
     add_route ''POST'' '''' 201 Create_Account (
     APIRouter ''/accounts''))"

definition orders_router :: api_router where
  "orders_router =
     add_route ''GET'' ''/{order_id}/events'' 200 List_Order_Events (
     add_route ''GET'' ''/{order_id}/fills'' 200 List_Order_Fills (
     add_route ''POST'' ''/{order_id}/cancel'' 202 Cancel_Order (
     add_route ''GET'' ''/{order_id}'' 200 Get_Order (
     add_route ''GET'' '''' 200 List_Orders (
     add_route ''POST'' '''' 201 Create_Order (
     APIRouter ''/orders''))))))"

definition positions_router :: api_router where
  "positions_router =
     add_route ''GET'' ''/pnl'' 200 Get_Pnl_Summary (
     add_route ''GET'' ''/positions'' 200 List_Positions (
     APIRouter ''/accounts/{account_id}''))"

definition api_router_v1 :: api_router where
  "api_router_v1 =
     include_router positions_router (
     include_router orders_router (
     include_router accounts_router (
     APIRouter ''/api/v1'')))"

text \<open>The application is a router without a prefix.\<close>

definition create_app :: "route list" where
  "create_app =
     ar_routes (
       add_route ''GET'' ''/health'' 200 Health_Check (
       include_router api_router_v1 (
       APIRouter '''')))"

section \<open>Matching\<close>

type_synonym path_params = "(string \<times> string) list"

definition is_param :: "string \<Rightarrow> bool" where
  "is_param seg \<longleftrightarrow> seg \<noteq> [] \<and> hd seg = CHR ''{'' \<and> last seg = CHR ''}''"

text \<open>A parameter stands for one segment that is not empty; what is no parameter stands for itself.\<close>

fun match_segments :: "string list \<Rightarrow> string list \<Rightarrow> path_params option" where
  "match_segments [] [] = Some []"
| "match_segments (t # ts) (seg # segs) =
     (if is_param t then
        (if seg = [] then None else map_option (\<lambda>ps. (butlast (tl t), seg) # ps) (match_segments ts segs))
      else if t = seg then match_segments ts segs else None)"
| "match_segments _ _ = None"

abbreviation segments :: "string \<Rightarrow> string list" where
  "segments path \<equiv> split_on CHR ''/'' path"

definition documented_match :: "(string \<Rightarrow> string \<Rightarrow> path_params option) \<Rightarrow> bool" where
  "documented_match match \<longleftrightarrow>
     (\<forall>r\<in>set create_app. \<forall>path. CHR 0x0A \<notin> set path \<longrightarrow>
        match (rt_path r) path = match_segments (segments (rt_path r)) (segments path))"

definition find_route ::
  "(string \<Rightarrow> string \<Rightarrow> path_params option) \<Rightarrow> string \<Rightarrow> string \<Rightarrow> (route \<times> path_params) option" where
  "find_route match http_method path =
     map_option (\<lambda>r. (r, the (match (rt_path r) path)))
       (find (\<lambda>r. rt_method r = http_method \<and> match (rt_path r) path \<noteq> None) create_app)"

section \<open>Serving a request\<close>

record order_query =
  q_account_id :: "uuid option"
  q_status :: "order_status option"
  q_open_only :: bool
  q_limit :: int
  q_offset :: int

text \<open>A request, with its body and query as far as they decode as what the endpoint declares.\<close>

text \<open>The orders in which the queries of a request find rows of the same key.\<close>

record scans =
  sc_orders :: "order scan"
  sc_fills :: "fill scan"
  sc_events :: "order_event scan"

record http_request =
  rq_method :: string
  rq_path :: string
  rq_account :: "account_create option"
  rq_order :: "order_create option"
  rq_query :: "order_query option"

datatype http_body =
    AccountBody account_response
  | OrderBody order_response
  | OrdersBody "order_response list"
  | CancelBody cancel_order_response
  | FillsBody "fill_response list"
  | EventsBody "order_event_response list"
  | PositionsBody "position_response list"
  | PnlBody pnl_summary
  | HealthBody string

text \<open>
  With the identifier in the path, where the path has one. The database after a request that reads is
  the one before it: the functions of \<open>api/\<close> that answer GET only call queries of the repositories,
  and \<open>get_db_session\<close> closes the session without a commit.
\<close>

fun call_endpoint ::
  "scans \<Rightarrow> env \<Rightarrow> (broker_order \<Rightarrow> string option) \<Rightarrow> (uuid \<Rightarrow> string \<Rightarrow> string option) \<Rightarrow> endpoint \<Rightarrow> uuid \<Rightarrow>
     http_request \<Rightarrow> database \<Rightarrow> http_body reply \<times> database" where
  "call_endpoint sc e submit cancel Create_Account i req db =
     (case rq_account req of
        None \<Rightarrow> (ValidationFailed, db)
      | Some raw \<Rightarrow> apfst (map_reply AccountBody) (post_account e (rq_path req) raw db))"
| "call_endpoint sc e submit cancel Get_Account i req db = (map_reply AccountBody (get_account_by_id (rq_path req) i db), db)"
| "call_endpoint sc e submit cancel Create_Order i req db =
     (case rq_order req of
        None \<Rightarrow> (ValidationFailed, db)
      | Some raw \<Rightarrow> apfst (map_reply OrderBody) (post_order e submit (\<lambda>d. d) (rq_path req) raw db))"
| "call_endpoint sc e submit cancel List_Orders i req db =
     (case rq_query req of
        None \<Rightarrow> (ValidationFailed, db)
      | Some q \<Rightarrow>
          (map_reply OrdersBody
             (get_orders (sc_orders sc) (q_account_id q) (q_status q) (q_open_only q) (q_limit q) (q_offset q) db), db))"
| "call_endpoint sc e submit cancel Get_Order i req db = (map_reply OrderBody (get_order_by_id (rq_path req) i db), db)"
| "call_endpoint sc e submit cancel Cancel_Order i req db =
     apfst (map_reply CancelBody) (post_cancel e cancel (rq_path req) i db)"
| "call_endpoint sc e submit cancel List_Order_Fills i req db = (map_reply FillsBody (get_order_fills (sc_fills sc) (rq_path req) i db), db)"
| "call_endpoint sc e submit cancel List_Order_Events i req db = (map_reply EventsBody (get_order_events (sc_events sc) (rq_path req) i db), db)"
| "call_endpoint sc e submit cancel List_Positions i req db = (map_reply PositionsBody (get_positions (rq_path req) i db), db)"
| "call_endpoint sc e submit cancel Get_Pnl_Summary i req db = (map_reply PnlBody (get_pnl (rq_path req) i db), db)"
| "call_endpoint sc e submit cancel Health_Check i req db = (Reply 200 (HealthBody ''ok''), db)"

definition serve ::
  "(string \<Rightarrow> string \<Rightarrow> path_params option) \<Rightarrow> (string \<Rightarrow> uuid option) \<Rightarrow> scans \<Rightarrow> env \<Rightarrow> (broker_order \<Rightarrow> string option) \<Rightarrow>
     (uuid \<Rightarrow> string \<Rightarrow> string option) \<Rightarrow> http_request \<Rightarrow> database \<Rightarrow> (http_body reply \<times> database) option" where
  "serve match parse_uuid sc e submit cancel req db =
     (case find_route match (rq_method req) (rq_path req) of
        None \<Rightarrow> None
      | Some (r, []) \<Rightarrow> Some (call_endpoint sc e submit cancel (rt_endpoint r) [] req db)
      | Some (r, (_, seg) # _) \<Rightarrow>
          (case parse_uuid seg of
             None \<Rightarrow> Some (ValidationFailed, db)
           | Some i \<Rightarrow> Some (call_endpoint sc e submit cancel (rt_endpoint r) i req db)))"

section \<open>Lemmas\<close>

lemma route_table:
  "create_app =
    [\<lparr>rt_method = ''POST'', rt_path = ''/api/v1/accounts'', rt_status = 201, rt_endpoint = Create_Account\<rparr>,
     \<lparr>rt_method = ''GET'', rt_path = ''/api/v1/accounts/{account_id}'', rt_status = 200, rt_endpoint = Get_Account\<rparr>,
     \<lparr>rt_method = ''POST'', rt_path = ''/api/v1/orders'', rt_status = 201, rt_endpoint = Create_Order\<rparr>,
     \<lparr>rt_method = ''GET'', rt_path = ''/api/v1/orders'', rt_status = 200, rt_endpoint = List_Orders\<rparr>,
     \<lparr>rt_method = ''GET'', rt_path = ''/api/v1/orders/{order_id}'', rt_status = 200, rt_endpoint = Get_Order\<rparr>,
     \<lparr>rt_method = ''POST'', rt_path = ''/api/v1/orders/{order_id}/cancel'', rt_status = 202, rt_endpoint = Cancel_Order\<rparr>,
     \<lparr>rt_method = ''GET'', rt_path = ''/api/v1/orders/{order_id}/fills'', rt_status = 200, rt_endpoint = List_Order_Fills\<rparr>,
     \<lparr>rt_method = ''GET'', rt_path = ''/api/v1/orders/{order_id}/events'', rt_status = 200, rt_endpoint = List_Order_Events\<rparr>,
     \<lparr>rt_method = ''GET'', rt_path = ''/api/v1/accounts/{account_id}/positions'', rt_status = 200, rt_endpoint = List_Positions\<rparr>,
     \<lparr>rt_method = ''GET'', rt_path = ''/api/v1/accounts/{account_id}/pnl'', rt_status = 200, rt_endpoint = Get_Pnl_Summary\<rparr>,
     \<lparr>rt_method = ''GET'', rt_path = ''/health'', rt_status = 200, rt_endpoint = Health_Check\<rparr>]"
  by (simp add: create_app_def api_router_v1_def accounts_router_def orders_router_def positions_router_def
      add_route_def include_router_def APIRouter_def)

text \<open>Two templates can match the same path only if they agree wherever neither has a parameter.\<close>

definition compatible :: "string list \<Rightarrow> string list \<Rightarrow> bool" where
  "compatible ts us \<longleftrightarrow> list_all2 (\<lambda>t u. is_param t \<or> is_param u \<or> t = u) ts us"

lemma both_match: "match_segments ts segs = Some ps \<Longrightarrow> match_segments us segs = Some qs \<Longrightarrow> compatible ts us"
proof (induction ts segs arbitrary: ps us qs rule: match_segments.induct)
  case 1
  then show ?case by (cases us) (simp_all add: compatible_def)
next
  case (2 t ts seg segs)
  from 2(4) obtain u us' where us: "us = u # us'" by (cases us) simp_all
  have "compatible ts us'" using 2 by (auto simp: us split: if_splits)
  moreover have "is_param t \<or> is_param u \<or> t = u" using 2(3,4) by (auto simp: us split: if_splits)
  ultimately show ?case by (simp add: compatible_def us)
qed simp_all

definition rivals :: "route \<Rightarrow> route \<Rightarrow> bool" where
  "rivals r r' \<longleftrightarrow> rt_method r = rt_method r' \<and> compatible (segments (rt_path r)) (segments (rt_path r'))"

lemma rivals_sym: "rivals r r' \<Longrightarrow> rivals r' r"
  unfolding rivals_def compatible_def by (auto simp: list_all2_conv_all_nth)

lemma sorted_wrt_either:
  "sorted_wrt P xs \<Longrightarrow> x \<in> set xs \<Longrightarrow> y \<in> set xs \<Longrightarrow> x = y \<or> P x y \<or> P y x"
  by (induction xs) auto

lemma split_on_Cons:
  "split_on c (x # s) =
     (if x = c then [] # split_on c s else case split_on c s of [] \<Rightarrow> [[x]] | piece # pieces \<Rightarrow> (x # piece) # pieces)"
  by (cases "split_on c s") simp_all

lemma route_segments:
  "map (\<lambda>r. (rt_method r, segments (rt_path r))) create_app =
    [(''POST'', ['''', ''api'', ''v1'', ''accounts'']),
     (''GET'', ['''', ''api'', ''v1'', ''accounts'', ''{account_id}'']),
     (''POST'', ['''', ''api'', ''v1'', ''orders'']),
     (''GET'', ['''', ''api'', ''v1'', ''orders'']),
     (''GET'', ['''', ''api'', ''v1'', ''orders'', ''{order_id}'']),
     (''POST'', ['''', ''api'', ''v1'', ''orders'', ''{order_id}'', ''cancel'']),
     (''GET'', ['''', ''api'', ''v1'', ''orders'', ''{order_id}'', ''fills'']),
     (''GET'', ['''', ''api'', ''v1'', ''orders'', ''{order_id}'', ''events'']),
     (''GET'', ['''', ''api'', ''v1'', ''accounts'', ''{account_id}'', ''positions'']),
     (''GET'', ['''', ''api'', ''v1'', ''accounts'', ''{account_id}'', ''pnl'']),
     (''GET'', ['''', ''health''])]"
  by (simp add: route_table split_on_Cons del: split_on.simps(2))

lemma routes_not_rivals: "sorted_wrt (\<lambda>r r'. \<not> rivals r r') create_app"
proof -
  have "sorted_wrt (\<lambda>x y. \<not> (fst x = fst y \<and> compatible (snd x) (snd y)))
      (map (\<lambda>r. (rt_method r, segments (rt_path r))) create_app)"
    unfolding route_segments by (simp add: compatible_def is_param_def)
  then show ?thesis by (simp add: sorted_wrt_map rivals_def)
qed

lemma at_most_one_route:
  assumes "documented_match match" and "CHR 0x0A \<notin> set path" and "r \<in> set create_app" and "r' \<in> set create_app"
    and "rt_method r = rt_method r'" and "match (rt_path r) path \<noteq> None" and "match (rt_path r') path \<noteq> None"
  shows "r = r'"
proof -
  have "match (rt_path q) path = match_segments (segments (rt_path q)) (segments path)" if "q \<in> set create_app" for q
    using assms(1,2) that by (simp add: documented_match_def)
  with assms(3-7) have "rivals r r'"
    by (auto simp: rivals_def intro: both_match)
  with sorted_wrt_either [OF routes_not_rivals assms(3,4)] rivals_sym show ?thesis by blast
qed

lemma find_route_matching:
  assumes "documented_match match" and "CHR 0x0A \<notin> set path" and "r \<in> set create_app"
    and "match_segments (segments (rt_path r)) (segments path) = Some ps"
  shows "find_route match (rt_method r) path = Some (r, ps)"
proof -
  have m: "match (rt_path r) path = Some ps" using assms by (simp add: documented_match_def)
  let ?P = "\<lambda>q. rt_method q = rt_method r \<and> match (rt_path q) path \<noteq> None"
  have "find ?P create_app = Some r"
  proof (cases "find ?P create_app")
    case None
    with m assms(3) show ?thesis by (auto simp: find_None_iff)
  next
    case (Some q)
    then have "q \<in> set create_app" "?P q" by (auto simp: find_Some_iff)
    with at_most_one_route [OF assms(1,2,3)] m have "q = r" by fastforce
    with Some show ?thesis by simp
  qed
  with m show ?thesis by (simp add: find_route_def)
qed

text \<open>What a request does to the database: it is left as it is, or an action of the system is run.\<close>

definition order_answer :: "env \<Rightarrow> (broker_order \<Rightarrow> string option) \<Rightarrow> order_create \<Rightarrow> database \<Rightarrow> string option" where
  "order_answer e submit raw db =
     Option.bind (validate_order_create raw) (\<lambda>payload. Option.bind (submitted e payload db) submit)"

definition cancel_answer :: "env \<Rightarrow> (uuid \<Rightarrow> string \<Rightarrow> string option) \<Rightarrow> uuid \<Rightarrow> database \<Rightarrow> string option" where
  "cancel_answer e cancel i db =
     Option.bind (notified e i ''Client requested cancellation'' db) (\<lambda>oid. cancel oid ''Client requested cancellation'')"

lemma post_order_runs:
  "snd (post_order e submit (\<lambda>d. d) path raw db) = run e (PostOrder raw (order_answer e submit raw db)) db"
proof (cases "validate_order_create raw")
  case (Some payload)
  have "create_order e submit (\<lambda>d. d) payload (open_session db) =
      create_order e (\<lambda>_. order_answer e submit raw db) (\<lambda>d. d) payload (open_session db)"
    by (rule create_order_submits) (simp add: order_answer_def Some)
  with Some show ?thesis by (simp add: post_order_def case_prod_beta)
qed (simp add: post_order_def)

lemma post_cancel_runs:
  "snd (post_cancel e cancel path i db) = run e (PostCancel i (cancel_answer e cancel i db)) db"
proof -
  have "request_cancellation e cancel i ''Client requested cancellation'' (open_session db) =
      request_cancellation e (\<lambda>_ _. cancel_answer e cancel i db) i ''Client requested cancellation'' (open_session db)"
    by (rule request_cancellation_notifies) (simp add: cancel_answer_def)
  then show ?thesis by (simp add: post_cancel_def case_prod_beta)
qed

fun action_of ::
  "env \<Rightarrow> (broker_order \<Rightarrow> string option) \<Rightarrow> (uuid \<Rightarrow> string \<Rightarrow> string option) \<Rightarrow> endpoint \<Rightarrow> uuid \<Rightarrow>
     http_request \<Rightarrow> database \<Rightarrow> action option" where
  "action_of e submit cancel Create_Account i req db = map_option PostAccount (rq_account req)"
| "action_of e submit cancel Create_Order i req db =
     map_option (\<lambda>raw. PostOrder raw (order_answer e submit raw db)) (rq_order req)"
| "action_of e submit cancel Cancel_Order i req db = Some (PostCancel i (cancel_answer e cancel i db))"
| "action_of e submit cancel _ i req db = None"

lemma call_endpoint_database:
  "snd (call_endpoint sc e submit cancel ep i req db) =
     (case action_of e submit cancel ep i req db of None \<Rightarrow> db | Some a \<Rightarrow> run e a db)"
  by (cases ep)
    (simp_all add: post_order_runs post_cancel_runs del: run.simps(2,3) split: option.split,
     simp add: post_account_def case_prod_beta split: option.split)

lemma find_route_SomeD:
  assumes "find_route match http_method path = Some (r, ps)"
  shows "r \<in> set create_app" and "rt_method r = http_method" and "match (rt_path r) path = Some ps"
  using assms by (auto simp: find_route_def find_Some_iff)

lemma serve_database:
  assumes "serve match parse_uuid sc e submit cancel req db = Some (reply, db')"
  shows "db' = db \<or> (\<exists>r\<in>set create_app. \<exists>i a. rt_method r = rq_method req \<and>
    action_of e submit cancel (rt_endpoint r) i req db = Some a \<and> db' = run e a db)"
proof -
  from assms obtain r ps where r: "find_route match (rq_method req) (rq_path req) = Some (r, ps)"
    by (auto simp: serve_def split: option.splits)
  note d = find_route_SomeD [OF r]
  have "db' = db \<or> (\<exists>i. db' = snd (call_endpoint sc e submit cancel (rt_endpoint r) i req db))"
    using assms by (auto simp: serve_def r split: list.splits option.splits) (metis snd_conv)+
  then show ?thesis using d(1,2) by (auto simp: call_endpoint_database split: option.splits)
qed

lemma getters_do_nothing:
  "r \<in> set create_app \<Longrightarrow> rt_method r = ''GET'' \<Longrightarrow> action_of e submit cancel (rt_endpoint r) i req db = None"
  by (auto simp: route_table)

lemma answers_admissible:
  assumes "action_of e submit cancel ep i req db = Some a"
    and "\<And>raw. rq_order req = Some raw \<Longrightarrow> on_grid 8 (oc_quantity raw * oc_price raw)"
    and "\<And>b reason. submit b = Some reason \<Longrightarrow> length reason \<le> 477"
  shows "admissible db a"
proof -
  have "case order_answer e submit raw db of None \<Rightarrow> True | Some reason \<Rightarrow> length reason \<le> 477" for raw
    using assms(3) by (auto simp: order_answer_def split: option.split dest!: bind_eq_Some_conv [THEN iffD1])
  with assms(1,2) show ?thesis by (cases ep) auto
qed

section \<open>The routes of orders\<close>

abbreviation orders_route :: "string \<Rightarrow> nat \<Rightarrow> endpoint \<Rightarrow> route" where
  "orders_route http_method status f \<equiv>
     \<lparr>rt_method = http_method, rt_path = ''/api/v1/orders'', rt_status = status, rt_endpoint = f\<rparr>"

lemma find_orders_route:
  assumes "documented_match match" and "orders_route http_method status f \<in> set create_app"
  shows "find_route match http_method ''/api/v1/orders'' = Some (orders_route http_method status f, [])"
proof -
  have "match_segments (segments (rt_path (orders_route http_method status f))) (segments ''/api/v1/orders'') = Some []"
    by (simp add: split_on_Cons is_param_def del: split_on.simps(2))
  from find_route_matching [OF assms(1) _ assms(2) this] show ?thesis by simp
qed

lemma find_order_route:
  assumes "documented_match match" and "i \<noteq> []" and "CHR ''/'' \<notin> set i" and "CHR 0x0A \<notin> set i"
  shows "find_route match ''GET'' (''/api/v1/orders/'' @ i) =
    Some (\<lparr>rt_method = ''GET'', rt_path = ''/api/v1/orders/{order_id}'', rt_status = 200, rt_endpoint = Get_Order\<rparr>,
      [(''order_id'', i)])"
proof -
  let ?r = "\<lparr>rt_method = ''GET'', rt_path = ''/api/v1/orders/{order_id}'', rt_status = 200, rt_endpoint = Get_Order\<rparr>"
  have "match_segments (segments (rt_path ?r)) (segments (''/api/v1/orders/'' @ i)) = Some [(''order_id'', i)]"
    using assms(2,3) by (simp add: split_on_Cons split_on_no_separator is_param_def del: split_on.simps(2))
  from find_route_matching [OF assms(1) _ _ this] assms(4) show ?thesis by (simp add: route_table)
qed

section \<open>Reading an order back\<close>

lemma created_order_row:
  assumes "create_order e submit meanwhile payload (open_session db) = (Inr ord, s')"
    and "documented e" and "well_formed e db" and "valid_request payload"
  shows "order_row (tx s') (o_id ord) = Some ord" and "keys_distinct (tx s')"
proof -
  obtain route where t: "transaction e (create_order_body e payload) (open_session db) = (Inr (ord, route), s')"
    using assms(1) by (auto simp: create_order_def split: prod.splits sum.splits if_splits option.splits)
  show "keys_distinct (tx s')"
    using create_order_transaction_well_formed [OF t assms(2,3)] by (simp add: well_formed_def)
  note w = well_formed_settled [OF assms(3)]
  have k: "keys_distinct db" using assms(3) by (simp add: well_formed_def)
  from t assms(2-4) show "order_row (tx s') (o_id ord) = Some ord"
  proof (cases rule: create_order_transaction_cases)
    case (existing a)
    from leaves_unchanged(2) [OF existing(6) w] order_row_distinct [OF k existing(2)] show ?thesis by simp
  next
    case (rejected a)
    then show ?thesis using leavesD(2) [OF rejected(8), of "new_uuid e"] by (simp add: rejected_view_def)
  next
    case (routed a)
    then show ?thesis using leavesD(2) [OF routed(8), of "new_uuid e"] by (simp add: routed_view_def)
  qed
qed

lemma get_order_row:
  assumes "order_row db i = Some ord" and "keys_distinct db"
  shows "\<exists>s. get_order i (open_session db) = Inr (ord, s)"
proof -
  have "distinct (map o_id (orders db))" using assms(2) by (simp add: keys_distinct_def)
  with assms(1) show ?thesis
    by (simp add: get_order_def order_get_by_id_def select_order_def select_one_key resolve_order_def)
qed

section \<open>Properties\<close>

text \<open>
  Routing. No route hides another: every request whose path is one that the template of a route
  matches, with the method of that route, is answered by that route, with the parameters the
  template finds in the path, wherever in the table the route stands.
\<close>

theorem routes_do_not_shadow:
  assumes "documented_match match" and "CHR 0x0A \<notin> set path" and "r \<in> set create_app"
    and "match (rt_path r) path = Some ps"
  shows "find_route match (rt_method r) path = Some (r, ps)"
  using find_route_matching [OF assms(1-3)] assms by (simp add: documented_match_def)

text \<open>For the witnesses, matching as documented.\<close>

definition sample_match :: "string \<Rightarrow> string \<Rightarrow> path_params option" where
  "sample_match template path = match_segments (segments template) (segments path)"

lemma sample_match_documented: "documented_match sample_match"
  by (simp add: documented_match_def sample_match_def)

theorem routes_do_not_shadow_witness:
  "\<exists>r. find_route sample_match ''GET'' ''/api/v1/orders/O/fills'' = Some (r, [(''order_id'', ''O'')]) \<and>
     rt_endpoint r = List_Order_Fills"
proof -
  let ?r = "\<lparr>rt_method = ''GET'', rt_path = ''/api/v1/orders/{order_id}/fills'', rt_status = 200,
    rt_endpoint = List_Order_Fills\<rparr>"
  have "sample_match (rt_path ?r) ''/api/v1/orders/O/fills'' = Some [(''order_id'', ''O'')]"
    by (simp add: sample_match_def split_on_Cons is_param_def del: split_on.simps(2))
  with routes_do_not_shadow [OF sample_match_documented, of "''/api/v1/orders/O/fills''" ?r]
  show ?thesis by (simp add: route_table)
qed

text \<open>
  A request over HTTP, whatever its method, path and body (an order's notional a multiple of \<open>10 ^ -8\<close>,
  the broker's refusals at most 477 characters long): if it is answered by a route, it
  leaves a database the system can reach (so that all that is shown of those holds of what
  requests leave), and a GET request leaves the database as it was.
\<close>

theorem http_requests_keep_books:
  assumes "reachable e db" and "serve match parse_uuid sc (at_time e stamp) submit cancel req db = Some (reply, db')"
    and "\<And>raw. rq_order req = Some raw \<Longrightarrow> on_grid 8 (oc_quantity raw * oc_price raw)"
    and "\<And>b reason. submit b = Some reason \<Longrightarrow> length reason \<le> 477"
  shows "reachable e db' \<and> (rq_method req = ''GET'' \<longrightarrow> db' = db)"
  using serve_database [OF assms(2)]
proof (elim disjE bexE exE conjE)
  fix r i a
  assume r: "r \<in> set create_app" "rt_method r = rq_method req"
    "action_of (at_time e stamp) submit cancel (rt_endpoint r) i req db = Some a" "db' = run (at_time e stamp) a db"
  have "admissible db a" using r(3) assms(3,4) by (rule answers_admissible)
  with reachable.act [OF assms(1)] r show ?thesis by (auto simp: getters_do_nothing)
qed (simp add: assms(1))

text \<open>For the witnesses, an order is posted.\<close>

abbreviation sample_post :: http_request where
  "sample_post \<equiv>
     \<lparr>rq_method = ''POST'', rq_path = ''/api/v1/orders'', rq_account = None, rq_order = Some sample_request, rq_query = None\<rparr>"

abbreviation sample_get :: http_request where
  "sample_get \<equiv>
     \<lparr>rq_method = ''GET'', rq_path = ''/api/v1/orders/O'', rq_account = None, rq_order = None, rq_query = None\<rparr>"

abbreviation sample_scans :: scans where
  "sample_scans \<equiv> \<lparr>sc_orders = rev, sc_fills = rev, sc_events = rev\<rparr>"

lemma sample_post_served:
  "serve sample_match Some sample_scans (at_time sample_env (0, ''O'')) (\<lambda>_. None) (\<lambda>_ _. None) sample_post sample_start =
     Some (Reply 201 (OrderBody (order_response_of sample_order)), sample_placed)"
proof -
  let ?e = "at_time sample_env (0, ''O'')"
  obtain s1 where t: "transaction ?e (create_order_body ?e sample_request) (open_session sample_start) =
      (Inr (sample_order, True), s1)" and s1: "sample_placed = tx s1"
    "leaves ?e (routed_view ?e sample_request (sample_account\<lparr>a_reserved_cash := 0, a_version := 1\<rparr>) (db_view sample_start)) (tx s1)"
    "order_row (tx s1) = (order_row sample_start)(''O'' \<mapsto> sample_order)"
    "account_row (tx s1) = (account_row sample_start)(''A'' \<mapsto> sample_account)"
    by (rule sample_placing)
  have "find_route sample_match ''POST'' ''/api/v1/orders'' = Some (orders_route ''POST'' 201 Create_Order, [])"
    by (rule find_orders_route) (simp_all add: sample_match_documented route_table)
  then show ?thesis
    using t s1(1) by (simp add: serve_def post_order_def sample_request_valid create_order_def respond_def)
qed

theorem http_requests_keep_books_witness: "reachable sample_env sample_placed"
  using http_requests_keep_books [OF reachable_start sample_post_served] by simp

text \<open>
  C29. What is posted can be read: when \<open>POST /api/v1/orders\<close> is answered with 201 and an order (a new
  one, a rejected one, or the one the same request has created before), then
  \<open>GET /api/v1/orders/{order_id}\<close> with the identifier in the answer is answered with 200 and the
  same order.
\<close>

theorem posted_order_can_be_read:
  assumes "documented e" and "reachable e db" and "documented_match match"
    and "rq_method req = ''POST''" and "rq_path req = ''/api/v1/orders''"
    and "serve match parse_uuid sc (at_time e stamp) submit cancel req db = Some (Reply 201 (OrderBody r), db')"
    and "rq_method req' = ''GET''" and "rq_path req' = ''/api/v1/orders/'' @ or_id r"
    and "or_id r \<noteq> []" and "set (or_id r) \<inter> {CHR ''/'', CHR 0x0A} = {}" and "parse_uuid (or_id r) = Some (or_id r)"
  shows "serve match parse_uuid sc' e' submit' cancel' req' db' = Some (Reply 200 (OrderBody r), db')"
proof -
  let ?e = "at_time e stamp"
  have e: "documented ?e" "well_formed ?e db"
    using assms(1) consistentD(1) [OF reachable_consistent [OF assms(1,2)]] by simp_all
  have "find_route match ''POST'' ''/api/v1/orders'' = Some (orders_route ''POST'' 201 Create_Order, [])"
    by (rule find_orders_route [OF assms(3)]) (simp add: route_table)
  with assms(4-6) obtain raw where raw: "rq_order req = Some raw"
      "apfst (map_reply OrderBody) (post_order ?e submit (\<lambda>d. d) (rq_path req) raw db) = (Reply 201 (OrderBody r), db')"
    by (auto simp: serve_def split: option.splits)
  from raw(2) obtain payload ord s' where p: "validate_order_create raw = Some payload"
      "create_order ?e submit (\<lambda>d. d) payload (open_session db) = (Inr ord, s')" "r = order_response_of ord" "db' = tx s'"
    by (auto simp: post_order_def respond_def domain_exception_handler_def apfst_def map_prod_def
        split: option.splits prod.splits sum.splits if_splits)
  have v: "valid_request payload" using p(1) by (auto simp: valid_request_def validate_order_create_def split: if_splits)
  have row: "order_row db' (o_id ord) = Some ord" and k: "keys_distinct db'"
    using created_order_row [OF p(2) e v] by (simp_all add: p(4))
  have i: "or_id r = o_id ord" by (simp add: p(3) order_response_of_def)
  have "find_route match ''GET'' (''/api/v1/orders/'' @ or_id r) =
      Some (\<lparr>rt_method = ''GET'', rt_path = ''/api/v1/orders/{order_id}'', rt_status = 200, rt_endpoint = Get_Order\<rparr>,
        [(''order_id'', or_id r)])"
    by (rule find_order_route [OF assms(3)]) (use assms(9,10) in auto)
  moreover obtain s where "get_order (or_id r) (open_session db') = Inr (ord, s)"
    using get_order_row [OF row k] by (auto simp: i)
  ultimately show ?thesis
    using assms(7,8,11) by (simp add: serve_def get_order_by_id_def respond_def) (simp add: p(3))
qed

theorem posted_order_can_be_read_witness:
  "serve sample_match Some sample_scans (at_time sample_env (1, ''X'')) (\<lambda>_. None) (\<lambda>_ _. None) sample_get sample_placed =
     Some (Reply 200 (OrderBody (order_response_of sample_order)), sample_placed)"
  by (rule posted_order_can_be_read [OF documented_sample reachable_start sample_match_documented _ _ sample_post_served])
    (simp_all add: order_response_of_def sample_order_def)

end
