(* ===== verification/Market_Feed.thy ===== *)
theory Market_Feed
  imports Market_Data_Client System
begin

text \<open>
  The market data feed on the database of the system: what the messages of a connection make of the
  prices and positions, what a record that makes the client raise costs, and that the feed stays
  within what the system can reach. \<open>from_number_milliseconds\<close> shows that timestamps in
  milliseconds are converted exactly, through two roundings of a double and one to microseconds.
\<close>

section \<open>Timestamps\<close>

lemma round_half_even_unique: "\<bar>x - of_int n\<bar> < 1 / 2 \<Longrightarrow> round_half_even x = n"
proof -
  assume "\<bar>x - of_int n\<bar> < 1 / 2"
  with round_half_even_error [of x] have "\<bar>of_int (round_half_even x) - of_int n :: rat\<bar> < 1" by linarith
  then have "of_int \<bar>round_half_even x - n\<bar> < (of_int 1 :: rat)" by simp
  then have "\<bar>round_half_even x - n\<bar> < 1" by (rule of_int_less_iff [THEN iffD1])
  then show ?thesis by simp
qed

text \<open>A time within a quarter of a microsecond of a whole microsecond.\<close>

lemma fromtimestamp_near:
  assumes "0 \<le> w" and "w < 253402300800" and "0 \<le> m" and "m < 10 ^ 6"
    and "of_int w \<le> t" and "t < of_int w + 1" and "\<bar>(t - of_int w) * 10 ^ 6 - of_int m\<bar> \<le> 2 / 5"
  shows "fromtimestamp t = Inr (w * 10 ^ 6 + m)"
proof -
  have fl: "\<lfloor>t\<rfloor> = w" using assms(5,6) by (simp add: floor_unique)
  have "0 \<le> (t - of_int w) * 10 ^ 6" "(t - of_int w) * 10 ^ 6 < 2 powi 20" using assms(5,6) by simp_all
  then have "\<bar>(t - of_int w) * 10 ^ 6\<bar> < 2 powi 20" by simp
  then obtain y where y: "double ((t - of_int w) * 10 ^ 6) = Some y" "\<bar>y - (t - of_int w) * 10 ^ 6\<bar> \<le> 2 powi (20 - 54)"
    using double_near [of "(t - of_int w) * 10 ^ 6" 20] by auto
  have "(2::rat) powi (20 - 54) < 1 / 10" by (simp add: power_int_def power_divide)
  with y(2) assms(7) have "\<bar>y - of_int m\<bar> < 1 / 2" by linarith
  then have "round_half_even y = m" by (rule round_half_even_unique)
  moreover have "0 \<le> t" using assms(1,5) by (meson of_int_0_le_iff order_trans)
  moreover have "w * 10 ^ 6 + m < 253402300800 * 10 ^ 6" using assms(2,4) by simp
  moreover have "0 \<le> w * 10 ^ 6 + m" using assms(1,3) by simp
  ultimately show ?thesis
    unfolding fromtimestamp_def Let_def by (simp only: fl y(1) if_True option.case) simp
qed

lemma from_number_milliseconds:
  assumes "10 ^ 10 < n" and "n < 2 ^ 32 * 1000"
  shows "from_number (of_int n) = Inr (n * 1000)"
proof -
  define w m where "w = n div 1000" and "m = n mod 1000"
  have n: "n = w * 1000 + m" by (simp add: w_def m_def)
  have w: "0 \<le> w" "w < 2 ^ 32" using assms by (auto simp: w_def)
  have m: "0 \<le> m" "m \<le> 999" by (simp_all add: m_def)
  have x: "of_int n / 1000 = (of_int w + of_int m / 1000 :: rat)" by (simp add: n field_simps)
  have d1: "double (of_int n) = Some (of_int n)" using assms by (intro double_of_int) simp
  have big: "(10000000000 :: rat) < of_int n"
    using assms(1) of_int_less_iff [of "10 ^ 10" n, where 'a = rat] by simp
  have "\<exists>t. double (of_int n / 1000) = Some t \<and> fromtimestamp t = Inr (w * 10 ^ 6 + m * 1000)"
  proof (cases "m = 0")
    case True
    then have "double (of_int n / 1000) = Some (of_int w)" using w double_of_int [of w] by (simp add: x)
    moreover have "fromtimestamp (of_int w) = Inr (w * 10 ^ 6 + m * 1000)"
      using w True by (intro fromtimestamp_near) simp_all
    ultimately show ?thesis by blast
  next
    case False
    have "of_int w + 1 \<le> (of_int (2 ^ 32) :: rat)"
      using w(2) of_int_le_iff [of "w + 1" "2 ^ 32", where 'a = rat] by simp
    moreover have f: "1 / 1000 \<le> (of_int m / 1000 :: rat)" "(of_int m / 1000 :: rat) \<le> 999 / 1000"
      using m False by simp_all
    moreover have "0 \<le> (of_int w :: rat)" using w by simp
    ultimately have "\<bar>of_int n / 1000 :: rat\<bar> < 2 powi 32" by (simp add: x)
    then have "\<exists>t. double (of_int n / 1000) = Some t \<and> \<bar>t - of_int n / 1000\<bar> \<le> 2 powi (32 - 54)"
      by (rule double_near) simp_all
    then obtain t where t: "double (of_int n / 1000) = Some t" "\<bar>t - of_int n / 1000\<bar> \<le> 2 powi (32 - 54)"
      by blast
    have e: "(2::rat) powi (32 - 54) = 1 / 2 ^ 22" by (simp add: power_int_def power_divide)
    have near: "\<bar>(t - of_int w) - of_int m / 1000\<bar> \<le> 1 / 2 ^ 22" using t(2) by (simp only: e x diff_diff_eq)
    have "1 / 2 ^ 22 < (1 / 1000 :: rat)" by simp
    then have "of_int w \<le> t" "t < of_int w + 1" using near f unfolding abs_le_iff by linarith+
    moreover have "\<bar>(t - of_int w) * 10 ^ 6 - of_int (m * 1000)\<bar> \<le> 2 / 5"
    proof -
      have "(t - of_int w) * 10 ^ 6 - of_int (m * 1000) = ((t - of_int w) - of_int m / 1000) * 10 ^ 6"
        by (simp add: left_diff_distrib)
      then have "\<bar>(t - of_int w) * 10 ^ 6 - of_int (m * 1000)\<bar> = \<bar>(t - of_int w) - of_int m / 1000\<bar> * 10 ^ 6"
        by (simp only: abs_mult) simp
      also have "\<dots> \<le> 1 / 2 ^ 22 * 10 ^ 6" using near by (rule mult_right_mono) simp
      finally show ?thesis by simp
    qed
    ultimately have "fromtimestamp t = Inr (w * 10 ^ 6 + m * 1000)"
      using w m by (intro fromtimestamp_near) simp_all
    with t(1) show ?thesis by blast
  qed
  then show ?thesis using d1 big by (auto simp: from_number_def n)
qed

section \<open>Quotes\<close>

text \<open>
  A quote as feeds send it: one of the names for the price, the price as a text with 8 decimals, the
  time in milliseconds.
\<close>

definition price_names :: "string list" where
  "price_names = [''price'', ''ltp'', ''last_price'', ''p'']"

definition quote :: "string \<Rightarrow> string \<Rightarrow> rat \<Rightarrow> int \<Rightarrow> json_value" where
  "quote name symb price ms =
     VObject [(''symbol'', VText symb), (name, VText (format_8f price)), (''timestamp'', VInt ms)]"

definition quoted :: "string \<times> string \<times> rat \<times> int \<Rightarrow> bool" where
  "quoted q \<longleftrightarrow>
     (case q of (name, symb, price, ms) \<Rightarrow>
        name \<in> set price_names \<and> 1 \<le> length symb \<and> length symb \<le> 32 \<and> on_grid 8 price \<and> 0 < price \<and>
        10 ^ 10 < ms \<and> ms < 2 ^ 32 * 1000)"

definition quote_tick :: "string \<times> string \<times> rat \<times> int \<Rightarrow> tick" where
  "quote_tick q =
     (case q of (name, symb, price, ms) \<Rightarrow>
        \<lparr>t_symbol = upper symb, t_price = Finite price, t_observed_at = ms * 1000\<rparr>)"

lemma format_8f_nonempty: "on_grid 8 x \<Longrightarrow> format_8f x \<noteq> []"
proof
  assume "on_grid 8 x" "format_8f x = []"
  with read_format [of x] have "decimal_of_text [] = Some (Finite x)" by simp
  then show False
    by (simp add: decimal_of_text_def strip_def split_sign_def lower_def nan_text_def read_number_def)
qed

lemma extract_quote:
  assumes "quoted q"
  shows "extract_record fe (case q of (name, symb, price, ms) \<Rightarrow> quote name symb price ms) =
    Inr (Some (quote_tick q))"
proof -
  obtain name symb price ms where q: "q = (name, symb, price, ms)" by (cases q)
  note a = assms [unfolded quoted_def q prod.case]
  let ?fs = "[(''symbol'', VText symb), (name, VText (format_8f price)), (''timestamp'', VInt ms)]"
  have 1: "raw_symbol ?fs = VText symb" using a by (auto simp: raw_symbol_def py_or_def dict_get_def)
  have ne: "format_8f price \<noteq> []" using format_8f_nonempty a by blast
  have 2: "raw_price ?fs = VText (format_8f price)"
    using a ne by (auto simp: raw_price_def py_or_def dict_get_def price_names_def)
  have 3: "raw_timestamp ?fs = VInt ms"
    using a by (auto simp: raw_timestamp_def py_or_def dict_get_def price_names_def)
  have "decimal_of_text (format_8f price) = Some (Finite price)" using a read_format by blast
  with a from_number_milliseconds [of ms] show ?thesis
    by (auto simp: q quote_def quote_tick_def extract_record_def 1 2 3)
qed

lemma extract_records_quotes:
  "\<forall>q\<in>set qs. quoted q \<Longrightarrow>
     extract_records fe (map (\<lambda>(name, symb, price, ms). quote name symb price ms) qs) ts =
       Inr (ts @ map quote_tick qs)"
  by (induction qs arbitrary: ts) (auto simp: extract_quote)

section \<open>Ticks on the database\<close>

lemma apply_tick_effect:
  assumes "apply_tick e symb price observed_at (open_session db) = (Inr x, s')"
    and "documented e" and "well_formed e db" and "length symb \<le> 32" and "on_grid 8 price"
  shows "price_row (tx s') =
      (if newer observed_at (price_row db (upper symb))
       then (price_row db)(upper symb \<mapsto> \<lparr>m_symbol = upper symb, m_price = price, m_observed_at = observed_at\<rparr>)
       else price_row db)"
    and "account_row (tx s') = account_row db" "order_row (tx s') = order_row db" "fills (tx s') = fills db"
      "order_events (tx s') = order_events db" "well_formed e (tx s')"
proof -
  let ?v = "tick_view (upper symb) price observed_at (db_view db)"
  note w = well_formed_settled [OF assms(3)]
  have l: "leaves e ?v (tx s')" by (rule apply_tick_leaves [OF assms(1-4)])
  note u = leaves_unchanged [OF l w] and d = leavesD [OF l]
  show "price_row (tx s') =
      (if newer observed_at (price_row db (upper symb))
       then (price_row db)(upper symb \<mapsto> \<lparr>m_symbol = upper symb, m_price = price, m_observed_at = observed_at\<rparr>)
       else price_row db)"
  proof
    fix k
    show "price_row (tx s') k =
        (if newer observed_at (price_row db (upper symb))
         then (price_row db)(upper symb \<mapsto> \<lparr>m_symbol = upper symb, m_price = price, m_observed_at = observed_at\<rparr>)
         else price_row db) k"
    proof (cases "newer observed_at (price_row db (upper symb)) \<and> k = upper symb")
      case True
      with d(4) [of "upper symb"] numeric_on_grid(1) [OF assms(2) _ assms(5)] show ?thesis
        by (auto simp: tick_view_def marks_view_def price_view_def store_price_eq_Inr)
    next
      case False
      with u(4) [of k] show ?thesis by (auto simp: tick_view_def marks_view_def price_view_def)
    qed
  qed
  show "account_row (tx s') = account_row db" "order_row (tx s') = order_row db" "fills (tx s') = fills db"
      "order_events (tx s') = order_events db"
    using u(1,2) d(5,6) by (simp_all add: tick_view_def marks_view_def price_view_def fun_eq_iff)
  show "well_formed e (tx s')"
    using assms(1) [unfolded apply_tick_def] session_ok_open assms(2)
    by (rule transaction_well_formed) (use assms(3) apply_tick_body_steps [OF _ assms(2-4)] in auto)
qed

text \<open>What a list of ticks makes of the prices: the last of the latest observations of each symbol.\<close>

definition observe :: "tick \<Rightarrow> string \<Rightarrow> market_price option \<Rightarrow> market_price option" where
  "observe t k m =
     (case t_price t of
        Finite price \<Rightarrow>
          if upper (t_symbol t) = k \<and> newer (t_observed_at t) m
          then Some \<lparr>m_symbol = k, m_price = price, m_observed_at = t_observed_at t\<rparr> else m
      | _ \<Rightarrow> m)"

fun latest :: "tick list \<Rightarrow> string \<Rightarrow> market_price option \<Rightarrow> market_price option" where
  "latest [] k m = m"
| "latest (t # ts) k m = latest ts k (observe t k m)"

definition storable_tick :: "tick \<Rightarrow> bool" where
  "storable_tick t \<longleftrightarrow>
     length (t_symbol t) \<le> 32 \<and> (case t_price t of Finite price \<Rightarrow> on_grid 8 price | _ \<Rightarrow> True)"

lemma serve_ticks_effect:
  assumes "documented e"
  shows "serve_ticks e ts db = (None, db') \<Longrightarrow> well_formed e db \<Longrightarrow> \<forall>t\<in>set ts. storable_tick t \<Longrightarrow>
    price_row db' = (\<lambda>k. latest ts k (price_row db k)) \<and> account_row db' = account_row db \<and>
    order_row db' = order_row db \<and> fills db' = fills db \<and> order_events db' = order_events db \<and> well_formed e db'"
proof (induction ts arbitrary: db)
  case (Cons t ts)
  obtain db1 where t: "serve_tick e t db = (None, db1)" "serve_ticks e ts db1 = (None, db')"
    using Cons.prems(1) by (auto split: prod.splits option.splits)
  from t(1) obtain price x s' where p: "t_price t = Finite price" "db1 = tx s'"
      "apply_tick e (t_symbol t) price (t_observed_at t) (open_session db) = (Inr x, s')"
    by (auto simp: serve_tick_def split: decimal.splits prod.splits sum.splits)
  have st: "length (t_symbol t) \<le> 32" "on_grid 8 price" using Cons.prems(3) p(1) by (simp_all add: storable_tick_def)
  note f = apply_tick_effect [OF p(3) assms Cons.prems(2) st]
  have "price_row db' = (\<lambda>k. latest ts k (price_row db1 k)) \<and> account_row db' = account_row db1 \<and>
    order_row db' = order_row db1 \<and> fills db' = fills db1 \<and> order_events db' = order_events db1 \<and> well_formed e db'"
    using Cons.prems(3) f(6) by (intro Cons.IH [OF t(2)]) (simp_all add: p(2))
  then show ?case using f(1-5) by (auto simp: p observe_def fun_eq_iff)
qed simp

lemma observe_not_before:
  "\<exists>new. observe t k (Some old) = Some new \<and> m_observed_at old \<le> m_observed_at new"
  by (cases "t_price t") (auto simp: observe_def newer_def)

lemma latest_not_before:
  "\<exists>new. latest ts k (Some old) = Some new \<and> m_observed_at old \<le> m_observed_at new"
proof (induction ts arbitrary: old)
  case (Cons t ts)
  obtain m where m: "observe t k (Some old) = Some m" "m_observed_at old \<le> m_observed_at m"
    using observe_not_before by blast
  from Cons.IH [of m] m show ?case by auto
qed simp

lemma latest_covers:
  "t \<in> set ts \<Longrightarrow> t_price t = Finite price \<Longrightarrow> upper (t_symbol t) = k \<Longrightarrow>
     \<exists>new. latest ts k m = Some new \<and> t_observed_at t \<le> m_observed_at new"
proof (induction ts arbitrary: m)
  case (Cons u ts)
  show ?case
  proof (cases "u = t")
    case True
    have "\<exists>m'. observe t k m = Some m' \<and> t_observed_at t \<le> m_observed_at m'"
      using Cons.prems(2,3) by (cases m) (auto simp: observe_def newer_def)
    then obtain m' where m': "observe t k m = Some m'" "t_observed_at t \<le> m_observed_at m'" by blast
    from latest_not_before [of ts k m'] m' True show ?thesis by auto
  next
    case False
    with Cons show ?thesis by auto
  qed
qed simp

lemma latest_from:
  "latest ts k m = Some new \<Longrightarrow>
     m = Some new \<or> (\<exists>t\<in>set ts. upper (t_symbol t) = k \<and> t_price t = Finite (m_price new) \<and>
       t_observed_at t = m_observed_at new \<and> m_symbol new = k)"
proof (induction ts arbitrary: m)
  case (Cons t ts)
  from Cons.IH [OF Cons.prems [unfolded latest.simps]] show ?case
    by (auto simp: observe_def split: decimal.splits if_splits)
qed simp

text \<open>A tick whose marks fit the columns; a tick before it does not change whether they do.\<close>

definition mark_fits :: "env \<Rightarrow> database \<Rightarrow> string \<Rightarrow> rat \<Rightarrow> bool" where
  "mark_fits e db symb price \<longleftrightarrow>
     (\<forall>p\<in>set (positions db). p_symbol p = symb \<longrightarrow>
        numeric e (calculate_unrealized_pnl (p_net_quantity p) (p_average_entry_price p) (Some price)) \<noteq> None)"

lemma apply_tick_positions:
  assumes "apply_tick e symb price observed_at (open_session db) = (Inr x, s')"
    and "documented e" and "well_formed e db" and "length symb \<le> 32" and "on_grid 8 price"
    and "p' \<in> set (positions (tx s'))"
  shows "\<exists>p\<in>set (positions db). p_symbol p = p_symbol p' \<and> p_net_quantity p = p_net_quantity p' \<and>
    p_average_entry_price p = p_average_entry_price p'"
proof -
  let ?v = "tick_view (upper symb) price observed_at (db_view db)"
  have wf: "well_formed e (tx s')" by (rule apply_tick_effect(6) [OF assms(1-5)])
  obtain aid sy where k: "p_key p' = (aid, sy)" by (cases "p_key p'")
  have r': "position_row (tx s') aid sy = Some p'"
    using row_of_self [of p_key "positions (tx s')" p'] wf assms(6) by (simp add: well_formed_defs flip: k)
  have l: "leaves e ?v (tx s')" by (rule apply_tick_leaves [OF assms(1-4)])
  obtain p where p: "position_row db aid sy = Some p"
  proof (cases "position_row db aid sy")
    case None
    then have "v_positions ?v (aid, sy) = None" by (auto simp: tick_view_def marks_view_def price_view_def)
    with leavesD(3) [OF l, of aid sy] r' show ?thesis by simp
  qed simp
  have "p_symbol p = sy" "p_symbol p' = sy"
    using row_of_SomeD [OF p] k by (auto simp: p_key_def)
  moreover have "p_net_quantity p = p_net_quantity p' \<and> p_average_entry_price p = p_average_entry_price p'"
  proof (cases "newer observed_at (price_row db (upper symb)) \<and> sy = upper symb")
    case True
    with tick_marked_row [OF assms(2-5) _ assms(1), of aid p] p r' show ?thesis by auto
  next
    case False
    then have "v_positions ?v (aid, sy) = position_row db aid sy"
      by (auto simp: tick_view_def marks_view_def price_view_def)
    from leaves_unchanged(3) [OF l well_formed_settled [OF assms(3)] this] p r' show ?thesis by simp
  qed
  ultimately show ?thesis using row_of_SomeD [OF p] by auto
qed

lemma serve_ticks_return:
  assumes "documented e"
  shows "well_formed e db \<Longrightarrow> \<forall>t\<in>set ts. storable_tick t \<and> (\<exists>price. t_price t = Finite price \<and> 0 < price \<and>
      price < 10 ^ 16 \<and> mark_fits e db (upper (t_symbol t)) price) \<Longrightarrow>
    \<exists>db'. serve_ticks e ts db = (None, db')"
proof (induction ts arbitrary: db)
  case (Cons t ts)
  from Cons.prems(2) obtain price where p: "t_price t = Finite price" "0 < price" "price < 10 ^ 16"
      "mark_fits e db (upper (t_symbol t)) price" "length (t_symbol t) \<le> 32" "on_grid 8 price"
    by (auto simp: storable_tick_def)
  from apply_tick_returns [OF assms Cons.prems(1) p(5,6,2,3)] p(4) obtain s' where
      a: "apply_tick e (t_symbol t) price (t_observed_at t) (open_session db) = (Inr (), s')" "well_formed e (tx s')"
    unfolding mark_fits_def by blast
  have "mark_fits e (tx s') symb q" if "mark_fits e db symb q" for symb q
    using that apply_tick_positions [OF a(1) assms Cons.prems(1) p(5,6)] unfolding mark_fits_def by metis
  with Cons.prems(2) have "\<exists>db'. serve_ticks e ts (tx s') = (None, db')"
    by (intro Cons.IH [OF a(2)]) auto
  with a(1) p(1) show ?case by (simp add: serve_tick_def)
qed simp

section \<open>Properties\<close>

definition quotes_message :: "(string \<times> string \<times> rat \<times> int) list \<Rightarrow> loaded" where
  "quotes_message qs = Payload (VList (map (\<lambda>(name, symb, price, ms). quote name symb price ms) qs))"

lemma extract_quotes:
  "\<forall>q\<in>set qs. quoted q \<Longrightarrow> extract_ticks fe (quotes_message qs) = Inr (map quote_tick qs)"
  using extract_records_quotes [of qs fe "[]"] by (simp add: quotes_message_def records_of_def)

text \<open>
  C27. The feed keeps the latest quote. A message with a list of quotes, under any of the names the
  client accepts for the price, is served without an exception when the marks of the positions fit
  their column. Afterwards every quoted symbol has a price at least as recent as each of its quotes,
  every price is one that was stored before or one of the quotes, at exactly its time, and no
  account, order, fill or audit event has changed.
\<close>

theorem feed_stores_latest_quotes:
  assumes "documented e" and "well_formed e db" and "\<forall>q\<in>set qs. quoted q"
    and "\<forall>(name, symb, price, ms)\<in>set qs. price < 10 ^ 16 \<and> mark_fits e db (upper symb) price"
  shows "\<exists>db'. serve_message e fe (quotes_message qs) db = (None, db') \<and>
    (\<forall>(name, symb, price, ms)\<in>set qs. \<exists>m. price_row db' (upper symb) = Some m \<and> ms * 1000 \<le> m_observed_at m) \<and>
    (\<forall>k m. price_row db' k = Some m \<longrightarrow> price_row db k = Some m \<or>
       (\<exists>(name, symb, price, ms)\<in>set qs. k = upper symb \<and>
          m = \<lparr>m_symbol = k, m_price = price, m_observed_at = ms * 1000\<rparr>)) \<and>
    account_row db' = account_row db \<and> order_row db' = order_row db \<and> fills db' = fills db \<and>
    order_events db' = order_events db"
proof -
  let ?ts = "map quote_tick qs"
  have x: "serve_message e fe (quotes_message qs) db = serve_ticks e ?ts db"
    using extract_quotes [OF assms(3)] by (simp add: serve_message_def)
  have st: "\<forall>t\<in>set ?ts. storable_tick t"
    using assms(3) by (auto simp: quote_tick_def quoted_def storable_tick_def)
  have "\<exists>db'. serve_ticks e ?ts db = (None, db')"
    using assms(3,4) st by (intro serve_ticks_return [OF assms(1,2)]) (fastforce simp: quote_tick_def quoted_def)
  then obtain db' where db': "serve_ticks e ?ts db = (None, db')" by blast
  note f = serve_ticks_effect [OF assms(1) db' assms(2) st]
  have rows: "price_row db' k = latest ?ts k (price_row db k)" for k using fun_cong [OF conjunct1 [OF f], of k] .
  have 1: "\<exists>m. price_row db' (upper symb) = Some m \<and> ms * 1000 \<le> m_observed_at m"
    if "(name, symb, price, ms) \<in> set qs" for name symb price ms
  proof -
    have "quote_tick (name, symb, price, ms) \<in> set ?ts" using that by simp
    from latest_covers [OF this, of price "upper symb" "price_row db (upper symb)"] show ?thesis
      by (simp add: quote_tick_def rows)
  qed
  have 2: "price_row db k = Some m \<or> (\<exists>(name, symb, price, ms)\<in>set qs. k = upper symb \<and>
        m = \<lparr>m_symbol = k, m_price = price, m_observed_at = ms * 1000\<rparr>)" if "price_row db' k = Some m" for k m
    using latest_from [of ?ts k "price_row db k" m] that by (force simp: quote_tick_def rows)
  show ?thesis using db' f 1 2 unfolding x by (intro exI [of _ db']) auto
qed

definition sample_quote :: "string \<times> string \<times> rat \<times> int" where
  "sample_quote = (''ltp'', ''infy'', 7, 1700000000000)"

definition sample_feed :: feed_env where
  "sample_feed =
     \<lparr>float_text = (\<lambda>x. format_8f x), items_text = (\<lambda>v. ''...''), fromisoformat = (\<lambda>s. None), utcnow = 0\<rparr>"

lemma sample_mark_fits: "mark_fits sample_env sample_held (upper ''infy'') 7"
  by (simp add: mark_fits_def sample_position_def calculate_unrealized_pnl_def decimal_defs)

theorem feed_stores_latest_quotes_witness:
  "\<exists>db'. serve_message sample_env sample_feed (quotes_message [sample_quote]) sample_held = (None, db') \<and>
    price_row db' ''INFY'' = Some \<lparr>m_symbol = ''INFY'', m_price = 7, m_observed_at = 1700000000000000\<rparr>"
proof -
  have q: "\<forall>q\<in>set [sample_quote]. quoted q" by (simp add: sample_quote_def quoted_def price_names_def)
  have "\<forall>(name, symb, price, ms)\<in>set [sample_quote]. price < 10 ^ 16 \<and> mark_fits sample_env sample_held (upper symb) price"
    using sample_mark_fits by (simp add: sample_quote_def)
  from feed_stores_latest_quotes [OF documented_sample sample_held_well_formed q this, of sample_feed]
  obtain db' where d: "serve_message sample_env sample_feed (quotes_message [sample_quote]) sample_held = (None, db')"
    and covers: "\<forall>(name, symb, price, ms)\<in>set [sample_quote]. \<exists>m. price_row db' (upper symb) = Some m \<and>
      ms * 1000 \<le> m_observed_at m"
    and comes: "\<forall>k m. price_row db' k = Some m \<longrightarrow> price_row sample_held k = Some m \<or>
      (\<exists>(name, symb, price, ms)\<in>set [sample_quote]. k = upper symb \<and>
        m = \<lparr>m_symbol = k, m_price = price, m_observed_at = ms * 1000\<rparr>)"
    by blast
  from covers obtain m where m: "price_row db' ''INFY'' = Some m" by (auto simp: sample_quote_def)
  from comes [rule_format, OF m] have "m = \<lparr>m_symbol = ''INFY'', m_price = 7, m_observed_at = 1700000000000000\<rparr>"
    by (simp add: sample_quote_def)
  with d m show ?thesis by simp
qed

text \<open>
  C28. One bad record costs a connection. When a record of a message quotes a price that Python reads
  as a NaN (the JSON literal \<open>NaN\<close> or the text), comparing it with zero raises outside the
  \<open>try\<close>: no tick of the message is applied, not even those of the records before it, the
  rest of the connection is lost, and the prices stay as they were.
\<close>

lemma extract_records_raise:
  "r \<in> set rs \<Longrightarrow> extract_record fe r = Inl err \<Longrightarrow> \<exists>err'. extract_records fe rs ts = Inl err'"
proof (induction rs arbitrary: ts)
  case (Cons u rs)
  then show ?case by (cases "extract_record fe u") auto
qed simp

lemma decimal_of_None: "decimal_of_text ''None'' = None"
  by code_simp

theorem nan_price_ends_connection:
  assumes "VObject fs \<in> set (records_of payload)" and "truthy (raw_symbol fs)"
    and "decimal_of_text (py_str fe (raw_price fs)) = Some NaN"
  shows "\<exists>err. serve_connection e ((fe, Payload payload) # rest) db = (Some err, db)"
proof -
  have "raw_price fs \<noteq> VNull" using assms(3) decimal_of_None by auto
  with assms(2,3) have "extract_record fe (VObject fs) = Inl InvalidOperation" by (simp add: extract_record_def)
  from extract_records_raise [OF assms(1) this] obtain err where "extract_ticks fe (Payload payload) = Inl err"
    by (metis extract_ticks.simps(3))
  then show ?thesis by (simp add: serve_message_def)
qed

theorem nan_price_ends_connection_witness:
  "\<exists>err. serve_connection sample_env
     [(sample_feed, Payload (VList [quote ''price'' ''INFY'' 7 1700000000000,
        VObject [(''symbol'', VText ''TCS''), (''price'', VFloat Not_a_number)]])),
      (sample_feed, quotes_message [sample_quote])] sample_held = (Some err, sample_held)"
proof (rule nan_price_ends_connection)
  let ?fs = "[(''symbol'', VText ''TCS''), (''price'', VFloat Not_a_number)]"
  show "VObject ?fs \<in> set (records_of (VList [quote ''price'' ''INFY'' 7 1700000000000, VObject ?fs]))"
    by (simp add: records_of_def)
  show "truthy (raw_symbol ?fs)" by (simp add: raw_symbol_def py_or_def dict_get_def)
  have "raw_price ?fs = VFloat Not_a_number" by (simp add: raw_price_def py_or_def dict_get_def)
  moreover have "decimal_of_text ''nan'' = Some NaN" by code_simp
  ultimately show "decimal_of_text (py_str sample_feed (raw_price ?fs)) = Some NaN" by simp
qed

text \<open>
  The feed is one of the clients of the system: whatever messages its connections bring, valid or
  not, as long as the symbols it extracts fit their column and as the database stays one the system can
  reach. So everything that is proved of reachable databases holds while the feed runs.
\<close>

definition fitting_symbols :: "feed_env \<times> loaded \<Rightarrow> bool" where
  "fitting_symbols m \<longleftrightarrow>
     (case m of (fe, raw_message) \<Rightarrow>
        (case extract_ticks fe raw_message of
           Inl _ \<Rightarrow> True
         | Inr ts \<Rightarrow> list_all (\<lambda>t. length (t_symbol t) \<le> 32) ts))"

lemma serve_tick_reachable:
  assumes "reachable e db" and "length (t_symbol t) \<le> 32"
  shows "reachable e (snd (serve_tick e t db))"
proof (cases "t_price t")
  case (Finite price)
  have "reachable e (run (at_time e (now e, new_uuid e)) (DeliverTick (t_symbol t) price (t_observed_at t)) db)"
    using assms by (intro reachable.act) simp_all
  with Finite show ?thesis by (simp add: serve_tick_def case_prod_beta split: sum.split)
qed (use assms in \<open>simp_all add: serve_tick_def\<close>)

lemma serve_ticks_reachable:
  "reachable e db \<Longrightarrow> list_all (\<lambda>t. length (t_symbol t) \<le> 32) ts \<Longrightarrow> reachable e (snd (serve_ticks e ts db))"
proof (induction ts arbitrary: db)
  case (Cons t ts)
  from Cons.prems have "reachable e (snd (serve_tick e t db))" by (intro serve_tick_reachable) simp_all
  with Cons show ?case by (auto split: prod.splits option.splits)
qed simp

lemma serve_connection_reachable:
  "reachable e db \<Longrightarrow> list_all fitting_symbols ms \<Longrightarrow> reachable e (snd (serve_connection e ms db))"
proof (induction ms arbitrary: db)
  case (Cons m ms)
  obtain fe raw_message where m: "m = (fe, raw_message)" by (cases m)
  have "reachable e (snd (serve_message e fe raw_message db))"
    using Cons.prems serve_ticks_reachable [OF Cons.prems(1)]
    by (auto simp: m fitting_symbols_def serve_message_def split: sum.splits)
  with Cons m show ?case by (auto split: prod.splits option.splits)
qed simp

theorem feed_stays_reachable:
  assumes "reachable e db" and "\<forall>ms. Some ms \<in> set connections \<longrightarrow> list_all fitting_symbols ms"
  shows "reachable e (run_feed e market_data_url connections db)"
proof -
  have "reachable e (run_connections e connections db)"
    using assms
  proof (induction connections arbitrary: db)
    case (Cons c connections)
    then show ?case using serve_connection_reachable by (cases c) auto
  qed simp
  with assms(1) show ?thesis by (simp add: run_feed_def split: option.split)
qed

theorem feed_stays_reachable_witness:
  "reachable sample_env (run_feed sample_env (Some ''ws://feed'')
     [None, Some [(sample_feed, NotJson), (sample_feed, quotes_message [sample_quote])]] empty_db)"
proof (rule feed_stays_reachable)
  show "reachable sample_env empty_db" by (rule reachable.start)
  have "\<forall>q\<in>set [sample_quote]. quoted q" by (simp add: sample_quote_def quoted_def price_names_def)
  from extract_quotes [OF this]
  have "fitting_symbols (sample_feed, quotes_message [sample_quote])"
    by (simp add: fitting_symbols_def quote_tick_def sample_quote_def)
  then show "\<forall>ms. Some ms \<in> set [None, Some [(sample_feed, NotJson), (sample_feed, quotes_message [sample_quote])]] \<longrightarrow>
      list_all fitting_symbols ms"
    by (auto simp: fitting_symbols_def)
qed

end
