(* ===== verification/Logging.thy ===== *)
theory Logging
  imports Market_Data_Client
begin

text \<open>
  \<open>app/logging_config.py\<close> and the request logging of \<open>app/main.py\<close>: what is in a line of the log.

  A log record is the attributes of Python's \<open>LogRecord\<close>: the standard ones, which the formatter
  reads, and those a call has added with \<open>extra\<close>. The formatter's result is the dictionary it hands
  to \<open>json.dumps\<close>, keys in the order of their insertion.
\<close>

section \<open>The formatter\<close>

definition STANDARD_LOG_RECORD_FIELDS :: "string set" where
  "STANDARD_LOG_RECORD_FIELDS =
     {''name'', ''msg'', ''args'', ''levelname'', ''levelno'', ''pathname'', ''filename'', ''module'', ''exc_info'',
      ''exc_text'', ''stack_info'', ''lineno'', ''funcName'', ''created'', ''msecs'', ''relativeCreated'',
      ''thread'', ''threadName'', ''processName'', ''process'', ''taskName''}"

record log_record =
  levelname :: string
  logger_name :: string
  log_message :: string
  attributes :: "(string \<times> json_value) list" \<comment> \<open>\<open>__dict__\<close>, each key once\<close>
  exception_text :: "string option" \<comment> \<open>\<open>formatException(exc_info)\<close>, if there is one\<close>

text \<open>\<open>payload[key] = value\<close>\<close>

fun dict_set :: "string \<Rightarrow> json_value \<Rightarrow> (string \<times> json_value) list \<Rightarrow> (string \<times> json_value) list" where
  "dict_set k v [] = [(k, v)]"
| "dict_set k v ((k', v') # fs) = (if k' = k then (k, v) # fs else (k', v') # dict_set k v fs)"

definition extra_key :: "string \<Rightarrow> bool" where
  "extra_key key \<longleftrightarrow> key \<notin> STANDARD_LOG_RECORD_FIELDS \<and> take 1 key \<noteq> ''_''"

definition format_record :: "string \<Rightarrow> log_record \<Rightarrow> (string \<times> json_value) list" where
  "format_record now_text r =
     (let payload = [(''timestamp'', VText now_text), (''level'', VText (levelname r)),
                     (''logger'', VText (logger_name r)), (''message'', VText (log_message r))];
          payload = foldl (\<lambda>payload (key, value). if extra_key key then dict_set key value payload else payload)
                      payload (attributes r)
      in case exception_text r of None \<Rightarrow> payload | Some t \<Rightarrow> dict_set ''exception'' (VText t) payload)"

text \<open>\<open>configure_logging\<close>: the root logger has this one handler, and the level in upper case.\<close>

record root_logger =
  log_handlers :: "string list"
  root_level :: string

definition configure_logging :: "string \<Rightarrow> root_logger \<Rightarrow> root_logger" where
  "configure_logging level lg = lg\<lparr>log_handlers := [''stdout''], root_level := upper level\<rparr>"

section \<open>Request logging\<close>

record 'a response =
  resp_status :: nat
  resp_headers :: "(string \<times> string) list"
  resp_body :: 'a

datatype log_call =
    LogInfo string "(string \<times> json_value) list"
  | LogException string "(string \<times> json_value) list"

text \<open>
  \<open>response.headers[k] = v\<close>; header names are kept in lower case.
\<close>

fun header_set :: "string \<Rightarrow> string \<Rightarrow> (string \<times> string) list \<Rightarrow> (string \<times> string) list" where
  "header_set k v [] = [(k, v)]"
| "header_set k v ((k', v') # hs) =
     (if k' = k then (k, v) # filter (\<lambda>(k', _). k' \<noteq> k) hs else (k', v') # header_set k v hs)"

text \<open>
  The middleware, with the response or the exception of \<open>call_next\<close> as argument, and the elapsed time
  as the clock and \<open>round\<close> give it.
\<close>

definition request_logging_middleware ::
  "string option \<Rightarrow> string \<Rightarrow> string \<Rightarrow> string \<Rightarrow> pyfloat \<Rightarrow> 'x + 'a response \<Rightarrow>
     ('x + 'a response) \<times> log_call" where
  "request_logging_middleware request_id_header fresh_id http_method path duration_ms outcome =
     (let request_id = (case request_id_header of None \<Rightarrow> fresh_id | Some i \<Rightarrow> i);
          request = [(''request_id'', VText request_id), (''method'', VText http_method), (''path'', VText path)]
      in case outcome of
           Inl x \<Rightarrow> (Inl x, LogException ''Unhandled request failure'' request)
         | Inr r \<Rightarrow>
             (Inr (r\<lparr>resp_headers := header_set ''x-request-id'' request_id (resp_headers r)\<rparr>),
              LogInfo ''Request completed''
                (request @ [(''status_code'', VInt (int (resp_status r))), (''duration_ms'', VFloat duration_ms)])))"

section \<open>Lemmas\<close>

lemma map_of_dict_set [simp]: "map_of (dict_set k v fs) = (map_of fs)(k \<mapsto> v)"
  by (induction k v fs rule: dict_set.induct) (auto simp: fun_eq_iff)

lemma map_of_header_set [simp]: "map_of (header_set k v hs) = (map_of hs)(k \<mapsto> v)"
proof (induction k v hs rule: header_set.induct)
  case (2 k v k' v' hs)
  have "map_of (filter (\<lambda>(k', _). k' \<noteq> k) hs) x = (if x = k then None else map_of hs x)" for x
    by (induction hs) auto
  with 2 show ?case by (auto simp: fun_eq_iff)
qed simp

lemma map_of_extras:
  "distinct (map fst attrs) \<Longrightarrow>
     map_of (foldl (\<lambda>payload (key, value). if extra_key key then dict_set key value payload else payload) fs attrs) k =
       (case map_of attrs k of Some v \<Rightarrow> if extra_key k then Some v else map_of fs k | None \<Rightarrow> map_of fs k)"
proof (induction attrs arbitrary: fs)
  case (Cons a attrs)
  obtain key v where a: "a = (key, v)" by (cases a)
  with Cons.prems have "map_of attrs key = None" by (simp add: map_of_eq_None_iff)
  with Cons show ?case by (auto simp: a split: option.splits)
qed simp

text \<open>
  What a line of the log contains: the attributes a call has added and nothing else of the record,
  over the four fields every line has. Only an attribute of the same name hides one of the four,
  and the calls of the application use none.
\<close>

definition line_fields :: "string \<Rightarrow> log_record \<Rightarrow> (string \<times> json_value) list" where
  "line_fields t r =
     [(''timestamp'', VText t), (''level'', VText (levelname r)), (''logger'', VText (logger_name r)),
      (''message'', VText (log_message r))]"

lemma format_record_fields:
  assumes "distinct (map fst (attributes r))" and "exception_text r = None"
  shows "map_of (format_record t r) k =
    (case map_of (attributes r) k of
       Some v \<Rightarrow> if extra_key k then Some v else map_of (line_fields t r) k
     | None \<Rightarrow> map_of (line_fields t r) k)"
  using assms unfolding line_fields_def by (simp add: format_record_def Let_def map_of_extras)

lemma format_record_extra:
  assumes "distinct (map fst (attributes r))" and "map_of (attributes r) k = Some v" and "extra_key k" and "k \<noteq> ''exception''"
  shows "map_of (format_record t r) k = Some v"
  using assms by (simp add: format_record_def Let_def map_of_extras split: option.split)

lemma middleware_response:
  "fst (request_logging_middleware h i m p d outcome) = Inr r' \<longleftrightarrow>
     (\<exists>r. outcome = Inr r \<and> r' = r\<lparr>resp_headers :=
        header_set ''x-request-id'' (case h of None \<Rightarrow> i | Some j \<Rightarrow> j) (resp_headers r)\<rparr>)"
  by (auto simp: request_logging_middleware_def Let_def split: sum.split)

end
