(* ===== verification/Sql_Schema.thy ===== *)
theory Sql_Schema
  imports Models
begin

text \<open>
  Table definitions as data: what \<open>CREATE TABLE\<close> and \<open>CREATE INDEX\<close> statements say, what a list of
  such statements makes of a schema, and what the declarative classes of \<open>app/models/\<close> declare.

  A column declared with \<open>SqlEnum(..., native_enum=False, length=n)\<close> is a \<open>VARCHAR(n)\<close>, an
  annotation \<open>Mapped[int]\<close> without a type is \<open>INTEGER\<close>, \<open>unique=True\<close> is an unnamed \<open>UNIQUE\<close>
  constraint on the column, \<open>primary_key=True\<close> a \<open>PRIMARY KEY\<close> constraint. The \<open>CHECK\<close>
  constraints are kept as expressions and evaluated in the three-valued logic of SQL, where a
  constraint is violated only when it is false.
\<close>

section \<open>Statements\<close>

datatype column_type = VARCHAR nat | NUMERIC nat nat | INTEGER | UUID | TIMESTAMPTZ | JSONB

datatype sql_column = Column string column_type bool \<comment> \<open>name, type, nullable\<close>

datatype sql_term = Col string | Zero | Plus sql_term sql_term

datatype sql_check =
    Ge sql_term sql_term
  | Gt sql_term sql_term
  | Le sql_term sql_term
  | Eq sql_term sql_term
  | In string "string list"
  | IsNull string
  | Or sql_check sql_check

datatype table_constraint =
    Check string sql_check
  | PrimaryKey "string list"
  | Unique "string option" "string list"
  | ForeignKey string string string string \<comment> \<open>column, table, its column, ON DELETE\<close>

datatype sql_statement =
    CreateTable string "sql_column list" "table_constraint list"
  | CreateIndex string string "string list"
  | DropIndex string string
  | DropTable string

record table =
  t_name :: string
  t_columns :: "sql_column list"
  t_constraints :: "table_constraint list"
  t_indexes :: "(string \<times> string list) list"

type_synonym schema = "table list"

fun column_name :: "sql_column \<Rightarrow> string" where
  "column_name (Column name _ _) = name"

text \<open>The columns and the other tables a constraint names.\<close>

fun term_columns :: "sql_term \<Rightarrow> string list" where
  "term_columns (Col c) = [c]"
| "term_columns Zero = []"
| "term_columns (Plus a b) = term_columns a @ term_columns b"

fun check_columns :: "sql_check \<Rightarrow> string list" where
  "check_columns (Ge a b) = term_columns a @ term_columns b"
| "check_columns (Gt a b) = term_columns a @ term_columns b"
| "check_columns (Le a b) = term_columns a @ term_columns b"
| "check_columns (Eq a b) = term_columns a @ term_columns b"
| "check_columns (In c _) = [c]"
| "check_columns (IsNull c) = [c]"
| "check_columns (Or p q) = check_columns p @ check_columns q"

fun constraint_columns :: "table_constraint \<Rightarrow> string list" where
  "constraint_columns (Check _ p) = check_columns p"
| "constraint_columns (PrimaryKey cs) = cs"
| "constraint_columns (Unique _ cs) = cs"
| "constraint_columns (ForeignKey c _ _ _) = [c]"

fun references :: "table_constraint \<Rightarrow> (string \<times> string) list" where
  "references (ForeignKey _ t c _) = [(t, c)]"
| "references _ = []"

section \<open>Running statements\<close>

text \<open>
  The statements as PostgreSQL documents them; \<open>None\<close> where a statement is refused: a second table
  or index of a name, a constraint or an index on a column that does not exist, a foreign key to a table that does not
  exist or to a column that is not its primary key, a drop of something that does not exist or
  that another table references.
\<close>

definition table_of :: "string \<Rightarrow> schema \<Rightarrow> table option" where
  "table_of name sch = row_of t_name name sch"

definition has_column :: "table \<Rightarrow> string \<Rightarrow> bool" where
  "has_column t c \<longleftrightarrow> c \<in> set (map column_name (t_columns t))"

definition referable :: "schema \<Rightarrow> string \<times> string \<Rightarrow> bool" where
  "referable sch r \<longleftrightarrow>
     (case table_of (fst r) sch of
        None \<Rightarrow> False
      | Some t \<Rightarrow> list_ex (\<lambda>k. k = PrimaryKey [snd r]) (t_constraints t))"

definition referenced :: "string \<Rightarrow> schema \<Rightarrow> bool" where
  "referenced name sch \<longleftrightarrow>
     list_ex (\<lambda>t. t_name t \<noteq> name \<and>
       list_ex (\<lambda>k. list_ex (\<lambda>r. fst r = name) (references k)) (t_constraints t)) sch"

fun execute :: "sql_statement \<Rightarrow> schema \<Rightarrow> schema option" where
  "execute (CreateTable name columns constraints) sch =
     (let t = \<lparr>t_name = name, t_columns = columns, t_constraints = constraints, t_indexes = []\<rparr> in
      if table_of name sch \<noteq> None then None
      else if \<not> distinct (map column_name columns) then None
      else if \<not> list_all (\<lambda>k. list_all (has_column t) (constraint_columns k)) constraints then None
      else if \<not> list_all (\<lambda>k. list_all (referable sch) (references k)) constraints then None
      else Some (sch @ [t]))"
| "execute (CreateIndex index name columns) sch =
     (case table_of name sch of
        None \<Rightarrow> None
      | Some t \<Rightarrow>
          if \<not> list_all (has_column t) columns then None
          else if list_ex (\<lambda>u. index \<in> set (map fst (t_indexes u))) sch then None
          else Some (map (\<lambda>u. if t_name u = name then u\<lparr>t_indexes := t_indexes u @ [(index, columns)]\<rparr> else u) sch))"
| "execute (DropIndex index name) sch =
     (case table_of name sch of
        None \<Rightarrow> None
      | Some t \<Rightarrow>
          if index \<notin> set (map fst (t_indexes t)) then None
          else Some (map (\<lambda>u. if t_name u = name
                              then u\<lparr>t_indexes := filter (\<lambda>i. fst i \<noteq> index) (t_indexes u)\<rparr> else u) sch))"
| "execute (DropTable name) sch =
     (if table_of name sch = None \<or> referenced name sch then None
      else Some (filter (\<lambda>t. t_name t \<noteq> name) sch))"

fun execute_all :: "sql_statement list \<Rightarrow> schema \<Rightarrow> schema option" where
  "execute_all [] sch = Some sch"
| "execute_all (st # sts) sch =
     (case execute st sch of None \<Rightarrow> None | Some sch \<Rightarrow> execute_all sts sch)"

lemma execute_all_append:
  "execute_all (sts @ sts') sch =
     (case execute_all sts sch of None \<Rightarrow> None | Some sch' \<Rightarrow> execute_all sts' sch')"
  by (induction sts arbitrary: sch) (simp_all split: option.splits)

text \<open>Two schemas with the same tables, whatever the order of tables, columns and constraints.\<close>

definition same_table :: "table \<Rightarrow> table \<Rightarrow> bool" where
  "same_table t u \<longleftrightarrow>
     t_name t = t_name u \<and> distinct (map column_name (t_columns t)) \<and> distinct (map column_name (t_columns u)) \<and>
     set (t_columns t) = set (t_columns u) \<and> set (t_constraints t) = set (t_constraints u) \<and>
     set (t_indexes t) = set (t_indexes u)"

definition same_schema :: "schema \<Rightarrow> schema \<Rightarrow> bool" where
  "same_schema sch sch' \<longleftrightarrow>
     distinct (map t_name sch) \<and> distinct (map t_name sch') \<and>
     list_all (\<lambda>t. list_ex (same_table t) sch') sch \<and> list_all (\<lambda>t. list_ex (same_table t) sch) sch'"

section \<open>The declarative classes\<close>

definition uuid_primary_key_mixin :: "sql_column list" where
  "uuid_primary_key_mixin = [Column ''id'' UUID False]"

definition timestamp_mixin :: "sql_column list" where
  "timestamp_mixin = [Column ''created_at'' TIMESTAMPTZ False, Column ''updated_at'' TIMESTAMPTZ False]"

abbreviation numeric_column :: "string \<Rightarrow> sql_column" where
  "numeric_column name \<equiv> Column name (NUMERIC 24 8) False"

abbreviation positive :: "string \<Rightarrow> sql_check" where
  "positive c \<equiv> Gt (Col c) Zero"

abbreviation nonnegative :: "string \<Rightarrow> sql_check" where
  "nonnegative c \<equiv> Ge (Col c) Zero"

definition account_table :: table where
  "account_table =
     \<lparr>t_name = ''accounts'',
      t_columns =
        [Column ''user_id'' (VARCHAR 100) False, Column ''currency'' (VARCHAR 3) False,
         numeric_column ''cash_balance'', numeric_column ''reserved_cash'',
         Column ''version'' INTEGER False] @ uuid_primary_key_mixin @ timestamp_mixin,
      t_constraints =
        [Check ''ck_accounts_cash_nonnegative'' (nonnegative ''cash_balance''),
         Check ''ck_accounts_reserved_nonnegative'' (nonnegative ''reserved_cash''),
         Check ''ck_accounts_reserved_not_above_cash'' (Le (Col ''reserved_cash'') (Col ''cash_balance'')),
         PrimaryKey [''id''], Unique None [''user_id'']],
      t_indexes = [(''ix_accounts_user_id'', [''user_id''])]\<rparr>"

definition order_table :: table where
  "order_table =
     \<lparr>t_name = ''orders'',
      t_columns =
        [Column ''client_order_id'' (VARCHAR 100) False, Column ''idempotency_key'' (VARCHAR 100) False,
         Column ''account_id'' UUID False, Column ''symbol'' (VARCHAR 32) False,
         Column ''side'' (VARCHAR 10) False, Column ''order_type'' (VARCHAR 10) False,
         Column ''time_in_force'' (VARCHAR 10) False,
         numeric_column ''quantity'', numeric_column ''price'', numeric_column ''filled_quantity'',
         numeric_column ''cancelled_quantity'', numeric_column ''remaining_quantity'',
         Column ''average_fill_price'' (NUMERIC 24 8) True, Column ''status'' (VARCHAR 30) False,
         Column ''rejection_reason'' (VARCHAR 500) True, Column ''broker_order_id'' (VARCHAR 100) True,
         Column ''expires_at'' TIMESTAMPTZ True,
         Column ''version'' INTEGER False] @ uuid_primary_key_mixin @ timestamp_mixin,
      t_constraints =
        [Unique (Some ''uq_orders_account_client_order'') [''account_id'', ''client_order_id''],
         Unique (Some ''uq_orders_account_idempotency_key'') [''account_id'', ''idempotency_key''],
         Check ''ck_orders_quantity_positive'' (positive ''quantity''),
         Check ''ck_orders_price_positive'' (positive ''price''),
         Check ''ck_orders_filled_nonnegative'' (nonnegative ''filled_quantity''),
         Check ''ck_orders_cancelled_nonnegative'' (nonnegative ''cancelled_quantity''),
         Check ''ck_orders_remaining_nonnegative'' (nonnegative ''remaining_quantity''),
         Check ''ck_orders_quantity_conservation''
           (Eq (Plus (Plus (Col ''filled_quantity'') (Col ''cancelled_quantity'')) (Col ''remaining_quantity''))
              (Col ''quantity'')),
         Check ''ck_orders_side'' (In ''side'' [''BUY'', ''SELL'']),
         Check ''ck_orders_type'' (In ''order_type'' [''MARKET'', ''LIMIT'']),
         Check ''ck_orders_tif'' (In ''time_in_force'' [''DAY'', ''GTC'', ''IOC'']),
         Check ''ck_orders_status'' (In ''status'' [''NEW'', ''VALIDATED'', ''ROUTED'', ''PARTIALLY_FILLED'',
           ''FILLED'', ''REJECTED'', ''CANCEL_PENDING'', ''CANCELLED'']),
         PrimaryKey [''id''], ForeignKey ''account_id'' ''accounts'' ''id'' ''RESTRICT''],
      t_indexes =
        [(''ix_orders_account_status'', [''account_id'', ''status'']), (''ix_orders_symbol'', [''symbol'']),
         (''ix_orders_expires_at'', [''expires_at''])]\<rparr>"

definition position_table :: table where
  "position_table =
     \<lparr>t_name = ''positions'',
      t_columns =
        [Column ''account_id'' UUID False, Column ''symbol'' (VARCHAR 32) False,
         numeric_column ''net_quantity'', numeric_column ''average_entry_price'',
         numeric_column ''realized_pnl'', numeric_column ''unrealized_pnl'',
         Column ''last_mark_price'' (NUMERIC 24 8) True] @ uuid_primary_key_mixin @ timestamp_mixin,
      t_constraints =
        [Unique (Some ''uq_positions_account_symbol'') [''account_id'', ''symbol''],
         Check ''ck_positions_average_price_nonnegative'' (nonnegative ''average_entry_price''),
         Check ''ck_positions_mark_price_positive'' (Or (IsNull ''last_mark_price'') (positive ''last_mark_price'')),
         PrimaryKey [''id''], ForeignKey ''account_id'' ''accounts'' ''id'' ''RESTRICT''],
      t_indexes = [(''ix_positions_symbol'', [''symbol''])]\<rparr>"

definition fill_table :: table where
  "fill_table =
     \<lparr>t_name = ''fills'',
      t_columns =
        [Column ''order_id'' UUID False, Column ''broker_event_id'' UUID False,
         Column ''execution_id'' (VARCHAR 100) False, numeric_column ''quantity'', numeric_column ''price'',
         Column ''executed_at'' TIMESTAMPTZ False] @ uuid_primary_key_mixin @ timestamp_mixin,
      t_constraints =
        [Check ''ck_fills_quantity_positive'' (positive ''quantity''),
         Check ''ck_fills_price_positive'' (positive ''price''),
         PrimaryKey [''id''], ForeignKey ''order_id'' ''orders'' ''id'' ''RESTRICT'',
         Unique None [''broker_event_id''], Unique None [''execution_id'']],
      t_indexes = [(''ix_fills_order_id'', [''order_id''])]\<rparr>"

definition order_event_table :: table where
  "order_event_table =
     \<lparr>t_name = ''order_events'',
      t_columns =
        [Column ''order_id'' UUID False, Column ''event_type'' (VARCHAR 50) False,
         Column ''previous_status'' (VARCHAR 30) True, Column ''new_status'' (VARCHAR 30) True,
         Column ''event_data'' JSONB False] @ uuid_primary_key_mixin @ timestamp_mixin,
      t_constraints = [PrimaryKey [''id''], ForeignKey ''order_id'' ''orders'' ''id'' ''RESTRICT''],
      t_indexes = [(''ix_order_events_order_created'', [''order_id'', ''created_at''])]\<rparr>"

definition processed_broker_event_table :: table where
  "processed_broker_event_table =
     \<lparr>t_name = ''processed_broker_events'',
      t_columns =
        [Column ''broker_event_id'' UUID False, Column ''order_id'' UUID False,
         Column ''event_type'' (VARCHAR 30) False, Column ''broker_timestamp'' TIMESTAMPTZ False,
         Column ''outcome'' (VARCHAR 20) False,
         Column ''details'' JSONB False] @ uuid_primary_key_mixin @ timestamp_mixin,
      t_constraints =
        [Check ''ck_processed_broker_events_type''
           (In ''event_type'' [''FULL_FILL'', ''PARTIAL_FILL'', ''REJECTED'', ''CANCELLED'']),
         Check ''ck_processed_broker_events_outcome'' (In ''outcome'' [''APPLIED'', ''IGNORED'']),
         PrimaryKey [''id''], ForeignKey ''order_id'' ''orders'' ''id'' ''RESTRICT'',
         Unique None [''broker_event_id'']],
      t_indexes = [(''ix_processed_broker_events_order_id'', [''order_id''])]\<rparr>"

definition market_price_table :: table where
  "market_price_table =
     \<lparr>t_name = ''market_prices'',
      t_columns =
        [Column ''symbol'' (VARCHAR 32) False, numeric_column ''price'',
         Column ''observed_at'' TIMESTAMPTZ False] @ timestamp_mixin,
      t_constraints =
        [Check ''ck_market_prices_price_positive'' (positive ''price''), PrimaryKey [''symbol'']],
      t_indexes = []\<rparr>"

text \<open>\<open>Base.metadata\<close>.\<close>

definition declared_schema :: schema where
  "declared_schema =
     [account_table, processed_broker_event_table, fill_table, market_price_table, order_table,
      order_event_table, position_table]"

section \<open>Evaluating constraints\<close>

datatype sql_value = Number rat | Text string | Null

fun eval_term :: "(string \<Rightarrow> sql_value) \<Rightarrow> sql_term \<Rightarrow> rat option" where
  "eval_term row (Col c) = (case row c of Number x \<Rightarrow> Some x | _ \<Rightarrow> None)"
| "eval_term row Zero = Some 0"
| "eval_term row (Plus a b) =
     (case (eval_term row a, eval_term row b) of (Some x, Some y) \<Rightarrow> Some (x + y) | _ \<Rightarrow> None)"

definition compare_terms ::
  "(rat \<Rightarrow> rat \<Rightarrow> bool) \<Rightarrow> (string \<Rightarrow> sql_value) \<Rightarrow> sql_term \<Rightarrow> sql_term \<Rightarrow> bool option" where
  "compare_terms rel row a b =
     (case (eval_term row a, eval_term row b) of (Some x, Some y) \<Rightarrow> Some (rel x y) | _ \<Rightarrow> None)"

fun eval_check :: "(string \<Rightarrow> sql_value) \<Rightarrow> sql_check \<Rightarrow> bool option" where
  "eval_check row (Ge a b) = compare_terms (\<ge>) row a b"
| "eval_check row (Gt a b) = compare_terms (>) row a b"
| "eval_check row (Le a b) = compare_terms (\<le>) row a b"
| "eval_check row (Eq a b) = compare_terms (=) row a b"
| "eval_check row (In c vs) = (case row c of Text t \<Rightarrow> Some (t \<in> set vs) | _ \<Rightarrow> None)"
| "eval_check row (IsNull c) = Some (row c = Null)"
| "eval_check row (Or p q) =
     (case (eval_check row p, eval_check row q) of
        (Some True, _) \<Rightarrow> Some True | (_, Some True) \<Rightarrow> Some True
      | (Some False, Some False) \<Rightarrow> Some False | _ \<Rightarrow> None)"

text \<open>The \<open>CHECK\<close> constraints of a table; they accept a row on which none of them is false.\<close>

definition checks_of :: "string \<Rightarrow> schema \<Rightarrow> sql_check list" where
  "checks_of name sch =
     (case table_of name sch of
        None \<Rightarrow> []
      | Some t \<Rightarrow> concat (map (\<lambda>k. case k of Check _ p \<Rightarrow> [p] | _ \<Rightarrow> []) (t_constraints t)))"

definition checks_pass :: "string \<Rightarrow> schema \<Rightarrow> (string \<Rightarrow> sql_value) \<Rightarrow> bool" where
  "checks_pass name sch row \<longleftrightarrow> (\<forall>p\<in>set (checks_of name sch). eval_check row p \<noteq> Some False)"

end
