(* ===== verification/Schema_Migration.thy ===== *)
theory Schema_Migration
  imports Sql_Schema
begin

text \<open>
  The Alembic migration \<open>20260723_0001_initial_schema.py\<close>: \<open>upgrade\<close> and \<open>downgrade\<close> as lists of
  statements, one definition per table with its indexes. The theorems: on an empty database the
  upgrade runs and creates the schema the model classes declare, the downgrade runs after it and
  removes all of it, and the constraints of the created tables accept a row exactly when the
  \<open>*_checks\<close> of the models do, which is what the rest of the development assumes of the tables.
\<close>

section \<open>The statements\<close>

definition MONEY :: column_type where
  "MONEY = NUMERIC 24 8"

definition create_accounts :: "sql_statement list" where
  "create_accounts =
     [CreateTable ''accounts''
          [Column ''user_id'' (VARCHAR 100) False,
           Column ''currency'' (VARCHAR 3) False,
           Column ''cash_balance'' MONEY False,
           Column ''reserved_cash'' MONEY False,
           Column ''version'' INTEGER False,
           Column ''id'' UUID False,
           Column ''created_at'' TIMESTAMPTZ False,
           Column ''updated_at'' TIMESTAMPTZ False]
          [Check ''ck_accounts_cash_nonnegative'' (nonnegative ''cash_balance''),
           Check ''ck_accounts_reserved_nonnegative'' (nonnegative ''reserved_cash''),
           Check ''ck_accounts_reserved_not_above_cash'' (Le (Col ''reserved_cash'') (Col ''cash_balance'')),
           PrimaryKey [''id''],
           Unique None [''user_id'']],
      CreateIndex ''ix_accounts_user_id'' ''accounts'' [''user_id'']]"

definition create_market_prices :: "sql_statement list" where
  "create_market_prices =
     [CreateTable ''market_prices''
          [Column ''symbol'' (VARCHAR 32) False,
           Column ''price'' MONEY False,
           Column ''observed_at'' TIMESTAMPTZ False,
           Column ''created_at'' TIMESTAMPTZ False,
           Column ''updated_at'' TIMESTAMPTZ False]
          [Check ''ck_market_prices_price_positive'' (positive ''price''),
           PrimaryKey [''symbol'']]]"

definition create_orders :: "sql_statement list" where
  "create_orders =
     [CreateTable ''orders''
          [Column ''client_order_id'' (VARCHAR 100) False,
           Column ''idempotency_key'' (VARCHAR 100) False,
           Column ''account_id'' UUID False,
           Column ''symbol'' (VARCHAR 32) False,
           Column ''side'' (VARCHAR 10) False,
           Column ''order_type'' (VARCHAR 10) False,
           Column ''time_in_force'' (VARCHAR 10) False,
           Column ''quantity'' MONEY False,
           Column ''price'' MONEY False,
           Column ''filled_quantity'' MONEY False,
           Column ''cancelled_quantity'' MONEY False,
           Column ''remaining_quantity'' MONEY False,
           Column ''average_fill_price'' MONEY True,
           Column ''status'' (VARCHAR 30) False,
           Column ''rejection_reason'' (VARCHAR 500) True,
           Column ''broker_order_id'' (VARCHAR 100) True,
           Column ''expires_at'' TIMESTAMPTZ True,
           Column ''version'' INTEGER False,
           Column ''id'' UUID False,
           Column ''created_at'' TIMESTAMPTZ False,
           Column ''updated_at'' TIMESTAMPTZ False]
          [Check ''ck_orders_quantity_positive'' (positive ''quantity''),
           Check ''ck_orders_price_positive'' (positive ''price''),
           Check ''ck_orders_filled_nonnegative'' (nonnegative ''filled_quantity''),
           Check ''ck_orders_cancelled_nonnegative'' (nonnegative ''cancelled_quantity''),
           Check ''ck_orders_remaining_nonnegative'' (nonnegative ''remaining_quantity''),
           Check ''ck_orders_quantity_conservation''
             (Eq (Plus (Plus (Col ''filled_quantity'') (Col ''cancelled_quantity'')) (Col ''remaining_quantity''))
                (Col ''quantity'')),
           Check ''ck_orders_side'' (In ''side'' [''BUY'', ''SELL'']),
           Check ''ck_orders_type'' (In ''order_type'' [''MARKET'', ''LIMIT'']),
           Check ''ck_orders_tif'' (In ''time_in_force'' [''DAY'', ''GTC'', ''IOC'']),
           Check ''ck_orders_status'' (In ''status'' [''NEW'', ''VALIDATED'', ''ROUTED'', ''PARTIALLY_FILLED'',
             ''FILLED'', ''REJECTED'', ''CANCEL_PENDING'', ''CANCELLED'']),
           ForeignKey ''account_id'' ''accounts'' ''id'' ''RESTRICT'',
           PrimaryKey [''id''],
           Unique (Some ''uq_orders_account_client_order'') [''account_id'', ''client_order_id''],
           Unique (Some ''uq_orders_account_idempotency_key'') [''account_id'', ''idempotency_key'']],
      CreateIndex ''ix_orders_account_status'' ''orders'' [''account_id'', ''status''],
      CreateIndex ''ix_orders_expires_at'' ''orders'' [''expires_at''],
      CreateIndex ''ix_orders_symbol'' ''orders'' [''symbol'']]"

definition create_positions :: "sql_statement list" where
  "create_positions =
     [CreateTable ''positions''
          [Column ''account_id'' UUID False,
           Column ''symbol'' (VARCHAR 32) False,
           Column ''net_quantity'' MONEY False,
           Column ''average_entry_price'' MONEY False,
           Column ''realized_pnl'' MONEY False,
           Column ''unrealized_pnl'' MONEY False,
           Column ''last_mark_price'' MONEY True,
           Column ''id'' UUID False,
           Column ''created_at'' TIMESTAMPTZ False,
           Column ''updated_at'' TIMESTAMPTZ False]
          [Check ''ck_positions_average_price_nonnegative'' (nonnegative ''average_entry_price''),
           Check ''ck_positions_mark_price_positive'' (Or (IsNull ''last_mark_price'') (positive ''last_mark_price'')),
           ForeignKey ''account_id'' ''accounts'' ''id'' ''RESTRICT'',
           PrimaryKey [''id''],
           Unique (Some ''uq_positions_account_symbol'') [''account_id'', ''symbol'']],
      CreateIndex ''ix_positions_symbol'' ''positions'' [''symbol'']]"

definition create_fills :: "sql_statement list" where
  "create_fills =
     [CreateTable ''fills''
          [Column ''order_id'' UUID False,
           Column ''broker_event_id'' UUID False,
           Column ''execution_id'' (VARCHAR 100) False,
           Column ''quantity'' MONEY False,
           Column ''price'' MONEY False,
           Column ''executed_at'' TIMESTAMPTZ False,
           Column ''id'' UUID False,
           Column ''created_at'' TIMESTAMPTZ False,
           Column ''updated_at'' TIMESTAMPTZ False]
          [Check ''ck_fills_quantity_positive'' (positive ''quantity''),
           Check ''ck_fills_price_positive'' (positive ''price''),
           ForeignKey ''order_id'' ''orders'' ''id'' ''RESTRICT'',
           PrimaryKey [''id''],
           Unique None [''broker_event_id''],
           Unique None [''execution_id'']],
      CreateIndex ''ix_fills_order_id'' ''fills'' [''order_id'']]"

definition create_order_events :: "sql_statement list" where
  "create_order_events =
     [CreateTable ''order_events''
          [Column ''order_id'' UUID False,
           Column ''event_type'' (VARCHAR 50) False,
           Column ''previous_status'' (VARCHAR 30) True,
           Column ''new_status'' (VARCHAR 30) True,
           Column ''event_data'' JSONB False,
           Column ''id'' UUID False,
           Column ''created_at'' TIMESTAMPTZ False,
           Column ''updated_at'' TIMESTAMPTZ False]
          [ForeignKey ''order_id'' ''orders'' ''id'' ''RESTRICT'',
           PrimaryKey [''id'']],
      CreateIndex ''ix_order_events_order_created'' ''order_events'' [''order_id'', ''created_at'']]"

definition create_processed_broker_events :: "sql_statement list" where
  "create_processed_broker_events =
     [CreateTable ''processed_broker_events''
          [Column ''broker_event_id'' UUID False,
           Column ''order_id'' UUID False,
           Column ''event_type'' (VARCHAR 30) False,
           Column ''broker_timestamp'' TIMESTAMPTZ False,
           Column ''outcome'' (VARCHAR 20) False,
           Column ''details'' JSONB False,
           Column ''id'' UUID False,
           Column ''created_at'' TIMESTAMPTZ False,
           Column ''updated_at'' TIMESTAMPTZ False]
          [Check ''ck_processed_broker_events_type''
             (In ''event_type'' [''FULL_FILL'', ''PARTIAL_FILL'', ''REJECTED'', ''CANCELLED'']),
           Check ''ck_processed_broker_events_outcome'' (In ''outcome'' [''APPLIED'', ''IGNORED'']),
           ForeignKey ''order_id'' ''orders'' ''id'' ''RESTRICT'',
           PrimaryKey [''id''],
           Unique None [''broker_event_id'']],
      CreateIndex ''ix_processed_broker_events_order_id'' ''processed_broker_events'' [''order_id'']]"

definition upgrade :: "sql_statement list" where
  "upgrade =
     create_accounts @ create_market_prices @ create_orders @ create_positions @ create_fills @
     create_order_events @ create_processed_broker_events"

definition downgrade :: "sql_statement list" where
  "downgrade =
     [DropIndex ''ix_processed_broker_events_order_id'' ''processed_broker_events'',
      DropTable ''processed_broker_events'',
      DropIndex ''ix_order_events_order_created'' ''order_events'',
      DropTable ''order_events'',
      DropIndex ''ix_fills_order_id'' ''fills'',
      DropTable ''fills'',
      DropIndex ''ix_positions_symbol'' ''positions'',
      DropTable ''positions'',
      DropIndex ''ix_orders_symbol'' ''orders'',
      DropIndex ''ix_orders_expires_at'' ''orders'',
      DropIndex ''ix_orders_account_status'' ''orders'',
      DropTable ''orders'',
      DropTable ''market_prices'',
      DropIndex ''ix_accounts_user_id'' ''accounts'',
      DropTable ''accounts'']"

section \<open>The values of a row\<close>

fun order_side_value :: "order_side \<Rightarrow> string" where
  "order_side_value BUY = ''BUY''"
| "order_side_value SELL = ''SELL''"

fun order_type_value :: "order_type \<Rightarrow> string" where
  "order_type_value MARKET = ''MARKET''"
| "order_type_value LIMIT = ''LIMIT''"

fun time_in_force_value :: "time_in_force \<Rightarrow> string" where
  "time_in_force_value DAY = ''DAY''"
| "time_in_force_value GTC = ''GTC''"
| "time_in_force_value IOC = ''IOC''"

definition nullable_number :: "rat option \<Rightarrow> sql_value" where
  "nullable_number v = (case v of None \<Rightarrow> Null | Some x \<Rightarrow> Number x)"

text \<open>The columns the constraints mention, as the mapper binds them.\<close>

definition account_values :: "account \<Rightarrow> string \<Rightarrow> sql_value" where
  "account_values a c =
     (if c = ''cash_balance'' then Number (a_cash_balance a)
      else if c = ''reserved_cash'' then Number (a_reserved_cash a) else Null)"

definition order_values :: "order \<Rightarrow> string \<Rightarrow> sql_value" where
  "order_values ord c =
     (if c = ''quantity'' then Number (o_quantity ord)
      else if c = ''price'' then Number (o_price ord)
      else if c = ''filled_quantity'' then Number (o_filled_quantity ord)
      else if c = ''cancelled_quantity'' then Number (o_cancelled_quantity ord)
      else if c = ''remaining_quantity'' then Number (o_remaining_quantity ord)
      else if c = ''side'' then Text (order_side_value (o_side ord))
      else if c = ''order_type'' then Text (order_type_value (o_order_type ord))
      else if c = ''time_in_force'' then Text (time_in_force_value (o_time_in_force ord))
      else if c = ''status'' then Text (status_value (o_status ord)) else Null)"

definition position_values :: "position \<Rightarrow> string \<Rightarrow> sql_value" where
  "position_values p c =
     (if c = ''average_entry_price'' then Number (p_average_entry_price p)
      else if c = ''last_mark_price'' then nullable_number (p_last_mark_price p) else Null)"

definition fill_values :: "fill \<Rightarrow> string \<Rightarrow> sql_value" where
  "fill_values f c =
     (if c = ''quantity'' then Number (f_quantity f)
      else if c = ''price'' then Number (f_price f) else Null)"

definition processed_values :: "processed_broker_event \<Rightarrow> string \<Rightarrow> sql_value" where
  "processed_values b c =
     (if c = ''event_type'' then Text (broker_event_type_value (b_event_type b))
      else if c = ''outcome'' then Text (b_outcome b) else Null)"

definition price_values :: "market_price \<Rightarrow> string \<Rightarrow> sql_value" where
  "price_values m c = (if c = ''price'' then Number (m_price m) else Null)"

section \<open>What the migration creates\<close>

definition migrated_schema :: schema where
  "migrated_schema = (case execute_all upgrade [] of Some sch \<Rightarrow> sch | None \<Rightarrow> [])"

lemma status_values:
  "status_value st \<in> {''NEW'', ''VALIDATED'', ''ROUTED'', ''PARTIALLY_FILLED'', ''FILLED'', ''REJECTED'',
     ''CANCEL_PENDING'', ''CANCELLED''}"
  by (cases st) simp_all

lemma request_values:
  "order_side_value side \<in> {''BUY'', ''SELL''} \<and> order_type_value ty \<in> {''MARKET'', ''LIMIT''} \<and>
   time_in_force_value tif \<in> {''DAY'', ''GTC'', ''IOC''}"
  by (cases side; cases ty; cases tif) simp_all

definition table_names :: "string list" where
  "table_names = [''accounts'', ''orders'', ''positions'', ''fills'', ''processed_broker_events'', ''market_prices'']"

lemma migrated_checks_list:
  "map (\<lambda>name. checks_of name migrated_schema) table_names =
     [[nonnegative ''cash_balance'', nonnegative ''reserved_cash'', Le (Col ''reserved_cash'') (Col ''cash_balance'')],
      [positive ''quantity'', positive ''price'', nonnegative ''filled_quantity'',
       nonnegative ''cancelled_quantity'', nonnegative ''remaining_quantity'',
       Eq (Plus (Plus (Col ''filled_quantity'') (Col ''cancelled_quantity'')) (Col ''remaining_quantity''))
         (Col ''quantity''),
       In ''side'' [''BUY'', ''SELL''], In ''order_type'' [''MARKET'', ''LIMIT''],
       In ''time_in_force'' [''DAY'', ''GTC'', ''IOC''],
       In ''status'' [''NEW'', ''VALIDATED'', ''ROUTED'', ''PARTIALLY_FILLED'', ''FILLED'', ''REJECTED'',
         ''CANCEL_PENDING'', ''CANCELLED'']],
      [nonnegative ''average_entry_price'', Or (IsNull ''last_mark_price'') (positive ''last_mark_price'')],
      [positive ''quantity'', positive ''price''],
      [In ''event_type'' [''FULL_FILL'', ''PARTIAL_FILL'', ''REJECTED'', ''CANCELLED''],
       In ''outcome'' [''APPLIED'', ''IGNORED'']],
      [positive ''price'']]"
  by code_simp

lemmas migrated_checks = migrated_checks_list [unfolded table_names_def, simplified]

text \<open>
  The migration creates the schema the code declares: run on an empty database, \<open>upgrade\<close>
  succeeds, and the tables it creates have the names, columns, types, constraints and indexes of
  the model classes, up to the order in which they are written.
\<close>

theorem upgrade_creates_declared_schema:
  "execute_all upgrade [] = Some migrated_schema \<and> same_schema migrated_schema declared_schema"
  by code_simp

text \<open>
  The migration can be taken back: \<open>downgrade\<close> runs on the schema \<open>upgrade\<close> has created and
  leaves the database empty; no statement of either is refused.
\<close>

theorem downgrade_undoes_upgrade:
  "execute_all (upgrade @ downgrade) [] = Some []"
  by code_simp

text \<open>
  C40. The \<open>CHECK\<close> constraints the migration writes in SQL are the predicates the model of the
  tables evaluates: for every row of every table, the constraints accept it exactly when its
  \<open>*_checks\<close> predicate holds; those on enumerated columns accept every member.
\<close>

theorem migrated_checks_are_the_models:
  "(checks_pass ''accounts'' migrated_schema (account_values a) \<longleftrightarrow> account_checks a) \<and>
   (checks_pass ''orders'' migrated_schema (order_values ord) \<longleftrightarrow> order_checks ord) \<and>
   (checks_pass ''positions'' migrated_schema (position_values p) \<longleftrightarrow> position_checks p) \<and>
   (checks_pass ''fills'' migrated_schema (fill_values f) \<longleftrightarrow> fill_checks f) \<and>
   (checks_pass ''processed_broker_events'' migrated_schema (processed_values b) \<longleftrightarrow> processed_checks b) \<and>
   (checks_pass ''market_prices'' migrated_schema (price_values m) \<longleftrightarrow> price_checks m)"
proof (intro conjI)
  show "checks_pass ''accounts'' migrated_schema (account_values a) \<longleftrightarrow> account_checks a"
    by (auto simp: checks_pass_def migrated_checks compare_terms_def account_values_def account_checks_def)
  show "checks_pass ''orders'' migrated_schema (order_values ord) \<longleftrightarrow> order_checks ord"
    using status_values [of "o_status ord"]
      request_values [of "o_side ord" "o_order_type ord" "o_time_in_force ord"]
    by (simp add: checks_pass_def migrated_checks compare_terms_def order_values_def order_checks_def not_le not_less)
  show "checks_pass ''positions'' migrated_schema (position_values p) \<longleftrightarrow> position_checks p"
    by (auto simp: checks_pass_def migrated_checks compare_terms_def position_values_def position_checks_def
      nullable_number_def split: option.splits bool.splits)
  show "checks_pass ''fills'' migrated_schema (fill_values f) \<longleftrightarrow> fill_checks f"
    by (auto simp: checks_pass_def migrated_checks compare_terms_def fill_values_def fill_checks_def)
  show "checks_pass ''processed_broker_events'' migrated_schema (processed_values b) \<longleftrightarrow> processed_checks b"
    by (cases "b_event_type b") (auto simp: checks_pass_def migrated_checks processed_values_def processed_checks_def)
  show "checks_pass ''market_prices'' migrated_schema (price_values m) \<longleftrightarrow> price_checks m"
    by (auto simp: checks_pass_def migrated_checks compare_terms_def price_values_def price_checks_def)
qed

end
