(* ===== verification/Spec2Isabelle.thy ===== *)
theory Spec2Isabelle
  imports Rounding_Loss Cash_Flow Cancellation_Completion Http_Routes Market_Feed Logging Schema_Migration
begin

text \<open>
  Order management system: a model of the program and the theorems that make it correct.

  The program is a FastAPI service (\<open>src/app\<close>) over PostgreSQL. Clients open accounts, place limit
  orders and cancel them; a broker reports what becomes of the orders; a market data feed reports
  prices. Every change of the database is one transaction of a service class, on an SQLAlchemy
  session; the services use repositories (queries) and domain rules (pure functions). Three tasks
  run beside the HTTP interface: the worker that takes the broker's events from a queue, the worker
  that cancels expired DAY orders, and the market data client. The broker that the application
  starts is a simulation which puts events into the queue.


  \<^bold>\<open>The theories and the code they model\<close>, bottom up:

  \<^item> \<open>Prelude\<close>: results as sums (\<open>Inl\<close> an exception), \<open>and_then\<close>, look-up of rows by key.
  \<^item> \<open>Enums\<close>: \<open>domain/enums.py\<close> and \<open>domain/exceptions.py\<close>. \<open>State_Machine\<close>:
    \<open>domain/order_state_machine.py\<close>. \<open>Order_Rules\<close>, \<open>Position_Rules\<close>: \<open>domain/order_rules.py\<close>,
    \<open>domain/position_rules.py\<close>.
  \<^item> \<open>Decimals\<close>, \<open>Decimal_Text\<close>, \<open>Doubles\<close>: what the program uses of Python's \<open>decimal\<close> (28 digits,
    half to even), of its texts, and of \<open>float\<close>. \<open>Columns\<close>: how the database fits values into
    columns, as parameters of the model, with their documented laws (\<open>column_types\<close>) and PostgreSQL's
    types as the instance. \<open>Clock\<close>: the time and the identifiers each transaction draws.
  \<^item> \<open>Models\<close>: the tables of \<open>models/\<close> with their constraints. \<open>Sql_Schema\<close>, \<open>Schema_Migration\<close>: the
    Alembic migration, statement by statement, and the schema the classes of \<open>models/\<close> declare.
  \<^item> \<open>Orm_Session\<close>: the session of \<open>database.py\<close> (no autoflush, objects survive a commit): loaded
    objects, flush, commit and rollback. \<open>Session_View\<close> is its abstraction, \<open>Session_Progress\<close> says
    when its operations succeed. \<open>Repositories\<close>: \<open>repositories/\<close>.
  \<^item> \<open>Schemas\<close>, \<open>Response_Schemas\<close>: \<open>schemas/\<close>, requests and messages with their validation, responses
    with their amounts as text. \<open>Settings\<close>: \<open>config.py\<close>. \<open>Logging\<close>: \<open>logging_config.py\<close> and the
    request logging of \<open>main.py\<close>.
  \<^item> \<open>Order_Lifecycle\<close>, \<open>Position_Service\<close>, \<open>Execution_Service\<close>, \<open>Order_Service\<close>,
    \<open>Cancellation_Service\<close>, \<open>Account_Service\<close>, \<open>Market_Data_Service\<close>, \<open>Pnl_Service\<close>: the classes of
    \<open>services/\<close>, one definition per method, each transaction body composed as the code composes it.
  \<^item> \<open>Fake_Broker\<close>: \<open>broker/fake.py\<close>. \<open>Workers\<close>: \<open>broker/worker.py\<close>. \<open>Market_Data_Client\<close>:
    \<open>market_data/websocket_client.py\<close>. \<open>Http_Api\<close>: the functions of \<open>api/\<close> and the exception handler
    of \<open>main.py\<close>; \<open>Http_Routes\<close>: the routers, their prefixes and decorators, and which function answers
    a method and path. \<open>Application\<close>: \<open>lifespan\<close> of \<open>main.py\<close>, the running tasks of the simulated broker, and
    the steps the whole can take.

  The state of a table is the list of its rows in order of insertion; a row is a record with the
  names of the columns, prefixed. A \<open>database\<close> is the seven tables, a \<open>session\<close> a transaction with
  its loaded objects, an \<open>application\<close> the database with the queue and the broker's tasks.


  \<^bold>\<open>What the lemmas show\<close>

  \<^item> Specification and refinement of the services. A broker event has an \<open>outcome\<close>, a function of the
    order and the account alone (\<open>Execution_Refinement\<close>); \<open>process_event_cases\<close> says that what the
    handler leaves in the tables is that outcome, \<open>Execution_Progress\<close> that the handler returns when
    the outcome can be stored. \<open>Order_Refinement\<close>, \<open>Order_Effects\<close>, \<open>Order_Commit\<close> and
    \<open>Cancellation_Effects\<close> do the same for placing and cancelling. \<open>Execution_Properties\<close>,
    \<open>Order_Properties\<close>, \<open>Routing_Failure\<close> and \<open>Http_Api\<close> state the properties of the single requests.
  \<^item> Exactness. \<open>Quantities\<close> shows that the arithmetic on stored quantities is exact: they are multiples
    of \<open>10 ^ -8\<close> below \<open>10 ^ 16\<close>, within the 28 digits of the context. Amounts are exact where quantity
    times price has 8 decimals; \<open>Rounding_Loss\<close> shows what happens where it has more.
  \<^item> Errors. \<open>Error_Paths\<close> bounds the exceptions a service can raise; \<open>Funded_Fills\<close> shows that in
    consistent books no event is refused for want of cash.
  \<^item> Invariants of the system, for exact serial histories (below). \<open>Ledger\<close> defines consistent books (reserved cash is what the open BUY
    orders may cost, filled quantities and positions are the sums of the fills, the audit trail
    replays to the status, keys are unique); \<open>Ledger_Steps\<close> and \<open>Ledger_Events\<close> prove every operation
    to preserve it; \<open>System\<close> defines the actions and the databases they reach and interprets the
    locale \<open>system_invariant\<close>; \<open>System_Properties\<close> reads off the consequences.
  \<^item> The running application. \<open>Order_Frames\<close> says which orders an action leaves alone, \<open>Simulated_Trading\<close>
    what the events of a simulation do when the worker takes them, and that the handler ignores none (its locale \<open>broker_adapter\<close> is what
    the application relies on of \<open>broker/base.py\<close>, and the simulation an instance), \<open>Application_Properties\<close> (locale
    \<open>application_invariant\<close>) what holds in every interleaving of requests, ticks, tasks of the broker,
    turns of the worker and restarts, as long as amounts are exact. \<open>Cash_Flow\<close>: in any such run cash
    changes by what the new fills cost or earn and by nothing else. \<open>Cancellation_Completion\<close> follows a
    cancellation from the request to the end of the order: directly, when the broker's task and the
    worker come next, and through any such run until the worker has taken the confirmation. \<open>Http_Routes\<close>: no route hides another, a
    request is an action of the system or leaves the database alone, and an order that was posted can
    be read. \<open>Market_Feed\<close> follows the feed's messages into the database.

  Witnesses run on the small databases of \<open>Samples\<close> and \<open>System_Properties\<close>.


  \<^bold>\<open>Parameters and bounds\<close>

  The record \<open>env\<close> holds what a transaction takes from outside: the two column types, the clock, the
  identifier it draws, the lifetime of DAY orders; \<open>documented e\<close> are the laws of the column types
  (rounding to 8 decimals and refusal from \<open>10 ^ 16\<close> on, texts up to the declared length). The answer
  of a broker (\<open>None\<close>, or the text of the exception) and what other transactions commit between the
  two transactions of \<open>create_order\<close> are arguments of the services that ask for them. The draws of the
  simulated broker are a record, \<open>documented_draws\<close> the ranges of \<open>random\<close>. What \<open>json.loads\<close> returns,
  the texts of floats and lists and \<open>datetime.fromisoformat\<close> are arguments of the feed. Matching a path
  template and parsing a UUID are arguments of the routing; \<open>documented_match\<close> is the law of the former
  (a parameter stands for one segment that is not empty), for paths without a line feed. Time is
  counted in microseconds.

  No definition needs fuel: the loops of the program run over lists, and a worker that waits forever
  is a function of the points in time at which it is given a turn.

  The invariants of the system and of the application hold after \<^emph>\<open>exact serial histories\<close>, not after
  every history of the program: nothing is committed between the two transactions of \<open>create_order\<close>
  (\<open>Routing_Failure\<close> has the counterexample), and amounts are exact (\<open>Rounding_Loss\<close> has the others).
  An action is \<open>admissible\<close> for them when the notional of a new order and the amounts of
  an event are multiples of \<open>10 ^ -8\<close>, when an event fits its schema and a symbol its column (32
  characters), and when the broker's refusal fits the column of the reason (500 characters, of which
  the code uses 23 for its own words). The listing of orders is paged with at most 500 rows, the scan
  for expired orders takes at most 100, and milliseconds are proved to be read exactly below
  \<open>2 ^ 32\<close> seconds.

  The order in which a query finds rows that its ORDER BY does not tell apart is a parameter, \<open>scan\<close>,
  for each query on its own; \<open>documented_scan\<close> says that it is some order of the rows.

  An exception of the broker adapter is no \<open>DomainError\<close>; texts are in ASCII.

  Transactions run one after the other. Row locks are not modelled; where the program reads twice in
  one request, what may be committed in between is a parameter.


  \<^bold>\<open>What the model has brought to light\<close>

  \<^item> A reservation that its column rounds down cannot be released again: as long as the account has no
    other cash reserved, the order cannot be filled (\<open>rounded_reservation_strands_fill\<close>), and neither
    can the rest of a partial fill (\<open>partial_fill_strands_rest\<close>), which the simulated broker produces.
  \<^item> The second transaction of a failed \<open>create_order\<close> writes a stale account and loses what others have
    reserved meanwhile (\<open>broker_refusal_loses_concurrent_reservation\<close>).
  \<^item> The listing of orders is paged in an order that leaves ties open: without distinct creation times
    a page can repeat what another has shown and skip what it has not.
  \<^item> A cancellation during which the broker fails is never sent again
    (\<open>cancel_is_lost_when_broker_fails\<close>), and answered with 500 where the README promises 503.
  \<^item> A restart loses the queue and the broker's tasks; routed orders stay routed
    (\<open>restart_strands_orders\<close>).
  \<^item> A NaN price, and a timestamp out of range, end a connection of the feed instead of being skipped
    (\<open>nan_price_ends_connection\<close>).


  \<^bold>\<open>Not modelled\<close>

  The engine and its pool, the websocket, the output of the log and the reading of the environment
  are I/O. The functions of \<open>dependencies.py\<close> only construct objects without state and pass them along
  (a request's session is \<open>open_session\<close>, the broker an argument); CORS, decoding requests and the replies
  to requests without a route belong to the framework. \<open>alembic/env.py\<close> only calls libraries. Left out of the tables are
  the columns no code reads (\<open>updated_at\<close>, surrogate keys that are never looked up, \<open>created_at\<close>
  where no query orders by it) and the query \<open>get_with_history\<close>, which nothing calls. The calls of the
  logger inside the services are dropped, as they change no state. Tests are not part of the model.
\<close>

end
